(* ===== verification/Prelude.thy ===== *)
theory Prelude
  imports Main "HOL-Library.Word" "HOL-Library.Char_ord" "HOL-Library.List_Lexorder"
    "HOL-Library.Sublist" "HOL-Library.Multiset"
begin

text \<open>
  Shared vocabulary of the development: how the values of the Go program are represented, the
  parts of Go's standard library that the components use, and the generic facts that the
  component theories share.

  \<^item> A Go \<open>error\<close> result is an \<open>option\<close>: \<open>None\<close> is \<open>nil\<close>. A Go result pair \<open>(T, error)\<close> is
    a sum, \<open>Inl\<close> the error.
  \<^item> A \<open>time.Time\<close> is the instant it denotes, in nanoseconds since Go's zero time (0001-01-01
    00:00:00 UTC), so \<open>IsZero\<close> is \<open>t = 0\<close>. Time zones and monotonic readings play no part in
    the code's comparisons, which normalise with \<open>UTC()\<close>; \<open>UTC()\<close> keeps the instant.
  \<^item> A \<open>time.Duration\<close> is the signed 64-bit number of nanoseconds, as an \<open>int\<close>; \<open>Sub\<close>
    saturates at the ends of that range and other duration arithmetic wraps (\<open>i64\<close>).
  \<^item> A Go string is its bytes, a \<open>char list\<close>; Go compares strings bytewise, which is the order
    of \<open>List_Lexorder\<close> over \<open>Char_ord\<close>.
  \<^item> \<open>uint32\<close> and \<open>uint64\<close> are words.
\<close>

section \<open>Collections of facts\<close>

named_theorems guard_simps \<open>unfoldings of validation guards\<close>
named_theorems run_simps \<open>equations that execute an operation of the program\<close>
named_theorems inv_intros \<open>preservation of invariants\<close>

section \<open>Time and duration\<close>

type_synonym time = int
type_synonym duration = int
type_synonym u64 = "64 word"
type_synonym u32 = "32 word"
type_synonym u8 = "8 word"

definition max_duration :: duration where
  "max_duration = 2 ^ 63 - 1"

definition min_duration :: duration where
  "min_duration = - (2 ^ 63)"

text \<open>Signed 64-bit wrap-around.\<close>

definition i64 :: "int \<Rightarrow> int" where
  "i64 x = (x + 2 ^ 63) mod 2 ^ 64 - 2 ^ 63"

abbreviation is_zero :: "time \<Rightarrow> bool" where
  "is_zero t \<equiv> t = 0"

text \<open>\<open>Time.Sub\<close>: the difference, saturated to the range of a duration.\<close>

definition time_sub :: "time \<Rightarrow> time \<Rightarrow> duration" where
  "time_sub t u =
     (if t - u > max_duration then max_duration
      else if t - u < min_duration then min_duration
      else t - u)"

text \<open>\<open>Time.Add\<close>: instants are wide enough that no sum of the program leaves their range.\<close>

definition time_add :: "time \<Rightarrow> duration \<Rightarrow> time" where
  "time_add t d = t + d"

lemma i64_id:
  assumes "min_duration \<le> x" and "x \<le> max_duration"
  shows "i64 x = x"
proof -
  have "0 \<le> x + 2 ^ 63" and "x + 2 ^ 63 < 2 ^ 64"
    using assms by (auto simp: min_duration_def max_duration_def)
  then show ?thesis by (simp add: i64_def)
qed

lemma i64_range: "min_duration \<le> i64 x" "i64 x \<le> max_duration"
proof -
  have "0 \<le> (x + 2 ^ 63) mod 2 ^ 64" and "(x + 2 ^ 63) mod 2 ^ 64 < 2 ^ 64"
    by simp_all
  then show "min_duration \<le> i64 x" "i64 x \<le> max_duration"
    by (auto simp: i64_def min_duration_def max_duration_def)
qed

text \<open>
  Saturation does not disturb a comparison with a duration strictly inside the range, which is
  why age checks on saturated differences are exact.
\<close>

lemma time_sub_gt_iff:
  assumes "min_duration \<le> d" and "d < max_duration"
  shows "d < time_sub t u \<longleftrightarrow> d < t - u"
  using assms by (auto simp: time_sub_def)

lemma time_sub_less_0_iff: "time_sub t u < 0 \<longleftrightarrow> t < u"
  by (auto simp: time_sub_def max_duration_def min_duration_def)

lemma time_sub_pos_iff: "0 < time_sub t u \<longleftrightarrow> u < t"
  by (auto simp: time_sub_def max_duration_def min_duration_def)

lemma time_sub_range: "min_duration \<le> time_sub t u" "time_sub t u \<le> max_duration"
  by (auto simp: time_sub_def max_duration_def min_duration_def)

lemma time_sub_le: "u \<le> t \<Longrightarrow> time_sub t u \<le> t - u"
  by (auto simp: time_sub_def max_duration_def min_duration_def)

section \<open>Strings\<close>

text \<open>
  \<open>strings.TrimSpace\<close> removes leading and trailing white space as \<open>unicode.IsSpace\<close> defines it.
  Over bytes these are the UTF-8 encodings below: a leading (trailing) run of encodings is
  removed, and an ill-formed byte stops the run, as Go's rune decoding does.
\<close>

definition go_spaces :: "string list" where
  "go_spaces =
     [[CHR 0x09], [CHR 0x0A], [CHR 0x0B], [CHR 0x0C], [CHR 0x0D], [CHR 0x20],
      [CHR 0xC2, CHR 0x85], [CHR 0xC2, CHR 0xA0],
      [CHR 0xE1, CHR 0x9A, CHR 0x80],
      [CHR 0xE2, CHR 0x80, CHR 0x80], [CHR 0xE2, CHR 0x80, CHR 0x81],
      [CHR 0xE2, CHR 0x80, CHR 0x82], [CHR 0xE2, CHR 0x80, CHR 0x83],
      [CHR 0xE2, CHR 0x80, CHR 0x84], [CHR 0xE2, CHR 0x80, CHR 0x85],
      [CHR 0xE2, CHR 0x80, CHR 0x86], [CHR 0xE2, CHR 0x80, CHR 0x87],
      [CHR 0xE2, CHR 0x80, CHR 0x88], [CHR 0xE2, CHR 0x80, CHR 0x89],
      [CHR 0xE2, CHR 0x80, CHR 0x8A],
      [CHR 0xE2, CHR 0x80, CHR 0xA8], [CHR 0xE2, CHR 0x80, CHR 0xA9],
      [CHR 0xE2, CHR 0x80, CHR 0xAF], [CHR 0xE2, CHR 0x81, CHR 0x9F],
      [CHR 0xE3, CHR 0x80, CHR 0x80]]"

function strip_prefixes :: "string list \<Rightarrow> string \<Rightarrow> string" where
  "strip_prefixes ps s =
     (case find (\<lambda>p. p \<noteq> [] \<and> prefix p s) ps of
        None \<Rightarrow> s
      | Some p \<Rightarrow> strip_prefixes ps (drop (length p) s))"
  by pat_completeness auto
termination
proof (relation "measure (\<lambda>(ps, s). length s)")
  fix ps :: "string list" and s p :: string
  assume "find (\<lambda>p. p \<noteq> [] \<and> prefix p s) ps = Some p"
  then have "p \<noteq> []" and "prefix p s"
    by (auto simp: find_Some_iff)
  then have "0 < length p" and "0 < length s"
    by (auto dest: prefix_length_le)
  then show "((ps, drop (length p) s), ps, s) \<in> measure (\<lambda>(ps, s). length s)"
    by simp
qed simp

declare strip_prefixes.simps [simp del]

definition trim_space :: "string \<Rightarrow> string" where
  "trim_space s = rev (strip_prefixes (map rev go_spaces) (rev (strip_prefixes go_spaces s)))"

abbreviation blank :: "string \<Rightarrow> bool" where
  "blank s \<equiv> trim_space s = []"

text \<open>The characters from \<open>!\<close> to \<open>~\<close> neither start nor end a white-space encoding.\<close>

definition plain_char :: "char \<Rightarrow> bool" where
  "plain_char c \<longleftrightarrow> CHR ''!'' \<le> c \<and> c \<le> CHR ''~''"

lemma strip_prefixes_Nil [simp]: "strip_prefixes ps [] = []"
proof -
  have "find (\<lambda>p. p \<noteq> [] \<and> prefix p []) ps = None"
    by (auto simp: find_None_iff)
  then show ?thesis by (simp add: strip_prefixes.simps [of ps "[]"])
qed

lemma strip_prefixes_stop:
  assumes "\<forall>p \<in> set ps. p \<noteq> [] \<longrightarrow> hd p \<noteq> c"
  shows "strip_prefixes ps (c # s) = c # s"
proof -
  have "find (\<lambda>p. p \<noteq> [] \<and> prefix p (c # s)) ps = None"
    using assms by (auto simp: find_None_iff prefix_Cons)
  then show ?thesis by (simp add: strip_prefixes.simps [of ps "c # s"])
qed

lemma strip_prefixes_suffix: "suffix (strip_prefixes ps s) s"
proof (induction ps s rule: strip_prefixes.induct)
  case (1 ps s)
  show ?case
  proof (cases "find (\<lambda>p. p \<noteq> [] \<and> prefix p s) ps")
    case None
    then show ?thesis by (simp add: strip_prefixes.simps [of ps s])
  next
    case (Some p)
    with "1" have "suffix (strip_prefixes ps (drop (length p) s)) (drop (length p) s)"
      by simp
    with Some show ?thesis
      by (metis (no_types, lifting) option.simps(5) strip_prefixes.simps suffix_drop
          suffix_order.trans)
  qed
qed

lemma strip_prefixes_no_prefix:
  "p \<in> set ps \<Longrightarrow> p \<noteq> [] \<Longrightarrow> \<not> prefix p (strip_prefixes ps s)"
proof (induction ps s rule: strip_prefixes.induct)
  case (1 ps s)
  show ?case
  proof (cases "find (\<lambda>p. p \<noteq> [] \<and> prefix p s) ps")
    case None
    then have "strip_prefixes ps s = s"
      by (simp add: strip_prefixes.simps [of ps s])
    with None "1.prems" show ?thesis by (auto simp: find_None_iff)
  next
    case (Some q)
    with "1" show ?thesis by (simp add: strip_prefixes.simps [of ps s])
  qed
qed

lemma strip_prefixes_id:
  assumes "\<And>p. p \<in> set ps \<Longrightarrow> p \<noteq> [] \<Longrightarrow> \<not> prefix p s"
  shows "strip_prefixes ps s = s"
proof -
  have "find (\<lambda>p. p \<noteq> [] \<and> prefix p s) ps = None"
    using assms by (auto simp: find_None_iff)
  then show ?thesis by (simp add: strip_prefixes.simps [of ps s])
qed

lemma trim_space_Nil [simp]: "trim_space [] = []"
  by (simp add: trim_space_def)

lemma trim_space_idem [simp]: "trim_space (trim_space s) = trim_space s"
proof -
  define l where "l = strip_prefixes go_spaces s"
  define t where "t = trim_space s"
  have t: "t = rev (strip_prefixes (map rev go_spaces) (rev l))"
    by (simp add: t_def trim_space_def l_def)
  have "prefix t l"
    using strip_prefixes_suffix [of "map rev go_spaces" "rev l"]
    by (simp add: t suffix_to_prefix)
  then have left: "strip_prefixes go_spaces t = t"
    by (intro strip_prefixes_id)
      (metis l_def prefix_order.trans strip_prefixes_no_prefix)
  have right: "strip_prefixes (map rev go_spaces) (rev t) = rev t"
    by (intro strip_prefixes_id) (use strip_prefixes_no_prefix in \<open>simp add: t\<close>)
  show ?thesis
    unfolding t_def [symmetric] by (subst trim_space_def) (simp add: left right)
qed

lemma not_blankD: "\<not> blank s \<Longrightarrow> s \<noteq> []"
  by auto

lemma go_spaces_not_plain:
  "p \<in> set go_spaces \<Longrightarrow> p \<noteq> [] \<and> \<not> plain_char (hd p) \<and> \<not> plain_char (last p)"
  by (simp add: go_spaces_def plain_char_def less_eq_char_def) (elim disjE; simp)

text \<open>A string that starts and ends with a visible ASCII character is left alone.\<close>

lemma trim_space_plain:
  assumes "s \<noteq> []" and "plain_char (hd s)" and "plain_char (last s)"
  shows "trim_space s = s"
proof -
  have left: "strip_prefixes go_spaces s = s"
    using assms go_spaces_not_plain
    by (cases s) (auto intro!: strip_prefixes_stop)
  have "strip_prefixes (map rev go_spaces) (rev s) = rev s"
    using assms go_spaces_not_plain
    by (cases s rule: rev_cases) (auto intro!: strip_prefixes_stop simp: hd_rev)
  with left show ?thesis by (simp add: trim_space_def)
qed

lemma not_blank_plain: "s \<noteq> [] \<Longrightarrow> plain_char (hd s) \<Longrightarrow> plain_char (last s) \<Longrightarrow> \<not> blank s"
  by (simp add: trim_space_plain)

lemmas plain_simps = trim_space_plain plain_char_def less_eq_char_def

lemma split_unique:
  assumes "c \<notin> set s" and "c \<notin> set t" and "s @ c # s' = t @ c # t'"
  shows "s = t \<and> s' = t'"
  using assms
proof (induction s arbitrary: t)
  case Nil
  then show ?case by (cases t) auto
next
  case (Cons x s)
  then show ?case by (cases t) auto
qed

section \<open>Decimal numbers and RFC 3339 instants\<close>

fun dec_digits :: "nat \<Rightarrow> string" where
  "dec_digits n =
     (if n < 10 then [char_of (48 + n)] else dec_digits (n div 10) @ [char_of (48 + n mod 10)])"

declare dec_digits.simps [simp del]

definition pad_left :: "nat \<Rightarrow> string \<Rightarrow> string" where
  "pad_left w s = replicate (w - length s) (CHR ''0'') @ s"

definition dec_int :: "int \<Rightarrow> string" where
  "dec_int i = (if i < 0 then ''-'' @ dec_digits (nat (- i)) else dec_digits (nat i))"

text \<open>The proleptic Gregorian date of a day number counted from 0001-01-01.\<close>

definition civil_date :: "int \<Rightarrow> int \<times> nat \<times> nat" where
  "civil_date d =
     (let z = d + 306; era = z div 146097; doe = z mod 146097;
          yoe = (doe - doe div 1460 + doe div 36524 - doe div 146096) div 365;
          doy = doe - (365 * yoe + yoe div 4 - yoe div 100);
          mp = (5 * doy + 2) div 153;
          day = doy - (153 * mp + 2) div 5 + 1;
          month = (if mp < 10 then mp + 3 else mp - 9);
          year = yoe + era * 400 + (if month \<le> 2 then 1 else 0)
      in (year, nat month, nat day))"

definition year_digits :: "int \<Rightarrow> string" where
  "year_digits y =
     (if y < 0 then ''-'' @ pad_left 4 (dec_digits (nat (- y))) else pad_left 4 (dec_digits (nat y)))"

text \<open>The fraction of a second: nine digits without trailing zeros, nothing for a whole second.\<close>

definition fraction_digits :: "nat \<Rightarrow> string" where
  "fraction_digits ns =
     (if ns = 0 then []
      else ''.'' @ rev (dropWhile (\<lambda>c. c = CHR ''0'') (rev (pad_left 9 (dec_digits ns)))))"

text \<open>\<open>t.UTC().Format("2006-01-02T15:04:05.999999999Z07:00")\<close>.\<close>

definition format_rfc3339nano :: "time \<Rightarrow> string" where
  "format_rfc3339nano t =
     (let secs = t div 1000000000; ns = nat (t mod 1000000000);
          sod = nat (secs mod 86400);
          (y, m, d) = civil_date (secs div 86400);
          two = (\<lambda>n. pad_left 2 (dec_digits n))
      in year_digits y @ ''-'' @ two m @ ''-'' @ two d @ ''T'' @
         two (sod div 3600) @ '':'' @ two (sod mod 3600 div 60) @ '':'' @ two (sod mod 60) @
         fraction_digits ns @ ''Z'')"

text \<open>A rendered instant has printable characters only.\<close>

definition time_char :: "char \<Rightarrow> bool" where
  "time_char c \<longleftrightarrow> 32 \<le> (of_char c :: nat)"

lemma digit_time_char: "n < 10 \<Longrightarrow> time_char (char_of (48 + n :: nat))"
  by (simp add: time_char_def)

lemma dec_digits_time_char: "list_all time_char (dec_digits n)"
proof (induction n rule: dec_digits.induct)
  case (1 n)
  show ?case
  proof (cases "n < 10")
    case True
    then show ?thesis by (simp add: dec_digits.simps [of n] digit_time_char)
  next
    case False
    with "1" show ?thesis by (simp add: dec_digits.simps [of n] digit_time_char)
  qed
qed

lemma time_char_punct:
  "time_char (CHR ''0'')" "time_char (CHR ''-'')" "time_char (CHR ''T'')" "time_char (CHR '':'')"
  "time_char (CHR ''.'')" "time_char (CHR ''Z'')"
  by (simp_all add: time_char_def)

lemma pad_left_time_char: "list_all time_char s \<Longrightarrow> list_all time_char (pad_left w s)"
  by (auto simp: pad_left_def list_all_iff time_char_punct)

lemma fraction_time_char: "list_all time_char (fraction_digits ns)"
proof -
  have "list_all time_char (pad_left 9 (dec_digits ns))"
    by (intro pad_left_time_char dec_digits_time_char)
  then show ?thesis
    by (auto simp: fraction_digits_def list_all_iff time_char_punct dest: set_dropWhileD)
qed

lemma format_time_char: "list_all time_char (format_rfc3339nano t)"
proof -
  have two: "list_all time_char (pad_left w (dec_digits n))" for w n
    by (intro pad_left_time_char dec_digits_time_char)
  have year: "list_all time_char (year_digits y)" for y
    using two by (simp add: year_digits_def time_char_punct)
  show ?thesis
    using two year fraction_time_char
    by (simp add: format_rfc3339nano_def Let_def time_char_punct split: prod.split)
qed

section \<open>Sorting\<close>

text \<open>
  \<open>sort.Strings\<close> is the library's \<open>sort\<close>: on strings, equal elements are indistinguishable, so
  the result is the same for every sorting algorithm.
\<close>

lemma sort_cong_mset: "mset xs = mset ys \<Longrightarrow> sort xs = sort ys" for xs :: "'a::linorder list"
  by (metis mset_sort properties_for_sort sorted_sort)

section \<open>Words\<close>

lemma unat_inc: "x < y \<Longrightarrow> unat (x + 1) = Suc (unat x)" for x y :: "'a::len word"
proof -
  assume "x < y"
  moreover have "unat y < 2 ^ LENGTH('a)" by (rule unsigned_less)
  ultimately have "Suc (unat x) < 2 ^ LENGTH('a)" unfolding word_less_nat_alt by linarith
  then show ?thesis by (simp add: unat_word_ariths)
qed

lemma inc_le_of_less: "x < y \<Longrightarrow> x + 1 \<le> y" for x y :: "'a::len word"
  by (simp add: word_le_nat_alt unat_inc) (simp add: word_less_nat_alt)

section \<open>Results\<close>

abbreviation is_ok :: "'e + 'a \<Rightarrow> bool" where
  "is_ok r \<equiv> \<not> isl r"

lemma is_ok_iff: "is_ok r \<longleftrightarrow> (\<exists>v. r = Inr v)"
  by (cases r) auto

text \<open>
  Go's early returns read as nested conditionals. These equations turn "the guard chain returned
  no error" into the conjunction of its negated guards, without case splits.
\<close>

lemma guard_if_None [guard_simps]:
  "(if c then Some e else y) = None \<longleftrightarrow> \<not> c \<and> y = None"
  by simp

lemma guard_option_None [guard_simps]:
  "(case x of None \<Rightarrow> y | Some e \<Rightarrow> Some (f e)) = None \<longleftrightarrow> x = None \<and> y = None"
  by (cases x) auto

lemma guard_sum_None [guard_simps]:
  "(case x of Inl e \<Rightarrow> Some (f e) | Inr v \<Rightarrow> g v) = None \<longleftrightarrow> (\<exists>v. x = Inr v \<and> g v = None)"
  by (cases x) auto

lemma guard_if_Inr [guard_simps]:
  "(if c then Inl e else y) = Inr w \<longleftrightarrow> \<not> c \<and> y = Inr w"
  by simp

lemma guard_option_Inr [guard_simps]:
  "(case x of None \<Rightarrow> y | Some e \<Rightarrow> Inl (f e)) = Inr w \<longleftrightarrow> x = None \<and> y = Inr w"
  by (cases x) auto

lemma guard_some_Inr [guard_simps]:
  "(case x of None \<Rightarrow> Inl e | Some v \<Rightarrow> g v) = Inr w \<longleftrightarrow> (\<exists>v. x = Some v \<and> g v = Inr w)"
  by (cases x) auto

lemma guard_sum_Inr [guard_simps]:
  "(case x of Inl e \<Rightarrow> Inl (f e) | Inr v \<Rightarrow> g v) = Inr w \<longleftrightarrow> (\<exists>v. x = Inr v \<and> g v = Inr w)"
  by (cases x) auto

section \<open>JSON documents and digests\<close>

text \<open>
  The structs that the program hashes and signs are marshalled by \<open>encoding/json\<close>. The document
  a struct denotes (which fields, under which names, in which order, which are omitted) is
  determined by the program's own struct tags and is modelled; the byte rendering of a document
  and the SHA-256 compression of the bytes are parameters \<open>marshal\<close> and \<open>sha\<close> of the functions
  that use them. \<open>marshal\<close> returns \<open>None\<close> where \<open>json.Marshal\<close> returns an error.
  A number is \<open>JNum\<close> when it is integral and \<open>JFloat m e\<close>, the \<open>float64\<close> \<open>m * 2 ^ e\<close>, otherwise.
\<close>

datatype json =
    JNull
  | JBool bool
  | JNum int
  | JFloat int int
  | JStr string
  | JTime time
  | JArr "json list"
  | JObj "(string \<times> json) list"

definition hex_digit :: "nat \<Rightarrow> char" where
  "hex_digit n = ''0123456789abcdef'' ! n"

definition hex_byte :: "char \<Rightarrow> string" where
  "hex_byte c = [hex_digit (of_char c div 16), hex_digit (of_char c mod 16)]"

definition hex_encode :: "string \<Rightarrow> string" where
  "hex_encode s = concat (map hex_byte s)"

definition sha256_tag :: "(string \<Rightarrow> string) \<Rightarrow> string \<Rightarrow> string" where
  "sha256_tag sha bs = ''sha256:'' @ hex_encode (sha bs)"

lemma hex_digit_inj:
  assumes "a < 16" and "b < 16" and "hex_digit a = hex_digit b"
  shows "a = b"
proof -
  have "distinct ''0123456789abcdef''" by simp
  with assms show ?thesis
    unfolding hex_digit_def by (subst (asm) nth_eq_iff_index_eq) simp_all
qed

lemma hex_byte_inj: "hex_byte c = hex_byte d \<Longrightarrow> c = d"
proof -
  assume eq: "hex_byte c = hex_byte d"
  have b: "(of_char e :: nat) div 16 < 16" for e
  proof -
    have "(of_char e :: nat) mod 256 < 256" by (rule mod_less_divisor) simp
    then have "(of_char e :: nat) < 256" by simp
    then show ?thesis by linarith
  qed
  have "(of_char c :: nat) div 16 = of_char d div 16" "(of_char c :: nat) mod 16 = of_char d mod 16"
    using eq b by (auto simp: hex_byte_def intro!: hex_digit_inj)
  then have "(of_char c :: nat) = of_char d"
    by (metis div_mod_decomp)
  then show ?thesis by simp
qed

lemma hex_encode_inj: "hex_encode s = hex_encode t \<Longrightarrow> s = t"
proof (induction s arbitrary: t)
  case Nil
  then show ?case by (cases t) (auto simp: hex_encode_def hex_byte_def)
next
  case (Cons c s)
  then show ?case
    by (cases t) (auto simp: hex_encode_def hex_byte_def intro: hex_byte_inj)
qed

lemma sha256_tag_eq_iff: "sha256_tag sha a = sha256_tag sha b \<longleftrightarrow> sha a = sha b"
  by (auto simp: sha256_tag_def dest: hex_encode_inj)

lemma hex_digit_plain: "n < 16 \<Longrightarrow> plain_char (hex_digit n)"
proof -
  assume "n < 16"
  then have "hex_digit n \<in> set ''0123456789abcdef''"
    by (simp add: hex_digit_def del: list.set)
  then show ?thesis by (auto simp: plain_char_def less_eq_char_def)
qed

lemma sha256_tag_not_blank [simp]: "\<not> blank (sha256_tag sha bs)"
proof -
  have "plain_char (last (''sha256:'' @ hex_encode s))" for s
  proof (cases s rule: rev_cases)
    case (snoc t c)
    have "(of_char c :: nat) mod 16 < 16" by simp
    then show ?thesis by (simp add: snoc hex_encode_def hex_byte_def hex_digit_plain)
  qed (simp add: hex_encode_def plain_char_def less_eq_char_def)
  then show ?thesis
    unfolding sha256_tag_def by (intro not_blank_plain) (simp_all add: plain_char_def less_eq_char_def)
qed

text \<open>\<open>hex.DecodeString\<close>, which accepts digits of either case.\<close>

definition from_hex :: "char \<Rightarrow> nat option" where
  "from_hex c =
     (let n = of_char c in
      if 48 \<le> n \<and> n \<le> 57 then Some (n - 48)
      else if 97 \<le> n \<and> n \<le> 102 then Some (n - 87)
      else if 65 \<le> n \<and> n \<le> 70 then Some (n - 55)
      else None)"

fun hex_decode :: "string \<Rightarrow> string option" where
  "hex_decode [] = Some []"
| "hex_decode [c] = None"
| "hex_decode (c # d # cs) =
     (case (from_hex c, from_hex d, hex_decode cs) of
        (Some hi, Some lo, Some bs) \<Rightarrow> Some (char_of (16 * hi + lo) # bs)
      | _ \<Rightarrow> None)"

text \<open>\<open>validSHA256Digest\<close>: the textual form of a digest.\<close>

definition validSHA256Digest :: "string \<Rightarrow> bool" where
  "validSHA256Digest value \<longleftrightarrow>
     length value = 71 \<and> prefix ''sha256:'' value \<and> hex_decode (drop 7 value) \<noteq> None"

lemma from_hex_digit:
  assumes "n < 16"
  shows "from_hex (hex_digit n) = Some n"
proof -
  have "list_all (\<lambda>k. from_hex (hex_digit k) = Some k) [0..<16]"
    by (simp add: upt_rec hex_digit_def from_hex_def Let_def)
  with assms show ?thesis by (simp add: list_all_iff)
qed

lemma hex_decode_encode: "hex_decode (hex_encode s) = Some s"
proof (induction s)
  case (Cons c s)
  have "of_char c div 16 < (16 :: nat)" "of_char c mod 16 < (16 :: nat)"
    by (simp_all add: less_mult_imp_div_less)
  with Cons show ?case by (simp add: hex_encode_def hex_byte_def from_hex_digit)
qed (simp add: hex_encode_def)

lemma hex_decode_length: "hex_decode s = Some t \<Longrightarrow> length s = 2 * length t"
  by (induction s arbitrary: t rule: hex_decode.induct) (auto split: option.splits prod.splits)

lemma hex_encode_length: "length (hex_encode s) = 2 * length s"
  by (induction s) (simp_all add: hex_encode_def hex_byte_def)

lemma sha256_tag_trimmed: "trim_space (sha256_tag sha x) = sha256_tag sha x"
proof (cases "sha x" rule: rev_cases)
  case (snoc bs b)
  have "of_char b mod 16 < (16 :: nat)" by simp
  then have "plain_char (last (sha256_tag sha x))"
    using snoc by (simp add: sha256_tag_def hex_encode_def hex_byte_def hex_digit_plain)
  then show ?thesis
    by (intro trim_space_plain) (simp_all add: sha256_tag_def plain_char_def less_eq_char_def)
qed (simp add: sha256_tag_def hex_encode_def plain_simps)

lemma validSHA256Digest_tag: "length (sha x) = 32 \<Longrightarrow> validSHA256Digest (sha256_tag sha x)"
  by (simp add: validSHA256Digest_def sha256_tag_def hex_decode_encode hex_encode_length)

text \<open>An equivalent form that evaluates without computing the bytes.\<close>

lemma from_hex_Some: "from_hex c \<noteq> None \<longleftrightarrow> c \<in> set ''0123456789abcdefABCDEF''"
proof
  assume "from_hex c \<noteq> None"
  then have "(of_char c :: nat) \<in> {48..57} \<union> {97..102} \<union> {65..70}"
    by (auto simp: from_hex_def Let_def split: if_splits)
  moreover have "{48..57} \<union> {97..102} \<union> {65..70} = (of_char :: char \<Rightarrow> nat) ` set ''0123456789abcdefABCDEF''"
    by (auto simp: atLeastAtMost_iff; presburger)
  ultimately show "c \<in> set ''0123456789abcdefABCDEF''" by (auto simp del: list.set)
qed (auto simp: from_hex_def)

lemma hex_decode_Some: "even (length s) \<Longrightarrow> hex_decode s \<noteq> None \<longleftrightarrow> list_all (\<lambda>c. from_hex c \<noteq> None) s"
  by (induction s rule: hex_decode.induct) (auto split: option.splits)

lemma validSHA256Digest_code [code]:
  "validSHA256Digest v \<longleftrightarrow> length v = 71 \<and> prefix ''sha256:'' v \<and>
     list_all (\<lambda>c. c \<in> set ''0123456789abcdefABCDEF'') (drop 7 v)"
proof -
  have "length v = 71 \<Longrightarrow> even (length (drop 7 v))" by simp
  from hex_decode_Some [OF this, unfolded from_hex_Some] show ?thesis unfolding validSHA256Digest_def by blast
qed

lemma validSHA256Digest_not_blank: "validSHA256Digest v \<Longrightarrow> v \<noteq> []"
  by (auto simp: validSHA256Digest_def)

end
