(* ===== verification/Boundary.thy ===== *)
theory Boundary
  imports Prelude
begin

unbundle bit_operations_syntax

text \<open>
  The governed-action relations of \<open>governedaction/\<close>: exact binding (\<open>boundary.go\<close>), validity
  windows, the prepare/dispatch protocol around one effect, and the experimental approval,
  credential, origin and taint relations. The checks are pure; the dispatch protocol threads the
  state of the adapter's callbacks explicitly, so that the order of the calls is visible.
\<close>

section \<open>Exact bindings and validity (boundary.go)\<close>

datatype boundary_cause =
    ErrMissingBinding
  | ErrBindingChanged
  | ErrUnknownTime
  | ErrMissingExpiry
  | ErrExpired
  | ErrMissingCheck
  | ErrMissingCustody
  | ErrMissingEffect

record binding =
  bd_ActionRevision :: string
  bd_Target :: string
  bd_Profile :: string

datatype binding_field = ActionRevisionField | TargetField | ProfileField

datatype binding_error = BindingError binding_field boundary_cause

text \<open>
  The loop over \<open>(name, admitted, current)\<close> triples that every relation of the package starts
  with; \<open>missing\<close> and \<open>changed\<close> build the relation's own error for the field at fault.
\<close>

fun check_fields ::
  "('f \<Rightarrow> 'e) \<Rightarrow> ('f \<Rightarrow> 'e) \<Rightarrow> ('f \<times> string \<times> string) list \<Rightarrow> 'e option" where
  "check_fields missing changed [] = None"
| "check_fields missing changed ((name, admitted, current) # fs) =
     (if blank admitted \<or> blank current then Some (missing name)
      else if admitted \<noteq> current then Some (changed name)
      else check_fields missing changed fs)"

definition CheckBinding :: "binding \<Rightarrow> binding \<Rightarrow> binding_error option" where
  "CheckBinding admitted current =
     check_fields
       (\<lambda>f. BindingError f ErrMissingBinding) (\<lambda>f. BindingError f ErrBindingChanged)
       [(ActionRevisionField, bd_ActionRevision admitted, bd_ActionRevision current),
        (TargetField, bd_Target admitted, bd_Target current),
        (ProfileField, bd_Profile admitted, bd_Profile current)]"

definition CheckValidity :: "time \<Rightarrow> time \<Rightarrow> boundary_cause option" where
  "CheckValidity until at =
     (if is_zero at then Some ErrUnknownTime
      else if is_zero until then Some ErrMissingExpiry
      else if \<not> at < until then Some ErrExpired
      else None)"

subsection \<open>Prepare and dispatch\<close>

text \<open>
  A callback takes the state of the adapter's world to a result and the next state. The context
  is such a callback too: it may be cancelled at any moment, so each \<open>ctx.Err()\<close> reads the world
  anew. A \<open>nil\<close> callback is \<open>None\<close>.
\<close>

type_synonym ('s, 'e) err_call = "'s \<Rightarrow> 'e option \<times> 's"

datatype 'e prepare_error =
    PrepareMissing boundary_cause
  | PrepareContext 'e
  | BeforeCustody 'e
  | RetainCustody 'e
  | AfterCustody 'e
  | EffectFailed 'e

record preparation =
  CustodyRecorded :: bool

definition PrepareEffect ::
  "('s, 'e) err_call \<Rightarrow> ('s, 'e) err_call option \<Rightarrow> ('s, 'e) err_call option \<Rightarrow> 's
    \<Rightarrow> (preparation \<times> 'e prepare_error option) \<times> 's" where
  "PrepareEffect ctx check retain s0 =
     (let result = \<lparr>CustodyRecorded = False\<rparr> in
      case check of
        None \<Rightarrow> ((result, Some (PrepareMissing ErrMissingCheck)), s0)
      | Some chk \<Rightarrow>
        (case retain of
           None \<Rightarrow> ((result, Some (PrepareMissing ErrMissingCustody)), s0)
         | Some keep \<Rightarrow>
           (case ctx s0 of
              (Some e, s1) \<Rightarrow> ((result, Some (PrepareContext e)), s1)
            | (None, s1) \<Rightarrow>
              (case chk s1 of
                 (Some e, s2) \<Rightarrow> ((result, Some (BeforeCustody e)), s2)
               | (None, s2) \<Rightarrow>
                 (case ctx s2 of
                    (Some e, s3) \<Rightarrow> ((result, Some (PrepareContext e)), s3)
                  | (None, s3) \<Rightarrow>
                    (case keep s3 of
                       (Some e, s4) \<Rightarrow> ((result, Some (RetainCustody e)), s4)
                     | (None, s4) \<Rightarrow>
                       (let result = result\<lparr>CustodyRecorded := True\<rparr> in
                        case ctx s4 of
                          (Some e, s5) \<Rightarrow> ((result, Some (PrepareContext e)), s5)
                        | (None, s5) \<Rightarrow>
                          (case chk s5 of
                             (Some e, s6) \<Rightarrow> ((result, Some (AfterCustody e)), s6)
                           | (None, s6) \<Rightarrow>
                             (case ctx s6 of
                                (Some e, s7) \<Rightarrow> ((result, Some (PrepareContext e)), s7)
                              | (None, s7) \<Rightarrow> ((result, None), s7))))))))))"

record 'v dispatch_result =
  Preparation :: preparation
  BoundaryEntered :: bool
  Value :: 'v

definition Dispatch ::
  "'v \<Rightarrow> ('s, 'e) err_call \<Rightarrow> ('s, 'e) err_call option \<Rightarrow> ('s, 'e) err_call option
    \<Rightarrow> ('s \<Rightarrow> ('v \<times> 'e option) \<times> 's) option \<Rightarrow> 's
    \<Rightarrow> ('v dispatch_result \<times> 'e prepare_error option) \<times> 's" where
  "Dispatch zero ctx check retain effect s0 =
     (let result = \<lparr>Preparation = \<lparr>CustodyRecorded = False\<rparr>, BoundaryEntered = False, Value = zero\<rparr> in
      case effect of
        None \<Rightarrow> ((result, Some (PrepareMissing ErrMissingEffect)), s0)
      | Some eff \<Rightarrow>
        (case PrepareEffect ctx check retain s0 of
           ((prepared, err), s1) \<Rightarrow>
             (let result = result\<lparr>Preparation := prepared\<rparr> in
              case err of
                Some e \<Rightarrow> ((result, Some e), s1)
              | None \<Rightarrow>
                (case ctx s1 of
                   (Some e, s2) \<Rightarrow> ((result, Some (PrepareContext e)), s2)
                 | (None, s2) \<Rightarrow>
                   (case eff s2 of
                      ((v, err), s3) \<Rightarrow>
                        ((result\<lparr>BoundaryEntered := True, Value := v\<rparr>,
                          map_option EffectFailed err), s3))))))"

section \<open>Approval use (approval\_use.go)\<close>

datatype approval_cause =
    ErrMissingApprovalBinding
  | ErrApprovalBindingChanged
  | ErrApprovalEffectLimit
  | ErrApprovalExhausted
  | ApprovalValidity boundary_cause

record approval_use_binding =
  ap_ApprovalRef :: string
  ap_ActionRevision :: string
  ap_EffectID :: string
  ap_Target :: string
  ap_Scope :: string
  ap_Nonce :: string
  ap_MaxEffects :: u32
  ap_ValidUntil :: time

datatype approval_use_field =
    ApprovalRefField
  | ApprovalActionField
  | ApprovalEffectField
  | ApprovalTargetField
  | ApprovalScopeField
  | ApprovalNonceField
  | ApprovalLimitField
  | ApprovalExpiryField

datatype approval_use_error = ApprovalUseError approval_use_field approval_cause

definition approval_fields ::
  "approval_use_binding \<Rightarrow> approval_use_binding \<Rightarrow> (approval_use_field \<times> string \<times> string) list" where
  "approval_fields admitted current =
     [(ApprovalRefField, ap_ApprovalRef admitted, ap_ApprovalRef current),
      (ApprovalActionField, ap_ActionRevision admitted, ap_ActionRevision current),
      (ApprovalEffectField, ap_EffectID admitted, ap_EffectID current),
      (ApprovalTargetField, ap_Target admitted, ap_Target current),
      (ApprovalScopeField, ap_Scope admitted, ap_Scope current),
      (ApprovalNonceField, ap_Nonce admitted, ap_Nonce current)]"

definition CheckApprovalUse ::
  "approval_use_binding \<Rightarrow> approval_use_binding \<Rightarrow> time \<Rightarrow> u32 \<Rightarrow> approval_use_error option" where
  "CheckApprovalUse admitted current at effectsUsed =
     (case check_fields
             (\<lambda>f. ApprovalUseError f ErrMissingApprovalBinding)
             (\<lambda>f. ApprovalUseError f ErrApprovalBindingChanged)
             (approval_fields admitted current) of
        Some e \<Rightarrow> Some e
      | None \<Rightarrow>
        (if ap_MaxEffects admitted = 0 \<or> ap_MaxEffects current = 0
         then Some (ApprovalUseError ApprovalLimitField ErrApprovalEffectLimit)
         else if ap_MaxEffects admitted \<noteq> ap_MaxEffects current
         then Some (ApprovalUseError ApprovalLimitField ErrApprovalBindingChanged)
         else if is_zero (ap_ValidUntil admitted) \<or> is_zero (ap_ValidUntil current)
         then Some (ApprovalUseError ApprovalExpiryField ErrMissingApprovalBinding)
         else if ap_ValidUntil admitted \<noteq> ap_ValidUntil current
         then Some (ApprovalUseError ApprovalExpiryField ErrApprovalBindingChanged)
         else case CheckValidity (ap_ValidUntil admitted) at of
           Some e \<Rightarrow> Some (ApprovalUseError ApprovalExpiryField (ApprovalValidity e))
         | None \<Rightarrow>
           (if effectsUsed \<ge> ap_MaxEffects admitted
            then Some (ApprovalUseError ApprovalLimitField ErrApprovalExhausted)
            else None)))"

section \<open>Credential use (credential\_use.go)\<close>

datatype credential_cause =
    ErrMissingCredentialBinding
  | ErrCredentialBindingChanged
  | CredentialValidity boundary_cause

record credential_use_binding =
  cr_HandleID :: string
  cr_ActionRevision :: string
  cr_EffectID :: string
  cr_Audience :: string
  cr_Destination :: string
  cr_Scope :: string
  cr_TrustEpoch :: string
  cr_ValidUntil :: time

datatype credential_use_field =
    CredentialHandleField
  | CredentialActionField
  | CredentialEffectField
  | CredentialAudienceField
  | CredentialDestinationField
  | CredentialScopeField
  | CredentialTrustEpochField
  | CredentialExpiryField

datatype credential_use_error = CredentialUseError credential_use_field credential_cause

definition CheckCredentialUse ::
  "credential_use_binding \<Rightarrow> credential_use_binding \<Rightarrow> time \<Rightarrow> credential_use_error option" where
  "CheckCredentialUse admitted current at =
     (case check_fields
             (\<lambda>f. CredentialUseError f ErrMissingCredentialBinding)
             (\<lambda>f. CredentialUseError f ErrCredentialBindingChanged)
             [(CredentialHandleField, cr_HandleID admitted, cr_HandleID current),
              (CredentialActionField, cr_ActionRevision admitted, cr_ActionRevision current),
              (CredentialEffectField, cr_EffectID admitted, cr_EffectID current),
              (CredentialAudienceField, cr_Audience admitted, cr_Audience current),
              (CredentialDestinationField, cr_Destination admitted, cr_Destination current),
              (CredentialScopeField, cr_Scope admitted, cr_Scope current),
              (CredentialTrustEpochField, cr_TrustEpoch admitted, cr_TrustEpoch current)] of
        Some e \<Rightarrow> Some e
      | None \<Rightarrow>
        (if is_zero (cr_ValidUntil admitted) \<or> is_zero (cr_ValidUntil current)
         then Some (CredentialUseError CredentialExpiryField ErrMissingCredentialBinding)
         else if cr_ValidUntil admitted \<noteq> cr_ValidUntil current
         then Some (CredentialUseError CredentialExpiryField ErrCredentialBindingChanged)
         else case CheckValidity (cr_ValidUntil admitted) at of
           Some e \<Rightarrow> Some (CredentialUseError CredentialExpiryField (CredentialValidity e))
         | None \<Rightarrow> None))"

section \<open>Execution origin (origin.go)\<close>

datatype origin_cause =
    ErrMissingOrigin
  | ErrOriginChanged
  | ErrOriginCapabilityExpanded
  | ErrUnknownOriginCapability

text \<open>The five capability bits \<open>1 << iota\<close>, from supplying instructions to network egress.\<close>

definition knownOriginCapabilities :: u32 where
  "knownOriginCapabilities = 1 OR 2 OR 4 OR 8 OR 16"

record origin_binding =
  og_OriginID :: string
  og_OriginType :: string
  og_SourceDigest :: string
  og_TrustDomain :: string
  og_TrustEpoch :: string
  og_Capabilities :: u32

datatype origin_field =
    OriginIDField
  | OriginTypeField
  | SourceDigestField
  | TrustDomainField
  | TrustEpochField
  | CapabilitiesField

datatype origin_error = OriginError origin_field origin_cause

definition CheckOrigin :: "origin_binding \<Rightarrow> origin_binding \<Rightarrow> origin_error option" where
  "CheckOrigin admitted current =
     (case check_fields
             (\<lambda>f. OriginError f ErrMissingOrigin) (\<lambda>f. OriginError f ErrOriginChanged)
             [(OriginIDField, og_OriginID admitted, og_OriginID current),
              (OriginTypeField, og_OriginType admitted, og_OriginType current),
              (SourceDigestField, og_SourceDigest admitted, og_SourceDigest current),
              (TrustDomainField, og_TrustDomain admitted, og_TrustDomain current),
              (TrustEpochField, og_TrustEpoch admitted, og_TrustEpoch current)] of
        Some e \<Rightarrow> Some e
      | None \<Rightarrow>
        (if og_Capabilities admitted AND NOT knownOriginCapabilities \<noteq> 0 \<or>
            og_Capabilities current AND NOT knownOriginCapabilities \<noteq> 0
         then Some (OriginError CapabilitiesField ErrUnknownOriginCapability)
         else if og_Capabilities current AND NOT (og_Capabilities admitted) \<noteq> 0
         then Some (OriginError CapabilitiesField ErrOriginCapabilityExpanded)
         else None))"

section \<open>Taint egress (taint.go)\<close>

record taint_egress_binding =
  tb_SubjectRef :: string
  tb_MonitorRef :: string
  tb_MonitorEpoch :: string
  tb_AllowedLabels :: "string list"

record taint_evidence =
  te_SubjectRef :: string
  te_MonitorRef :: string
  te_MonitorEpoch :: string
  te_Labels :: "string list"

datatype taint_error =
    MissingTaintBinding string
  | TaintBindingChanged string
  | InvalidTaintLabel string
  | TaintNotAuthorized string

definition valid_taint_label :: "string \<Rightarrow> bool" where
  "valid_taint_label label \<longleftrightarrow>
     \<not> (label = [] \<or> trim_space label \<noteq> label \<or>
        list_ex (\<lambda>c. c \<in> {CHR 0x0D, CHR 0x0A, CHR 0x09, CHR 0x20}) label)"

text \<open>The scan for two equal neighbours of a sorted list.\<close>

fun adjacent_duplicate :: "'a list \<Rightarrow> 'a option" where
  "adjacent_duplicate (x # y # ys) =
     (if x = y then Some y else adjacent_duplicate (y # ys))"
| "adjacent_duplicate _ = None"

definition canonicalTaintLabels :: "string list \<Rightarrow> taint_error + string list" where
  "canonicalTaintLabels labels =
     (case find (\<lambda>l. \<not> valid_taint_label l) labels of
        Some l \<Rightarrow> Inl (InvalidTaintLabel l)
      | None \<Rightarrow>
        (let result = sort labels in
         case adjacent_duplicate result of
           Some l \<Rightarrow> Inl (InvalidTaintLabel l)
         | None \<Rightarrow> Inr result))"

definition CheckTaintEgress :: "taint_egress_binding \<Rightarrow> taint_evidence \<Rightarrow> taint_error option" where
  "CheckTaintEgress admitted observed =
     (case check_fields MissingTaintBinding TaintBindingChanged
             [(''subject_ref'', tb_SubjectRef admitted, te_SubjectRef observed),
              (''monitor_ref'', tb_MonitorRef admitted, te_MonitorRef observed),
              (''monitor_epoch'', tb_MonitorEpoch admitted, te_MonitorEpoch observed)] of
        Some e \<Rightarrow> Some e
      | None \<Rightarrow>
        (case canonicalTaintLabels (tb_AllowedLabels admitted) of
           Inl e \<Rightarrow> Some e
         | Inr allowed \<Rightarrow>
           (case canonicalTaintLabels (te_Labels observed) of
              Inl e \<Rightarrow> Some e
            | Inr current \<Rightarrow>
                map_option TaintNotAuthorized (find (\<lambda>l. l \<notin> set allowed) current))))"

section \<open>Facts about the field loop\<close>

lemma check_fields_None_iff [guard_simps]:
  "check_fields missing changed fs = None \<longleftrightarrow>
     (\<forall>(name, admitted, current) \<in> set fs. admitted = current \<and> \<not> blank admitted)"
  by (induction missing changed fs rule: check_fields.induct) auto

text \<open>
  The error of the loop belongs to the first field at fault: every field before it is bound.
\<close>

lemma check_fields_Some:
  assumes "check_fields missing changed fs = Some e"
  shows "\<exists>pre name admitted current post.
    fs = pre @ (name, admitted, current) # post \<and>
    check_fields missing changed pre = None \<and>
    (e = missing name \<and> (blank admitted \<or> blank current) \<or>
     e = changed name \<and> \<not> blank admitted \<and> \<not> blank current \<and> admitted \<noteq> current)"
  using assms
proof (induction missing changed fs rule: check_fields.induct)
  case (2 missing changed name admitted current fs)
  show ?case
  proof (cases "blank admitted \<or> blank current \<or> admitted \<noteq> current")
    case True
    then have "check_fields missing changed [] = None \<and>
      (e = missing name \<and> (blank admitted \<or> blank current) \<or>
       e = changed name \<and> \<not> blank admitted \<and> \<not> blank current \<and> admitted \<noteq> current)"
      using "2.prems" by (auto split: if_splits)
    then show ?thesis by blast
  next
    case False
    then obtain pre n a c post where
      "fs = pre @ (n, a, c) # post" "check_fields missing changed pre = None"
      "e = missing n \<and> (blank a \<or> blank c) \<or>
       e = changed n \<and> \<not> blank a \<and> \<not> blank c \<and> a \<noteq> c"
      using "2.IH" "2.prems" by (auto split: if_splits)
    with False show ?thesis
      by (intro exI [of _ "(name, admitted, current) # pre"] exI [of _ n] exI [of _ a]
          exI [of _ c] exI [of _ post]) auto
  qed
qed simp

lemma CheckValidity_None_iff [guard_simps]:
  "CheckValidity until at = None \<longleftrightarrow> at \<noteq> 0 \<and> until \<noteq> 0 \<and> at < until"
  by (simp add: CheckValidity_def)

section \<open>The contract the relations share\<close>

text \<open>
  Every relation of the package promises the same thing: an accepted pair carries the same
  references, none of them blank. What follows for a chain of boundary checks is proved once.
\<close>

locale boundary_relation =
  fixes check :: "'b \<Rightarrow> 'b \<Rightarrow> 'e option"
    and refs :: "'b \<Rightarrow> string list"
  assumes accepted: "check a c = None \<Longrightarrow> refs a = refs c \<and> (\<forall>r \<in> set (refs a). \<not> blank r)"
begin

lemma chain_refs:
  "successively (\<lambda>a c. check a c = None) (a # cs) \<Longrightarrow> c \<in> set cs \<Longrightarrow> refs c = refs a"
proof (induction cs arbitrary: a)
  case (Cons b cs)
  then have "refs a = refs b" and tail: "successively (\<lambda>a c. check a c = None) (b # cs)"
    by (auto dest: accepted)
  with Cons.IH [OF tail] Cons.prems show ?case by auto
qed simp

lemma chain_not_blank:
  "successively (\<lambda>a c. check a c = None) (a # cs) \<Longrightarrow> c \<in> set cs \<Longrightarrow> r \<in> set (refs c) \<Longrightarrow> \<not> blank r"
  using chain_refs [of a cs c] by (cases cs) (auto dest: accepted)

end

definition origin_refs :: "origin_binding \<Rightarrow> string list" where
  "origin_refs b =
     [og_OriginID b, og_OriginType b, og_SourceDigest b, og_TrustDomain b, og_TrustEpoch b]"

definition binding_refs :: "binding \<Rightarrow> string list" where
  "binding_refs b = [bd_ActionRevision b, bd_Target b, bd_Profile b]"

definition approval_refs :: "approval_use_binding \<Rightarrow> string list" where
  "approval_refs b =
     [ap_ApprovalRef b, ap_ActionRevision b, ap_EffectID b, ap_Target b, ap_Scope b, ap_Nonce b]"

definition credential_refs :: "credential_use_binding \<Rightarrow> string list" where
  "credential_refs b =
     [cr_HandleID b, cr_ActionRevision b, cr_EffectID b, cr_Audience b, cr_Destination b,
      cr_Scope b, cr_TrustEpoch b]"

lemma CheckBinding_None_iff [guard_simps]:
  "CheckBinding a c = None \<longleftrightarrow>
     binding_refs a = binding_refs c \<and> (\<forall>r \<in> set (binding_refs a). \<not> blank r)"
  by (auto simp: CheckBinding_def binding_refs_def guard_simps)

lemma CheckApprovalUse_None_iff [guard_simps]:
  "CheckApprovalUse a c at used = None \<longleftrightarrow>
     approval_refs a = approval_refs c \<and> (\<forall>r \<in> set (approval_refs a). \<not> blank r) \<and>
     ap_MaxEffects a = ap_MaxEffects c \<and> ap_ValidUntil a = ap_ValidUntil c \<and>
     at \<noteq> 0 \<and> ap_ValidUntil a \<noteq> 0 \<and> at < ap_ValidUntil a \<and> used < ap_MaxEffects a"
  by (auto simp: CheckApprovalUse_def approval_refs_def approval_fields_def guard_simps)

lemma CheckCredentialUse_None_iff [guard_simps]:
  "CheckCredentialUse a c at = None \<longleftrightarrow>
     credential_refs a = credential_refs c \<and> (\<forall>r \<in> set (credential_refs a). \<not> blank r) \<and>
     cr_ValidUntil a = cr_ValidUntil c \<and>
     at \<noteq> 0 \<and> cr_ValidUntil a \<noteq> 0 \<and> at < cr_ValidUntil a"
  by (auto simp: CheckCredentialUse_def credential_refs_def guard_simps)


text \<open>Bit \<open>n\<close> of \<open>x AND NOT y\<close>: the test the capability checks are made of.\<close>

lemma and_not_eq_0_iff: "x AND NOT y = 0 \<longleftrightarrow> (\<forall>n. bit x n \<longrightarrow> bit y n)" for x y :: "'a::len word"
  by (auto simp: bit_eq_iff bit_simps dest: bit_imp_le_length)

lemma known_origin_bits: "bit knownOriginCapabilities n \<longleftrightarrow> n < 5"
proof -
  have "knownOriginCapabilities = mask 5"
    by (simp add: knownOriginCapabilities_def mask_eq_exp_minus_1)
  then have "bit knownOriginCapabilities n \<longleftrightarrow> bit (mask 5 :: u32) n" by (rule arg_cong)
  also have "\<dots> \<longleftrightarrow> n < 5" by (auto simp only: bit_mask_iff possible_bit_word) simp
  finally show ?thesis .
qed

lemma CheckOrigin_None_iff [guard_simps]:
  "CheckOrigin a c = None \<longleftrightarrow>
     origin_refs a = origin_refs c \<and> (\<forall>r \<in> set (origin_refs a). \<not> blank r) \<and>
     (\<forall>n. bit (og_Capabilities c) n \<longrightarrow> bit (og_Capabilities a) n) \<and>
     (\<forall>n. bit (og_Capabilities a) n \<longrightarrow> n < 5)"
  by (auto simp: CheckOrigin_def origin_refs_def guard_simps and_not_eq_0_iff known_origin_bits)

interpretation ga_binding: boundary_relation CheckBinding binding_refs
  by unfold_locales (simp add: guard_simps)

interpretation ga_origin: boundary_relation CheckOrigin origin_refs
  by unfold_locales (simp add: guard_simps)

interpretation ga_approval:
  boundary_relation "\<lambda>a c. CheckApprovalUse a c at used" approval_refs for at used
  by unfold_locales (simp add: guard_simps)

interpretation ga_credential:
  boundary_relation "\<lambda>a c. CheckCredentialUse a c at" credential_refs for at
  by unfold_locales (simp add: guard_simps)

section \<open>Taint labels\<close>

lemma adjacent_duplicate_None_iff:
  "sorted xs \<Longrightarrow> adjacent_duplicate xs = None \<longleftrightarrow> distinct xs" for xs :: "'a::linorder list"
  by (induction xs rule: adjacent_duplicate.induct) force+

lemma canonicalTaintLabels_Inr_iff [guard_simps]:
  "canonicalTaintLabels labels = Inr ls \<longleftrightarrow>
     ls = sort labels \<and> distinct labels \<and> (\<forall>l \<in> set labels. valid_taint_label l)"
proof -
  have "adjacent_duplicate (sort labels) = None \<longleftrightarrow> distinct labels"
    by (simp add: adjacent_duplicate_None_iff)
  then show ?thesis
    by (auto simp: canonicalTaintLabels_def Let_def find_None_iff find_Some_iff
        split: option.splits)
qed

text \<open>
  C27. \<open>CheckOrigin\<close> enforces NO\_SILENT\_CAPABILITY\_EXPANSION not only for one pair but along any
  chain of successive admissions: every later origin binding has the identity and provenance of
  the first one, and uses only capability bits that the first one was admitted with.
\<close>

theorem origin_chain_no_expansion:
  assumes "successively (\<lambda>a c. CheckOrigin a c = None) (first # later)" and "b \<in> set later"
  shows "origin_refs b = origin_refs first \<and>
    (\<forall>n. bit (og_Capabilities b) n \<longrightarrow> bit (og_Capabilities first) n \<and> n < 5)"
proof
  show "origin_refs b = origin_refs first"
    using assms by (rule ga_origin.chain_refs)
  show "\<forall>n. bit (og_Capabilities b) n \<longrightarrow> bit (og_Capabilities first) n \<and> n < 5"
    using assms
  proof (induction later arbitrary: first)
    case (Cons c cs)
    then have step: "CheckOrigin first c = None"
      and rest: "successively (\<lambda>a c. CheckOrigin a c = None) (c # cs)" by simp_all
    from step have c: "\<forall>n. bit (og_Capabilities c) n \<longrightarrow> bit (og_Capabilities first) n \<and> n < 5"
      by (simp add: CheckOrigin_None_iff)
    show ?case
    proof (cases "b = c")
      case False
      with Cons.prems Cons.IH [OF rest] c show ?thesis by simp
    qed (use c in simp)
  qed simp
qed

text \<open>
  The taint relation is exactly authorisation: egress is accepted if and only if the subject,
  the monitor and its epoch are those admitted and not blank, both label lists are well formed and
  free of duplicates, and every observed label is among the allowed ones.
\<close>

theorem CheckTaintEgress_iff:
  "CheckTaintEgress admitted observed = None \<longleftrightarrow>
     [tb_SubjectRef admitted, tb_MonitorRef admitted, tb_MonitorEpoch admitted] =
       [te_SubjectRef observed, te_MonitorRef observed, te_MonitorEpoch observed] \<and>
     \<not> blank (tb_SubjectRef admitted) \<and> \<not> blank (tb_MonitorRef admitted) \<and>
     \<not> blank (tb_MonitorEpoch admitted) \<and>
     distinct (tb_AllowedLabels admitted) \<and> distinct (te_Labels observed) \<and>
     list_all valid_taint_label (tb_AllowedLabels admitted) \<and>
     list_all valid_taint_label (te_Labels observed) \<and>
     set (te_Labels observed) \<subseteq> set (tb_AllowedLabels admitted)"
  by (auto simp: CheckTaintEgress_def guard_simps find_None_iff list_all_iff)

section \<open>Bounded use of an approval\<close>

text \<open>
  The accounting that the package asks of its caller: the number of effects charged so far is
  read, checked, and incremented when the use is accepted. The uses are a list of presented
  bindings and boundary times.
\<close>

fun charge_uses ::
  "approval_use_binding \<Rightarrow> u32 \<Rightarrow> (approval_use_binding \<times> time) list \<Rightarrow> nat \<times> u32" where
  "charge_uses admitted used [] = (0, used)"
| "charge_uses admitted used ((current, at) # us) =
     (case CheckApprovalUse admitted current at used of
        Some _ \<Rightarrow> charge_uses admitted used us
      | None \<Rightarrow> (let (n, u) = charge_uses admitted (used + 1) us in (Suc n, u)))"

lemma charge_uses_bound:
  "used \<le> ap_MaxEffects admitted \<Longrightarrow>
   charge_uses admitted used us = (n, used') \<Longrightarrow>
   unat used' = unat used + n \<and> used' \<le> ap_MaxEffects admitted"
proof (induction admitted used us arbitrary: n used' rule: charge_uses.induct)
  case (2 admitted used current at us)
  show ?case
  proof (cases "CheckApprovalUse admitted current at used")
    case None
    then have lt: "used < ap_MaxEffects admitted" by (blast dest: CheckApprovalUse_None_iff [THEN iffD1])
    then have inc: "used + 1 \<le> ap_MaxEffects admitted" "unat (used + 1) = Suc (unat used)"
      by (auto intro: inc_le_of_less unat_inc)
    obtain m u where rec: "charge_uses admitted (used + 1) us = (m, u)"
      by fastforce
    with "2.IH"(1) [OF None inc(1) rec] "2.prems" None inc show ?thesis by simp
  next
    case (Some e)
    with "2" show ?thesis by simp
  qed
qed auto


section \<open>The dispatch protocol\<close>

text \<open>
  A run that enters the boundary is one whose calls were made in the prescribed order and all
  succeeded; the intermediate worlds are named.
\<close>

definition dispatch_path ::
  "('s, 'e) err_call \<Rightarrow> ('s, 'e) err_call \<Rightarrow> ('s, 'e) err_call \<Rightarrow> 's \<Rightarrow> 's \<Rightarrow> bool" where
  "dispatch_path ctx check retain s0 s8 \<longleftrightarrow>
     (\<exists>s1 s2 s3 s4 s5 s6 s7.
        ctx s0 = (None, s1) \<and> check s1 = (None, s2) \<and>
        ctx s2 = (None, s3) \<and> retain s3 = (None, s4) \<and>
        ctx s4 = (None, s5) \<and> check s5 = (None, s6) \<and>
        ctx s6 = (None, s7) \<and> ctx s7 = (None, s8))"

lemma PrepareEffect_None_iff:
  "PrepareEffect ctx check retain s0 = ((p, None), s7) \<longleftrightarrow>
     CustodyRecorded p \<and>
     (\<exists>chk keep s1 s2 s3 s4 s5 s6. check = Some chk \<and> retain = Some keep \<and>
        ctx s0 = (None, s1) \<and> chk s1 = (None, s2) \<and>
        ctx s2 = (None, s3) \<and> keep s3 = (None, s4) \<and>
        ctx s4 = (None, s5) \<and> chk s5 = (None, s6) \<and> ctx s6 = (None, s7))"
  by (cases p)
    (auto simp: PrepareEffect_def Let_def split: option.splits prod.splits)

text \<open>
  Custody is acknowledged only after a first successful check and a successful retention.
\<close>

lemma PrepareEffect_custody:
  assumes "PrepareEffect ctx check retain s0 = ((p, err), s')" and "CustodyRecorded p"
  shows "\<exists>chk keep s1 s2 s3 s4. check = Some chk \<and> retain = Some keep \<and>
    ctx s0 = (None, s1) \<and> chk s1 = (None, s2) \<and> ctx s2 = (None, s3) \<and> keep s3 = (None, s4)"
  using assms
  by (auto simp: PrepareEffect_def Let_def split: option.splits prod.splits)

text \<open>
  The effect callback is entered if and only if the context was live, the boundary check
  succeeded, custody was retained, and the boundary check succeeded again on the world left by the
  retention, in that order; the effect then runs once, on the world that the last context check
  left. Every other run leaves \<open>BoundaryEntered\<close> false and reports an error.
\<close>

theorem Dispatch_entered_iff:
  "(\<exists>r err. Dispatch zero ctx check retain effect s0 = ((r, err), s') \<and> BoundaryEntered r) \<longleftrightarrow>
     (\<exists>chk keep eff s8 v err. check = Some chk \<and> retain = Some keep \<and> effect = Some eff \<and>
        dispatch_path ctx chk keep s0 s8 \<and> eff s8 = ((v, err), s'))"
  (is "?L \<longleftrightarrow> ?R")
proof
  assume ?L
  then obtain r err where run: "Dispatch zero ctx check retain effect s0 = ((r, err), s')"
    and entered: "BoundaryEntered r" by blast
  from run entered obtain eff p s1 s2 v e where
    "effect = Some eff" "PrepareEffect ctx check retain s0 = ((p, None), s1)"
    "ctx s1 = (None, s2)" "eff s2 = ((v, e), s')"
    by (auto simp: Dispatch_def Let_def split: option.splits prod.splits)
  then show ?R
    by (auto simp: PrepareEffect_None_iff dispatch_path_def)
next
  assume ?R
  then obtain chk keep eff s8 v err where
    parts: "check = Some chk" "retain = Some keep" "effect = Some eff"
      "eff s8 = ((v, err), s')" and path: "dispatch_path ctx chk keep s0 s8" by blast
  from path obtain s7 where "PrepareEffect ctx check retain s0 = ((\<lparr>CustodyRecorded = True\<rparr>, None), s7)"
    and "ctx s7 = (None, s8)"
    by (auto simp: dispatch_path_def PrepareEffect_None_iff parts)
  with parts show ?L by (auto simp: Dispatch_def Let_def)
qed

theorem Dispatch_not_entered_error:
  "Dispatch zero ctx check retain effect s0 = ((r, err), s') \<Longrightarrow> \<not> BoundaryEntered r \<Longrightarrow> err \<noteq> None"
  by (auto simp: Dispatch_def Let_def split: option.splits prod.splits)

section \<open>Witnesses\<close>

definition demo_origin :: "u32 \<Rightarrow> origin_binding" where
  "demo_origin caps = \<lparr>og_OriginID = ''o'', og_OriginType = ''mcp'', og_SourceDigest = ''d'',
     og_TrustDomain = ''t'', og_TrustEpoch = ''1'', og_Capabilities = caps\<rparr>"

lemma demo_origin_shrinks:
  "CheckOrigin (demo_origin 7) (demo_origin 3) = None"
  "CheckOrigin (demo_origin 3) (demo_origin 2) = None"
  by (simp_all add: CheckOrigin_def demo_origin_def knownOriginCapabilities_def plain_simps)

theorem origin_chain_no_expansion_witness:
  "origin_refs (demo_origin 2) = origin_refs (demo_origin 7) \<and> bit (og_Capabilities (demo_origin 7)) 1"
proof -
  have "bit (og_Capabilities (demo_origin 2)) 1" by (simp add: demo_origin_def bit_iff_odd)
  with origin_chain_no_expansion [of "demo_origin 7" "[demo_origin 3, demo_origin 2]" "demo_origin 2"]
  show ?thesis by (simp add: demo_origin_shrinks)
qed

end
