(* ===== verification/Easl_Runtime.thy ===== *)
theory Easl_Runtime
  imports Prelude
begin

text \<open>
  The boundary to the EASL library (\<open>github.com/achirothmane/easl\<close>), which is not part of the
  repository: the data the program hands to it and reads back, and the process-wide registry of
  \<open>internal/easlruntime\<close> that a bound runtime is reached through. The evaluation function of a
  runtime is a parameter; the constants below are the ones that the program names.
\<close>

datatype easl_state = StateValid | StateDegraded | StateInvalid | StateOther string

datatype easl_evidence_status =
    EvidenceContradictory
  | EvidenceInsufficient
  | EvidenceStatusOther string

datatype easl_reason =
    ReasonStaleEvidence
  | ReasonAssumptionExpired
  | ReasonDependencyInvalid
  | ReasonMissingEvidence
  | ReasonSubjectStateChanged
  | ReasonOther string

record easl_evidence =
  ee_ID :: string
  ee_ObservedAt :: time
  ee_ExpiresAt :: "time option"
  ee_Contradicts :: "string list"

record easl_assumption =
  ea_ID :: string
  ea_Requires :: "string list"
  ea_DependsOn :: "string list"
  ea_RequiresStateBindings :: "string list"
  ea_ValidUntil :: "time option"

record easl_state_binding =
  eb_ID :: string
  eb_Expected :: string
  eb_Observed :: string

record easl_snapshot =
  es_At :: time
  es_Evidence :: "easl_evidence list"
  es_Assumptions :: "easl_assumption list"
  es_StateBindings :: "easl_state_binding list"

record easl_invalidation =
  ei_AssumptionID :: string
  ei_Reason :: easl_reason
  ei_StateBindingID :: string

record easl_evaluation =
  ev_State :: easl_state
  ev_EvidenceStatus :: easl_evidence_status
  ev_Invalidations :: "easl_invalidation list"

datatype easl_error = ErrRuntimeUnavailable | ErrRuntimeMismatch | ErrEasl string

type_synonym easl_eval = "easl_snapshot \<Rightarrow> easl_error + easl_evaluation"

section \<open>The registry (easlruntime/runtime.go)\<close>

text \<open>
  A runtime offers its metadata (or an error while it is not ready) and its evaluation. The
  registry holds at most one runtime with the metadata it was bound under. On an error the
  evaluation that accompanies it is never read by the program, so the pair is a sum.
\<close>

record 'm easl_runtime =
  rt_Metadata :: "string + 'm"
  rt_Evaluate :: easl_eval

type_synonym 'm registry = "('m easl_runtime \<times> 'm) option"

definition Bind :: "'m easl_runtime option \<Rightarrow> 'm registry \<Rightarrow> easl_error option \<times> 'm registry" where
  "Bind runtime reg =
     (case runtime of
        None \<Rightarrow> (Some ErrRuntimeUnavailable, reg)
      | Some rt \<Rightarrow>
        (case rt_Metadata rt of
           Inl _ \<Rightarrow> (Some ErrRuntimeUnavailable, reg)
         | Inr metadata \<Rightarrow>
           (case reg of
              None \<Rightarrow> (None, Some (rt, metadata))
            | Some (_, bound) \<Rightarrow>
                (if bound \<noteq> metadata then (Some ErrRuntimeMismatch, reg) else (None, reg)))))"

definition easl_Evaluate :: "'m registry \<Rightarrow> easl_eval" where
  "easl_Evaluate reg snapshot =
     (case reg of
        None \<Rightarrow> Inl ErrRuntimeUnavailable
      | Some (rt, _) \<Rightarrow> rt_Evaluate rt snapshot)"

definition easl_Metadata :: "'m registry \<Rightarrow> easl_error + 'm" where
  "easl_Metadata reg =
     (case reg of None \<Rightarrow> Inl ErrRuntimeUnavailable | Some (_, metadata) \<Rightarrow> Inr metadata)"

definition bind_all :: "'m easl_runtime option list \<Rightarrow> 'm registry \<Rightarrow> 'm registry" where
  "bind_all rts reg = fold (\<lambda>rt r. snd (Bind rt r)) rts reg"

lemma Bind_bound: "reg = Some x \<Longrightarrow> snd (Bind rt reg) = reg"
  by (auto simp: Bind_def split: option.splits sum.splits prod.splits)

lemma bind_all_bound: "bind_all rts (Some x) = Some x"
  by (induction rts) (simp_all add: bind_all_def Bind_bound)

text \<open>
  The registry is write-once: after the first runtime is bound, no sequence of further
  \<open>Bind\<close> calls changes what \<open>Evaluate\<close> and \<open>Metadata\<close> answer, and a later \<open>Bind\<close> reports success
  exactly when its metadata equals that of the bound runtime.
\<close>

theorem easl_registry_write_once:
  assumes "rt_Metadata rt = Inr m" and "reg = snd (Bind (Some rt) None)"
  shows "easl_Evaluate (bind_all rts reg) = rt_Evaluate rt \<and>
    easl_Metadata (bind_all rts reg) = Inr m \<and>
    (\<forall>other. fst (Bind other (bind_all rts reg)) = None \<longleftrightarrow>
      (\<exists>o'. other = Some o' \<and> rt_Metadata o' = Inr m))"
proof -
  have "bind_all rts reg = Some (rt, m)"
    using assms by (simp add: Bind_def bind_all_bound)
  then show ?thesis
    by (auto simp: easl_Evaluate_def easl_Metadata_def Bind_def fun_eq_iff
        split: option.splits sum.splits)
qed

definition demo_runtime :: "nat \<Rightarrow> nat easl_runtime" where
  "demo_runtime m = \<lparr>rt_Metadata = Inr m, rt_Evaluate = (\<lambda>_. Inl (ErrEasl ''demo''))\<rparr>"

theorem easl_registry_write_once_witness:
  "easl_Metadata (bind_all [Some (demo_runtime 2), None] (snd (Bind (Some (demo_runtime 1)) None)))
     = Inr 1"
  using easl_registry_write_once [of "demo_runtime 1" 1 _ "[Some (demo_runtime 2), None]"]
  by (simp add: demo_runtime_def)

end
