(* ===== verification/Decision.thy ===== *)
theory Decision
  imports Boundary Easl_Runtime
begin

text \<open>
  The decision engine of \<open>internal/decision\<close>: the hard evidence gates of \<open>Evaluate\<close>, the mapping
  of an epistemic evaluation to a decision, the evidence digest, the validation of a minted
  authorization at execution time, and the two bounded loops that acquire further evidence
  through read-only probes. The EASL runtime and SHA-256 are parameters (\<open>eval\<close>, \<open>sha\<close>).
\<close>

section \<open>Data (types.go)\<close>

datatype decision = Allow | Block | Escalate

datatype reason_code =
    EvidenceStale
  | EvidenceContradicted
  | InsufficientEvidence
  | BlastRadiusExceeded
  | InsufficientStateBinding
  | AuthorizationExpired
  | ResourceVersionChanged
  | ExecutionPlanChanged
  | ActionChanged
  | TargetChanged
  | AssumptionExpired
  | AssumptionInvalidated
  | AssumptionValidityUnknown

record observation =
  ob_Claim :: string
  ob_Source :: string
  ob_Value :: string
  ob_ObservedAt :: time

record request =
  rq_ActionID :: string
  rq_Action :: string
  rq_Target :: string
  rq_ResourceVersion :: string
  rq_RequestedAt :: time
  rq_AuthorizationTTL :: duration
  rq_MaxEvidenceAge :: duration
  rq_RequiredSourceCount :: int
  rq_BlastRadius :: int
  rq_MaxBlastRadius :: int
  rq_Evidence :: "observation list"
  rq_EpistemicSnapshot :: "easl_snapshot option"

record authorization =
  au_ActionID :: string
  au_Action :: string
  au_Target :: string
  au_ResourceVersion :: string
  au_EvidenceDigest :: string
  au_PlanDigest :: string
  au_AuthorityDomain :: string
  au_AuthorityTerm :: u64
  au_DecisionEpoch :: u64
  au_RevocationEpoch :: u64
  au_TargetIdentity :: string
  au_StateBindingDigest :: string
  au_ValidUntil :: time

record result =
  rs_Decision :: decision
  rs_ReasonCodes :: "reason_code list"
  rs_Authorization :: "authorization option"

record execution_attempt =
  at_ActionID :: string
  at_Action :: string
  at_Target :: string
  at_ResourceVersion :: string
  at_PlanDigest :: string
  at_Now :: time

record authorization_validation =
  av_Valid :: bool
  av_ReasonCodes :: "reason_code list"

section \<open>The epistemic gate (easl\_gate.go)\<close>

definition refuse :: "decision \<Rightarrow> reason_code \<Rightarrow> result" where
  "refuse d r = \<lparr>rs_Decision = d, rs_ReasonCodes = [r], rs_Authorization = None\<rparr>"

definition hasEASLInvalidationReason :: "easl_evaluation \<Rightarrow> easl_reason \<Rightarrow> bool" where
  "hasEASLInvalidationReason evaluation reason \<longleftrightarrow>
     list_ex (\<lambda>invalidation. ei_Reason invalidation = reason) (ev_Invalidations evaluation)"

definition evaluateEASL :: "easl_eval \<Rightarrow> easl_snapshot \<Rightarrow> result option" where
  "evaluateEASL eval snapshot =
     (case eval snapshot of
        Inl _ \<Rightarrow> Some (refuse Escalate AssumptionValidityUnknown)
      | Inr evaluation \<Rightarrow>
        (if ev_State evaluation = StateValid then None
         else if ev_EvidenceStatus evaluation = EvidenceContradictory
         then Some (refuse Block EvidenceContradicted)
         else if hasEASLInvalidationReason evaluation ReasonStaleEvidence
         then Some (refuse Block EvidenceStale)
         else if hasEASLInvalidationReason evaluation ReasonAssumptionExpired
         then Some (refuse Block AssumptionExpired)
         else if hasEASLInvalidationReason evaluation ReasonDependencyInvalid
         then Some (refuse Block AssumptionInvalidated)
         else if hasEASLInvalidationReason evaluation ReasonMissingEvidence
         then Some (refuse Escalate InsufficientEvidence)
         else if ev_State evaluation = StateDegraded
         then Some (refuse Escalate EvidenceStale)
         else Some (refuse Escalate AssumptionValidityUnknown)))"

section \<open>The evidence digest (authorization.go)\<close>

abbreviation field_sep :: char where "field_sep \<equiv> CHR 0x1F"
abbreviation record_sep :: char where "record_sep \<equiv> CHR 0x1E"

fun join :: "string \<Rightarrow> string list \<Rightarrow> string" where
  "join sep [] = []"
| "join sep [s] = s"
| "join sep (s # t # ts) = s @ sep @ join sep (t # ts)"

definition observation_fields :: "observation \<Rightarrow> string list" where
  "observation_fields ob =
     [ob_Claim ob, ob_Source ob, ob_Value ob, format_rfc3339nano (ob_ObservedAt ob)]"

definition canonical_evidence :: "observation list \<Rightarrow> string" where
  "canonical_evidence evidence =
     join [record_sep] (sort (map (\<lambda>ob. join [field_sep] (observation_fields ob)) evidence))"

definition DigestEvidence :: "(string \<Rightarrow> string) \<Rightarrow> observation list \<Rightarrow> string" where
  "DigestEvidence sha evidence = sha256_tag sha (canonical_evidence evidence)"

section \<open>The hard gates (evaluator.go)\<close>

text \<open>The loop that fills \<open>valuesByClaim\<close> and stops at the first disagreement.\<close>

fun contradicted :: "(string \<rightharpoonup> string) \<Rightarrow> observation list \<Rightarrow> bool" where
  "contradicted values [] \<longleftrightarrow> False"
| "contradicted values (ob # obs) \<longleftrightarrow>
     (case values (ob_Claim ob) of
        None \<Rightarrow> contradicted (values(ob_Claim ob \<mapsto> ob_Value ob)) obs
      | Some expected \<Rightarrow> ob_Value ob \<noteq> expected \<or> contradicted values obs)"

definition source_labels :: "observation list \<Rightarrow> string list" where
  "source_labels obs = remdups (filter (\<lambda>s. s \<noteq> []) (map ob_Source obs))"

definition Evaluate :: "easl_eval \<Rightarrow> (string \<Rightarrow> string) \<Rightarrow> request \<Rightarrow> result" where
  "Evaluate eval sha req =
     (case (case rq_EpistemicSnapshot req of None \<Rightarrow> None | Some sn \<Rightarrow> evaluateEASL eval sn) of
        Some gated \<Rightarrow> gated
      | None \<Rightarrow>
        (if list_ex (\<lambda>ob. time_sub (rq_RequestedAt req) (ob_ObservedAt ob) > rq_MaxEvidenceAge req)
              (rq_Evidence req)
         then refuse Block EvidenceStale
         else if contradicted Map.empty (rq_Evidence req)
         then refuse Block EvidenceContradicted
         else if rq_MaxBlastRadius req > 0 \<and> rq_BlastRadius req > rq_MaxBlastRadius req
         then refuse Block BlastRadiusExceeded
         else if rq_RequiredSourceCount req > 0 \<and>
           int (length (source_labels (rq_Evidence req))) < rq_RequiredSourceCount req
         then refuse Escalate InsufficientEvidence
         else if rq_Action req = [] \<or> rq_Target req = [] \<or> rq_ResourceVersion req = [] \<or>
           rq_AuthorizationTTL req \<le> 0
         then refuse Escalate InsufficientStateBinding
         else \<lparr>rs_Decision = Allow, rs_ReasonCodes = [],
           rs_Authorization = Some
             \<lparr>au_ActionID = rq_ActionID req,
              au_Action = rq_Action req,
              au_Target = rq_Target req,
              au_ResourceVersion = rq_ResourceVersion req,
              au_EvidenceDigest = DigestEvidence sha (rq_Evidence req),
              au_PlanDigest = [],
              au_AuthorityDomain = [],
              au_AuthorityTerm = 0,
              au_DecisionEpoch = 0,
              au_RevocationEpoch = 0,
              au_TargetIdentity = [],
              au_StateBindingDigest = [],
              au_ValidUntil = time_add (rq_RequestedAt req) (rq_AuthorizationTTL req)\<rparr>\<rparr>))"

section \<open>Validation of an authorization (authorization.go)\<close>

abbreviation authorizationResourceVersionBinding :: string where
  "authorizationResourceVersionBinding \<equiv> ''authorization-resource-version''"

abbreviation authorizationPlanDigestBinding :: string where
  "authorizationPlanDigestBinding \<equiv> ''authorization-plan-digest''"

abbreviation authorizationStateAssumption :: string where
  "authorizationStateAssumption \<equiv> ''authorization-subject-state-unchanged''"

definition state_binding :: "string \<Rightarrow> string \<Rightarrow> string \<Rightarrow> easl_state_binding" where
  "state_binding i expected observed = \<lparr>eb_ID = i, eb_Expected = expected, eb_Observed = observed\<rparr>"

definition authorization_snapshot :: "time \<Rightarrow> easl_state_binding list \<Rightarrow> easl_snapshot" where
  "authorization_snapshot now bindings =
     \<lparr>es_At = now, es_Evidence = [],
      es_Assumptions =
        [\<lparr>ea_ID = authorizationStateAssumption, ea_Requires = [], ea_DependsOn = [],
          ea_RequiresStateBindings = map eb_ID bindings, ea_ValidUntil = None\<rparr>],
      es_StateBindings = bindings\<rparr>"

definition invalidation_reasons :: "easl_evaluation \<Rightarrow> reason_code list" where
  "invalidation_reasons evaluation =
     map (\<lambda>invalidation.
            if ei_StateBindingID invalidation = authorizationResourceVersionBinding
            then ResourceVersionChanged
            else if ei_StateBindingID invalidation = authorizationPlanDigestBinding
            then ExecutionPlanChanged
            else InsufficientStateBinding)
       (filter (\<lambda>invalidation.
            ei_AssumptionID invalidation = authorizationStateAssumption \<and>
            ei_Reason invalidation = ReasonSubjectStateChanged)
          (ev_Invalidations evaluation))"

definition validateAuthorizationStateBindings ::
  "easl_eval \<Rightarrow> authorization \<Rightarrow> execution_attempt \<Rightarrow> reason_code list" where
  "validateAuthorizationStateBindings eval auth attempt =
     (let (bindings1, reasons1) =
        (if au_ResourceVersion auth \<noteq> [] \<and> at_ResourceVersion attempt \<noteq> []
         then ([state_binding authorizationResourceVersionBinding
                  (au_ResourceVersion auth) (at_ResourceVersion attempt)], [])
         else if au_ResourceVersion auth \<noteq> at_ResourceVersion attempt
         then ([], [ResourceVersionChanged])
         else ([], []));
       (bindings, reasons) =
        (if au_PlanDigest auth \<noteq> []
         then if at_PlanDigest attempt \<noteq> []
           then (bindings1 @ [state_binding authorizationPlanDigestBinding
                   (au_PlanDigest auth) (at_PlanDigest attempt)], reasons1)
           else (bindings1, reasons1 @ [ExecutionPlanChanged])
         else (bindings1, reasons1))
      in if bindings = [] then reasons
         else case eval (authorization_snapshot (at_Now attempt) bindings) of
           Inl _ \<Rightarrow> reasons @ [InsufficientStateBinding]
         | Inr evaluation \<Rightarrow> reasons @ invalidation_reasons evaluation)"

definition ValidateAuthorization ::
  "easl_eval \<Rightarrow> authorization \<Rightarrow> execution_attempt \<Rightarrow> authorization_validation" where
  "ValidateAuthorization eval auth attempt =
     (let reasons =
        (if CheckValidity (au_ValidUntil auth) (at_Now attempt) \<noteq> None
         then [AuthorizationExpired] else []) @
        validateAuthorizationStateBindings eval auth attempt @
        (if at_Action attempt \<noteq> au_Action auth \<or> at_ActionID attempt \<noteq> au_ActionID auth
         then [ActionChanged] else []) @
        (if at_Target attempt \<noteq> au_Target auth then [TargetChanged] else [])
      in \<lparr>av_Valid = (reasons = []), av_ReasonCodes = reasons\<rparr>)"

section \<open>Evidence acquisition (acquisition.go, reconciliation.go)\<close>

datatype probe_safety_class = ProbeReadOnly | ProbeSafetyOther string

record probe_outcome =
  po_Evidence :: "observation list"
  po_ResourceVersion :: string

text \<open>
  A probe may consult and change the world \<open>'s\<close>; its name and its safety class are constants.
\<close>

record 's probe =
  pb_Name :: string
  pb_SafetyClass :: probe_safety_class
  pb_Supports :: "request \<Rightarrow> result \<Rightarrow> 's \<Rightarrow> bool \<times> 's"
  pb_Acquire :: "request \<Rightarrow> 's \<Rightarrow> (string + probe_outcome) \<times> 's"

datatype probe_outcome_error = EmptyClaim nat | EmptySource nat | ZeroObservedTime nat

datatype attempt_error = NoError | NotReadOnly | AcquireError string | InvalidOutcome probe_outcome_error

record probe_attempt =
  pa_ProbeName :: string
  pa_SafetyClass :: probe_safety_class
  pa_ObservationCount :: nat
  pa_ResourceVersion :: string
  pa_Error :: attempt_error
  pa_Skipped :: bool

record acquisition_result =
  aq_Initial :: result
  aq_Final :: result
  aq_EffectiveRequest :: request
  aq_Attempts :: "probe_attempt list"

definition needsEvidence :: "result \<Rightarrow> bool" where
  "needsEvidence r \<longleftrightarrow> rs_Decision r = Escalate \<and> InsufficientEvidence \<in> set (rs_ReasonCodes r)"

definition isContradicted :: "result \<Rightarrow> bool" where
  "isContradicted r \<longleftrightarrow> rs_Decision r = Block \<and> EvidenceContradicted \<in> set (rs_ReasonCodes r)"

definition latestObservationTime :: "time \<Rightarrow> observation list \<Rightarrow> time" where
  "latestObservationTime current evidence =
     fold (\<lambda>ob latest. if ob_ObservedAt ob > latest then ob_ObservedAt ob else latest) evidence current"

fun validate_observations :: "nat \<Rightarrow> observation list \<Rightarrow> probe_outcome_error option" where
  "validate_observations i [] = None"
| "validate_observations i (ob # obs) =
     (if ob_Claim ob = [] then Some (EmptyClaim i)
      else if ob_Source ob = [] then Some (EmptySource i)
      else if is_zero (ob_ObservedAt ob) then Some (ZeroObservedTime i)
      else validate_observations (Suc i) obs)"

definition validateProbeOutcome :: "probe_outcome \<Rightarrow> probe_outcome_error option" where
  "validateProbeOutcome outcome = validate_observations 0 (po_Evidence outcome)"

definition new_attempt :: "'s probe \<Rightarrow> probe_attempt" where
  "new_attempt p = \<lparr>pa_ProbeName = pb_Name p, pa_SafetyClass = pb_SafetyClass p,
     pa_ObservationCount = 0, pa_ResourceVersion = [], pa_Error = NoError, pa_Skipped = False\<rparr>"

definition add_attempt :: "acquisition_result \<Rightarrow> probe_attempt \<Rightarrow> acquisition_result" where
  "add_attempt r a = r\<lparr>aq_Attempts := aq_Attempts r @ [a]\<rparr>"

text \<open>The effective request after an accepted outcome.\<close>

definition absorb :: "request \<Rightarrow> probe_outcome \<Rightarrow> request" where
  "absorb req outcome =
     req\<lparr>rq_Evidence := rq_Evidence req @ po_Evidence outcome,
         rq_ResourceVersion := (if po_ResourceVersion outcome \<noteq> [] then po_ResourceVersion outcome
                                else rq_ResourceVersion req),
         rq_RequestedAt := latestObservationTime (rq_RequestedAt req) (po_Evidence outcome)\<rparr>"

text \<open>
  One iteration for a probe that is not \<open>nil\<close>: whether the loop is left (by \<open>break\<close>, or by the
  early return when \<open>stop\<close> holds of the new final result), the result so far, the number of
  acquisitions and the world. The loop text of the two operations is the same except for \<open>stop\<close>.
\<close>

definition probe_step ::
  "(request \<Rightarrow> result) \<Rightarrow> (result \<Rightarrow> bool) \<Rightarrow> ('s \<Rightarrow> bool \<times> 's) \<Rightarrow> int \<Rightarrow> 's probe
    \<Rightarrow> acquisition_result \<Rightarrow> int \<Rightarrow> 's \<Rightarrow> bool \<times> acquisition_result \<times> int \<times> 's" where
  "probe_step ev stop cancelled maxAttempts p res attempts s =
     (if pb_SafetyClass p \<noteq> ProbeReadOnly
      then (False, add_attempt res ((new_attempt p)\<lparr>pa_Skipped := True, pa_Error := NotReadOnly\<rparr>),
            attempts, s)
      else case pb_Supports p (aq_EffectiveRequest res) (aq_Final res) s of (supported, s1) \<Rightarrow>
        if \<not> supported
        then (False, add_attempt res ((new_attempt p)\<lparr>pa_Skipped := True\<rparr>), attempts, s1)
        else if attempts \<ge> maxAttempts then (True, res, attempts, s1)
        else case pb_Acquire p (aq_EffectiveRequest res) s1 of
          (Inl err, s2) \<Rightarrow>
            (case cancelled s2 of (c, s3) \<Rightarrow>
               (c, add_attempt res ((new_attempt p)\<lparr>pa_Error := AcquireError err\<rparr>), attempts + 1, s3))
        | (Inr outcome, s2) \<Rightarrow>
            (case validateProbeOutcome outcome of
               Some err \<Rightarrow>
                 (False, add_attempt res ((new_attempt p)\<lparr>pa_Error := InvalidOutcome err\<rparr>),
                  attempts + 1, s2)
             | None \<Rightarrow>
                 (let res1 = add_attempt res ((new_attempt p)
                        \<lparr>pa_ObservationCount := length (po_Evidence outcome),
                         pa_ResourceVersion := po_ResourceVersion outcome\<rparr>)
                  in if po_Evidence outcome = [] \<and> po_ResourceVersion outcome = []
                     then (False, res1, attempts + 1, s2)
                     else let req = absorb (aq_EffectiveRequest res1) outcome
                          in (stop (ev req), res1\<lparr>aq_EffectiveRequest := req, aq_Final := ev req\<rparr>,
                              attempts + 1, s2))))"

text \<open>The loop over the probes; a \<open>nil\<close> probe is \<open>None\<close>.\<close>

fun probe_loop ::
  "(request \<Rightarrow> result) \<Rightarrow> (result \<Rightarrow> bool) \<Rightarrow> ('s \<Rightarrow> bool \<times> 's) \<Rightarrow> int \<Rightarrow> int
    \<Rightarrow> 's probe option list \<Rightarrow> acquisition_result \<Rightarrow> 's \<Rightarrow> acquisition_result \<times> 's" where
  "probe_loop ev stop cancelled maxAttempts attempts [] res s = (res, s)"
| "probe_loop ev stop cancelled maxAttempts attempts (None # ps) res s =
     probe_loop ev stop cancelled maxAttempts attempts ps res s"
| "probe_loop ev stop cancelled maxAttempts attempts (Some p # ps) res s =
     (case probe_step ev stop cancelled maxAttempts p res attempts s of
        (finished, res', attempts', s') \<Rightarrow>
          if finished then (res', s')
          else probe_loop ev stop cancelled maxAttempts attempts' ps res' s')"

definition ResolveUnknown ::
  "easl_eval \<Rightarrow> (string \<Rightarrow> string) \<Rightarrow> ('s \<Rightarrow> bool \<times> 's) \<Rightarrow> request \<Rightarrow> 's probe option list \<Rightarrow> int \<Rightarrow> 's
    \<Rightarrow> acquisition_result \<times> 's" where
  "ResolveUnknown eval sha cancelled req probes maxAttempts s =
     (let initial = Evaluate eval sha req;
          res = \<lparr>aq_Initial = initial, aq_Final = initial, aq_EffectiveRequest = req, aq_Attempts = []\<rparr>
      in if \<not> needsEvidence initial \<or> maxAttempts \<le> 0 then (res, s)
         else probe_loop (Evaluate eval sha) (\<lambda>r. \<not> needsEvidence r) cancelled maxAttempts 0 probes res s)"

definition ReconcileContradiction ::
  "easl_eval \<Rightarrow> (string \<Rightarrow> string) \<Rightarrow> ('s \<Rightarrow> bool \<times> 's) \<Rightarrow> request \<Rightarrow> 's probe option list \<Rightarrow> int \<Rightarrow> 's
    \<Rightarrow> acquisition_result \<times> 's" where
  "ReconcileContradiction eval sha cancelled req probes maxAttempts s =
     (let initial = Evaluate eval sha req
      in if \<not> isContradicted initial \<or> maxAttempts \<le> 0
         then (\<lparr>aq_Initial = initial, aq_Final = initial, aq_EffectiveRequest = req,
                aq_Attempts = []\<rparr>, s)
         else let fresh = req\<lparr>rq_Evidence := []\<rparr>;
                  res = \<lparr>aq_Initial = initial, aq_Final = Evaluate eval sha fresh, aq_EffectiveRequest = fresh,
                         aq_Attempts = []\<rparr>
              in probe_loop (Evaluate eval sha) (\<lambda>r. rs_Decision r = Allow \<or> rs_Decision r = Block) cancelled
                   maxAttempts 0 probes res s)"

section \<open>The gates\<close>

lemma refuse_simps [simp]:
  "rs_Decision (refuse d r) = d" "rs_ReasonCodes (refuse d r) = [r]"
  "rs_Authorization (refuse d r) = None"
  by (simp_all add: refuse_def)

definition consistent :: "observation list \<Rightarrow> bool" where
  "consistent obs \<longleftrightarrow>
     (\<forall>a \<in> set obs. \<forall>b \<in> set obs. ob_Claim a = ob_Claim b \<longrightarrow> ob_Value a = ob_Value b)"

definition agrees :: "(string \<rightharpoonup> string) \<Rightarrow> observation list \<Rightarrow> bool" where
  "agrees m obs \<longleftrightarrow> (\<forall>a \<in> set obs. m (ob_Claim a) = None \<or> m (ob_Claim a) = Some (ob_Value a))"

lemma ball_insert_sym:
  assumes "\<And>a b. R a b \<Longrightarrow> R b a" and "\<And>a. R a a"
  shows "(\<forall>a \<in> insert x S. \<forall>b \<in> insert x S. R a b) \<longleftrightarrow>
    (\<forall>a \<in> S. \<forall>b \<in> S. R a b) \<and> (\<forall>a \<in> S. R a x)"
  using assms by blast

lemma agrees_Cons:
  assumes "m (ob_Claim ob) = None \<or> m (ob_Claim ob) = Some (ob_Value ob)"
  shows "agrees m (ob # obs) \<and> consistent (ob # obs) \<longleftrightarrow>
    agrees (m(ob_Claim ob \<mapsto> ob_Value ob)) obs \<and> consistent obs"
proof -
  have elem: "(m(ob_Claim ob \<mapsto> ob_Value ob)) (ob_Claim a) = None \<or>
        (m(ob_Claim ob \<mapsto> ob_Value ob)) (ob_Claim a) = Some (ob_Value a) \<longleftrightarrow>
      (m (ob_Claim a) = None \<or> m (ob_Claim a) = Some (ob_Value a)) \<and>
      (ob_Claim a = ob_Claim ob \<longrightarrow> ob_Value a = ob_Value ob)" for a
    using assms by (cases "ob_Claim a = ob_Claim ob") auto
  have "agrees (m(ob_Claim ob \<mapsto> ob_Value ob)) obs \<longleftrightarrow>
      agrees m obs \<and> (\<forall>a \<in> set obs. ob_Claim a = ob_Claim ob \<longrightarrow> ob_Value a = ob_Value ob)"
    unfolding agrees_def elem by (rule ball_conj_distrib)
  moreover have "agrees m (ob # obs) \<longleftrightarrow> agrees m obs"
    using assms by (auto simp: agrees_def)
  moreover have "consistent (ob # obs) \<longleftrightarrow>
      consistent obs \<and> (\<forall>a \<in> set obs. ob_Claim a = ob_Claim ob \<longrightarrow> ob_Value a = ob_Value ob)"
    unfolding consistent_def list.set
    by (rule ball_insert_sym [where R = "\<lambda>a b. ob_Claim a = ob_Claim b \<longrightarrow> ob_Value a = ob_Value b"])
      (rule impI, drule sym, drule (1) mp, erule sym, rule impI, rule refl)
  ultimately show ?thesis by blast
qed

lemma not_contradicted_iff: "\<not> contradicted m obs \<longleftrightarrow> agrees m obs \<and> consistent obs"
proof (induction m obs rule: contradicted.induct)
  case (1 m)
  show ?case by (simp add: agrees_def consistent_def)
next
  case (2 m ob obs)
  show ?case
  proof (cases "m (ob_Claim ob)")
    case None
    with agrees_Cons [of m ob obs] show ?thesis
      unfolding contradicted.simps None option.case "2.IH"(1) [OF None] by simp
  next
    case (Some v)
    show ?thesis
    proof (cases "ob_Value ob = v")
      case True
      then have "m(ob_Claim ob \<mapsto> ob_Value ob) = m" using Some by (simp add: fun_upd_idem)
      with "2.IH"(2) [OF Some] agrees_Cons [of m ob obs] Some True show ?thesis by simp
    qed (use Some in \<open>auto simp: agrees_def\<close>)
  qed
qed

lemma contradicted_iff: "contradicted Map.empty obs \<longleftrightarrow> \<not> consistent obs"
  using not_contradicted_iff [of Map.empty obs] by (auto simp: agrees_def)

lemma consistent_cong: "set obs = set obs' \<Longrightarrow> consistent obs = consistent obs'"
  unfolding consistent_def by simp

lemma evaluateEASL_None_iff [guard_simps]:
  "evaluateEASL eval sn = None \<longleftrightarrow> (\<exists>ev. eval sn = Inr ev \<and> ev_State ev = StateValid)"
  by (auto simp: evaluateEASL_def split: sum.splits if_splits)

lemma evaluateEASL_refuses:
  "evaluateEASL eval sn = Some r \<Longrightarrow> (\<exists>d c. r = refuse d c \<and> d \<noteq> Allow)"
  by (auto simp: evaluateEASL_def split: sum.splits if_splits)

text \<open>What it takes to pass every gate.\<close>

definition epistemically_valid :: "easl_eval \<Rightarrow> easl_snapshot option \<Rightarrow> bool" where
  "epistemically_valid eval sn \<longleftrightarrow>
     (case sn of None \<Rightarrow> True
      | Some s \<Rightarrow> (case eval s of Inl _ \<Rightarrow> False | Inr ev \<Rightarrow> ev_State ev = StateValid))"

lemma epistemic_gate_None_iff:
  "(case sn of None \<Rightarrow> None | Some s \<Rightarrow> evaluateEASL eval s) = None \<longleftrightarrow> epistemically_valid eval sn"
  by (auto simp: epistemically_valid_def guard_simps split: option.split sum.split)

lemma source_labels_card:
  "length (source_labels obs) = card (ob_Source ` set obs - {[]})"
proof -
  have "set (filter (\<lambda>s. s \<noteq> []) (map ob_Source obs)) = ob_Source ` set obs - {[]}" by auto
  then show ?thesis by (simp add: source_labels_def length_remdups_card_conv)
qed

definition passes_gates :: "easl_eval \<Rightarrow> request \<Rightarrow> bool" where
  "passes_gates eval req \<longleftrightarrow>
     epistemically_valid eval (rq_EpistemicSnapshot req) \<and>
     list_all (\<lambda>ob. time_sub (rq_RequestedAt req) (ob_ObservedAt ob) \<le> rq_MaxEvidenceAge req)
       (rq_Evidence req) \<and>
     consistent (rq_Evidence req) \<and>
     \<not> (0 < rq_MaxBlastRadius req \<and> rq_MaxBlastRadius req < rq_BlastRadius req) \<and>
     rq_RequiredSourceCount req \<le> int (card (ob_Source ` set (rq_Evidence req) - {[]})) \<and>
     rq_Action req \<noteq> [] \<and> rq_Target req \<noteq> [] \<and> rq_ResourceVersion req \<noteq> [] \<and>
     0 < rq_AuthorizationTTL req"

definition allow_result :: "(string \<Rightarrow> string) \<Rightarrow> request \<Rightarrow> result" where
  "allow_result sha req =
     \<lparr>rs_Decision = Allow, rs_ReasonCodes = [],
      rs_Authorization = Some
        \<lparr>au_ActionID = rq_ActionID req, au_Action = rq_Action req, au_Target = rq_Target req,
         au_ResourceVersion = rq_ResourceVersion req,
         au_EvidenceDigest = DigestEvidence sha (rq_Evidence req),
         au_PlanDigest = [], au_AuthorityDomain = [], au_AuthorityTerm = 0, au_DecisionEpoch = 0,
         au_RevocationEpoch = 0, au_TargetIdentity = [], au_StateBindingDigest = [],
         au_ValidUntil = rq_RequestedAt req + rq_AuthorizationTTL req\<rparr>\<rparr>"

text \<open>The branch of \<open>Evaluate\<close> behind the epistemic gate, with the loops replaced by what they decide.\<close>

lemma Evaluate_open:
  "epistemically_valid eval (rq_EpistemicSnapshot req) \<Longrightarrow>
   Evaluate eval sha req =
     (if \<not> list_all (\<lambda>ob. time_sub (rq_RequestedAt req) (ob_ObservedAt ob) \<le> rq_MaxEvidenceAge req)
           (rq_Evidence req)
      then refuse Block EvidenceStale
      else if \<not> consistent (rq_Evidence req) then refuse Block EvidenceContradicted
      else if 0 < rq_MaxBlastRadius req \<and> rq_MaxBlastRadius req < rq_BlastRadius req
      then refuse Block BlastRadiusExceeded
      else if \<not> rq_RequiredSourceCount req \<le> int (card (ob_Source ` set (rq_Evidence req) - {[]}))
      then refuse Escalate InsufficientEvidence
      else if rq_Action req = [] \<or> rq_Target req = [] \<or> rq_ResourceVersion req = [] \<or>
        \<not> 0 < rq_AuthorizationTTL req
      then refuse Escalate InsufficientStateBinding
      else allow_result sha req)"
proof -
  assume "epistemically_valid eval (rq_EpistemicSnapshot req)"
  then have gate:
    "(case rq_EpistemicSnapshot req of None \<Rightarrow> None | Some s \<Rightarrow> evaluateEASL eval s) = None"
    by (simp add: epistemic_gate_None_iff)
  have fresh: "list_ex (\<lambda>ob. rq_MaxEvidenceAge req < time_sub (rq_RequestedAt req) (ob_ObservedAt ob)) obs
      \<longleftrightarrow> \<not> list_all (\<lambda>ob. time_sub (rq_RequestedAt req) (ob_ObservedAt ob) \<le> rq_MaxEvidenceAge req) obs"
    for obs by (auto simp: list_ex_iff list_all_iff not_le)
  have count: "0 < n \<and> int (card A) < n \<longleftrightarrow> \<not> n \<le> int (card A)" for n :: int and A :: "string set"
    by linarith
  show ?thesis
    unfolding Evaluate_def gate option.case contradicted_iff fresh source_labels_card count not_less [symmetric]
      allow_result_def time_add_def by simp
qed

lemma Evaluate_allows: "passes_gates eval req \<Longrightarrow> Evaluate eval sha req = allow_result sha req"
  unfolding passes_gates_def by (elim conjE) (simp only: Evaluate_open if_False if_True not_True_eq_False simp_thms)

definition is_refusal :: "result \<Rightarrow> bool" where
  "is_refusal r \<longleftrightarrow> (\<exists>d c. r = refuse d c \<and> d \<noteq> Allow)"

lemma is_refusal_simps: "is_refusal (refuse Block c) = True" "is_refusal (refuse Escalate c) = True"
  by (auto simp: is_refusal_def)

lemma is_refusal_if: "is_refusal (if b then r else r') = (if b then is_refusal r else is_refusal r')"
  by simp

lemma Evaluate_refuses:
  assumes "\<not> passes_gates eval req"
  shows "\<exists>d c. Evaluate eval sha req = refuse d c \<and> d \<noteq> Allow"
proof (cases "epistemically_valid eval (rq_EpistemicSnapshot req)")
  case True
  with assms show ?thesis
    unfolding Evaluate_open [OF True] passes_gates_def is_refusal_def [symmetric] is_refusal_if
      is_refusal_simps by (simp only: if_bool_eq_disj True simp_thms) blast
next
  case False
  then obtain g where
    "(case rq_EpistemicSnapshot req of None \<Rightarrow> None | Some s \<Rightarrow> evaluateEASL eval s) = Some g"
    using epistemic_gate_None_iff [of eval "rq_EpistemicSnapshot req"] by fastforce
  moreover from this obtain d c where "g = refuse d c" "d \<noteq> Allow"
    by (auto split: option.splits dest: evaluateEASL_refuses)
  ultimately show ?thesis unfolding Evaluate_def by auto
qed

text \<open>
  C13. An action is allowed exactly when every gate passes: the epistemic snapshot (if any) is
  evaluated as valid, no observation is older than the permitted age, no two observations of one
  claim disagree, the blast radius respects a configured limit, enough distinct non-empty source
  labels are present, and the request binds action, target and resource version and asks for a
  positive lifetime. Otherwise the result is a refusal with exactly one reason code. An
  authorization accompanies precisely the allowed results; it repeats the request's binding and
  expires one lifetime after the request.
\<close>

theorem Evaluate_allow_iff:
  fixes eval sha req
  defines "r \<equiv> Evaluate eval sha req" and "obs \<equiv> rq_Evidence req"
  shows "(rs_Decision r = Allow \<longleftrightarrow>
      epistemically_valid eval (rq_EpistemicSnapshot req) \<and>
      list_all (\<lambda>ob. time_sub (rq_RequestedAt req) (ob_ObservedAt ob) \<le> rq_MaxEvidenceAge req) obs \<and>
      consistent obs \<and>
      \<not> (0 < rq_MaxBlastRadius req \<and> rq_MaxBlastRadius req < rq_BlastRadius req) \<and>
      rq_RequiredSourceCount req \<le> int (card (ob_Source ` set obs - {[]})) \<and>
      rq_Action req \<noteq> [] \<and> rq_Target req \<noteq> [] \<and> rq_ResourceVersion req \<noteq> [] \<and>
      0 < rq_AuthorizationTTL req) \<and>
    (case rs_Authorization r of
       None \<Rightarrow> rs_Decision r \<noteq> Allow \<and> length (rs_ReasonCodes r) = 1
     | Some a \<Rightarrow> rs_Decision r = Allow \<and> rs_ReasonCodes r = [] \<and>
         au_ActionID a = rq_ActionID req \<and> au_Action a = rq_Action req \<and>
         au_Target a = rq_Target req \<and> au_ResourceVersion a = rq_ResourceVersion req \<and>
         au_EvidenceDigest a = DigestEvidence sha obs \<and>
         au_ValidUntil a = rq_RequestedAt req + rq_AuthorizationTTL req)"
proof (cases "passes_gates eval req")
  case True
  then show ?thesis
    unfolding r_def obs_def Evaluate_allows [OF True] by (simp add: passes_gates_def allow_result_def)
next
  case False
  then obtain d c where "Evaluate eval sha req = refuse d c" "d \<noteq> Allow"
    using Evaluate_refuses by blast
  with False show ?thesis
    unfolding r_def obs_def passes_gates_def by simp
qed

lemma DigestEvidence_mset: "mset obs = mset obs' \<Longrightarrow> DigestEvidence sha obs = DigestEvidence sha obs'"
proof -
  assume "mset obs = mset obs'"
  then have "mset (map (\<lambda>ob. join [field_sep] (observation_fields ob)) obs) =
      mset (map (\<lambda>ob. join [field_sep] (observation_fields ob)) obs')"
    by simp
  then show ?thesis
    unfolding DigestEvidence_def canonical_evidence_def by (subst sort_cong_mset) (assumption, rule refl)
qed

text \<open>
  The decision does not depend on the order in which the evidence is listed: requests that
  differ only by a permutation of the observations receive the same decision, reason and
  authorization, including the evidence digest.
\<close>

theorem Evaluate_order_independent:
  assumes "mset (rq_Evidence req) = mset obs"
  shows "Evaluate eval sha (req\<lparr>rq_Evidence := obs\<rparr>) = Evaluate eval sha req"
proof -
  have sets: "set obs = set (rq_Evidence req)"
    using mset_eq_setD [OF assms] by (rule sym)
  have digest: "DigestEvidence sha obs = DigestEvidence sha (rq_Evidence req)"
    using DigestEvidence_mset [OF assms] by (rule sym)
  show ?thesis
  proof (cases "epistemically_valid eval (rq_EpistemicSnapshot req)")
    case True
    then show ?thesis
      by (simp add: Evaluate_open list_all_iff consistent_cong [OF sets] allow_result_def sets digest)
  next
    case False
    then obtain g where
      "(case rq_EpistemicSnapshot req of None \<Rightarrow> None | Some s \<Rightarrow> evaluateEASL eval s) = Some g"
      using epistemic_gate_None_iff [of eval "rq_EpistemicSnapshot req"] by fastforce
    then show ?thesis by (simp add: Evaluate_def)
  qed
qed

section \<open>The evidence digest\<close>

lemma join_free: "c \<notin> set sep \<Longrightarrow> \<forall>s \<in> set ss. c \<notin> set s \<Longrightarrow> c \<notin> set (join sep ss)"
  by (induction sep ss rule: join.induct) auto

lemma join_inj:
  "join [c] ss = join [c] ts \<Longrightarrow> ss \<noteq> [] \<Longrightarrow> ts \<noteq> [] \<Longrightarrow>
   \<forall>s \<in> set ss. c \<notin> set s \<Longrightarrow> \<forall>t \<in> set ts. c \<notin> set t \<Longrightarrow> ss = ts"
proof (induction "[c]" ss arbitrary: ts rule: join.induct)
  case (2 s)
  then obtain t ts' where ts: "ts = t # ts'" by (cases ts) auto
  with 2 show ?case by (cases ts') auto
next
  case (3 s s' ss)
  then obtain t ts' where ts: "ts = t # ts'" by (cases ts) auto
  have "ts' \<noteq> []"
    using 3 ts by (cases ts') auto
  then have join_ts: "join [c] ts = t @ [c] @ join [c] ts'"
    using ts by (cases ts') auto
  then have "s = t \<and> join [c] (s' # ss) = join [c] ts'"
    using "3.prems" ts by (intro split_unique) auto
  with 3 ts \<open>ts' \<noteq> []\<close> show ?case by auto
qed simp

text \<open>An observation whose texts contain neither of the two separator characters.\<close>

definition separator_free :: "observation \<Rightarrow> bool" where
  "separator_free ob \<longleftrightarrow>
     (\<forall>s \<in> {ob_Claim ob, ob_Source ob, ob_Value ob}. field_sep \<notin> set s \<and> record_sep \<notin> set s)"

lemma observation_fields_free:
  assumes "separator_free ob" and "s \<in> set (observation_fields ob)" and "c = field_sep \<or> c = record_sep"
  shows "c \<notin> set s"
proof -
  have "time_char d" if "d \<in> set (format_rfc3339nano t)" for d t
    using that format_time_char [of t] by (simp add: list_all_iff)
  moreover have "\<not> time_char c"
    using assms(3) by (auto simp: time_char_def)
  ultimately show ?thesis
    using assms by (auto simp: observation_fields_def separator_free_def)
qed

definition canonical_observation :: "observation \<Rightarrow> string" where
  "canonical_observation ob = join [field_sep] (observation_fields ob)"

lemma canonical_observation_inj:
  "separator_free a \<Longrightarrow> separator_free b \<Longrightarrow> canonical_observation a = canonical_observation b \<Longrightarrow>
   observation_fields a = observation_fields b"
  unfolding canonical_observation_def
  by (rule join_inj [where c = field_sep])
    (auto simp: observation_fields_free, simp_all add: observation_fields_def)

lemma canonical_observation_free:
  "separator_free ob \<Longrightarrow> record_sep \<notin> set (canonical_observation ob)"
  unfolding canonical_observation_def by (rule join_free) (auto simp: observation_fields_free)

lemma canonical_observation_not_Nil: "canonical_observation ob \<noteq> []"
  by (simp add: canonical_observation_def observation_fields_def)

lemma canonical_evidence_inj:
  assumes "canonical_evidence obs = canonical_evidence obs'"
    and "\<forall>ob \<in> set obs. separator_free ob" and "\<forall>ob \<in> set obs'. separator_free ob"
  shows "mset (map canonical_observation obs) = mset (map canonical_observation obs')"
proof -
  let ?c = "\<lambda>obs. sort (map canonical_observation obs)"
  have eq: "join [record_sep] (?c obs) = join [record_sep] (?c obs')"
    using assms(1) unfolding canonical_evidence_def canonical_observation_def [abs_def] .
  have free: "\<forall>s \<in> set (?c obs). record_sep \<notin> set s \<and> s \<noteq> []"
    "\<forall>s \<in> set (?c obs'). record_sep \<notin> set s \<and> s \<noteq> []"
    using assms(2,3) by (auto simp: canonical_observation_free canonical_observation_not_Nil)
  have nil: "join [record_sep] ss = [] \<longleftrightarrow> ss = []" if "\<forall>s \<in> set ss. s \<noteq> []" for ss
    using that by (induction "[record_sep]" ss rule: join.induct) auto
  have "?c obs = ?c obs'"
  proof (cases "?c obs = [] \<or> ?c obs' = []")
    case True
    then show ?thesis using eq nil free by metis
  next
    case False
    then show ?thesis using eq free by (intro join_inj) auto
  qed
  then show ?thesis by (metis mset_sort)
qed

lemma image_mset_factor:
  assumes "\<And>a b. a \<in> set xs \<union> set ys \<Longrightarrow> b \<in> set xs \<union> set ys \<Longrightarrow> f a = f b \<Longrightarrow> g a = g b"
    and "mset (map f xs) = mset (map f ys)"
  shows "mset (map g xs) = mset (map g ys)"
proof -
  define h where "h y = g (SOME a. a \<in> set xs \<union> set ys \<and> f a = y)" for y
  have h: "h (f a) = g a" if "a \<in> set xs \<union> set ys" for a
    unfolding h_def using that assms(1)
    by (metis (mono_tags, lifting) someI_ex)
  have "map g xs = map h (map f xs)" and "map g ys = map h (map f ys)"
    using h by simp_all
  then show ?thesis using assms(2) by (simp only: mset_map)
qed

text \<open>
  The digest binds the evidence: for observations without the two separator characters, and
  as long as SHA-256 does not collide on the two canonical texts, equal digests mean the same
  observations (claim, source, value and rendered time), each with the same multiplicity,
  irrespective of their order.
\<close>

theorem DigestEvidence_binds:
  assumes "DigestEvidence sha obs = DigestEvidence sha obs'"
    and "sha (canonical_evidence obs) = sha (canonical_evidence obs') \<longrightarrow>
      canonical_evidence obs = canonical_evidence obs'"
    and "\<forall>ob \<in> set obs. separator_free ob" and "\<forall>ob \<in> set obs'. separator_free ob"
  shows "mset (map observation_fields obs) = mset (map observation_fields obs')"
proof (rule image_mset_factor [where f = canonical_observation])
  show "mset (map canonical_observation obs) = mset (map canonical_observation obs')"
    using assms by (intro canonical_evidence_inj) (auto simp: DigestEvidence_def sha256_tag_eq_iff)
qed (use assms(3,4) canonical_observation_inj in blast)

text \<open>
  C37. The separators are not escaped, and nothing keeps them out of a claim, so without that
  restriction the digest does not determine the evidence, nor even the decision: there are a
  request that is allowed on two observations from two sources, and a single observation that
  passes probe validation, has the same digest whatever the hash function, and makes the same
  request escalate.
\<close>

theorem DigestEvidence_ambiguous:
  "\<exists>req a b x. rq_Evidence req = [a, b] \<and> validateProbeOutcome \<lparr>po_Evidence = [x], po_ResourceVersion = []\<rparr> = None \<and>
     (\<forall>eval sha. DigestEvidence sha [a, b] = DigestEvidence sha [x] \<and>
       rs_Decision (Evaluate eval sha req) = Allow \<and>
       rs_Decision (Evaluate eval sha (req\<lparr>rq_Evidence := [x]\<rparr>)) = Escalate)"
proof -
  define a where "a = \<lparr>ob_Claim = ''a'', ob_Source = ''s'', ob_Value = ''v'', ob_ObservedAt = 1\<rparr>"
  define b where "b = \<lparr>ob_Claim = ''b'', ob_Source = ''t'', ob_Value = ''v'', ob_ObservedAt = 1\<rparr>"
  define x where "x = \<lparr>ob_Claim = canonical_observation a @ record_sep # ''b'', ob_Source = ''t'',
    ob_Value = ''v'', ob_ObservedAt = 1\<rparr>"
  define req where "req = \<lparr>rq_ActionID = ''i'', rq_Action = ''drain'', rq_Target = ''n'',
    rq_ResourceVersion = ''1'', rq_RequestedAt = 2, rq_AuthorizationTTL = 9, rq_MaxEvidenceAge = 9,
    rq_RequiredSourceCount = 2, rq_BlastRadius = 0, rq_MaxBlastRadius = 0, rq_Evidence = [a, b],
    rq_EpistemicSnapshot = None\<rparr>"
  have "canonical_observation a \<le> canonical_observation b"
    by (simp add: canonical_observation_def observation_fields_def a_def b_def less_char_def)
  then have "canonical_evidence [a, b] = canonical_observation a @ record_sep # canonical_observation b"
    by (simp add: canonical_evidence_def canonical_observation_def)
  also have "\<dots> = canonical_evidence [x]"
    by (simp add: canonical_evidence_def canonical_observation_def observation_fields_def a_def b_def x_def)
  finally have "canonical_evidence [a, b] = canonical_evidence [x]" .
  moreover have "validateProbeOutcome \<lparr>po_Evidence = [x], po_ResourceVersion = []\<rparr> = None"
    by (simp add: validateProbeOutcome_def x_def)
  moreover have "rs_Decision (Evaluate eval sha req) = Allow" for eval sha
    by (simp add: Evaluate_def req_def a_def b_def time_sub_def max_duration_def min_duration_def
        source_labels_def)
  moreover have "rs_Decision (Evaluate eval sha (req\<lparr>rq_Evidence := [x]\<rparr>)) = Escalate" for eval sha
    by (simp add: Evaluate_def req_def x_def time_sub_def max_duration_def min_duration_def
        source_labels_def)
  moreover have "rq_Evidence req = [a, b]" by (simp add: req_def)
  ultimately show ?thesis unfolding DigestEvidence_def by metis
qed

section \<open>Acquisition\<close>

text \<open>The observation was returned by a read-only probe of the list, in an accepted outcome.\<close>

definition acquired_from :: "'s probe option list \<Rightarrow> observation \<Rightarrow> bool" where
  "acquired_from ps ob \<longleftrightarrow>
     (\<exists>p req s outcome s'. Some p \<in> set ps \<and> pb_SafetyClass p = ProbeReadOnly \<and>
        pb_Acquire p req s = (Inr outcome, s') \<and> validateProbeOutcome outcome = None \<and>
        ob \<in> set (po_Evidence outcome))"

definition request_frame :: "request \<Rightarrow> request" where
  "request_frame req = req\<lparr>rq_Evidence := [], rq_ResourceVersion := [], rq_RequestedAt := 0\<rparr>"

text \<open>
  \<open>extends ev ps k r r'\<close>: the acquisition state \<open>r'\<close> is reached from \<open>r\<close> by iterations over \<open>ps\<close>
  with at most \<open>k\<close> acquisitions. It is reflexive and transitive, and holds for each iteration.
\<close>

definition extends ::
  "(request \<Rightarrow> result) \<Rightarrow> 's probe option list \<Rightarrow> nat \<Rightarrow> acquisition_result \<Rightarrow> acquisition_result \<Rightarrow> bool" where
  "extends ev ps k r r' \<longleftrightarrow>
     aq_Initial r' = aq_Initial r \<and>
     (aq_Final r = ev (aq_EffectiveRequest r) \<longrightarrow> aq_Final r' = ev (aq_EffectiveRequest r')) \<and>
     request_frame (aq_EffectiveRequest r') = request_frame (aq_EffectiveRequest r) \<and>
     rq_RequestedAt (aq_EffectiveRequest r) \<le> rq_RequestedAt (aq_EffectiveRequest r') \<and>
     (\<exists>new added.
        aq_Attempts r' = aq_Attempts r @ new \<and>
        length (filter (\<lambda>a. \<not> pa_Skipped a) new) \<le> k \<and>
        (\<forall>a \<in> set new. \<not> pa_Skipped a \<longrightarrow> pa_SafetyClass a = ProbeReadOnly) \<and>
        rq_Evidence (aq_EffectiveRequest r') = rq_Evidence (aq_EffectiveRequest r) @ added \<and>
        sum_list (map pa_ObservationCount new) = length added \<and>
        (\<forall>ob \<in> set added. acquired_from ps ob \<and>
           ob_ObservedAt ob \<le> rq_RequestedAt (aq_EffectiveRequest r')))"

lemma extends_refl: "extends ev ps k r r"
  by (auto simp: extends_def)

lemma extends_trans:
  assumes "extends ev ps k r r'" and "extends ev ps l r' r''"
  shows "extends ev ps (k + l) r r''"
proof -
  from assms(1) obtain new added where 1: "aq_Attempts r' = aq_Attempts r @ new"
    "length (filter (\<lambda>a. \<not> pa_Skipped a) new) \<le> k"
    "\<forall>a \<in> set new. \<not> pa_Skipped a \<longrightarrow> pa_SafetyClass a = ProbeReadOnly"
    "rq_Evidence (aq_EffectiveRequest r') = rq_Evidence (aq_EffectiveRequest r) @ added"
    "sum_list (map pa_ObservationCount new) = length added"
    "\<forall>ob \<in> set added. acquired_from ps ob \<and> ob_ObservedAt ob \<le> rq_RequestedAt (aq_EffectiveRequest r')"
    unfolding extends_def by blast
  from assms(2) obtain new' added' where 2: "aq_Attempts r'' = aq_Attempts r' @ new'"
    "length (filter (\<lambda>a. \<not> pa_Skipped a) new') \<le> l"
    "\<forall>a \<in> set new'. \<not> pa_Skipped a \<longrightarrow> pa_SafetyClass a = ProbeReadOnly"
    "rq_Evidence (aq_EffectiveRequest r'') = rq_Evidence (aq_EffectiveRequest r') @ added'"
    "sum_list (map pa_ObservationCount new') = length added'"
    "\<forall>ob \<in> set added'. acquired_from ps ob \<and> ob_ObservedAt ob \<le> rq_RequestedAt (aq_EffectiveRequest r'')"
    unfolding extends_def by blast
  have later: "rq_RequestedAt (aq_EffectiveRequest r') \<le> rq_RequestedAt (aq_EffectiveRequest r'')"
    using assms(2) by (simp add: extends_def)
  have "\<exists>n a. aq_Attempts r'' = aq_Attempts r @ n \<and>
      length (filter (\<lambda>a. \<not> pa_Skipped a) n) \<le> k + l \<and>
      (\<forall>x \<in> set n. \<not> pa_Skipped x \<longrightarrow> pa_SafetyClass x = ProbeReadOnly) \<and>
      rq_Evidence (aq_EffectiveRequest r'') = rq_Evidence (aq_EffectiveRequest r) @ a \<and>
      sum_list (map pa_ObservationCount n) = length a \<and>
      (\<forall>ob \<in> set a. acquired_from ps ob \<and> ob_ObservedAt ob \<le> rq_RequestedAt (aq_EffectiveRequest r''))"
    using 1 2 later by (intro exI [of _ "new @ new'"] exI [of _ "added @ added'"]) fastforce
  with assms show ?thesis by (simp add: extends_def)
qed

lemma extends_mono:
  assumes "extends ev ps k r r'" and "set ps \<subseteq> set qs" and "k \<le> l"
  shows "extends ev qs l r r'"
proof -
  have "acquired_from ps ob \<Longrightarrow> acquired_from qs ob" for ob
    using assms(2) unfolding acquired_from_def by blast
  then show ?thesis using assms(1,3) unfolding extends_def by (meson le_trans)
qed

lemma latestObservationTime_Cons:
  "latestObservationTime current (ob # obs) = latestObservationTime (max current (ob_ObservedAt ob)) obs"
  by (simp add: latestObservationTime_def max_def)

lemma latestObservationTime_ge:
  "current \<le> latestObservationTime current obs \<and>
   (\<forall>ob \<in> set obs. ob_ObservedAt ob \<le> latestObservationTime current obs)"
proof (induction obs arbitrary: current)
  case (Cons ob obs)
  have "max current (ob_ObservedAt ob) \<le> latestObservationTime (max current (ob_ObservedAt ob)) obs"
    using Cons.IH by blast
  with Cons.IH [of "max current (ob_ObservedAt ob)"] show ?case
    by (simp add: latestObservationTime_Cons)
qed (simp add: latestObservationTime_def)

text \<open>The iterations.\<close>

lemma add_attempt_request [simp]: "aq_EffectiveRequest (add_attempt r a) = aq_EffectiveRequest r"
  by (simp add: add_attempt_def)

lemma request_frameD:
  assumes "request_frame q = request_frame req"
  shows "rq_MaxEvidenceAge q = rq_MaxEvidenceAge req" "rq_Action q = rq_Action req"
    "rq_RequiredSourceCount q = rq_RequiredSourceCount req" "rq_Target q = rq_Target req"
  using assms by (cases q; cases req; simp add: request_frame_def)+

lemma extends_skip:
  "pa_Skipped a \<Longrightarrow> pa_ObservationCount a = 0 \<Longrightarrow> extends ev ps k r (add_attempt r a)"
  by (auto simp: extends_def add_attempt_def)

lemma extends_failed:
  "pa_SafetyClass a = ProbeReadOnly \<Longrightarrow> pa_ObservationCount a = 0 \<Longrightarrow>
   extends ev ps (Suc 0) r (add_attempt r a)"
  by (auto simp: extends_def add_attempt_def)

lemma extends_absorb:
  assumes "\<forall>ob \<in> set (po_Evidence outcome). acquired_from ps ob"
    and "pa_SafetyClass a = ProbeReadOnly" and "pa_ObservationCount a = length (po_Evidence outcome)"
  shows "extends ev ps (Suc 0) r ((add_attempt r a)
    \<lparr>aq_EffectiveRequest := absorb (aq_EffectiveRequest r) outcome,
     aq_Final := ev (absorb (aq_EffectiveRequest r) outcome)\<rparr>)"
  unfolding extends_def
  using assms latestObservationTime_ge [of "rq_RequestedAt (aq_EffectiveRequest r)" "po_Evidence outcome"]
  by (simp add: add_attempt_def absorb_def request_frame_def)

lemma probe_step_extends:
  assumes "probe_step ev stop cancelled M p r n s = (f, r', n', s')" and "Some p \<in> set ps" and "n \<le> M"
  shows "n \<le> n' \<and> n' \<le> M \<and> extends ev ps (nat (n' - n)) r r'"
proof -
  have from_p: "\<forall>ob \<in> set (po_Evidence outcome). acquired_from ps ob"
    if "pb_SafetyClass p = ProbeReadOnly" and "pb_Acquire p req w = (Inr outcome, w')"
      and "validateProbeOutcome outcome = None" for req outcome w w'
    unfolding acquired_from_def using assms(2) that by blast
  show ?thesis
    using assms(1,3)
    by (auto simp: probe_step_def Let_def new_attempt_def extends_refl extends_skip extends_failed
          extends_absorb [OF from_p]
        split: if_splits prod.splits sum.splits option.splits)
qed

lemma probe_loop_extends:
  "probe_loop ev stop cancelled M n ps r s = (r', s') \<Longrightarrow> n \<le> M \<Longrightarrow> extends ev ps (nat (M - n)) r r'"
proof (induction ev stop cancelled M n ps r s arbitrary: r' s' rule: probe_loop.induct)
  case (1 ev stop cancelled M n r s)
  then show ?case by (simp add: extends_refl)
next
  case (2 ev stop cancelled M n ps r s)
  then show ?case by (auto intro: extends_mono)
next
  case (3 ev stop cancelled M n p ps r s)
  obtain f r1 n1 s1 where step: "probe_step ev stop cancelled M p r n s = (f, r1, n1, s1)"
    using prod_cases4 by blast
  have n1: "n \<le> n1" "n1 \<le> M" and ext: "extends ev (Some p # ps) (nat (n1 - n)) r r1"
    using probe_step_extends [OF step, of "Some p # ps"] "3.prems" by simp_all
  show ?case
  proof (cases f)
    case True
    then have "r' = r1" using "3.prems" step by simp
    with ext n1 show ?thesis by (auto intro: extends_mono)
  next
    case False
    then have "extends ev ps (nat (M - n1)) r1 r'"
      using "3.IH" [OF step [symmetric]] "3.prems" step n1 by simp
    from extends_trans [OF ext extends_mono [OF this]]
    have "extends ev (Some p # ps) (nat (n1 - n) + nat (M - n1)) r r'" by auto
    moreover have "nat (n1 - n) + nat (M - n1) = nat (M - n)" using n1 by simp
    ultimately show ?thesis by simp
  qed
qed

text \<open>
  \<open>ResolveUnknown\<close> is bounded and honest: it performs at most \<open>maxAttempts\<close> acquisitions, all
  through read-only probes; the final result is the evaluation of the effective request; the
  effective evidence is the original evidence followed by observations that accepted outcomes of
  the given read-only probes contain, as many as the attempts report; no observation is later
  than the effective request time; nothing else of the request is changed.
\<close>

theorem ResolveUnknown_bounded:
  assumes "ResolveUnknown eval sha cancelled req probes maxAttempts s = (r, s')"
  shows "length (filter (\<lambda>a. \<not> pa_Skipped a) (aq_Attempts r)) \<le> nat maxAttempts \<and>
    (\<forall>a \<in> set (aq_Attempts r). \<not> pa_Skipped a \<longrightarrow> pa_SafetyClass a = ProbeReadOnly) \<and>
    aq_Initial r = Evaluate eval sha req \<and>
    aq_Final r = Evaluate eval sha (aq_EffectiveRequest r) \<and>
    request_frame (aq_EffectiveRequest r) = request_frame req \<and>
    (\<exists>added. rq_Evidence (aq_EffectiveRequest r) = rq_Evidence req @ added \<and>
       length added = sum_list (map pa_ObservationCount (aq_Attempts r)) \<and>
       (\<forall>ob \<in> set added. acquired_from probes ob \<and>
          ob_ObservedAt ob \<le> rq_RequestedAt (aq_EffectiveRequest r)))"
proof -
  let ?r0 = "\<lparr>aq_Initial = Evaluate eval sha req, aq_Final = Evaluate eval sha req,
    aq_EffectiveRequest = req, aq_Attempts = []\<rparr>"
  have "extends (Evaluate eval sha) probes (nat maxAttempts) ?r0 r"
    using assms probe_loop_extends [of "Evaluate eval sha" _ cancelled maxAttempts 0 probes ?r0 s r s']
    by (auto simp: ResolveUnknown_def Let_def extends_refl split: if_splits)
  then show ?thesis unfolding extends_def by fastforce
qed

text \<open>
  A contradiction is never outvoted: when the evidence of the request is contradictory and
  \<open>ReconcileContradiction\<close> ends with an authorization after all, the authorization rests on
  evidence that was newly acquired from read-only probes only, which is consistent, fresh, and
  from enough distinct sources; the authorization's digest is the digest of that evidence.
\<close>

theorem ReconcileContradiction_fresh:
  assumes "ReconcileContradiction eval sha cancelled req probes maxAttempts s = (r, s')"
    and "isContradicted (Evaluate eval sha req)"
    and "rs_Authorization (aq_Final r) = Some auth"
  shows "let obs = rq_Evidence (aq_EffectiveRequest r) in
    list_all (acquired_from probes) obs \<and> consistent obs \<and>
    (\<forall>ob \<in> set obs. time_sub (rq_RequestedAt (aq_EffectiveRequest r)) (ob_ObservedAt ob)
       \<le> rq_MaxEvidenceAge req) \<and>
    rq_RequiredSourceCount req \<le> int (card (ob_Source ` set obs - {[]})) \<and>
    au_EvidenceDigest auth = DigestEvidence sha obs \<and>
    au_Action auth = rq_Action req \<and> au_Target auth = rq_Target req"
proof -
  let ?E = "Evaluate eval sha"
  let ?fresh = "req\<lparr>rq_Evidence := []\<rparr>"
  let ?r0 = "\<lparr>aq_Initial = ?E req, aq_Final = ?E ?fresh, aq_EffectiveRequest = ?fresh, aq_Attempts = []\<rparr>"
  have no_auth: "isContradicted res \<Longrightarrow> rs_Authorization res = None" if "res = ?E req" for res
    using that Evaluate_allows [of eval req sha] Evaluate_refuses [of eval req sha]
    by (cases "passes_gates eval req") (auto simp: isContradicted_def allow_result_def)
  have "0 < maxAttempts"
    using assms no_auth by (auto simp: ReconcileContradiction_def Let_def split: if_splits)
  then have ext: "extends ?E probes (nat maxAttempts) ?r0 r"
    using assms probe_loop_extends [of ?E _ cancelled maxAttempts 0 probes ?r0 s r s']
    by (auto simp: ReconcileContradiction_def Let_def split: if_splits)
  define q where "q = aq_EffectiveRequest r"
  have final: "aq_Final r = ?E q" and frame: "request_frame q = request_frame req"
    and obs: "list_all (acquired_from probes) (rq_Evidence q)"
    using ext by (auto simp: extends_def q_def list_all_iff request_frame_def)
  have "passes_gates eval q"
    using assms(3) final Evaluate_refuses [of eval q sha] by fastforce
  moreover from this have "aq_Final r = allow_result sha q"
    using final Evaluate_allows by metis
  moreover have "rq_MaxEvidenceAge q = rq_MaxEvidenceAge req" "rq_Action q = rq_Action req"
    "rq_RequiredSourceCount q = rq_RequiredSourceCount req" "rq_Target q = rq_Target req"
    using request_frameD [OF frame] by simp_all
  ultimately show ?thesis
    using assms(3) obs unfolding q_def [symmetric] Let_def
    by (auto simp: passes_gates_def allow_result_def list_all_iff)
qed

section \<open>Validation of an authorization\<close>

text \<open>
  What the validation relies on of EASL: when an evaluation is returned, every state binding that
  an assumption requires and whose observed value differs from the expected one is reported as an
  invalidation of that assumption by a changed subject state.
\<close>

definition reports_state_changes :: "easl_eval \<Rightarrow> bool" where
  "reports_state_changes eval \<longleftrightarrow>
     (\<forall>sn ev. eval sn = Inr ev \<longrightarrow>
        (\<forall>a \<in> set (es_Assumptions sn). \<forall>b \<in> set (es_StateBindings sn).
           eb_ID b \<in> set (ea_RequiresStateBindings a) \<and> eb_Expected b \<noteq> eb_Observed b \<longrightarrow>
           (\<exists>i \<in> set (ev_Invalidations ev). ei_AssumptionID i = ea_ID a \<and>
              ei_Reason i = ReasonSubjectStateChanged \<and> ei_StateBindingID i = eb_ID b)))"

lemma reports_changed:
  assumes "reports_state_changes eval" and "eval (authorization_snapshot now bs) = Inr ev"
    and "b \<in> set bs" and "eb_Expected b \<noteq> eb_Observed b"
  shows "invalidation_reasons ev \<noteq> []"
proof -
  let ?a = "\<lparr>ea_ID = authorizationStateAssumption, ea_Requires = [], ea_DependsOn = [],
    ea_RequiresStateBindings = map eb_ID bs, ea_ValidUntil = None\<rparr>"
  have "\<exists>i \<in> set (ev_Invalidations ev). ei_AssumptionID i = ea_ID ?a \<and>
      ei_Reason i = ReasonSubjectStateChanged \<and> ei_StateBindingID i = eb_ID b"
    using assms(1) [unfolded reports_state_changes_def, rule_format, OF assms(2), of ?a b] assms(3,4)
    by (simp add: authorization_snapshot_def)
  then show ?thesis
    by (auto simp: invalidation_reasons_def filter_empty_conv)
qed

lemma state_bindings_valid:
  assumes "reports_state_changes eval" and "validateAuthorizationStateBindings eval auth attempt = []"
  shows "at_ResourceVersion attempt = au_ResourceVersion auth \<and>
    (au_PlanDigest auth \<noteq> [] \<longrightarrow> at_PlanDigest attempt = au_PlanDigest auth)"
  using assms(2) reports_changed [OF assms(1)]
  by (fastforce simp: validateAuthorizationStateBindings_def Let_def state_binding_def
      split: if_splits sum.splits)

text \<open>
  C25. Validation fails closed: with an EASL runtime that reports changed state bindings, an
  authorization is valid for an execution attempt only if the time is known and before the expiry,
  the action, its identifier and its target are those authorized, the observed resource version
  is the authorized one, and, where the authorization binds a plan digest, the attempt presents
  the same digest. A failing runtime never yields a valid authorization when something is bound.
\<close>

theorem ValidateAuthorization_exact:
  assumes "reports_state_changes eval" and "av_Valid (ValidateAuthorization eval auth attempt)"
  shows "at_Now attempt \<noteq> 0 \<and> at_Now attempt < au_ValidUntil auth \<and>
    at_Action attempt = au_Action auth \<and> at_ActionID attempt = au_ActionID auth \<and>
    at_Target attempt = au_Target auth \<and>
    at_ResourceVersion attempt = au_ResourceVersion auth \<and>
    (au_PlanDigest auth \<noteq> [] \<longrightarrow> at_PlanDigest attempt = au_PlanDigest auth) \<and>
    (au_ResourceVersion auth \<noteq> [] \<or> au_PlanDigest auth \<noteq> [] \<longrightarrow> (\<exists>sn ev. eval sn = Inr ev))"
proof -
  have ok: "CheckValidity (au_ValidUntil auth) (at_Now attempt) = None"
    "validateAuthorizationStateBindings eval auth attempt = []"
    "at_Action attempt = au_Action auth" "at_ActionID attempt = au_ActionID auth"
    "at_Target attempt = au_Target auth"
    using assms(2) by (auto simp: ValidateAuthorization_def Let_def split: if_splits)
  moreover note state = state_bindings_valid [OF assms(1) ok(2)]
  moreover have "\<exists>sn ev. eval sn = Inr ev"
    if "au_ResourceVersion auth \<noteq> [] \<or> au_PlanDigest auth \<noteq> []"
    using ok(2) that state
    by (auto simp: validateAuthorizationStateBindings_def Let_def split: if_splits sum.splits)
  ultimately show ?thesis
    by (auto simp: CheckValidity_def split: if_splits)
qed

section \<open>Witnesses\<close>

text \<open>
  A reference evaluation of state bindings, and requests, observations and probes on which the
  theorems above are exercised.
\<close>

definition easl_bindings_only :: easl_eval where
  "easl_bindings_only sn =
     Inr \<lparr>ev_State = StateValid, ev_EvidenceStatus = EvidenceInsufficient,
       ev_Invalidations =
         concat (map (\<lambda>a. map (\<lambda>b. \<lparr>ei_AssumptionID = ea_ID a, ei_Reason = ReasonSubjectStateChanged,
                                  ei_StateBindingID = eb_ID b\<rparr>)
             (filter (\<lambda>b. eb_ID b \<in> set (ea_RequiresStateBindings a) \<and> eb_Expected b \<noteq> eb_Observed b)
                (es_StateBindings sn))) (es_Assumptions sn))\<rparr>"

lemma easl_bindings_only_reports: "reports_state_changes easl_bindings_only"
  by (auto simp: reports_state_changes_def easl_bindings_only_def)

definition demo_observation :: "string \<Rightarrow> string \<Rightarrow> observation" where
  "demo_observation src v = \<lparr>ob_Claim = ''ready'', ob_Source = src, ob_Value = v, ob_ObservedAt = 5\<rparr>"

definition demo_request :: "observation list \<Rightarrow> request" where
  "demo_request obs = \<lparr>rq_ActionID = ''i'', rq_Action = ''drain'', rq_Target = ''n'',
     rq_ResourceVersion = ''1'', rq_RequestedAt = 6, rq_AuthorizationTTL = 9, rq_MaxEvidenceAge = 9,
     rq_RequiredSourceCount = 1, rq_BlastRadius = 0, rq_MaxBlastRadius = 0, rq_Evidence = obs,
     rq_EpistemicSnapshot = None\<rparr>"

definition demo_probe :: "unit probe" where
  "demo_probe = \<lparr>pb_Name = ''p'', pb_SafetyClass = ProbeReadOnly,
     pb_Supports = (\<lambda>_ _ s. (True, s)),
     pb_Acquire = (\<lambda>_ s. (Inr \<lparr>po_Evidence = [demo_observation ''s'' ''yes''],
                              po_ResourceVersion = ''2''\<rparr>, s))\<rparr>"

lemmas demo_defs = demo_observation_def demo_request_def demo_probe_def
lemmas demo_time = time_sub_def max_duration_def min_duration_def

theorem Evaluate_order_independent_witness:
  "Evaluate easl_bindings_only id (demo_request [demo_observation ''t'' ''yes'', demo_observation ''s'' ''yes'']) =
   Evaluate easl_bindings_only id (demo_request [demo_observation ''s'' ''yes'', demo_observation ''t'' ''yes''])"
  using Evaluate_order_independent
    [of "demo_request [demo_observation ''s'' ''yes'', demo_observation ''t'' ''yes'']"
        "[demo_observation ''t'' ''yes'', demo_observation ''s'' ''yes'']" easl_bindings_only id]
  by (simp add: demo_request_def)

theorem DigestEvidence_binds_witness:
  "mset (map observation_fields [demo_observation ''s'' ''yes'', demo_observation ''t'' ''no'']) =
   mset (map observation_fields [demo_observation ''t'' ''no'', demo_observation ''s'' ''yes''])"
  by (rule DigestEvidence_binds [where sha = id])
    (simp_all add: DigestEvidence_mset separator_free_def demo_observation_def)

theorem ResolveUnknown_bounded_witness:
  "length (filter (\<lambda>a. \<not> pa_Skipped a)
     (aq_Attempts (fst (ResolveUnknown easl_bindings_only id (\<lambda>s. (False, s)) (demo_request [])
        [Some demo_probe, None, Some demo_probe] 1 ())))) \<le> 1"
  using ResolveUnknown_bounded [OF prod.collapse [symmetric],
      of easl_bindings_only id "\<lambda>s. (False, s)" "demo_request []" "[Some demo_probe, None, Some demo_probe]" 1 "()"]
  by simp

theorem ReconcileContradiction_fresh_witness:
  "let req = demo_request [demo_observation ''s'' ''yes'', demo_observation ''s'' ''no''];
       r = fst (ReconcileContradiction easl_bindings_only id (\<lambda>s. (False, s)) req [Some demo_probe] 1 ())
   in list_all (acquired_from [Some demo_probe]) (rq_Evidence (aq_EffectiveRequest r)) \<and>
      rs_Decision (aq_Final r) = Allow"
proof -
  define req where "req = demo_request [demo_observation ''s'' ''yes'', demo_observation ''s'' ''no'']"
  define r where "r = fst (ReconcileContradiction easl_bindings_only id (\<lambda>s. (False, s)) req
    [Some demo_probe] 1 ())"
  have run: "ReconcileContradiction easl_bindings_only id (\<lambda>s. (False, s)) req [Some demo_probe] 1 () =
      (r, snd (ReconcileContradiction easl_bindings_only id (\<lambda>s. (False, s)) req [Some demo_probe] 1 ()))"
    unfolding r_def by (rule prod.collapse [symmetric])
  have contr: "isContradicted (Evaluate easl_bindings_only id req)"
    by (simp add: isContradicted_def Evaluate_def req_def demo_defs demo_time)
  define q where "q = absorb (req\<lparr>rq_Evidence := []\<rparr>)
    \<lparr>po_Evidence = [demo_observation ''s'' ''yes''], po_ResourceVersion = ''2''\<rparr>"
  have "validateProbeOutcome \<lparr>po_Evidence = [demo_observation ''s'' ''yes''], po_ResourceVersion = ''2''\<rparr> = None"
    by (simp add: validateProbeOutcome_def demo_observation_def)
  then have "aq_Final r = Evaluate easl_bindings_only id q"
    using contr
    by (simp add: r_def ReconcileContradiction_def probe_step_def q_def demo_probe_def Let_def)
  moreover have "rs_Decision (Evaluate easl_bindings_only id q) = Allow \<and>
      rs_Authorization (Evaluate easl_bindings_only id q) \<noteq> None"
    by (simp add: Evaluate_def q_def req_def absorb_def latestObservationTime_def source_labels_def
        demo_defs demo_time)
  ultimately have allowed: "rs_Decision (aq_Final r) = Allow \<and> rs_Authorization (aq_Final r) \<noteq> None"
    by simp
  then obtain auth where "rs_Authorization (aq_Final r) = Some auth" by auto
  from ReconcileContradiction_fresh [OF run contr this] allowed
  show ?thesis unfolding req_def [symmetric] r_def [symmetric] Let_def by simp
qed

theorem ValidateAuthorization_exact_witness:
  "let auth = \<lparr>au_ActionID = ''i'', au_Action = ''drain'', au_Target = ''n'', au_ResourceVersion = ''1'',
         au_EvidenceDigest = [], au_PlanDigest = ''p'', au_AuthorityDomain = [], au_AuthorityTerm = 0,
         au_DecisionEpoch = 0, au_RevocationEpoch = 0, au_TargetIdentity = [],
         au_StateBindingDigest = [], au_ValidUntil = 10\<rparr>;
       attempt = \<lparr>at_ActionID = ''i'', at_Action = ''drain'', at_Target = ''n'',
         at_ResourceVersion = ''1'', at_PlanDigest = ''p'', at_Now = 7\<rparr>
   in av_Valid (ValidateAuthorization easl_bindings_only auth attempt) \<and> at_Now attempt < au_ValidUntil auth"
  (is "let auth = ?auth; attempt = ?attempt in _")
proof -
  have valid: "av_Valid (ValidateAuthorization easl_bindings_only ?auth ?attempt)"
    by (simp add: ValidateAuthorization_def validateAuthorizationStateBindings_def CheckValidity_def
        easl_bindings_only_def authorization_snapshot_def state_binding_def invalidation_reasons_def)
  from ValidateAuthorization_exact [OF easl_bindings_only_reports valid] valid
  show ?thesis by simp
qed

end
