(* ===== verification/Effect_Runtime.thy ===== *)
theory Effect_Runtime
  imports Boundary
begin

text \<open>
  The reference effect runtime of \<open>governedaction/runtime\<close> (\<open>runtime.go\<close>, \<open>recovery.go\<close>): exact
  identities, states, attestations and transitions, the length-prefixed binding digests, one
  bounded attempt (\<open>Run\<close>) around the dispatch protocol of \<open>Boundary\<close>, and the observation-only
  continuation (\<open>Recover\<close>). An adapter is a record of callbacks over a world \<open>'s\<close> with errors
  \<open>'e\<close>; SHA-256 is the parameter \<open>sha\<close>.
\<close>

section \<open>Primitives (runtime.go)\<close>

record identity =
  idn_ID :: string
  idn_Kind :: string

record eff_state =
  st_Target :: string
  st_Revision :: string
  st_Digest :: string

record attestation =
  as_ID :: string
  as_Issuer :: identity
  as_BindingDigest :: string

record transition =
  tr_Operation :: string
  tr_From :: eff_state
  tr_To :: eff_state

record effect_request =
  er_Subject :: identity
  er_Executor :: identity
  er_Current :: eff_state
  er_Admission :: attestation
  er_Transition :: transition
  er_AttemptID :: string

record custody =
  cu_EffectID :: string
  cu_AttemptID :: string
  cu_Target :: string
  cu_Owner :: identity

record acceptance =
  ac_Reference :: string

record effect_observation =
  eo_State :: eff_state
  eo_Attestation :: attestation

definition Identity_Complete :: "identity \<Rightarrow> bool" where
  "Identity_Complete i \<longleftrightarrow> \<not> blank (idn_ID i) \<and> \<not> blank (idn_Kind i)"

definition State_Complete :: "eff_state \<Rightarrow> bool" where
  "State_Complete s \<longleftrightarrow> \<not> blank (st_Target s) \<and> \<not> blank (st_Revision s) \<and> \<not> blank (st_Digest s)"

definition State_Equal :: "eff_state \<Rightarrow> eff_state \<Rightarrow> bool" where
  "State_Equal s t \<longleftrightarrow>
     st_Target s = st_Target t \<and> st_Revision s = st_Revision t \<and> st_Digest s = st_Digest t"

definition Attestation_Complete :: "attestation \<Rightarrow> bool" where
  "Attestation_Complete a \<longleftrightarrow>
     \<not> blank (as_ID a) \<and> Identity_Complete (as_Issuer a) \<and> \<not> blank (as_BindingDigest a)"

definition Transition_Complete :: "transition \<Rightarrow> bool" where
  "Transition_Complete t \<longleftrightarrow>
     \<not> blank (tr_Operation t) \<and> State_Complete (tr_From t) \<and> State_Complete (tr_To t)"

definition Identity_Equal :: "identity \<Rightarrow> identity \<Rightarrow> bool" where
  "Identity_Equal i j \<longleftrightarrow> idn_ID i = idn_ID j \<and> idn_Kind i = idn_Kind j"

datatype 'e runtime_error =
    ErrMissingAdapter
  | ErrIncompleteRequest
  | ErrTransitionBinding
  | ErrAdmissionBinding
  | ErrStateChanged
  | ErrObservationBinding
  | ErrObservedStateMismatch
  | ErrIncompleteObservation
  | ErrMissingRecoveryAdapter
  | ErrMissingRecoveryCustody
  | ErrRecoveryCustodyMismatch
  | ErrRecoveryBinding
  | ErrIncompleteRecoveryRequest
  | AdapterError 'e
  | DispatchError "'e runtime_error prepare_error"

section \<open>Binding digests\<close>

text \<open>\<open>binary.BigEndian.PutUint64\<close> of a length, then the bytes themselves, for each part.\<close>

fun be_bytes :: "nat \<Rightarrow> nat \<Rightarrow> string" where
  "be_bytes 0 n = []"
| "be_bytes (Suc k) n = be_bytes k (n div 256) @ [char_of (n mod 256)]"

definition frame_parts :: "string list \<Rightarrow> string" where
  "frame_parts parts = concat (map (\<lambda>p. be_bytes 8 (length p) @ p) parts)"

definition digest :: "(string \<Rightarrow> string) \<Rightarrow> string list \<Rightarrow> string" where
  "digest sha parts = sha256_tag sha (frame_parts parts)"

definition binding_parts :: "effect_request \<Rightarrow> string \<Rightarrow> string list" where
  "binding_parts req domain =
     [domain, idn_ID (er_Subject req), idn_Kind (er_Subject req),
      st_Target (er_Current req), st_Revision (er_Current req), st_Digest (er_Current req),
      tr_Operation (er_Transition req),
      st_Revision (tr_To (er_Transition req)), st_Digest (tr_To (er_Transition req))]"

definition requestBinding ::
  "(string \<Rightarrow> string) \<Rightarrow> effect_request \<Rightarrow> string \<Rightarrow> 'e runtime_error + string" where
  "requestBinding sha req domain =
     (if \<not> Identity_Complete (er_Subject req) \<or> \<not> State_Complete (er_Current req) \<or>
         \<not> Transition_Complete (er_Transition req) \<or>
         \<not> State_Equal (tr_From (er_Transition req)) (er_Current req) \<or>
         st_Target (tr_To (er_Transition req)) \<noteq> st_Target (er_Current req)
      then Inl ErrTransitionBinding
      else Inr (digest sha (binding_parts req domain)))"

definition EffectIdentity :: "(string \<Rightarrow> string) \<Rightarrow> effect_request \<Rightarrow> 'e runtime_error + string" where
  "EffectIdentity sha req = requestBinding sha req ''effect-v0''"

definition AdmissionBindingDigest ::
  "(string \<Rightarrow> string) \<Rightarrow> effect_request \<Rightarrow> 'e runtime_error + string" where
  "AdmissionBindingDigest sha req = requestBinding sha req ''admission-v0''"

definition ObservationBindingDigest :: "(string \<Rightarrow> string) \<Rightarrow> string \<Rightarrow> eff_state \<Rightarrow> string" where
  "ObservationBindingDigest sha effectID observed =
     digest sha [''observation-v0'', effectID, st_Target observed, st_Revision observed,
       st_Digest observed]"

definition validateRequest ::
  "(string \<Rightarrow> string) \<Rightarrow> effect_request \<Rightarrow> 'e runtime_error option" where
  "validateRequest sha req =
     (if \<not> Identity_Complete (er_Subject req) \<or> \<not> Identity_Complete (er_Executor req) \<or>
         \<not> State_Complete (er_Current req) \<or> \<not> Attestation_Complete (er_Admission req) \<or>
         \<not> Transition_Complete (er_Transition req) \<or> blank (er_AttemptID req)
      then Some ErrIncompleteRequest
      else if \<not> State_Equal (tr_From (er_Transition req)) (er_Current req) \<or>
         st_Target (tr_To (er_Transition req)) \<noteq> st_Target (er_Current req)
      then Some ErrTransitionBinding
      else case AdmissionBindingDigest sha req of
        Inl e \<Rightarrow> Some e
      | Inr expected \<Rightarrow>
          (if as_BindingDigest (er_Admission req) \<noteq> expected then Some ErrAdmissionBinding else None))"

section \<open>One attempt: Run\<close>

datatype disposition = DispositionRejected | DispositionUnknown | DispositionClosed

type_synonym ('s, 'e) verifier = "attestation \<Rightarrow> string \<Rightarrow> 's \<Rightarrow> 'e option \<times> 's"

record ('s, 'e) adapter =
  ad_CurrentState :: "string \<Rightarrow> 's \<Rightarrow> ('e + eff_state) \<times> 's"
  ad_VerifyAttestation :: "('s, 'e) verifier"
  ad_RetainCustody :: "custody \<Rightarrow> 's \<Rightarrow> 'e option \<times> 's"
  ad_Execute :: "transition \<Rightarrow> custody \<Rightarrow> 's \<Rightarrow> (acceptance \<times> 'e option) \<times> 's"
  ad_Observe :: "transition \<Rightarrow> custody \<Rightarrow> 's \<Rightarrow> (effect_observation \<times> 'e option) \<times> 's"

record 'e effect_result =
  fx_Disposition :: disposition
  fx_EffectID :: string
  fx_AttemptID :: string
  fx_CustodyRecorded :: bool
  fx_BoundaryEntered :: bool
  fx_Acceptance :: acceptance
  fx_Observation :: effect_observation
  fx_Cause :: "'e runtime_error option"
  fx_EffectError :: "'e runtime_error option"
  fx_ObservationError :: "'e option"

text \<open>The zero values of the structs.\<close>

definition zero_state :: eff_state where
  "zero_state = \<lparr>st_Target = [], st_Revision = [], st_Digest = []\<rparr>"

definition zero_observation :: effect_observation where
  "zero_observation = \<lparr>eo_State = zero_state,
     eo_Attestation = \<lparr>as_ID = [], as_Issuer = \<lparr>idn_ID = [], idn_Kind = []\<rparr>, as_BindingDigest = []\<rparr>\<rparr>"

definition new_result :: "string \<Rightarrow> 'e effect_result" where
  "new_result attempt = \<lparr>fx_Disposition = DispositionRejected, fx_EffectID = [],
     fx_AttemptID = attempt, fx_CustodyRecorded = False, fx_BoundaryEntered = False,
     fx_Acceptance = \<lparr>ac_Reference = []\<rparr>, fx_Observation = zero_observation,
     fx_Cause = None, fx_EffectError = None, fx_ObservationError = None\<rparr>"

definition verifyObservation ::
  "(string \<Rightarrow> string) \<Rightarrow> string \<Rightarrow> eff_state \<Rightarrow> effect_observation \<Rightarrow> ('s, 'e) verifier \<Rightarrow> 's
    \<Rightarrow> 'e runtime_error option \<times> 's" where
  "verifyObservation sha effectID expected observation verify s =
     (if \<not> State_Complete (eo_State observation) \<or> \<not> Attestation_Complete (eo_Attestation observation)
      then (Some ErrIncompleteObservation, s)
      else let binding = ObservationBindingDigest sha effectID (eo_State observation) in
        if as_BindingDigest (eo_Attestation observation) \<noteq> binding
        then (Some ErrObservationBinding, s)
        else case verify (eo_Attestation observation) binding s of
          (Some e, s1) \<Rightarrow> (Some (AdapterError e), s1)
        | (None, s1) \<Rightarrow>
            (if \<not> State_Equal (eo_State observation) expected
             then (Some ErrObservedStateMismatch, s1) else (None, s1)))"

text \<open>The boundary check that \<open>Run\<close> passes to \<open>Dispatch\<close>.\<close>

definition run_check ::
  "(string \<Rightarrow> string) \<Rightarrow> effect_request \<Rightarrow> ('s, 'e) adapter \<Rightarrow> ('s, 'e runtime_error) err_call" where
  "run_check sha req adapter s =
     (case ad_CurrentState adapter (st_Target (er_Current req)) s of
        (Inl e, s1) \<Rightarrow> (Some (AdapterError e), s1)
      | (Inr current, s1) \<Rightarrow>
        (if \<not> State_Equal current (er_Current req) then (Some ErrStateChanged, s1)
         else case AdmissionBindingDigest sha req of
           Inl e \<Rightarrow> (Some e, s1)
         | Inr expected \<Rightarrow>
           (if as_BindingDigest (er_Admission req) \<noteq> expected then (Some ErrAdmissionBinding, s1)
            else case ad_VerifyAttestation adapter (er_Admission req) expected s1 of
              (err, s2) \<Rightarrow> (map_option AdapterError err, s2))))"

definition run_retain ::
  "custody \<Rightarrow> ('s, 'e) adapter \<Rightarrow> ('s, 'e runtime_error) err_call" where
  "run_retain custody adapter s =
     (case ad_RetainCustody adapter custody s of (err, s1) \<Rightarrow> (map_option AdapterError err, s1))"

definition run_effect ::
  "transition \<Rightarrow> custody \<Rightarrow> ('s, 'e) adapter \<Rightarrow> 's \<Rightarrow> (acceptance \<times> 'e runtime_error option) \<times> 's" where
  "run_effect t custody adapter s =
     (case ad_Execute adapter t custody s of
        ((acceptance, err), s1) \<Rightarrow> ((acceptance, map_option AdapterError err), s1))"

text \<open>The closure side that \<open>Run\<close> and \<open>Recover\<close> share: observe, then verify.\<close>

definition close_by_observation ::
  "(string \<Rightarrow> string) \<Rightarrow> string \<Rightarrow> transition \<Rightarrow> custody \<Rightarrow> ('s, 'e) adapter \<Rightarrow> 'e effect_result \<Rightarrow> 's
    \<Rightarrow> 'e effect_result \<times> 's" where
  "close_by_observation sha effectID t custody adapter r s =
     (case ad_Observe adapter t custody s of
        ((observation, observeErr), s1) \<Rightarrow>
          (let r = r\<lparr>fx_Disposition := DispositionUnknown, fx_Observation := observation,
                    fx_ObservationError := observeErr\<rparr> in
           case observeErr of
             Some e \<Rightarrow> (r\<lparr>fx_Cause := Some (AdapterError e)\<rparr>, s1)
           | None \<Rightarrow>
             (case verifyObservation sha effectID (tr_To t) observation (ad_VerifyAttestation adapter) s1 of
                (Some e, s2) \<Rightarrow> (r\<lparr>fx_Cause := Some e\<rparr>, s2)
              | (None, s2) \<Rightarrow> (r\<lparr>fx_Disposition := DispositionClosed, fx_Cause := None\<rparr>, s2))))"

definition request_custody :: "effect_request \<Rightarrow> string \<Rightarrow> custody" where
  "request_custody req effectID =
     \<lparr>cu_EffectID = effectID, cu_AttemptID = er_AttemptID req,
      cu_Target = st_Target (er_Current req), cu_Owner = er_Executor req\<rparr>"

text \<open>The dispatch of the effect of \<open>req\<close> through the ordering of \<open>Boundary\<close>.\<close>

definition run_dispatch ::
  "(string \<Rightarrow> string) \<Rightarrow> ('s, 'e) err_call \<Rightarrow> effect_request \<Rightarrow> ('s, 'e) adapter \<Rightarrow> custody \<Rightarrow> 's
    \<Rightarrow> (acceptance dispatch_result \<times> 'e runtime_error prepare_error option) \<times> 's" where
  "run_dispatch sha ctx req ad custody s =
     Dispatch \<lparr>ac_Reference = []\<rparr>
       (\<lambda>w. case ctx w of (err, w1) \<Rightarrow> (map_option AdapterError err, w1))
       (Some (run_check sha req ad)) (Some (run_retain custody ad))
       (Some (run_effect (er_Transition req) custody ad)) s"

definition Run ::
  "(string \<Rightarrow> string) \<Rightarrow> ('s, 'e) err_call \<Rightarrow> effect_request \<Rightarrow> ('s, 'e) adapter option \<Rightarrow> 's
    \<Rightarrow> 'e effect_result \<times> 's" where
  "Run sha ctx req adapter s =
     (let r = new_result (er_AttemptID req) in
      case adapter of
        None \<Rightarrow> (r\<lparr>fx_Cause := Some ErrMissingAdapter\<rparr>, s)
      | Some ad \<Rightarrow>
        (case validateRequest sha req of
           Some e \<Rightarrow> (r\<lparr>fx_Cause := Some e\<rparr>, s)
         | None \<Rightarrow>
           (case EffectIdentity sha req of
              Inl e \<Rightarrow> (r\<lparr>fx_Cause := Some e\<rparr>, s)
            | Inr effectID \<Rightarrow>
              (let custody = request_custody req effectID in
               case run_dispatch sha ctx req ad custody s of
                 ((dispatch, dispatchErr), s1) \<Rightarrow>
                   (let r = r\<lparr>fx_EffectID := effectID,
                             fx_CustodyRecorded := CustodyRecorded (Preparation dispatch),
                             fx_BoundaryEntered := BoundaryEntered dispatch,
                             fx_Acceptance := Value dispatch,
                             fx_EffectError := map_option DispatchError dispatchErr\<rparr> in
                    if \<not> BoundaryEntered dispatch
                    then (r\<lparr>fx_Cause := map_option DispatchError dispatchErr\<rparr>, s1)
                    else close_by_observation sha effectID (er_Transition req) custody ad r s1)))))"

section \<open>Observation-only recovery (recovery.go)\<close>

record recovery_request =
  rv_Original :: effect_request
  rv_Recoverer :: identity
  rv_RecoveryAuthorization :: attestation

definition RecoveryBindingDigest :: "(string \<Rightarrow> string) \<Rightarrow> custody \<Rightarrow> identity \<Rightarrow> string" where
  "RecoveryBindingDigest sha custody recoverer =
     digest sha [''recovery-v1'', cu_EffectID custody, cu_AttemptID custody, cu_Target custody,
       idn_ID (cu_Owner custody), idn_Kind (cu_Owner custody),
       idn_ID recoverer, idn_Kind recoverer]"

definition validateRecoveryRequest ::
  "(string \<Rightarrow> string) \<Rightarrow> recovery_request \<Rightarrow> 'e runtime_error option" where
  "validateRecoveryRequest sha req =
     (case validateRequest sha (rv_Original req) of
        Some e \<Rightarrow> Some e
      | None \<Rightarrow>
        (if \<not> Identity_Complete (rv_Recoverer req) \<or>
            \<not> Attestation_Complete (rv_RecoveryAuthorization req)
         then Some ErrIncompleteRecoveryRequest else None))"

definition validateRecoveredCustody ::
  "effect_request \<Rightarrow> string \<Rightarrow> custody \<Rightarrow> 'e runtime_error option" where
  "validateRecoveredCustody original effectID custody =
     (if blank (cu_EffectID custody) \<or> blank (cu_AttemptID custody) \<or> blank (cu_Target custody) \<or>
         \<not> Identity_Complete (cu_Owner custody)
      then Some ErrMissingRecoveryCustody
      else if cu_EffectID custody \<noteq> effectID \<or> cu_AttemptID custody \<noteq> er_AttemptID original \<or>
         cu_Target custody \<noteq> st_Target (er_Current original) \<or>
         \<not> Identity_Equal (cu_Owner custody) (er_Executor original)
      then Some ErrRecoveryCustodyMismatch
      else None)"

text \<open>
  A recovery adapter is an adapter with the custody lookup \<open>load\<close>; it is \<open>nil\<close> as a whole.
\<close>

definition Recover ::
  "(string \<Rightarrow> string) \<Rightarrow> recovery_request
    \<Rightarrow> (('s, 'e) adapter \<times> (string \<Rightarrow> string \<Rightarrow> 's \<Rightarrow> ('e + custody) \<times> 's)) option \<Rightarrow> 's
    \<Rightarrow> 'e effect_result \<times> 's" where
  "Recover sha req adapter s =
     (let original = rv_Original req; r = new_result (er_AttemptID original) in
      case adapter of
        None \<Rightarrow> (r\<lparr>fx_Cause := Some ErrMissingRecoveryAdapter\<rparr>, s)
      | Some (ad, load) \<Rightarrow>
        (case validateRecoveryRequest sha req of
           Some e \<Rightarrow> (r\<lparr>fx_Cause := Some e\<rparr>, s)
         | None \<Rightarrow>
           (case EffectIdentity sha original of
              Inl e \<Rightarrow> (r\<lparr>fx_Cause := Some e\<rparr>, s)
            | Inr effectID \<Rightarrow>
              (let r = r\<lparr>fx_EffectID := effectID\<rparr> in
               case load effectID (er_AttemptID original) s of
                 (Inl e, s1) \<Rightarrow> (r\<lparr>fx_Cause := Some (AdapterError e)\<rparr>, s1)
               | (Inr custody, s1) \<Rightarrow>
                 (case validateRecoveredCustody original effectID custody of
                    Some e \<Rightarrow> (r\<lparr>fx_Cause := Some e\<rparr>, s1)
                  | None \<Rightarrow>
                    (let r = r\<lparr>fx_CustodyRecorded := True\<rparr>;
                         expected = RecoveryBindingDigest sha custody (rv_Recoverer req) in
                     if as_BindingDigest (rv_RecoveryAuthorization req) \<noteq> expected
                     then (r\<lparr>fx_Cause := Some ErrRecoveryBinding\<rparr>, s1)
                     else case ad_VerifyAttestation ad (rv_RecoveryAuthorization req) expected s1 of
                       (Some e, s2) \<Rightarrow> (r\<lparr>fx_Cause := Some (AdapterError e)\<rparr>, s2)
                     | (None, s2) \<Rightarrow>
                       close_by_observation sha effectID (er_Transition original) custody ad r s2))))))"

section \<open>Framing\<close>

lemma length_be_bytes [simp]: "length (be_bytes k n) = k"
  by (induction k arbitrary: n) simp_all

lemma be_bytes_inj: "n < 256 ^ k \<Longrightarrow> m < 256 ^ k \<Longrightarrow> be_bytes k n = be_bytes k m \<Longrightarrow> n = m"
proof (induction k arbitrary: n m)
  case (Suc k)
  have last: "(char_of (n mod 256) :: char) = char_of (m mod 256)"
    and front: "be_bytes k (n div 256) = be_bytes k (m div 256)"
    using Suc.prems(3) by simp_all
  have "n mod 256 = m mod 256"
    using arg_cong [OF last, of "of_char :: char \<Rightarrow> nat"] by simp
  moreover have "n div 256 = m div 256"
    using Suc.prems(1,2) by (intro Suc.IH front) (simp_all add: less_mult_imp_div_less mult.commute)
  ultimately show ?case by (metis div_mod_decomp)
qed simp

text \<open>A Go string is shorter than \<open>2^63\<close> bytes.\<close>

definition go_strings :: "string list \<Rightarrow> bool" where
  "go_strings ps \<longleftrightarrow> list_all (\<lambda>p. length p < 2 ^ 63) ps"

lemma frame_parts_inj:
  "frame_parts ps = frame_parts qs \<Longrightarrow> go_strings ps \<Longrightarrow> go_strings qs \<Longrightarrow> ps = qs"
proof (induction ps arbitrary: qs)
  case Nil
  then show ?case by (cases qs) (simp_all add: frame_parts_def, metis length_be_bytes list.size(3) zero_neq_numeral)
next
  case (Cons p ps)
  obtain q qs' where qs: "qs = q # qs'"
    using Cons.prems(1) by (cases qs) (simp_all add: frame_parts_def, metis length_be_bytes list.size(3) zero_neq_numeral)
  have eq: "be_bytes 8 (length p) @ (p @ frame_parts ps) = be_bytes 8 (length q) @ (q @ frame_parts qs')"
    using Cons.prems(1) by (simp add: frame_parts_def qs)
  then have "be_bytes 8 (length p) = be_bytes 8 (length q)" and rest: "p @ frame_parts ps = q @ frame_parts qs'"
    by (simp_all add: append_eq_append_conv)
  then have "length p = length q"
    using Cons.prems by (intro be_bytes_inj [of _ 8]) (auto simp: go_strings_def qs)
  with rest have "p = q" and "frame_parts ps = frame_parts qs'"
    by (simp_all add: append_eq_append_conv)
  with Cons.IH [of qs'] Cons.prems qs show ?case by (simp add: go_strings_def)
qed

lemma digest_eqD:
  assumes "digest sha ps = digest sha qs"
    and "sha (frame_parts ps) = sha (frame_parts qs) \<longrightarrow> frame_parts ps = frame_parts qs"
    and "go_strings ps" and "go_strings qs"
  shows "ps = qs"
  using assms by (auto simp: digest_def sha256_tag_eq_iff intro: frame_parts_inj)

text \<open>What a logical effect is: subject, exact state before, operation, exact state after.\<close>

definition logical_effect :: "effect_request \<Rightarrow> identity \<times> eff_state \<times> transition" where
  "logical_effect req = (er_Subject req, er_Current req, er_Transition req)"

lemma requestBinding_Inr:
  "requestBinding sha req d = Inr x \<longleftrightarrow>
     Identity_Complete (er_Subject req) \<and> State_Complete (er_Current req) \<and>
     Transition_Complete (er_Transition req) \<and> tr_From (er_Transition req) = er_Current req \<and>
     st_Target (tr_To (er_Transition req)) = st_Target (er_Current req) \<and>
     x = digest sha (binding_parts req d)"
  by (auto simp: requestBinding_def State_Equal_def)

lemma binding_parts_effect:
  assumes "binding_parts r d = binding_parts r' d'"
    and "tr_From (er_Transition r) = er_Current r" and "tr_From (er_Transition r') = er_Current r'"
    and "st_Target (tr_To (er_Transition r)) = st_Target (er_Current r)"
    and "st_Target (tr_To (er_Transition r')) = st_Target (er_Current r')"
  shows "d = d' \<and> logical_effect r = logical_effect r'"
  using assms by (simp add: binding_parts_def logical_effect_def)

text \<open>
  The effect identity identifies exactly the logical effect: two requests (with Go-sized
  fields, and no SHA-256 collision between their framed texts) have the same identity if and only
  if they agree on the subject, the current state and the transition, whatever their admission
  attestations, executors and attempt identifiers; and an effect identity is never an admission
  binding, because the domains differ.
\<close>

theorem EffectIdentity_exact:
  assumes "EffectIdentity sha r = Inr x" and "EffectIdentity sha r' = Inr x'"
    and "AdmissionBindingDigest sha r' = Inr a'"
    and "\<And>ps qs. ps \<in> {binding_parts r ''effect-v0''} \<Longrightarrow>
      qs \<in> {binding_parts r' ''effect-v0'', binding_parts r' ''admission-v0''} \<Longrightarrow>
      go_strings ps \<and> go_strings qs \<and>
      (sha (frame_parts ps) = sha (frame_parts qs) \<longrightarrow> frame_parts ps = frame_parts qs)"
  shows "(x = x' \<longleftrightarrow> logical_effect r = logical_effect r') \<and> x \<noteq> a'"
proof -
  let ?p = "binding_parts r ''effect-v0''" and ?q = "binding_parts r' ''effect-v0''"
    and ?a = "binding_parts r' ''admission-v0''"
  have x: "x = digest sha ?p" "x' = digest sha ?q" "a' = digest sha ?a"
    and from_to: "tr_From (er_Transition r) = er_Current r" "tr_From (er_Transition r') = er_Current r'"
      "st_Target (tr_To (er_Transition r)) = st_Target (er_Current r)"
      "st_Target (tr_To (er_Transition r')) = st_Target (er_Current r')"
    using assms(1-3) by (simp_all add: EffectIdentity_def AdmissionBindingDigest_def requestBinding_Inr)
  have "?p = ?q" if "x = x'"
    using that assms(4) [of ?p ?q] unfolding x by (auto intro: digest_eqD)
  then have "x = x' \<Longrightarrow> logical_effect r = logical_effect r'"
    using binding_parts_effect [OF _ from_to] by blast
  moreover have "logical_effect r = logical_effect r' \<Longrightarrow> x = x'"
    unfolding x by (simp add: binding_parts_def logical_effect_def)
  moreover have "x \<noteq> a'"
  proof
    assume "x = a'"
    then have "?p = ?a"
      using assms(4) [of ?p ?a] unfolding x by (auto intro: digest_eqD)
    then show False by (simp add: binding_parts_def)
  qed
  ultimately show ?thesis by blast
qed

section \<open>Dispositions\<close>

lemma State_Equal_iff [simp]: "State_Equal s t \<longleftrightarrow> s = t"
  by (cases s; cases t) (auto simp: State_Equal_def)

lemma Identity_Equal_iff [simp]: "Identity_Equal i j \<longleftrightarrow> i = j"
  by (cases i; cases j) (auto simp: Identity_Equal_def)

text \<open>A trusted observation of exactly the intended after-state, with the verifier's verdict.\<close>

definition trusted_observation ::
  "(string \<Rightarrow> string) \<Rightarrow> string \<Rightarrow> eff_state \<Rightarrow> effect_observation \<Rightarrow> ('s, 'e) verifier \<Rightarrow> 's \<Rightarrow> 's \<Rightarrow> bool" where
  "trusted_observation sha effectID intended ob verify s s' \<longleftrightarrow>
     eo_State ob = intended \<and> State_Complete intended \<and> Attestation_Complete (eo_Attestation ob) \<and>
     as_BindingDigest (eo_Attestation ob) = ObservationBindingDigest sha effectID intended \<and>
     verify (eo_Attestation ob) (ObservationBindingDigest sha effectID intended) s = (None, s')"

lemma verifyObservation_None_iff:
  "verifyObservation sha effectID intended ob verify s = (None, s') \<longleftrightarrow>
     trusted_observation sha effectID intended ob verify s s'"
  by (auto simp: verifyObservation_def trusted_observation_def Let_def split: prod.splits option.splits)

lemma close_by_observation_Closed_iff:
  assumes "close_by_observation sha effectID t custody ad r s = (r', s')"
  shows "fx_Disposition r' = DispositionClosed \<longleftrightarrow>
    (\<exists>s1. ad_Observe ad t custody s = ((fx_Observation r', None), s1) \<and>
       trusted_observation sha effectID (tr_To t) (fx_Observation r') (ad_VerifyAttestation ad) s1 s')"
  using assms
  by (auto simp: close_by_observation_def Let_def verifyObservation_None_iff [symmetric]
      split: prod.splits option.splits)

lemma close_by_observation_frame:
  assumes "close_by_observation sha effectID t custody ad r s = (r', s')"
  shows "fx_Disposition r' \<noteq> DispositionRejected" "fx_EffectID r' = fx_EffectID r"
    "fx_BoundaryEntered r' = fx_BoundaryEntered r" "fx_CustodyRecorded r' = fx_CustodyRecorded r"
    "fx_Disposition r' = DispositionUnknown \<Longrightarrow> fx_Cause r' \<noteq> None"
    "fx_Disposition r' = DispositionClosed \<Longrightarrow> fx_Cause r' = None"
  using assms
  by (auto simp: close_by_observation_def Let_def split: prod.splits option.splits)

text \<open>
  The run got past the boundary and left the world \<open>s1\<close> after the dispatch; \<open>dispatched\<close> names the
  adapter and the effect identity it was dispatched under.
\<close>

definition dispatched ::
  "(string \<Rightarrow> string) \<Rightarrow> ('s, 'e) err_call \<Rightarrow> effect_request \<Rightarrow> ('s, 'e) adapter option \<Rightarrow> 's
    \<Rightarrow> ('s, 'e) adapter \<Rightarrow> string \<Rightarrow> 's \<Rightarrow> bool" where
  "dispatched sha ctx req adapter s ad effectID s1 \<longleftrightarrow>
     adapter = Some ad \<and> validateRequest sha req = (None :: 'e runtime_error option) \<and>
     EffectIdentity sha req = (Inr effectID :: 'e runtime_error + string) \<and>
     (\<exists>d err. run_dispatch sha ctx req ad (request_custody req effectID) s = ((d, err), s1) \<and>
        BoundaryEntered d)"

lemma dispatched_unique:
  assumes "dispatched sha ctx req adapter s ad effectID s1" and "dispatched sha ctx req adapter s ad' effectID' s1'"
  shows "ad' = ad \<and> effectID' = effectID \<and> s1' = s1"
proof -
  have same: "ad' = ad" "effectID' = effectID"
    using assms by (auto simp: dispatched_def)
  with assms show ?thesis by (auto simp: dispatched_def)
qed

lemma run_dispatch_error:
  "run_dispatch sha ctx req ad custody s = ((d, err), s1) \<Longrightarrow> \<not> BoundaryEntered d \<Longrightarrow> err \<noteq> None"
  unfolding run_dispatch_def by (rule Dispatch_not_entered_error)

lemma Run_cases:
  fixes adapter :: "('s, 'e) adapter option"
  assumes "Run sha ctx req adapter s = (r, s')"
  obtains
    (rejected) "fx_Disposition r = DispositionRejected" "\<not> fx_BoundaryEntered r" "fx_Cause r \<noteq> None"
      "\<And>ad effectID s1. \<not> dispatched sha ctx req adapter s ad effectID s1"
  | (entered) ad effectID s1 r1 where "dispatched sha ctx req adapter s ad effectID s1"
      "fx_EffectID r1 = effectID" "fx_BoundaryEntered r1"
      "close_by_observation sha effectID (er_Transition req) (request_custody req effectID) ad r1 s1 = (r, s')"
proof (cases "\<exists>ad effectID s1. dispatched sha ctx req adapter s ad effectID s1")
  case False
  have "fx_Disposition r = DispositionRejected \<and> \<not> fx_BoundaryEntered r \<and> fx_Cause r \<noteq> None"
    using assms False
    by (auto simp: Run_def Let_def new_result_def dispatched_def dest: run_dispatch_error
        split: option.splits sum.splits prod.splits if_splits)
  with False rejected show ?thesis by blast
next
  case True
  then obtain ad effectID s1 where d: "dispatched sha ctx req adapter s ad effectID s1" by blast
  then obtain dr err where disp: "adapter = Some ad" "validateRequest sha req = (None :: 'e runtime_error option)"
    "EffectIdentity sha req = (Inr effectID :: 'e runtime_error + string)" "BoundaryEntered dr"
    "run_dispatch sha ctx req ad (request_custody req effectID) s = ((dr, err), s1)"
    unfolding dispatched_def by blast
  let ?r1 = "(new_result (er_AttemptID req))\<lparr>fx_EffectID := effectID,
    fx_CustodyRecorded := CustodyRecorded (Preparation dr), fx_BoundaryEntered := True,
    fx_Acceptance := Value dr, fx_EffectError := map_option DispatchError err\<rparr>"
  have "close_by_observation sha effectID (er_Transition req) (request_custody req effectID) ad ?r1 s1 = (r, s')"
    using assms disp by (simp add: Run_def Let_def)
  from entered [OF d _ _ this] show ?thesis by simp
qed

text \<open>
  C17. \<open>Run\<close> never claims more than it knows. It reports REJECTED exactly when the effect callback
  was not entered. It reports CLOSED exactly when the effect was dispatched and the observation
  made after the dispatch succeeds, is of exactly the intended after-state, and carries a complete
  attestation bound to this effect and this state that the verifier accepts; the provider's own
  success or failure plays no part. Every result that is not CLOSED has a cause.
\<close>

theorem Run_disposition:
  fixes adapter :: "('s, 'e) adapter option"
  assumes "Run sha ctx req adapter s = (r, s')"
  shows "(fx_Disposition r = DispositionRejected \<longleftrightarrow> \<not> fx_BoundaryEntered r) \<and>
    (fx_BoundaryEntered r \<longleftrightarrow> (\<exists>ad effectID s1. dispatched sha ctx req adapter s ad effectID s1)) \<and>
    (fx_Disposition r = DispositionClosed \<longleftrightarrow>
      (\<exists>ad effectID s1 s2. dispatched sha ctx req adapter s ad effectID s1 \<and>
         ad_Observe ad (er_Transition req) (request_custody req effectID) s1 =
           ((fx_Observation r, None), s2) \<and>
         trusted_observation sha effectID (tr_To (er_Transition req)) (fx_Observation r)
           (ad_VerifyAttestation ad) s2 s')) \<and>
    (fx_Disposition r \<noteq> DispositionClosed \<longrightarrow> fx_Cause r \<noteq> None)"
  using assms
proof (cases rule: Run_cases)
  case rejected
  then show ?thesis by auto
next
  case (entered ad effectID s1 r1)
  note c = entered(4)
  have "fx_BoundaryEntered r" "fx_Disposition r \<noteq> DispositionRejected"
    using entered close_by_observation_frame [OF c] by simp_all
  moreover from this have "fx_Disposition r \<noteq> DispositionClosed \<longrightarrow> fx_Cause r \<noteq> None"
    using close_by_observation_frame(5) [OF c] by (cases "fx_Disposition r") auto
  moreover have uniq: "(\<exists>ad' e' s1' s2. dispatched sha ctx req adapter s ad' e' s1' \<and> P ad' e' s1' s2) \<longleftrightarrow>
      (\<exists>s2. P ad effectID s1 s2)" for P :: "('s, 'e) adapter \<Rightarrow> string \<Rightarrow> 's \<Rightarrow> 's \<Rightarrow> bool"
    using entered(1) dispatched_unique [OF entered(1)] by metis
  ultimately show ?thesis
    using entered(1) unfolding uniq close_by_observation_Closed_iff [OF c] by blast
qed

lemma new_result_simps [simp]:
  "fx_Disposition (new_result a) = DispositionRejected" "\<not> fx_BoundaryEntered (new_result a)"
  by (simp_all add: new_result_def)

lemma adapter_frame_update:
  "ad_VerifyAttestation (ad\<lparr>ad_Execute := ex, ad_RetainCustody := re\<rparr>) = ad_VerifyAttestation ad"
  "ad_Observe (ad\<lparr>ad_Execute := ex, ad_RetainCustody := re\<rparr>) = ad_Observe ad"
  by simp_all

lemma close_by_observation_frame_update:
  "close_by_observation sha e t c (ad\<lparr>ad_Execute := ex, ad_RetainCustody := re\<rparr>) =
   close_by_observation sha e t c ad"
  unfolding close_by_observation_def fun_eq_iff adapter_frame_update by simp

text \<open>
  C20. \<open>Recover\<close> is observation-only: its outcome and the world it leaves do not depend on the
  adapter's \<open>Execute\<close> and \<open>RetainCustody\<close> at all, and it never reports the boundary as entered.
  It closes only on a retained custody record for exactly this effect, attempt, target and owner,
  a recovery authorization bound to that record and this recoverer and accepted by the verifier,
  and a trusted observation of exactly the intended after-state.
\<close>

theorem Recover_observation_only:
  fixes ad :: "('s, 'e) adapter"
  assumes "Recover sha req (Some (ad, load)) s = (r, s')"
  shows "Recover sha req (Some (ad\<lparr>ad_Execute := ex, ad_RetainCustody := re\<rparr>, load)) s = (r, s') \<and>
    \<not> fx_BoundaryEntered r \<and>
    (fx_Disposition r = DispositionClosed \<longrightarrow>
      (\<exists>custody s1 s2 s3. load (fx_EffectID r) (er_AttemptID (rv_Original req)) s = (Inr custody, s1) \<and>
         custody = request_custody (rv_Original req) (fx_EffectID r) \<and>
         as_BindingDigest (rv_RecoveryAuthorization req) =
           RecoveryBindingDigest sha custody (rv_Recoverer req) \<and>
         ad_VerifyAttestation ad (rv_RecoveryAuthorization req)
           (RecoveryBindingDigest sha custody (rv_Recoverer req)) s1 = (None, s2) \<and>
         ad_Observe ad (er_Transition (rv_Original req)) custody s2 = ((fx_Observation r, None), s3) \<and>
         trusted_observation sha (fx_EffectID r) (tr_To (er_Transition (rv_Original req)))
           (fx_Observation r) (ad_VerifyAttestation ad) s3 s'))"
  (is "_ \<and> _ \<and> (_ \<longrightarrow> ?closed)")
proof -
  have "Recover sha req (Some (ad\<lparr>ad_Execute := ex, ad_RetainCustody := re\<rparr>, load)) s = (r, s')"
    unfolding assms [symmetric] Recover_def option.case prod.case close_by_observation_frame_update
      adapter_frame_update ..
  moreover have "\<not> fx_BoundaryEntered r"
    using assms
    by (auto simp: Recover_def Let_def new_result_def dest: close_by_observation_frame(3)
        split: option.splits sum.splits prod.splits if_splits)
  moreover
  {
    assume closed: "fx_Disposition r = DispositionClosed"
    from assms closed obtain effectID custody s1 s2 where
      "load effectID (er_AttemptID (rv_Original req)) s = (Inr custody, s1)"
      "validateRecoveredCustody (rv_Original req) effectID custody = (None :: 'e runtime_error option)"
      "as_BindingDigest (rv_RecoveryAuthorization req) = RecoveryBindingDigest sha custody (rv_Recoverer req)"
      "ad_VerifyAttestation ad (rv_RecoveryAuthorization req)
         (RecoveryBindingDigest sha custody (rv_Recoverer req)) s1 = (None, s2)"
      "close_by_observation sha effectID (er_Transition (rv_Original req)) custody ad
         ((new_result (er_AttemptID (rv_Original req)))\<lparr>fx_EffectID := effectID, fx_CustodyRecorded := True\<rparr>)
         s2 = (r, s')"
      by (auto simp: Recover_def Let_def split: option.splits sum.splits prod.splits if_splits)
    moreover from this have "custody = request_custody (rv_Original req) (fx_EffectID r)"
      "fx_EffectID r = effectID"
      by (auto simp: validateRecoveredCustody_def request_custody_def close_by_observation_frame
          split: if_splits)
    ultimately have ?closed
      using closed close_by_observation_Closed_iff by metis
  }
  ultimately show ?thesis by blast
qed

section \<open>Witnesses\<close>

text \<open>A complete request, and an adapter whose world counts the executions.\<close>

definition demo_identity :: "string \<Rightarrow> identity" where
  "demo_identity n = \<lparr>idn_ID = n, idn_Kind = ''agent''\<rparr>"

definition demo_state :: "string \<Rightarrow> eff_state" where
  "demo_state revision = \<lparr>st_Target = ''t'', st_Revision = revision, st_Digest = ''d''\<rparr>"

definition demo_attestation :: "string \<Rightarrow> attestation" where
  "demo_attestation b = \<lparr>as_ID = ''a'', as_Issuer = demo_identity ''i'', as_BindingDigest = b\<rparr>"

definition demo_effect :: "(string \<Rightarrow> string) \<Rightarrow> string \<Rightarrow> effect_request" where
  "demo_effect sha attempt =
     (let r = \<lparr>er_Subject = demo_identity ''s'', er_Executor = demo_identity ''e'',
               er_Current = demo_state ''1'', er_Admission = demo_attestation [],
               er_Transition = \<lparr>tr_Operation = ''op'', tr_From = demo_state ''1'', tr_To = demo_state ''2''\<rparr>,
               er_AttemptID = attempt\<rparr>
      in r\<lparr>er_Admission := demo_attestation (digest sha (binding_parts r ''admission-v0''))\<rparr>)"

definition demo_adapter :: "(string \<Rightarrow> string) \<Rightarrow> (nat, string) adapter" where
  "demo_adapter sha =
     \<lparr>ad_CurrentState = (\<lambda>_ n. (Inr (demo_state ''1''), n)),
      ad_VerifyAttestation = (\<lambda>_ _ n. (None, n)),
      ad_RetainCustody = (\<lambda>_ n. (None, n)),
      ad_Execute = (\<lambda>_ _ n. ((\<lparr>ac_Reference = ''ok''\<rparr>, Some ''timeout''), Suc n)),
      ad_Observe = (\<lambda>_ c n. ((\<lparr>eo_State = demo_state ''2'',
         eo_Attestation = demo_attestation (ObservationBindingDigest sha (cu_EffectID c) (demo_state ''2''))\<rparr>,
         None), n))\<rparr>"

lemma demo_attestation_binding [simp]: "as_BindingDigest (demo_attestation b) = b"
  by (simp add: demo_attestation_def)

lemma request_custody_EffectID [simp]: "cu_EffectID (request_custody req e) = e"
  by (simp add: request_custody_def)

lemma demo_complete [simp]:
  "Identity_Complete (demo_identity ''s'')" "Identity_Complete (demo_identity ''e'')"
  "Identity_Complete (demo_identity ''i'')"
  "State_Complete (demo_state ''1'')" "State_Complete (demo_state ''2'')"
  by (simp_all add: Identity_Complete_def State_Complete_def demo_identity_def demo_state_def plain_simps)

lemma demo_attestation_complete [simp]: "Attestation_Complete (demo_attestation (digest sha ps))"
  by (simp add: Attestation_Complete_def demo_attestation_def digest_def plain_simps)

lemma demo_effect_simps [simp]:
  "er_Subject (demo_effect sha a) = demo_identity ''s''" "er_Executor (demo_effect sha a) = demo_identity ''e''"
  "er_Current (demo_effect sha a) = demo_state ''1''" "er_AttemptID (demo_effect sha a) = a"
  "er_Transition (demo_effect sha a) =
     \<lparr>tr_Operation = ''op'', tr_From = demo_state ''1'', tr_To = demo_state ''2''\<rparr>"
  "er_Admission (demo_effect sha a) =
     demo_attestation (digest sha (binding_parts (demo_effect sha a) ''admission-v0''))"
  by (simp_all add: demo_effect_def binding_parts_def Let_def)

lemma demo_transition_complete [simp]: "Transition_Complete (er_Transition (demo_effect sha a))"
  by (simp add: Transition_Complete_def plain_simps)

lemma demo_target [simp]: "st_Target (demo_state r) = ''t''"
  by (simp add: demo_state_def)

lemma demo_binding:
  "requestBinding sha (demo_effect sha' a) d = Inr (digest sha (binding_parts (demo_effect sha' a) d))"
  using demo_transition_complete [of sha' a] by (simp add: requestBinding_Inr)

lemma demo_valid: "\<not> blank a \<Longrightarrow> validateRequest sha (demo_effect sha a) = None"
  using demo_transition_complete [of sha a]
  by (simp add: validateRequest_def AdmissionBindingDigest_def demo_binding)

theorem EffectIdentity_exact_witness:
  "EffectIdentity id (demo_effect id ''a1'') = (EffectIdentity id (demo_effect id ''a2'') :: string runtime_error + string)"
proof -
  let ?d = "\<lambda>a dom. digest id (binding_parts (demo_effect id a) dom)"
  have "go_strings (binding_parts (demo_effect id a) d)" if "length d < 20" for a d
    using that by (simp add: go_strings_def binding_parts_def demo_identity_def demo_state_def)
  then have "(?d ''a1'' ''effect-v0'' = ?d ''a2'' ''effect-v0'' \<longleftrightarrow>
      logical_effect (demo_effect id ''a1'') = logical_effect (demo_effect id ''a2'')) \<and>
      ?d ''a1'' ''effect-v0'' \<noteq> ?d ''a2'' ''admission-v0''"
    by (intro EffectIdentity_exact) (auto simp: EffectIdentity_def AdmissionBindingDigest_def demo_binding)
  then show ?thesis by (simp add: EffectIdentity_def demo_binding logical_effect_def)
qed

definition demo_run :: "string effect_result \<times> nat" where
  "demo_run = Run id (\<lambda>s. (None, s)) (demo_effect id ''a1'') (Some (demo_adapter id)) 0"

lemma demo_run_closed: "fx_Disposition (fst demo_run) = DispositionClosed \<and> snd demo_run = 1"
  by (simp add: demo_run_def Run_def demo_valid plain_simps EffectIdentity_def demo_binding run_dispatch_def
      Dispatch_def PrepareEffect_def run_check_def run_retain_def run_effect_def demo_adapter_def Let_def
      AdmissionBindingDigest_def close_by_observation_def verifyObservation_def ObservationBindingDigest_def
      demo_attestation_complete)

theorem Run_disposition_witness:
  "fx_Disposition (fst demo_run) = DispositionClosed \<and> fx_BoundaryEntered (fst demo_run) \<and>
   eo_State (fx_Observation (fst demo_run)) = demo_state ''2'' \<and> snd demo_run = 1"
proof -
  have run: "Run id (\<lambda>s. (None, s)) (demo_effect id ''a1'') (Some (demo_adapter id)) 0 =
      (fst demo_run, snd demo_run)"
    by (simp add: demo_run_def)
  from Run_disposition [OF run] demo_run_closed show ?thesis
    by (auto simp: trusted_observation_def)
qed

definition demo_recovery :: recovery_request where
  "demo_recovery =
     \<lparr>rv_Original = demo_effect id ''a1'', rv_Recoverer = demo_identity ''s'',
      rv_RecoveryAuthorization = demo_attestation (RecoveryBindingDigest id
        (request_custody (demo_effect id ''a1'')
          (digest id (binding_parts (demo_effect id ''a1'') ''effect-v0'')))
        (demo_identity ''s''))\<rparr>"

definition demo_load :: "string \<Rightarrow> string \<Rightarrow> nat \<Rightarrow> (string + custody) \<times> nat" where
  "demo_load e a n = (Inr (request_custody (demo_effect id a) e), n)"

lemma demo_custody_valid:
  "validateRecoveredCustody (demo_effect id ''a1'') e (request_custody (demo_effect id ''a1'') e) = None"
  if "\<not> blank e"
  using that by (simp add: validateRecoveredCustody_def request_custody_def plain_simps)

lemma demo_recovery_closed:
  "fx_Disposition (fst (Recover id demo_recovery (Some (demo_adapter id, demo_load)) 0)) = DispositionClosed"
proof -
  have "\<not> blank (digest id ps)" for ps by (simp add: digest_def)
  then show ?thesis
    by (simp add: Recover_def demo_recovery_def demo_load_def validateRecoveryRequest_def demo_valid
        plain_simps EffectIdentity_def demo_binding demo_custody_valid demo_adapter_def Let_def
        RecoveryBindingDigest_def close_by_observation_def verifyObservation_def
        ObservationBindingDigest_def)
qed

theorem Recover_observation_only_witness:
  "let r = fst (Recover id demo_recovery (Some (demo_adapter id, demo_load)) 0) in
   fx_Disposition r = DispositionClosed \<and> \<not> fx_BoundaryEntered r"
  using Recover_observation_only [OF prod.collapse [symmetric],
      where ad = "demo_adapter id" and load = demo_load and s = 0 and req = demo_recovery and sha = id]
    demo_recovery_closed
  unfolding Let_def by blast

end
