(* ===== verification/Fenced.thy ===== *)
theory Fenced
  imports Effect_Runtime
begin

text \<open>
  Fenced custody of one effect attempt (\<open>governedaction/runtime/fenced.go\<close>): reservation, the
  crossing of the effect boundary under a compare-and-swap, takeover of a reservation with an
  advancing generation, and what these give under every interleaving of concurrent invocations
  over an atomic custody store: an effect attempt enters the boundary at most once.
\<close>

section \<open>Data\<close>

datatype custody_phase = CustodyReserved | CustodyCrossing | CustodyUnknown | CustodyClosed | CustodyOther string

record fenced_custody =
  fc_EffectID :: string
  fc_AttemptID :: string
  fc_Target :: string
  fc_Owner :: identity
  fc_Generation :: u64
  fc_Phase :: custody_phase

definition validCustodyPhase :: "custody_phase \<Rightarrow> bool" where
  "validCustodyPhase phase \<longleftrightarrow>
     (case phase of CustodyOther _ \<Rightarrow> False | _ \<Rightarrow> True)"

definition FencedCustody_Complete :: "fenced_custody \<Rightarrow> bool" where
  "FencedCustody_Complete c \<longleftrightarrow>
     \<not> blank (fc_EffectID c) \<and> \<not> blank (fc_AttemptID c) \<and> \<not> blank (fc_Target c) \<and>
     Identity_Complete (fc_Owner c) \<and> fc_Generation c > 0 \<and> validCustodyPhase (fc_Phase c)"

definition FencedCustody_Equal :: "fenced_custody \<Rightarrow> fenced_custody \<Rightarrow> bool" where
  "FencedCustody_Equal c d \<longleftrightarrow>
     fc_EffectID c = fc_EffectID d \<and> fc_AttemptID c = fc_AttemptID d \<and> fc_Target c = fc_Target d \<and>
     Identity_Equal (fc_Owner c) (fc_Owner d) \<and> fc_Generation c = fc_Generation d \<and>
     fc_Phase c = fc_Phase d"

datatype 'e fenced_error =
    ErrMissingFencedAdapter
  | ErrIncompleteFencedCustody
  | ErrFencedCustodyMismatch
  | ErrCustodyNotReserved
  | ErrTakeoverBinding
  | ErrIncompleteTakeoverRequest
  | ErrFenceGenerationExhausted
  | FRuntime "'e runtime_error"
  | FAdapter 'e
  | BeforeFencedCustody "'e fenced_error"
  | ReserveCustodyFailed 'e
  | AfterFencedCustody "'e fenced_error"
  | AfterCrossingCustody "'e fenced_error"
  | MarkCustodyUnknown 'e
  | CloseFencedCustody 'e

record ('s, 'e) fenced_adapter =
  fa_CurrentState :: "string \<Rightarrow> 's \<Rightarrow> ('e + eff_state) \<times> 's"
  fa_VerifyAttestation :: "('s, 'e) verifier"
  fa_Reserve :: "fenced_custody \<Rightarrow> 's \<Rightarrow> 'e option \<times> 's"
  fa_Load :: "string \<Rightarrow> string \<Rightarrow> 's \<Rightarrow> ('e + fenced_custody) \<times> 's"
  fa_CAS :: "fenced_custody \<Rightarrow> fenced_custody \<Rightarrow> 's \<Rightarrow> 'e option \<times> 's"
  fa_Execute :: "transition \<Rightarrow> fenced_custody \<Rightarrow> 's \<Rightarrow> (acceptance \<times> 'e option) \<times> 's"
  fa_Observe :: "transition \<Rightarrow> fenced_custody \<Rightarrow> 's \<Rightarrow> (effect_observation \<times> 'e option) \<times> 's"

record fenced_preparation =
  fp_Custody :: fenced_custody
  fp_CustodyRecorded :: bool

record 'e fenced_result =
  fr_Disposition :: disposition
  fr_EffectID :: string
  fr_AttemptID :: string
  fr_CustodyRecorded :: bool
  fr_BoundaryEntered :: bool
  fr_Acceptance :: acceptance
  fr_Observation :: effect_observation
  fr_Cause :: "'e fenced_error option"
  fr_EffectError :: "'e option"
  fr_ObservationError :: "'e option"
  fr_Custody :: fenced_custody

definition zero_custody :: fenced_custody where
  "zero_custody = \<lparr>fc_EffectID = [], fc_AttemptID = [], fc_Target = [],
     fc_Owner = \<lparr>idn_ID = [], idn_Kind = []\<rparr>, fc_Generation = 0, fc_Phase = CustodyOther []\<rparr>"

definition new_fenced_result :: "string \<Rightarrow> bool \<Rightarrow> fenced_custody \<Rightarrow> 'e fenced_result" where
  "new_fenced_result attempt recorded custody =
     \<lparr>fr_Disposition = DispositionRejected, fr_EffectID = [], fr_AttemptID = attempt,
      fr_CustodyRecorded = recorded, fr_BoundaryEntered = False,
      fr_Acceptance = \<lparr>ac_Reference = []\<rparr>, fr_Observation = zero_observation, fr_Cause = None,
      fr_EffectError = None, fr_ObservationError = None, fr_Custody = custody\<rparr>"

section \<open>Checks\<close>

definition checkRequestAtBoundary ::
  "(string \<Rightarrow> string) \<Rightarrow> ('s, 'e) err_call \<Rightarrow> effect_request \<Rightarrow> ('s, 'e) fenced_adapter
    \<Rightarrow> ('s, 'e fenced_error) err_call" where
  "checkRequestAtBoundary sha ctx req adapter s =
     (case ctx s of
        (Some e, s1) \<Rightarrow> (Some (FAdapter e), s1)
      | (None, s1) \<Rightarrow>
        (case fa_CurrentState adapter (st_Target (er_Current req)) s1 of
           (Inl e, s2) \<Rightarrow> (Some (FAdapter e), s2)
         | (Inr current, s2) \<Rightarrow>
           (if \<not> State_Equal current (er_Current req) then (Some (FRuntime ErrStateChanged), s2)
            else case AdmissionBindingDigest sha req of
              Inl e \<Rightarrow> (Some (FRuntime e), s2)
            | Inr expected \<Rightarrow>
              (if as_BindingDigest (er_Admission req) \<noteq> expected
               then (Some (FRuntime ErrAdmissionBinding), s2)
               else case fa_VerifyAttestation adapter (er_Admission req) expected s2 of
                 (err, s3) \<Rightarrow> (map_option FAdapter err, s3)))))"

definition validateFencedCustody ::
  "effect_request \<Rightarrow> string \<Rightarrow> fenced_custody \<Rightarrow> 'e fenced_error option" where
  "validateFencedCustody req effectID custody =
     (if \<not> FencedCustody_Complete custody then Some ErrIncompleteFencedCustody
      else if fc_EffectID custody \<noteq> effectID \<or> fc_AttemptID custody \<noteq> er_AttemptID req \<or>
         fc_Target custody \<noteq> st_Target (er_Current req) \<or>
         \<not> Identity_Equal (fc_Owner custody) (er_Executor req)
      then Some ErrFencedCustodyMismatch
      else None)"

section \<open>Reserve, execute, take over\<close>

definition ReserveFenced ::
  "(string \<Rightarrow> string) \<Rightarrow> ('s, 'e) err_call \<Rightarrow> effect_request \<Rightarrow> ('s, 'e) fenced_adapter option \<Rightarrow> 's
    \<Rightarrow> (fenced_preparation \<times> 'e fenced_error option) \<times> 's" where
  "ReserveFenced sha ctx req adapter s =
     (let prep = \<lparr>fp_Custody = zero_custody, fp_CustodyRecorded = False\<rparr> in
      case adapter of
        None \<Rightarrow> ((prep, Some ErrMissingFencedAdapter), s)
      | Some ad \<Rightarrow>
        (case validateRequest sha req of
           Some e \<Rightarrow> ((prep, Some (FRuntime e)), s)
         | None \<Rightarrow>
           (case checkRequestAtBoundary sha ctx req ad s of
              (Some e, s1) \<Rightarrow> ((prep, Some (BeforeFencedCustody e)), s1)
            | (None, s1) \<Rightarrow>
              (case EffectIdentity sha req of
                 Inl e \<Rightarrow> ((prep, Some (FRuntime e)), s1)
               | Inr effectID \<Rightarrow>
                 (let custody = \<lparr>fc_EffectID = effectID, fc_AttemptID = er_AttemptID req,
                        fc_Target = st_Target (er_Current req), fc_Owner = er_Executor req,
                        fc_Generation = 1, fc_Phase = CustodyReserved\<rparr> in
                  case fa_Reserve ad custody s1 of
                    (Some e, s2) \<Rightarrow> ((prep, Some (ReserveCustodyFailed e)), s2)
                  | (None, s2) \<Rightarrow>
                    (let prep = \<lparr>fp_Custody = custody, fp_CustodyRecorded = True\<rparr> in
                     case checkRequestAtBoundary sha ctx req ad s2 of
                       (Some e, s3) \<Rightarrow> ((prep, Some (AfterFencedCustody e)), s3)
                     | (None, s3) \<Rightarrow> ((prep, None), s3)))))))"

text \<open>The part after the boundary was entered: mark unknown, observe, verify, close.\<close>

definition finish_fenced ::
  "(string \<Rightarrow> string) \<Rightarrow> string \<Rightarrow> transition \<Rightarrow> fenced_custody \<Rightarrow> ('s, 'e) fenced_adapter
    \<Rightarrow> 'e fenced_result \<Rightarrow> 's \<Rightarrow> 'e fenced_result \<times> 's" where
  "finish_fenced sha effectID t crossing ad r s =
     (let unknown = crossing\<lparr>fc_Phase := CustodyUnknown\<rparr> in
      case fa_CAS ad crossing unknown s of
        (Some e, s1) \<Rightarrow> (r\<lparr>fr_Cause := Some (MarkCustodyUnknown e)\<rparr>, s1)
      | (None, s1) \<Rightarrow>
        (case fa_Observe ad t unknown s1 of
           ((observation, observeErr), s2) \<Rightarrow>
             (let r = r\<lparr>fr_Custody := unknown, fr_Observation := observation,
                       fr_ObservationError := observeErr\<rparr> in
              case observeErr of
                Some e \<Rightarrow> (r\<lparr>fr_Cause := Some (FAdapter e)\<rparr>, s2)
              | None \<Rightarrow>
                (case verifyObservation sha effectID (tr_To t) observation (fa_VerifyAttestation ad) s2 of
                   (Some e, s3) \<Rightarrow> (r\<lparr>fr_Cause := Some (FRuntime e)\<rparr>, s3)
                 | (None, s3) \<Rightarrow>
                   (let closed = unknown\<lparr>fc_Phase := CustodyClosed\<rparr> in
                    case fa_CAS ad unknown closed s3 of
                      (Some e, s4) \<Rightarrow> (r\<lparr>fr_Cause := Some (CloseFencedCustody e)\<rparr>, s4)
                    | (None, s4) \<Rightarrow>
                      (r\<lparr>fr_Custody := closed, fr_Disposition := DispositionClosed,
                         fr_Cause := None\<rparr>, s4))))))"

definition ExecuteReservedFenced ::
  "(string \<Rightarrow> string) \<Rightarrow> ('s, 'e) err_call \<Rightarrow> effect_request \<Rightarrow> fenced_custody
    \<Rightarrow> ('s, 'e) fenced_adapter option \<Rightarrow> 's \<Rightarrow> 'e fenced_result \<times> 's" where
  "ExecuteReservedFenced sha ctx req custody adapter s =
     (let r = new_fenced_result (er_AttemptID req) (FencedCustody_Complete custody) custody in
      case adapter of
        None \<Rightarrow> (r\<lparr>fr_Cause := Some ErrMissingFencedAdapter\<rparr>, s)
      | Some ad \<Rightarrow>
        (case validateRequest sha req of
           Some e \<Rightarrow> (r\<lparr>fr_Cause := Some (FRuntime e)\<rparr>, s)
         | None \<Rightarrow>
           (case EffectIdentity sha req of
              Inl e \<Rightarrow> (r\<lparr>fr_Cause := Some (FRuntime e)\<rparr>, s)
            | Inr effectID \<Rightarrow>
              (let r = r\<lparr>fr_EffectID := effectID\<rparr> in
               case validateFencedCustody req effectID custody of
                 Some e \<Rightarrow> (r\<lparr>fr_Cause := Some e\<rparr>, s)
               | None \<Rightarrow>
                 (if fc_Phase custody \<noteq> CustodyReserved
                  then (r\<lparr>fr_Cause := Some ErrCustodyNotReserved\<rparr>, s)
                  else case checkRequestAtBoundary sha ctx req ad s of
                    (Some e, s1) \<Rightarrow> (r\<lparr>fr_Cause := Some e\<rparr>, s1)
                  | (None, s1) \<Rightarrow>
                    (case fa_Load ad effectID (er_AttemptID req) s1 of
                       (Inl e, s2) \<Rightarrow> (r\<lparr>fr_Cause := Some (FAdapter e)\<rparr>, s2)
                     | (Inr current, s2) \<Rightarrow>
                       (if \<not> FencedCustody_Equal current custody
                        then (r\<lparr>fr_Cause := Some ErrFencedCustodyMismatch\<rparr>, s2)
                        else let crossing = custody\<lparr>fc_Phase := CustodyCrossing\<rparr> in
                          case fa_CAS ad custody crossing s2 of
                            (Some e, s3) \<Rightarrow> (r\<lparr>fr_Cause := Some (FAdapter e)\<rparr>, s3)
                          | (None, s3) \<Rightarrow>
                            (let r = r\<lparr>fr_Custody := crossing\<rparr> in
                             case checkRequestAtBoundary sha ctx req ad s3 of
                               (Some e, s4) \<Rightarrow> (r\<lparr>fr_Cause := Some (AfterCrossingCustody e)\<rparr>, s4)
                             | (None, s4) \<Rightarrow>
                               (case ctx s4 of
                                  (Some e, s5) \<Rightarrow> (r\<lparr>fr_Cause := Some (FAdapter e)\<rparr>, s5)
                                | (None, s5) \<Rightarrow>
                                  (case fa_Execute ad (er_Transition req) crossing s5 of
                                     ((acceptance, effectErr), s6) \<Rightarrow>
                                       finish_fenced sha effectID (er_Transition req) crossing ad
                                         (r\<lparr>fr_BoundaryEntered := True, fr_Acceptance := acceptance,
                                            fr_EffectError := effectErr,
                                            fr_Disposition := DispositionUnknown\<rparr>) s6))))))))))"

definition RunFenced ::
  "(string \<Rightarrow> string) \<Rightarrow> ('s, 'e) err_call \<Rightarrow> effect_request \<Rightarrow> ('s, 'e) fenced_adapter option \<Rightarrow> 's
    \<Rightarrow> 'e fenced_result \<times> 's" where
  "RunFenced sha ctx req adapter s =
     (case ReserveFenced sha ctx req adapter s of
        ((prep, Some e), s1) \<Rightarrow>
          ((new_fenced_result (er_AttemptID req) (fp_CustodyRecorded prep) (fp_Custody prep))
             \<lparr>fr_Cause := Some e\<rparr>, s1)
      | ((prep, None), s1) \<Rightarrow> ExecuteReservedFenced sha ctx req (fp_Custody prep) adapter s1)"

record takeover_request =
  tk_Original :: effect_request
  tk_NewOwner :: identity
  tk_Authorization :: attestation

record takeover_result =
  tk_Previous :: fenced_custody
  tk_Current :: fenced_custody

definition phase_name :: "custody_phase \<Rightarrow> string" where
  "phase_name phase =
     (case phase of CustodyReserved \<Rightarrow> ''RESERVED'' | CustodyCrossing \<Rightarrow> ''CROSSING''
      | CustodyUnknown \<Rightarrow> ''UNKNOWN'' | CustodyClosed \<Rightarrow> ''CLOSED'' | CustodyOther s \<Rightarrow> s)"

definition TakeoverBindingDigest :: "(string \<Rightarrow> string) \<Rightarrow> fenced_custody \<Rightarrow> identity \<Rightarrow> string" where
  "TakeoverBindingDigest sha current newOwner =
     digest sha [''takeover-v1'', fc_EffectID current, fc_AttemptID current, fc_Target current,
       idn_ID (fc_Owner current), idn_Kind (fc_Owner current),
       dec_digits (unat (fc_Generation current)), phase_name (fc_Phase current),
       idn_ID newOwner, idn_Kind newOwner, dec_digits (unat (fc_Generation current + 1))]"

definition TakeoverReserved ::
  "(string \<Rightarrow> string) \<Rightarrow> takeover_request \<Rightarrow> ('s, 'e) fenced_adapter option \<Rightarrow> 's
    \<Rightarrow> (takeover_result \<times> 'e fenced_error option) \<times> 's" where
  "TakeoverReserved sha req adapter s =
     (let r = \<lparr>tk_Previous = zero_custody, tk_Current = zero_custody\<rparr>; original = tk_Original req in
      case adapter of
        None \<Rightarrow> ((r, Some ErrMissingFencedAdapter), s)
      | Some ad \<Rightarrow>
        (case validateRequest sha original of
           Some e \<Rightarrow> ((r, Some (FRuntime e)), s)
         | None \<Rightarrow>
           (if \<not> Identity_Complete (tk_NewOwner req) \<or> \<not> Attestation_Complete (tk_Authorization req)
            then ((r, Some ErrIncompleteTakeoverRequest), s)
            else case EffectIdentity sha original of
              Inl e \<Rightarrow> ((r, Some (FRuntime e)), s)
            | Inr effectID \<Rightarrow>
              (case fa_Load ad effectID (er_AttemptID original) s of
                 (Inl e, s1) \<Rightarrow> ((r, Some (FAdapter e)), s1)
               | (Inr current, s1) \<Rightarrow>
                 (let r = r\<lparr>tk_Previous := current\<rparr> in
                  case validateFencedCustody original effectID current of
                    Some e \<Rightarrow> ((r, Some e), s1)
                  | None \<Rightarrow>
                    (if fc_Phase current \<noteq> CustodyReserved then ((r, Some ErrCustodyNotReserved), s1)
                     else if fc_Generation current = - 1
                     then ((r, Some ErrFenceGenerationExhausted), s1)
                     else let expected = TakeoverBindingDigest sha current (tk_NewOwner req) in
                       if as_BindingDigest (tk_Authorization req) \<noteq> expected
                       then ((r, Some ErrTakeoverBinding), s1)
                       else case fa_VerifyAttestation ad (tk_Authorization req) expected s1 of
                         (Some e, s2) \<Rightarrow> ((r, Some (FAdapter e)), s2)
                       | (None, s2) \<Rightarrow>
                         (let nxt = current\<lparr>fc_Owner := tk_NewOwner req,
                                           fc_Generation := fc_Generation current + 1\<rparr> in
                          case fa_CAS ad current nxt s2 of
                            (Some e, s3) \<Rightarrow> ((r, Some (FAdapter e)), s3)
                          | (None, s3) \<Rightarrow> ((r\<lparr>tk_Current := nxt\<rparr>, None), s3))))))))"

section \<open>The events an invocation leaves in the custody store\<close>

text \<open>
  The calls that matter for custody: successful reservations, successful compare-and-swaps, and
  entries of the effect callback. \<open>traced\<close> records them beside the world of an arbitrary adapter.
\<close>

datatype custody_event =
    EvReserve fenced_custody
  | EvCAS fenced_custody fenced_custody
  | EvExecute fenced_custody

definition note_if :: "custody_event \<Rightarrow> 'e option \<times> 's \<Rightarrow> custody_event list \<Rightarrow> 'e option \<times> 's \<times> custody_event list" where
  "note_if ev res tr = (fst res, snd res, if fst res = None then tr @ [ev] else tr)"

definition keep :: "('s \<Rightarrow> 'r \<times> 's) \<Rightarrow> 's \<times> 't \<Rightarrow> 'r \<times> 's \<times> 't" where
  "keep f w = (fst (f (fst w)), snd (f (fst w)), snd w)"

definition traced :: "('s, 'e) fenced_adapter \<Rightarrow> ('s \<times> custody_event list, 'e) fenced_adapter" where
  "traced ad =
     \<lparr>fa_CurrentState = (\<lambda>t. keep (fa_CurrentState ad t)),
      fa_VerifyAttestation = (\<lambda>a b. keep (fa_VerifyAttestation ad a b)),
      fa_Reserve = (\<lambda>c w. note_if (EvReserve c) (fa_Reserve ad c (fst w)) (snd w)),
      fa_Load = (\<lambda>e a. keep (fa_Load ad e a)),
      fa_CAS = (\<lambda>c d w. note_if (EvCAS c d) (fa_CAS ad c d (fst w)) (snd w)),
      fa_Execute = (\<lambda>t c w. case fa_Execute ad t c (fst w) of (r, s) \<Rightarrow> (r, s, snd w @ [EvExecute c])),
      fa_Observe = (\<lambda>t c. keep (fa_Observe ad t c))\<rparr>"

text \<open>The full protocol of one execution; every invocation performs a prefix of it.\<close>

definition crossing_protocol :: "fenced_custody \<Rightarrow> custody_event list" where
  "crossing_protocol c =
     (let cr = c\<lparr>fc_Phase := CustodyCrossing\<rparr>; un = c\<lparr>fc_Phase := CustodyUnknown\<rparr>;
          cl = c\<lparr>fc_Phase := CustodyClosed\<rparr>
      in [EvCAS c cr, EvExecute cr, EvCAS cr un, EvCAS un cl])"

text \<open>What each call of a traced adapter leaves of the trace.\<close>

lemma check_trace:
  "checkRequestAtBoundary sha (keep ctx) req (traced ad) w = (err, s', tr') \<Longrightarrow> tr' = snd w"
  by (auto simp: checkRequestAtBoundary_def traced_def keep_def
      split: prod.splits option.splits sum.splits if_splits)

lemma verify_trace:
  "verifyObservation sha effectID t ob (fa_VerifyAttestation (traced ad)) w = (err, s', tr') \<Longrightarrow> tr' = snd w"
  by (auto simp: verifyObservation_def traced_def keep_def Let_def
      split: prod.splits option.splits if_splits)

lemma call_trace:
  "keep ctx w = (x0, s', tr') \<Longrightarrow> tr' = snd w"
  "fa_CAS (traced ad) c d w = (err, s', tr') \<Longrightarrow> tr' = (if err = None then snd w @ [EvCAS c d] else snd w)"
  "fa_Reserve (traced ad) c w = (err, s', tr') \<Longrightarrow> tr' = (if err = None then snd w @ [EvReserve c] else snd w)"
  "fa_Load (traced ad) e a w = (x1, s', tr') \<Longrightarrow> tr' = snd w"
  "fa_Observe (traced ad) t c w = (x2, s', tr') \<Longrightarrow> tr' = snd w"
  "fa_VerifyAttestation (traced ad) x b w = (err, s', tr') \<Longrightarrow> tr' = snd w"
  "fa_Execute (traced ad) t c w = (x3, s', tr') \<Longrightarrow> tr' = snd w @ [EvExecute c]"
  by (auto simp: traced_def keep_def note_if_def split: prod.splits)

lemmas trace_dests = check_trace verify_trace call_trace

lemma finish_trace:
  assumes "finish_fenced sha effectID t cr (traced ad) r (s, tr) = (r', s', tr')"
    and "fr_Disposition r \<noteq> DispositionClosed"
  defines "un \<equiv> cr\<lparr>fc_Phase := CustodyUnknown\<rparr>" and "cl \<equiv> cr\<lparr>fc_Phase := CustodyClosed\<rparr>"
  shows "fr_BoundaryEntered r' = fr_BoundaryEntered r \<and>
    (if fr_Disposition r' = DispositionClosed then tr' = tr @ [EvCAS cr un, EvCAS un cl]
     else fr_Disposition r' = fr_Disposition r \<and> (tr' = tr \<or> tr' = tr @ [EvCAS cr un]))"
proof -
  have cl: "un\<lparr>fc_Phase := CustodyClosed\<rparr> = cl" by (simp add: un_def cl_def)
  show ?thesis
    using assms(1,2) unfolding finish_fenced_def Let_def un_def [symmetric] cl
    by (auto dest!: trace_dests split: prod.splits option.splits)
qed

text \<open>
  The run with a traced adapter, cut at the effect callback: what was performed before it, and
  the state in which \<open>finish_fenced\<close> takes over.
\<close>

lemma new_fenced_result_simps [simp]:
  "fr_Disposition (new_fenced_result a b c) = DispositionRejected"
  "\<not> fr_BoundaryEntered (new_fenced_result a b c)"
  by (simp_all add: new_fenced_result_def)

lemma validateFencedCustody_None_iff [guard_simps]:
  "validateFencedCustody req e c = None \<longleftrightarrow>
     FencedCustody_Complete c \<and> fc_EffectID c = e \<and> fc_AttemptID c = er_AttemptID req \<and>
     fc_Target c = st_Target (er_Current req) \<and> fc_Owner c = er_Executor req"
  by (auto simp: validateFencedCustody_def)

lemma ExecuteReservedFenced_trace:
  assumes "ExecuteReservedFenced sha (keep ctx) req c (Some (traced ad)) (s, tr0) = (r, s', tr)"
  defines "cr \<equiv> c\<lparr>fc_Phase := CustodyCrossing\<rparr>"
  obtains
    (before) "fr_Disposition r = DispositionRejected" "\<not> fr_BoundaryEntered r" "tr = tr0"
  | (crossed) "fr_Disposition r = DispositionRejected" "\<not> fr_BoundaryEntered r" "tr = tr0 @ [EvCAS c cr]"
      "fc_Phase c = CustodyReserved" "FencedCustody_Complete c"
  | (entered) effectID acc err s1 where "fc_Phase c = CustodyReserved" "FencedCustody_Complete c"
      "finish_fenced sha effectID (er_Transition req) cr (traced ad)
         ((new_fenced_result (er_AttemptID req) True c)
            \<lparr>fr_EffectID := effectID, fr_Custody := cr, fr_BoundaryEntered := True,
             fr_Acceptance := acc, fr_EffectError := err, fr_Disposition := DispositionUnknown\<rparr>)
         (s1, tr0 @ [EvCAS c cr, EvExecute cr]) = (r, s', tr)"
  using assms(1) before crossed entered
  unfolding ExecuteReservedFenced_def Let_def cr_def [symmetric]
  by (auto simp: guard_simps dest!: trace_dests split: option.splits sum.splits prod.splits if_splits)

text \<open>
  One invocation of \<open>ExecuteReservedFenced\<close>, with any adapter and any interference hidden in
  it, performs a prefix of the crossing protocol: compare-and-swap of the exact RESERVED record to
  CROSSING, entry of the effect callback with the crossing record, then CROSSING to UNKNOWN, then
  UNKNOWN to CLOSED. It reports the boundary as entered exactly when the prefix contains the
  callback, REJECTED exactly when it does not, and CLOSED exactly when the prefix is complete;
  nothing is performed unless the custody is complete and RESERVED.
\<close>

theorem ExecuteReservedFenced_protocol:
  assumes "ExecuteReservedFenced sha (keep ctx) req c (Some (traced ad)) (s, []) = (r, s', tr)"
  shows "\<exists>n \<le> 4. tr = take n (crossing_protocol c) \<and>
    (fr_BoundaryEntered r \<longleftrightarrow> 2 \<le> n) \<and>
    (fr_Disposition r = DispositionRejected \<longleftrightarrow> n < 2) \<and>
    (fr_Disposition r = DispositionClosed \<longleftrightarrow> n = 4) \<and>
    (0 < n \<longrightarrow> fc_Phase c = CustodyReserved \<and> FencedCustody_Complete c)"
  using assms
proof (cases rule: ExecuteReservedFenced_trace)
  case before
  then show ?thesis by (intro exI [of _ 0]) simp
next
  case crossed
  then show ?thesis by (intro exI [of _ 1]) (simp add: crossing_protocol_def Let_def)
next
  case (entered effectID acc err s1)
  from finish_trace [OF entered(3)]
  consider "fr_Disposition r = DispositionClosed" "tr = crossing_protocol c" "fr_BoundaryEntered r"
    | "fr_Disposition r = DispositionUnknown" "fr_BoundaryEntered r"
      "tr = take 2 (crossing_protocol c) \<or> tr = take 3 (crossing_protocol c)"
    by (auto simp: crossing_protocol_def Let_def split: if_splits)
  then show ?thesis
  proof cases
    case 1
    with entered(1,2) show ?thesis by (intro exI [of _ 4]) (simp add: crossing_protocol_def Let_def)
  next
    case 2
    then obtain n where "n = 2 \<or> n = (3::nat)" "tr = take n (crossing_protocol c)" by blast
    with 2 entered(1,2) show ?thesis by (intro exI [of _ n]) auto
  qed
qed

lemma ReserveFenced_trace:
  assumes "ReserveFenced sha (keep ctx) req (Some (traced ad)) (s, []) = (pe, s', tr)"
  shows "tr = [] \<and> \<not> fp_CustodyRecorded (fst pe) \<or>
    tr = [EvReserve (fp_Custody (fst pe))] \<and> fp_CustodyRecorded (fst pe) \<and>
    fc_Phase (fp_Custody (fst pe)) = CustodyReserved \<and> fc_Generation (fp_Custody (fst pe)) = 1"
  using assms unfolding ReserveFenced_def Let_def
  by (auto dest!: trace_dests split: option.splits sum.splits prod.splits if_splits)

lemma TakeoverReserved_trace:
  assumes "TakeoverReserved sha req (Some (traced ad)) (s, []) = ((t, err), s', tr)"
  shows "(err = None \<longleftrightarrow> tr \<noteq> []) \<and>
    (tr \<noteq> [] \<longrightarrow> tr = [EvCAS (tk_Previous t) (tk_Current t)] \<and>
       fc_Phase (tk_Previous t) = CustodyReserved \<and> fc_Generation (tk_Previous t) \<noteq> - 1 \<and>
       tk_Current t = (tk_Previous t)\<lparr>fc_Owner := tk_NewOwner req,
         fc_Generation := fc_Generation (tk_Previous t) + 1\<rparr>)"
  using assms unfolding TakeoverReserved_def Let_def
  by (auto dest!: trace_dests split: option.splits sum.splits prod.splits if_splits)

section \<open>Concurrent invocations over an atomic store\<close>

text \<open>
  The store that the adapter's documentation asks for: a reservation creates a record that does
  not exist yet, a compare-and-swap replaces exactly the expected record. \<open>replay\<close> runs a global
  history of events on it; \<open>None\<close> means that the history contains a call the store refuses.
\<close>

type_synonym custody_key = "string \<times> string"

definition custody_key :: "fenced_custody \<Rightarrow> custody_key" where
  "custody_key c = (fc_EffectID c, fc_AttemptID c)"

fun store_event :: "custody_event \<Rightarrow> (custody_key \<rightharpoonup> fenced_custody) \<Rightarrow> (custody_key \<rightharpoonup> fenced_custody) option" where
  "store_event (EvReserve c) m = (if m (custody_key c) = None then Some (m(custody_key c \<mapsto> c)) else None)"
| "store_event (EvCAS c d) m = (if m (custody_key c) = Some c then Some (m(custody_key c \<mapsto> d)) else None)"
| "store_event (EvExecute c) m = Some m"

fun replay :: "(custody_key \<rightharpoonup> fenced_custody) \<Rightarrow> custody_event list \<Rightarrow> (custody_key \<rightharpoonup> fenced_custody) option" where
  "replay m [] = Some m"
| "replay m (e # es) = (case store_event e m of None \<Rightarrow> None | Some m' \<Rightarrow> replay m' es)"

text \<open>The phase changes that the operations make.\<close>

definition phase_rank :: "custody_phase \<Rightarrow> nat" where
  "phase_rank p =
     (case p of CustodyReserved \<Rightarrow> 0 | CustodyCrossing \<Rightarrow> 1 | CustodyUnknown \<Rightarrow> 2 | CustodyClosed \<Rightarrow> 3
      | CustodyOther _ \<Rightarrow> 4)"

definition custody_step :: "fenced_custody \<Rightarrow> fenced_custody \<Rightarrow> bool" where
  "custody_step c d \<longleftrightarrow> custody_key d = custody_key c \<and>
     (fc_Generation d = fc_Generation c \<and> phase_rank (fc_Phase d) = Suc (phase_rank (fc_Phase c)) \<or>
      fc_Phase c = CustodyReserved \<and> fc_Phase d = CustodyReserved \<and>
        fc_Generation c \<noteq> - 1 \<and> fc_Generation d = fc_Generation c + 1)"

fun allowed_event :: "custody_event \<Rightarrow> bool" where
  "allowed_event (EvReserve c) \<longleftrightarrow> fc_Phase c = CustodyReserved"
| "allowed_event (EvCAS c d) \<longleftrightarrow> custody_step c d"
| "allowed_event (EvExecute c) \<longleftrightarrow> True"

fun crosses :: "custody_key \<Rightarrow> custody_event \<Rightarrow> bool" where
  "crosses k (EvCAS c d) \<longleftrightarrow>
     custody_key c = k \<and> fc_Phase c = CustodyReserved \<and> fc_Phase d = CustodyCrossing"
| "crosses k _ \<longleftrightarrow> False"

fun executes :: "custody_key \<Rightarrow> custody_event \<Rightarrow> bool" where
  "executes k (EvExecute c) \<longleftrightarrow> custody_key c = k"
| "executes k _ \<longleftrightarrow> False"

text \<open>Every entry of the effect callback is paid for by a crossing of the same invocation.\<close>

definition disciplined :: "custody_event list \<Rightarrow> bool" where
  "disciplined tr \<longleftrightarrow> list_all allowed_event tr \<and>
     (\<forall>k. length (filter (executes k) tr) \<le> length (filter (crosses k) tr))"

lemma disciplined_append: "disciplined a \<Longrightarrow> disciplined b \<Longrightarrow> disciplined (a @ b)"
  by (fastforce simp: disciplined_def intro: add_mono)

lemma length_filter_mset: "length (filter P xs) = size (filter_mset P (mset xs))"
  by (metis mset_filter size_mset)

lemma disciplined_interleaving:
  assumes "list_all disciplined trs" and "mset h = mset (concat trs)"
  shows "disciplined h"
proof -
  have "disciplined (concat trs)"
    using assms(1) by (induction trs) (simp_all add: disciplined_append, simp add: disciplined_def)
  then show ?thesis
    using assms(2) mset_eq_setD [OF assms(2)]
    by (simp add: disciplined_def length_filter_mset list_all_iff)
qed

lemma custody_key_update [simp]:
  "custody_key (c\<lparr>fc_Phase := p\<rparr>) = custody_key c"
  "custody_key (c\<lparr>fc_Owner := i, fc_Generation := g\<rparr>) = custody_key c"
  by (simp_all add: custody_key_def)

lemma crossing_protocol_disciplined:
  assumes "fc_Phase c = CustodyReserved"
  shows "disciplined (take n (crossing_protocol c))"
proof -
  consider "n = 0" | "n = 1" | "n = 2" | "n = 3" | "4 \<le> n" by linarith
  then show ?thesis
    by cases (simp_all add: crossing_protocol_def Let_def disciplined_def custody_step_def phase_rank_def
        assms eval_nat_numeral)
qed

text \<open>
  A call of one of the four operations, with its context, request, adapter and world, and the
  events it leaves.
\<close>

datatype ('s, 'e) fenced_call =
    CallReserve "('s, 'e) err_call" effect_request "('s, 'e) fenced_adapter" 's
  | CallExecute "('s, 'e) err_call" effect_request fenced_custody "('s, 'e) fenced_adapter" 's
  | CallRun "('s, 'e) err_call" effect_request "('s, 'e) fenced_adapter" 's
  | CallTakeover takeover_request "('s, 'e) fenced_adapter" 's

fun events_of_call :: "(string \<Rightarrow> string) \<Rightarrow> ('s, 'e) fenced_call \<Rightarrow> custody_event list" where
  "events_of_call sha (CallReserve ctx req ad s) =
     snd (snd (ReserveFenced sha (keep ctx) req (Some (traced ad)) (s, [])))"
| "events_of_call sha (CallExecute ctx req c ad s) =
     snd (snd (ExecuteReservedFenced sha (keep ctx) req c (Some (traced ad)) (s, [])))"
| "events_of_call sha (CallRun ctx req ad s) =
     snd (snd (RunFenced sha (keep ctx) req (Some (traced ad)) (s, [])))"
| "events_of_call sha (CallTakeover req ad s) =
     snd (snd (TakeoverReserved sha req (Some (traced ad)) (s, [])))"

lemma ExecuteReservedFenced_extends:
  assumes "ExecuteReservedFenced sha (keep ctx) req c (Some (traced ad)) (s, tr0) = (r, s', tr)"
  shows "\<exists>n. tr = tr0 @ take n (crossing_protocol c) \<and> (0 < n \<longrightarrow> fc_Phase c = CustodyReserved)"
  using assms
proof (cases rule: ExecuteReservedFenced_trace)
  case before
  then show ?thesis by (intro exI [of _ 0]) simp
next
  case crossed
  then show ?thesis by (intro exI [of _ 1]) (simp add: crossing_protocol_def Let_def)
next
  case (entered effectID acc err s1)
  from finish_trace [OF entered(3)]
  have "tr = tr0 @ take 2 (crossing_protocol c) \<or> tr = tr0 @ take 3 (crossing_protocol c) \<or>
      tr = tr0 @ take 4 (crossing_protocol c)"
    by (auto simp: crossing_protocol_def Let_def split: if_splits)
  with entered(1) show ?thesis by auto
qed

lemma crossing_prefix_disciplined:
  "0 < n \<longrightarrow> fc_Phase c = CustodyReserved \<Longrightarrow> disciplined (take n (crossing_protocol c))"
  by (cases "n = 0") (simp_all add: crossing_protocol_disciplined, simp add: disciplined_def)

lemma reserve_disciplined:
  assumes "ReserveFenced sha (keep ctx) req (Some (traced ad)) (s, []) = (pe, s', tr)"
  shows "disciplined tr"
  using ReserveFenced_trace [OF assms] by (auto simp: disciplined_def)

lemma events_of_call_disciplined: "disciplined (events_of_call sha call)"
proof (cases call)
  case (CallReserve ctx req ad s)
  then show ?thesis by (simp, metis reserve_disciplined prod.collapse)
next
  case (CallExecute ctx req c ad s)
  obtain r s' tr where run:
    "ExecuteReservedFenced sha (keep ctx) req c (Some (traced ad)) (s, []) = (r, s', tr)"
    using prod_cases3 by blast
  with ExecuteReservedFenced_extends [OF run] CallExecute show ?thesis
    by (auto intro: crossing_prefix_disciplined)
next
  case (CallRun ctx req ad s)
  obtain prep err s1 tr1 where res:
    "ReserveFenced sha (keep ctx) req (Some (traced ad)) (s, []) = ((prep, err), s1, tr1)"
    by (metis prod.exhaust)
  obtain r s' tr where run:
    "ExecuteReservedFenced sha (keep ctx) req (fp_Custody prep) (Some (traced ad)) (s1, tr1) = (r, s', tr)"
    using prod_cases3 by blast
  show ?thesis
    using reserve_disciplined [OF res] ExecuteReservedFenced_extends [OF run] CallRun res run
    by (cases err) (auto simp: RunFenced_def intro: disciplined_append crossing_prefix_disciplined)
next
  case (CallTakeover req ad s)
  obtain t err s' tr where run:
    "TakeoverReserved sha req (Some (traced ad)) (s, []) = ((t, err), s', tr)"
    by (metis prod.exhaust)
  show ?thesis
    using TakeoverReserved_trace [OF run] CallTakeover run
    by (cases "tr = []") (auto simp: disciplined_def custody_step_def)
qed

text \<open>A store accepts at most one crossing per effect attempt, and none past RESERVED.\<close>

lemma replay_crosses:
  assumes "replay m h = Some m'" and "list_all allowed_event h"
  shows "length (filter (crosses k) h) \<le>
    (case m k of Some c \<Rightarrow> if fc_Phase c = CustodyReserved then 1 else 0 | None \<Rightarrow> 1)"
  using assms
proof (induction h arbitrary: m)
  case (Cons e h)
  then obtain m1 where step: "store_event e m = Some m1" and rest: "replay m1 h = Some m'"
    by (auto split: option.splits)
  note IH = Cons.IH [OF rest]
  show ?case
  proof (cases e)
    case (EvReserve c)
    with step IH Cons.prems show ?thesis by (cases "custody_key c = k") (auto split: if_splits)
  next
    case (EvCAS c d)
    have "phase_rank (fc_Phase d) = 0 \<longleftrightarrow> fc_Phase d = CustodyReserved"
      "phase_rank (fc_Phase c) = 0 \<longleftrightarrow> fc_Phase c = CustodyReserved"
      by (auto simp: phase_rank_def split: custody_phase.splits)
    with EvCAS step IH Cons.prems show ?thesis
      by (cases "custody_key c = k") (auto simp: custody_step_def split: if_splits)
  next
    case (EvExecute c)
    with step IH Cons.prems show ?thesis by simp
  qed
qed (simp split: option.splits)

text \<open>
  C14. At most once: whatever calls of the four operations run concurrently, with whatever
  requests, owners and adapters, and however their events are interleaved, if the global history
  is one that an atomic custody store accepts then the effect callback is entered at most once for
  each effect attempt.
\<close>

theorem fenced_at_most_once:
  assumes "mset h = mset (concat (map (events_of_call sha) calls))"
    and "replay Map.empty h = Some m"
  shows "length (filter (executes k) h) \<le> 1"
proof -
  have "disciplined h"
    using events_of_call_disciplined
    by (intro disciplined_interleaving [OF _ assms(1)]) (auto simp: list_all_iff)
  moreover from this have "length (filter (crosses k) h) \<le> 1"
    using replay_crosses [OF assms(2), of k] by (simp add: disciplined_def)
  ultimately show ?thesis unfolding disciplined_def using le_trans by blast
qed

definition fence_le :: "fenced_custody \<Rightarrow> fenced_custody \<Rightarrow> bool" where
  "fence_le c d \<longleftrightarrow> phase_rank (fc_Phase c) \<le> phase_rank (fc_Phase d) \<and> fc_Generation c \<le> fc_Generation d \<and>
     (fc_Phase c \<noteq> CustodyReserved \<longrightarrow> fc_Generation d = fc_Generation c)"

lemma phase_rank_0 [simp]: "phase_rank p = 0 \<longleftrightarrow> p = CustodyReserved"
  by (auto simp: phase_rank_def split: custody_phase.splits)

lemma fence_le_refl: "fence_le c c"
  by (simp add: fence_le_def)

lemma fence_le_trans:
  assumes "fence_le b c" and "fence_le c d"
  shows "fence_le b d"
proof -
  have "fc_Phase c \<noteq> CustodyReserved" if "fc_Phase b \<noteq> CustodyReserved"
    using that assms(1) unfolding fence_le_def by (metis le_zero_eq phase_rank_0)
  then show ?thesis using assms unfolding fence_le_def by (metis le_trans order.trans)
qed

lemma generation_inc: "g \<noteq> - 1 \<Longrightarrow> g \<le> g + 1" for g :: u64
proof -
  assume "g \<noteq> - 1"
  then have "g < - 1" by (simp add: word_order.not_eq_extremum)
  then have "unat (g + 1) = Suc (unat g)" by (rule unat_inc)
  then show ?thesis by (simp add: word_le_nat_alt)
qed

lemma custody_step_fence: "custody_step c d \<Longrightarrow> fence_le c d"
  by (auto simp: custody_step_def fence_le_def generation_inc)

lemma replay_fence:
  assumes "replay m h = Some m'" and "list_all allowed_event h" and "m k = Some c"
  shows "\<exists>d. m' k = Some d \<and> fence_le c d"
  using assms
proof (induction h arbitrary: m c)
  case Nil
  then show ?case by (simp add: fence_le_refl)
next
  case (Cons e h)
  then obtain m1 where step: "store_event e m = Some m1" and rest: "replay m1 h = Some m'"
    by (auto split: option.splits)
  have "\<exists>c1. m1 k = Some c1 \<and> fence_le c c1"
    using step Cons.prems by (cases e) (auto simp: fence_le_refl custody_step_fence split: if_splits)
  then show ?case
    using Cons.IH [OF rest] Cons.prems(2) by (auto intro: fence_le_trans)
qed

text \<open>
  The fence only moves forward: let any set of calls of the four operations run, and cut an
  accepted global history of theirs anywhere. A custody record present at the cut is still present
  at the end, its phase has not gone back in the order RESERVED, CROSSING, UNKNOWN, CLOSED, its
  64-bit generation has not decreased (it does not wrap), and if it had left RESERVED at the cut
  then its generation is unchanged, so that no takeover follows a crossing.
\<close>

theorem fenced_monotone:
  assumes "mset (h1 @ h2) = mset (concat (map (events_of_call sha) calls))"
    and "replay Map.empty h1 = Some m" and "replay m h2 = Some m'" and "m k = Some c"
  shows "\<exists>d. m' k = Some d \<and> phase_rank (fc_Phase c) \<le> phase_rank (fc_Phase d) \<and>
    unat (fc_Generation c) \<le> unat (fc_Generation d) \<and>
    (fc_Phase c \<noteq> CustodyReserved \<longrightarrow> fc_Generation d = fc_Generation c)"
proof -
  have "disciplined (h1 @ h2)"
    using events_of_call_disciplined
    by (intro disciplined_interleaving [OF _ assms(1)]) (auto simp: list_all_iff)
  then have "list_all allowed_event h2" by (simp add: disciplined_def)
  from replay_fence [OF assms(3) this assms(4)] show ?thesis
    by (auto simp: fence_le_def word_le_nat_alt)
qed

section \<open>Witnesses\<close>

text \<open>A one-record store as the adapter's world, and a complete run of one attempt on it.\<close>

definition demo_fenced :: "(fenced_custody, string) fenced_adapter" where
  "demo_fenced =
     \<lparr>fa_CurrentState = (\<lambda>_ s. (Inr (demo_state ''1''), s)),
      fa_VerifyAttestation = (\<lambda>_ _ s. (None, s)),
      fa_Reserve = (\<lambda>c _. (None, c)),
      fa_Load = (\<lambda>_ _ s. (Inr s, s)),
      fa_CAS = (\<lambda>c d s. if s = c then (None, d) else (Some ''stale'', s)),
      fa_Execute = (\<lambda>_ _ s. ((\<lparr>ac_Reference = ''ok''\<rparr>, None), s)),
      fa_Observe = (\<lambda>_ c s. ((\<lparr>eo_State = demo_state ''2'',
         eo_Attestation = demo_attestation (ObservationBindingDigest id (fc_EffectID c) (demo_state ''2''))\<rparr>,
         None), s))\<rparr>"

definition demo_custody :: fenced_custody where
  "demo_custody =
     \<lparr>fc_EffectID = digest id (binding_parts (demo_effect id ''a1'') ''effect-v0''),
      fc_AttemptID = ''a1'', fc_Target = ''t'', fc_Owner = demo_identity ''e'', fc_Generation = 1,
      fc_Phase = CustodyReserved\<rparr>"

lemma demo_custody_complete: "FencedCustody_Complete demo_custody"
  by (simp add: FencedCustody_Complete_def demo_custody_def digest_def validCustodyPhase_def plain_simps)

lemma demo_fenced_calls [simp]:
  "fa_Reserve (traced demo_fenced) c (s, tr) = (None, c, tr @ [EvReserve c])"
  "fa_Load (traced demo_fenced) e a (s, tr) = (Inr s, s, tr)"
  "fa_CAS (traced demo_fenced) c d (c, tr) = (None, d, tr @ [EvCAS c d])"
  "fa_Execute (traced demo_fenced) t c (s, tr) = ((\<lparr>ac_Reference = ''ok''\<rparr>, None), s, tr @ [EvExecute c])"
  "fa_VerifyAttestation (traced demo_fenced) x b (s, tr) = (None, s, tr)"
  "fa_Observe (traced demo_fenced) t c (s, tr) = ((\<lparr>eo_State = demo_state ''2'',
     eo_Attestation = demo_attestation (ObservationBindingDigest id (fc_EffectID c) (demo_state ''2''))\<rparr>,
     None), s, tr)"
  by (simp_all add: traced_def demo_fenced_def note_if_def keep_def)

lemma demo_check:
  "checkRequestAtBoundary id (keep (\<lambda>s. (None, s))) (demo_effect id ''a1'') (traced demo_fenced) w = (None, w)"
  by (simp add: checkRequestAtBoundary_def keep_def traced_def demo_fenced_def AdmissionBindingDigest_def
      demo_binding)

definition demo_call :: "(fenced_custody, string) fenced_call" where
  "demo_call = CallRun (\<lambda>s. (None, s)) (demo_effect id ''a1'') demo_fenced zero_custody"

lemma demo_reserve:
  "ReserveFenced id (keep (\<lambda>s. (None, s))) (demo_effect id ''a1'') (Some (traced demo_fenced)) (s, []) =
   ((\<lparr>fp_Custody = demo_custody, fp_CustodyRecorded = True\<rparr>, None), demo_custody, [EvReserve demo_custody])"
  by (simp add: ReserveFenced_def demo_valid plain_simps demo_check EffectIdentity_def demo_binding
      demo_custody_def Let_def)

lemma demo_execute:
  "snd (snd (ExecuteReservedFenced id (keep (\<lambda>s. (None, s))) (demo_effect id ''a1'') demo_custody
     (Some (traced demo_fenced)) (demo_custody, tr))) = tr @ crossing_protocol demo_custody"
proof -
  have "validateFencedCustody (demo_effect id ''a1'') (fc_EffectID demo_custody) demo_custody =
      (None :: string fenced_error option)"
    unfolding validateFencedCustody_None_iff using demo_custody_complete by (simp add: demo_custody_def)
  moreover have "EffectIdentity id (demo_effect id ''a1'') =
      (Inr (fc_EffectID demo_custody) :: string runtime_error + string)"
    by (simp add: EffectIdentity_def demo_binding demo_custody_def)
  moreover have "fc_Phase demo_custody = CustodyReserved" by (simp add: demo_custody_def)
  ultimately show ?thesis
    by (simp add: ExecuteReservedFenced_def demo_valid plain_simps demo_check Let_def keep_def
        finish_fenced_def FencedCustody_Equal_def verifyObservation_def ObservationBindingDigest_def
        crossing_protocol_def)
qed

lemma demo_events: "events_of_call id demo_call = EvReserve demo_custody # crossing_protocol demo_custody"
  by (simp add: demo_call_def RunFenced_def demo_reserve demo_execute)

theorem ExecuteReservedFenced_protocol_witness:
  "\<exists>n \<le> 4. snd (snd (ExecuteReservedFenced id (keep (\<lambda>s. (None, s))) (demo_effect id ''a1'') demo_custody
       (Some (traced demo_fenced)) (demo_custody, []))) = take n (crossing_protocol demo_custody) \<and>
     (0 < n \<longrightarrow> fc_Phase demo_custody = CustodyReserved)"
proof -
  obtain r s' tr where run: "ExecuteReservedFenced id (keep (\<lambda>s. (None, s))) (demo_effect id ''a1'')
      demo_custody (Some (traced demo_fenced)) (demo_custody, []) = (r, s', tr)"
    using prod_cases3 by blast
  from ExecuteReservedFenced_protocol [OF run] run show ?thesis by auto
qed

lemma demo_replay: "replay Map.empty (EvReserve demo_custody # crossing_protocol demo_custody) =
    Some [custody_key demo_custody \<mapsto> demo_custody\<lparr>fc_Phase := CustodyClosed\<rparr>]"
  by (simp add: crossing_protocol_def Let_def)

theorem fenced_at_most_once_witness:
  "length (filter (executes (custody_key demo_custody)) (events_of_call id demo_call)) \<le> 1"
  using fenced_at_most_once [of "events_of_call id demo_call" id "[demo_call]", OF _ demo_replay [folded demo_events]]
  by simp

theorem fenced_monotone_witness:
  "\<exists>d. [custody_key demo_custody \<mapsto> demo_custody\<lparr>fc_Phase := CustodyClosed\<rparr>] (custody_key demo_custody) = Some d \<and>
     unat (fc_Generation demo_custody) \<le> unat (fc_Generation d)"
  using fenced_monotone [of "[EvReserve demo_custody]" "crossing_protocol demo_custody" id "[demo_call]"
      "[custody_key demo_custody \<mapsto> demo_custody]"
      "[custody_key demo_custody \<mapsto> demo_custody\<lparr>fc_Phase := CustodyClosed\<rparr>]"
      "custody_key demo_custody" demo_custody] demo_replay
  by (simp add: demo_events)

end
