(* ===== verification/Epistemic.thy ===== *)
theory Epistemic
  imports Prelude "HOL-Library.AList"
begin

text \<open>
  The assumption tracker of \<open>internal/epistemic/tracker.go\<close>: assumptions, the reverse indices from
  resources and from upstream assumptions to the assumptions that depend on them, and the
  propagation of a resource event. The two indices are association lists from a key to the
  identifiers stored under it (a Go map of sets, whose order the code never observes because it
  sorts the identifiers); the assumptions are a map. The mutex makes each operation atomic.
\<close>

section \<open>Data\<close>

datatype assumption_status = StatusSupported | StatusInvalidated | StatusOther string

record resource_ref =
  rr_APIVersion :: string
  rr_Kind :: string
  rr_Namespace :: string
  rr_Name :: string
  rr_UID :: string
  rr_ResourceVersion :: string

definition resource_Key :: "resource_ref \<Rightarrow> string" where
  "resource_Key r = rr_APIVersion r @ ''/'' @ rr_Kind r @ ''/'' @ rr_Namespace r @ ''/'' @ rr_Name r"

datatype invalidation_cause =
    CauseResourceVersionChanged
  | CauseResourceDeleted
  | CauseResourceUIDChanged
  | CauseUpstreamAssumptionInvalidated

record invalidation =
  iv_Cause :: invalidation_cause
  iv_DependencyKey :: string
  iv_RootDependencyKey :: string
  iv_UpstreamAssumptionID :: string
  iv_OldResourceVersion :: string
  iv_NewResourceVersion :: string
  iv_EventType :: string

record assumption =
  asm_ID :: string
  asm_Statement :: string
  asm_Status :: assumption_status
  asm_Dependencies :: "resource_ref list"
  asm_AssumptionDependencies :: "string list"
  asm_EvaluatedAt :: time
  asm_InvalidatedAt :: "time option"
  asm_Invalidation :: "invalidation option"

record resource_event =
  re_Type :: string
  re_Resource :: resource_ref
  re_At :: time

record handle_result =
  hr_Assumption :: assumption
  hr_Changed :: bool

type_synonym reverse_index = "(string \<times> string list) list"
type_synonym assumptions = "string \<rightharpoonup> assumption"

record tracker =
  tkr_assumptions :: assumptions
  tkr_reverseResources :: reverse_index
  tkr_reverseAssumptions :: reverse_index

definition NewTracker :: tracker where
  "NewTracker = \<lparr>tkr_assumptions = Map.empty, tkr_reverseResources = [], tkr_reverseAssumptions = []\<rparr>"

text \<open>The zero value that reading a missing key of a Go map yields.\<close>

definition zero_assumption :: assumption where
  "zero_assumption = \<lparr>asm_ID = [], asm_Statement = [], asm_Status = StatusOther [], asm_Dependencies = [],
     asm_AssumptionDependencies = [], asm_EvaluatedAt = 0, asm_InvalidatedAt = None, asm_Invalidation = None\<rparr>"

definition read_assumption :: "assumptions \<Rightarrow> string \<Rightarrow> assumption" where
  "read_assumption m i = (case m i of None \<Rightarrow> zero_assumption | Some a \<Rightarrow> a)"

section \<open>Indices\<close>

definition index_ids :: "reverse_index \<Rightarrow> string \<Rightarrow> string list" where
  "index_ids idx k = (case map_of idx k of None \<Rightarrow> [] | Some ids \<Rightarrow> ids)"

definition addReverseEdge :: "reverse_index \<Rightarrow> string \<Rightarrow> string \<Rightarrow> reverse_index" where
  "addReverseEdge idx k assumptionID = AList.update k (List.insert assumptionID (index_ids idx k)) idx"

definition removeReverseEdge :: "reverse_index \<Rightarrow> string \<Rightarrow> string \<Rightarrow> reverse_index" where
  "removeReverseEdge idx k assumptionID =
     (let ids = removeAll assumptionID (index_ids idx k)
      in if ids = [] then AList.delete k idx else AList.update k ids idx)"

definition sortedIDs :: "string list \<Rightarrow> string list" where
  "sortedIDs ids = sort ids"

section \<open>Operations\<close>

definition PutAssumption :: "assumption \<Rightarrow> tracker \<Rightarrow> tracker" where
  "PutAssumption a t =
     (let (resources, upstreams) =
        (case tkr_assumptions t (asm_ID a) of
           None \<Rightarrow> (tkr_reverseResources t, tkr_reverseAssumptions t)
         | Some previous \<Rightarrow>
           (fold (\<lambda>dep idx. removeReverseEdge idx (resource_Key dep) (asm_ID a))
              (asm_Dependencies previous) (tkr_reverseResources t),
            fold (\<lambda>upstream idx. removeReverseEdge idx upstream (asm_ID a))
              (asm_AssumptionDependencies previous) (tkr_reverseAssumptions t)))
      in \<lparr>tkr_assumptions = (tkr_assumptions t)(asm_ID a \<mapsto> a),
          tkr_reverseResources =
            fold (\<lambda>dep idx. addReverseEdge idx (resource_Key dep) (asm_ID a)) (asm_Dependencies a) resources,
          tkr_reverseAssumptions =
            fold (\<lambda>upstream idx. addReverseEdge idx upstream (asm_ID a))
              (asm_AssumptionDependencies a) upstreams\<rparr>)"

definition GetAssumption :: "string \<Rightarrow> tracker \<Rightarrow> assumption option" where
  "GetAssumption i t = tkr_assumptions t i"

definition invalidateAssumption :: "assumption \<Rightarrow> time \<Rightarrow> invalidation \<Rightarrow> assumption" where
  "invalidateAssumption a at i =
     a\<lparr>asm_Status := StatusInvalidated, asm_InvalidatedAt := Some at, asm_Invalidation := Some i\<rparr>"

definition matchingDependency :: "resource_ref list \<Rightarrow> string \<Rightarrow> resource_ref option" where
  "matchingDependency dependencies k = find (\<lambda>dep. resource_Key dep = k) dependencies"

definition resourceInvalidationCause :: "resource_ref \<Rightarrow> resource_event \<Rightarrow> invalidation_cause option" where
  "resourceInvalidationCause dep event =
     (if re_Type event = ''DELETED'' then Some CauseResourceDeleted
      else if rr_UID dep \<noteq> [] \<and> rr_UID (re_Resource event) \<noteq> [] \<and> rr_UID dep \<noteq> rr_UID (re_Resource event)
      then Some CauseResourceUIDChanged
      else if rr_ResourceVersion dep \<noteq> rr_ResourceVersion (re_Resource event)
      then Some CauseResourceVersionChanged
      else None)"

text \<open>The first loop of \<open>Handle\<close>: over the assumptions that depend on the resource itself.\<close>

fun handle_direct ::
  "resource_event \<Rightarrow> string list \<Rightarrow> assumptions \<Rightarrow> assumptions \<times> handle_result list \<times> string list" where
  "handle_direct event [] m = (m, [], [])"
| "handle_direct event (i # ids) m =
     (let a = read_assumption m i; rootKey = resource_Key (re_Resource event) in
      if asm_Status a = StatusInvalidated
      then (let (m', rs, q) = handle_direct event ids m
            in (m', \<lparr>hr_Assumption = a, hr_Changed = False\<rparr> # rs, q))
      else case matchingDependency (asm_Dependencies a) rootKey of
        None \<Rightarrow> handle_direct event ids m
      | Some dep \<Rightarrow>
        (case resourceInvalidationCause dep event of
           None \<Rightarrow>
             (let (m', rs, q) = handle_direct event ids m
              in (m', \<lparr>hr_Assumption = a, hr_Changed = False\<rparr> # rs, q))
         | Some cause \<Rightarrow>
             (let a' = invalidateAssumption a (re_At event)
                    \<lparr>iv_Cause = cause, iv_DependencyKey = resource_Key dep,
                     iv_RootDependencyKey = rootKey, iv_UpstreamAssumptionID = [],
                     iv_OldResourceVersion = rr_ResourceVersion dep,
                     iv_NewResourceVersion = rr_ResourceVersion (re_Resource event),
                     iv_EventType = re_Type event\<rparr>;
                  (m', rs, q) = handle_direct event ids (m(i \<mapsto> a'))
              in (m', \<lparr>hr_Assumption = a', hr_Changed = True\<rparr> # rs, i # q))))"

definition upstream_invalidation ::
  "resource_event \<Rightarrow> string \<Rightarrow> invalidation option \<Rightarrow> invalidation" where
  "upstream_invalidation event upstream root =
     (let rootKey = resource_Key (re_Resource event) in
      \<lparr>iv_Cause = CauseUpstreamAssumptionInvalidated,
       iv_DependencyKey = ''assumption/'' @ upstream,
       iv_RootDependencyKey =
         (case root of None \<Rightarrow> rootKey
          | Some r \<Rightarrow> if iv_RootDependencyKey r \<noteq> [] then iv_RootDependencyKey r else rootKey),
       iv_UpstreamAssumptionID = upstream,
       iv_OldResourceVersion = (case root of None \<Rightarrow> [] | Some r \<Rightarrow> iv_OldResourceVersion r),
       iv_NewResourceVersion = (case root of None \<Rightarrow> [] | Some r \<Rightarrow> iv_NewResourceVersion r),
       iv_EventType =
         (case root of None \<Rightarrow> re_Type event
          | Some r \<Rightarrow> if iv_EventType r \<noteq> [] then iv_EventType r else re_Type event)\<rparr>)"

text \<open>The inner loop of the propagation: over the assumptions that depend on \<open>upstream\<close>.\<close>

fun propagate_to ::
  "resource_event \<Rightarrow> string \<Rightarrow> string list \<Rightarrow> assumptions \<Rightarrow> assumptions \<times> handle_result list \<times> string list" where
  "propagate_to event upstream [] m = (m, [], [])"
| "propagate_to event upstream (i # ids) m =
     (let a = read_assumption m i in
      if asm_Status a = StatusInvalidated then propagate_to event upstream ids m
      else let a' = invalidateAssumption a (re_At event)
                 (upstream_invalidation event upstream (asm_Invalidation (read_assumption m upstream)));
               (m', rs, q) = propagate_to event upstream ids (m(i \<mapsto> a'))
           in (m', \<lparr>hr_Assumption = a', hr_Changed = True\<rparr> # rs, i # q))"

text \<open>Identifiers of an index that are not invalidated yet: what is left to propagate to.\<close>

definition pending :: "reverse_index \<Rightarrow> assumptions \<Rightarrow> string set" where
  "pending idx m =
     {i \<in> set (concat (map snd idx)). asm_Status (read_assumption m i) \<noteq> StatusInvalidated}"

lemma finite_pending [simp]: "finite (pending idx m)"
  by (simp add: pending_def)

lemma read_update [simp]: "read_assumption (m(i \<mapsto> a)) j = (if j = i then a else read_assumption m j)"
  by (simp add: read_assumption_def)

lemma invalidateAssumption_Status [simp]: "asm_Status (invalidateAssumption a at i) = StatusInvalidated"
  by (simp add: invalidateAssumption_def)

lemma index_ids_subset: "set (index_ids idx k) \<subseteq> set (concat (map snd idx))"
proof (cases "map_of idx k")
  case (Some ids)
  then have "(k, ids) \<in> set idx" by (rule map_of_SomeD)
  with Some show ?thesis by (force simp: index_ids_def)
qed (simp add: index_ids_def)

lemma propagate_to_pending:
  "propagate_to event u ids m = (m', rs, q) \<Longrightarrow> set ids \<subseteq> set (concat (map snd idx)) \<Longrightarrow>
   card (pending idx m') + length q = card (pending idx m)"
proof (induction event u ids m arbitrary: m' rs q rule: propagate_to.induct)
  case (2 event u i ids m)
  show ?case
  proof (cases "asm_Status (read_assumption m i) = StatusInvalidated")
    case True
    with 2 show ?thesis by simp
  next
    case False
    define a' where "a' = invalidateAssumption (read_assumption m i) (re_At event)
      (upstream_invalidation event u (asm_Invalidation (read_assumption m u)))"
    obtain m1 rs1 q1 where rec: "propagate_to event u ids (m(i \<mapsto> a')) = (m1, rs1, q1)"
      using prod_cases3 by blast
    with False "2.prems" have q: "m' = m1" "q = i # q1"
      by (auto simp: Let_def a'_def)
    have "pending idx m = insert i (pending idx (m(i \<mapsto> a')))" "i \<notin> pending idx (m(i \<mapsto> a'))"
      using False "2.prems"(2) by (auto simp: pending_def a'_def)
    then have "card (pending idx m) = Suc (card (pending idx (m(i \<mapsto> a'))))" by simp
    with "2.IH"(2) [OF refl False refl rec [unfolded a'_def]] q "2.prems"(2) show ?thesis
      by (simp add: a'_def fun_upd_def)
  qed
qed simp

function propagate ::
  "resource_event \<Rightarrow> reverse_index \<Rightarrow> string list \<Rightarrow> assumptions \<Rightarrow> handle_result list
    \<Rightarrow> assumptions \<times> handle_result list" where
  "propagate event idx [] m results = (m, results)"
| "propagate event idx (upstream # queue) m results =
     (let (m', rs, q) = propagate_to event upstream (sortedIDs (index_ids idx upstream)) m
      in propagate event idx (queue @ q) m' (results @ rs))"
  by pat_completeness auto
termination
proof (relation "measure (\<lambda>(event, idx, queue, m, results). card (pending idx m) + length queue)")
  fix event idx upstream queue m and results rs :: "handle_result list" and x m' y q
  assume x: "x = propagate_to event upstream (sortedIDs (index_ids idx upstream)) m"
    and "(m', y) = x" "(rs, q) = y"
  then have "propagate_to event upstream (sortedIDs (index_ids idx upstream)) m = (m', rs, q)" by simp
  moreover have "set (sortedIDs (index_ids idx upstream)) \<subseteq> set (concat (map snd idx))"
    using index_ids_subset by (simp add: sortedIDs_def)
  ultimately have "card (pending idx m') + length q = card (pending idx m)"
    by (rule propagate_to_pending)
  then show "((event, idx, queue @ q, m', results @ rs), event, idx, upstream # queue, m, results)
      \<in> measure (\<lambda>(event, idx, queue, m, results). card (pending idx m) + length queue)"
    by simp
qed simp

definition Handle :: "resource_event \<Rightarrow> tracker \<Rightarrow> handle_result list \<times> tracker" where
  "Handle event t =
     (let rootKey = resource_Key (re_Resource event);
          directIDs = sortedIDs (index_ids (tkr_reverseResources t) rootKey);
          (m1, rs1, queue) = handle_direct event directIDs (tkr_assumptions t);
          (m2, rs2) = propagate event (tkr_reverseAssumptions t) queue m1 rs1
      in (rs2, t\<lparr>tkr_assumptions := m2\<rparr>))"

section \<open>The index invariant\<close>

lemma index_ids_update: "index_ids (AList.update k v idx) k' = (if k' = k then v else index_ids idx k')"
  by (simp add: index_ids_def update_conv')

lemma index_ids_delete: "index_ids (AList.delete k idx) k' = (if k' = k then [] else index_ids idx k')"
  by (simp add: index_ids_def delete_conv')

lemma index_ids_add:
  "set (index_ids (addReverseEdge idx k i) k') = set (index_ids idx k') \<union> (if k' = k then {i} else {})"
  by (auto simp: addReverseEdge_def index_ids_update)

lemma index_ids_remove:
  "set (index_ids (removeReverseEdge idx k i) k') = set (index_ids idx k') - (if k' = k then {i} else {})"
proof (cases "removeAll i (index_ids idx k) = []")
  case True
  then have "set (index_ids idx k) - {i} = {}" by (metis set_empty set_removeAll)
  with True show ?thesis by (auto simp: removeReverseEdge_def index_ids_delete)
next
  case False
  then show ?thesis by (simp add: removeReverseEdge_def index_ids_update)
qed

lemma index_ids_fold_add:
  "set (index_ids (fold (\<lambda>d idx. addReverseEdge idx (f d) i) ds idx) k) =
   set (index_ids idx k) \<union> (if k \<in> f ` set ds then {i} else {})"
  by (induction ds arbitrary: idx) (auto simp: index_ids_add)

lemma index_ids_fold_remove:
  "set (index_ids (fold (\<lambda>d idx. removeReverseEdge idx (f d) i) ds idx) k) =
   set (index_ids idx k) - (if k \<in> f ` set ds then {i} else {})"
  by (induction ds arbitrary: idx) (auto simp: index_ids_remove)

text \<open>
  \<open>indexes keys m idx\<close>: under each key the index holds exactly the identifiers of the assumptions
  that list the key among their dependencies.
\<close>

definition indexes :: "(assumption \<Rightarrow> string list) \<Rightarrow> assumptions \<Rightarrow> reverse_index \<Rightarrow> bool" where
  "indexes keys m idx \<longleftrightarrow>
     (\<forall>k i. i \<in> set (index_ids idx k) \<longleftrightarrow> (\<exists>a. m i = Some a \<and> k \<in> set (keys a)))"

definition resource_keys :: "assumption \<Rightarrow> string list" where
  "resource_keys a = map resource_Key (asm_Dependencies a)"

definition well_indexed :: "tracker \<Rightarrow> bool" where
  "well_indexed t \<longleftrightarrow>
     (\<forall>i a. tkr_assumptions t i = Some a \<longrightarrow> asm_ID a = i) \<and>
     indexes resource_keys (tkr_assumptions t) (tkr_reverseResources t) \<and>
     indexes asm_AssumptionDependencies (tkr_assumptions t) (tkr_reverseAssumptions t)"

lemma indexes_put:
  assumes "indexes keys m idx"
    and removed: "\<And>k. set (index_ids old k) = set (index_ids idx k) -
      (case m i of None \<Rightarrow> {} | Some b \<Rightarrow> if k \<in> set (keys b) then {i} else {})"
    and added: "\<And>k. set (index_ids new k) = set (index_ids old k) \<union> (if k \<in> set (keys a) then {i} else {})"
  shows "indexes keys (m(i \<mapsto> a)) new"
  using assms(1) unfolding indexes_def added removed
  by (auto split: option.splits if_splits)

lemma PutAssumption_well_indexed: "well_indexed t \<Longrightarrow> well_indexed (PutAssumption a t)"
proof -
  assume wf: "well_indexed t"
  have rk: "k \<in> set (resource_keys b) \<longleftrightarrow> k \<in> resource_Key ` set (asm_Dependencies b)" for k b
    by (simp add: resource_keys_def)
  define t' where "t' = PutAssumption a t"
  have ms: "tkr_assumptions t' = (tkr_assumptions t)(asm_ID a \<mapsto> a)"
    by (simp add: t'_def PutAssumption_def Let_def split: prod.splits)
  have "indexes resource_keys (tkr_assumptions t') (tkr_reverseResources t')"
    unfolding ms
  proof (rule indexes_put [where old = "case tkr_assumptions t (asm_ID a) of None \<Rightarrow> tkr_reverseResources t
        | Some b \<Rightarrow> fold (\<lambda>dep idx. removeReverseEdge idx (resource_Key dep) (asm_ID a))
            (asm_Dependencies b) (tkr_reverseResources t)"])
    show "indexes resource_keys (tkr_assumptions t) (tkr_reverseResources t)"
      using wf by (simp add: well_indexed_def)
  qed (auto simp: rk index_ids_fold_remove [where f = resource_Key] index_ids_fold_add [where f = resource_Key]
      t'_def PutAssumption_def Let_def split: option.splits)
  moreover have "indexes asm_AssumptionDependencies (tkr_assumptions t') (tkr_reverseAssumptions t')"
    unfolding ms
  proof (rule indexes_put [where old = "case tkr_assumptions t (asm_ID a) of None \<Rightarrow> tkr_reverseAssumptions t
        | Some b \<Rightarrow> fold (\<lambda>upstream idx. removeReverseEdge idx upstream (asm_ID a))
            (asm_AssumptionDependencies b) (tkr_reverseAssumptions t)"])
    show "indexes asm_AssumptionDependencies (tkr_assumptions t) (tkr_reverseAssumptions t)"
      using wf by (simp add: well_indexed_def)
  qed (auto simp: index_ids_fold_remove [where f = "\<lambda>x. x"] index_ids_fold_add [where f = "\<lambda>x. x"]
      t'_def PutAssumption_def Let_def split: option.splits)
  moreover have "\<forall>i b. tkr_assumptions t' i = Some b \<longrightarrow> asm_ID b = i"
    using wf by (simp add: ms well_indexed_def)
  ultimately show ?thesis by (simp add: well_indexed_def t'_def)
qed

lemma NewTracker_well_indexed: "well_indexed NewTracker"
  by (simp add: well_indexed_def NewTracker_def indexes_def index_ids_def)

section \<open>What an event changes\<close>

definition invalid :: "assumptions \<Rightarrow> string \<Rightarrow> bool" where
  "invalid m i \<longleftrightarrow> asm_Status (read_assumption m i) = StatusInvalidated"

lemma invalid_update [simp]: "invalid (m(i \<mapsto> a)) j = (if j = i then asm_Status a = StatusInvalidated else invalid m j)"
  by (simp add: invalid_def)

text \<open>
  \<open>evolves event m m'\<close>: from \<open>m\<close> to \<open>m'\<close>, known assumptions that were not invalidated may have been
  invalidated at the time of the event; nothing else is different.
\<close>

definition evolves :: "resource_event \<Rightarrow> assumptions \<Rightarrow> assumptions \<Rightarrow> bool" where
  "evolves event m m' \<longleftrightarrow>
     (\<forall>i. m' i = m i \<or>
        (\<exists>a v. m i = Some a \<and> asm_Status a \<noteq> StatusInvalidated \<and>
           m' i = Some (invalidateAssumption a (re_At event) v)))"

lemma evolves_refl: "evolves event m m"
  by (simp add: evolves_def)

lemma evolves_update:
  "m i = Some a \<Longrightarrow> \<not> invalid m i \<Longrightarrow> evolves event m (m(i \<mapsto> invalidateAssumption a (re_At event) v))"
  by (auto simp: evolves_def invalid_def read_assumption_def)

lemma evolves_trans: "evolves event m m1 \<Longrightarrow> evolves event m1 m2 \<Longrightarrow> evolves event m m2"
  unfolding evolves_def by (metis invalidateAssumption_Status option.inject)

lemma evolves_stable: "evolves event m m' \<Longrightarrow> invalid m i \<Longrightarrow> m' i = m i"
  unfolding evolves_def invalid_def read_assumption_def
  by (metis option.case(2))

lemma evolves_invalid: "evolves event m m' \<Longrightarrow> invalid m i \<Longrightarrow> invalid m' i"
  using evolves_stable unfolding invalid_def read_assumption_def by metis

lemma evolves_dom: "evolves event m m' \<Longrightarrow> dom m' = dom m"
  unfolding evolves_def dom_def by (metis (no_types, lifting) option.distinct(1))

lemma evolves_fields:
  assumes "evolves event m m'" and "\<And>a at v. f (invalidateAssumption a at v) = f a"
  shows "map_option f (m' i) = map_option f (m i)"
  using assms(1) [unfolded evolves_def, rule_format, of i] assms(2) by auto

lemma evolves_indexes:
  assumes "evolves event m m'" and "\<And>a at v. keys (invalidateAssumption a at v) = keys a"
  shows "indexes keys m' idx = indexes keys m idx"
proof -
  have "(\<exists>a. m' i = Some a \<and> k \<in> set (keys a)) \<longleftrightarrow> (\<exists>a. m i = Some a \<and> k \<in> set (keys a))" for i k
    using evolves_fields [OF assms, of i] by (cases "m i"; cases "m' i") auto
  then show ?thesis unfolding indexes_def by simp
qed

definition changed :: "assumptions \<Rightarrow> string \<Rightarrow> handle_result" where
  "changed m i = \<lparr>hr_Assumption = read_assumption m i, hr_Changed = True\<rparr>"

text \<open>The resource event gives the assumption itself a reason to be invalidated.\<close>

definition direct_cause :: "resource_event \<Rightarrow> assumptions \<Rightarrow> string \<Rightarrow> bool" where
  "direct_cause event m i \<longleftrightarrow>
     (case matchingDependency (asm_Dependencies (read_assumption m i)) (resource_Key (re_Resource event)) of
        None \<Rightarrow> False | Some dep \<Rightarrow> resourceInvalidationCause dep event \<noteq> None)"

text \<open>
  What both loops guarantee of the assumptions \<open>m'\<close>, the results \<open>rs\<close> and the queue \<open>q\<close> they
  produce: the queue lists, once each, the newly invalidated assumptions, and the results marked
  as changed are those assumptions in their new state.
\<close>

definition pass_ok ::
  "resource_event \<Rightarrow> assumptions \<Rightarrow> assumptions \<Rightarrow> handle_result list \<Rightarrow> string list \<Rightarrow> bool" where
  "pass_ok event m m' rs q \<longleftrightarrow>
     evolves event m m' \<and> distinct q \<and> (\<forall>i. i \<in> set q \<longleftrightarrow> invalid m' i \<and> \<not> invalid m i) \<and>
     filter hr_Changed rs = map (changed m') q"

lemma pass_ok_skip:
  "pass_ok event m m' rs q \<Longrightarrow> \<not> hr_Changed r \<Longrightarrow> pass_ok event m m' (r # rs) q"
  by (simp add: pass_ok_def)

lemma pass_ok_Cons:
  assumes ok: "pass_ok event (m(i \<mapsto> a')) m' rs q" and "m i = Some a" and "\<not> invalid m i"
    and a': "a' = invalidateAssumption a (re_At event) v"
  shows "pass_ok event m m' (\<lparr>hr_Assumption = a', hr_Changed = True\<rparr> # rs) (i # q)"
proof -
  have ev: "evolves event (m(i \<mapsto> a')) m'" using ok by (simp add: pass_ok_def)
  have "evolves event m m'"
    using evolves_trans [OF evolves_update ev [unfolded a']] assms by blast
  moreover have inv: "invalid (m(i \<mapsto> a')) i" by (simp add: a')
  moreover have "m' i = Some a'" using evolves_stable [OF ev inv] by simp
  moreover have "invalid m' i" using evolves_invalid [OF ev inv] .
  ultimately show ?thesis
    using ok assms(3) by (auto simp: pass_ok_def changed_def read_assumption_def split: if_splits)
qed

lemma handle_direct_ok:
  "handle_direct event ids m = (m', rs, q) \<Longrightarrow> set ids \<subseteq> dom m \<Longrightarrow>
   pass_ok event m m' rs q \<and> (\<forall>j. invalid m' j \<longleftrightarrow> invalid m j \<or> j \<in> set ids \<and> direct_cause event m j)"
proof (induction ids arbitrary: m m' rs q)
  case Nil
  then show ?case by (simp add: pass_ok_def evolves_refl)
next
  case (Cons i ids)
  obtain a where a: "m i = Some a" and read: "read_assumption m i = a"
    using Cons.prems(2) by (auto simp: read_assumption_def)
  show ?case
  proof (cases "\<not> invalid m i \<and> direct_cause event m i")
    case False
    have "\<exists>rs'. handle_direct event ids m = (m', rs', q) \<and>
        (rs = rs' \<or> rs = \<lparr>hr_Assumption = a, hr_Changed = False\<rparr> # rs')"
      using False Cons.prems(1) read
      by (auto simp: Let_def invalid_def direct_cause_def split: if_splits option.splits prod.splits)
    then obtain rs' where rec: "handle_direct event ids m = (m', rs', q)"
      and rs: "rs = rs' \<or> rs = \<lparr>hr_Assumption = a, hr_Changed = False\<rparr> # rs'" by blast
    with Cons.IH [OF rec] Cons.prems(2) False show ?thesis by (auto intro: pass_ok_skip)
  next
    case True
    then have "\<exists>v rs' q'. handle_direct event ids (m(i \<mapsto> invalidateAssumption a (re_At event) v)) = (m', rs', q') \<and>
        rs = \<lparr>hr_Assumption = invalidateAssumption a (re_At event) v, hr_Changed = True\<rparr> # rs' \<and> q = i # q'"
      using Cons.prems(1) read
      by (auto simp: Let_def invalid_def direct_cause_def split: option.splits prod.splits)
    then obtain v rs' q' where
      rec: "handle_direct event ids (m(i \<mapsto> invalidateAssumption a (re_At event) v)) = (m', rs', q')"
      and rs: "rs = \<lparr>hr_Assumption = invalidateAssumption a (re_At event) v, hr_Changed = True\<rparr> # rs'"
      and q: "q = i # q'" by blast
    have dc: "direct_cause event (m(i \<mapsto> b)) j = direct_cause event m j" if "j \<noteq> i" for b j
      using that by (simp add: direct_cause_def)
    have "set ids \<subseteq> dom (m(i \<mapsto> invalidateAssumption a (re_At event) v))" using Cons.prems(2) by auto
    note IH = Cons.IH [OF rec this]
    have "pass_ok event m m' rs q"
      unfolding rs q using True by (intro pass_ok_Cons [OF conjunct1 [OF IH] a _ refl]) simp
    moreover have "invalid m' j \<longleftrightarrow> invalid m j \<or> j \<in> set (i # ids) \<and> direct_cause event m j" for j
      using conjunct2 [OF IH, rule_format, of j] True dc [of j] by (cases "j = i") auto
    ultimately show ?thesis by blast
  qed
qed

lemma propagate_to_ok:
  "propagate_to event u ids m = (m', rs, q) \<Longrightarrow> set ids \<subseteq> dom m \<Longrightarrow>
   pass_ok event m m' rs q \<and> (\<forall>j. invalid m' j \<longleftrightarrow> invalid m j \<or> j \<in> set ids)"
proof (induction ids arbitrary: m m' rs q)
  case Nil
  then show ?case by (simp add: pass_ok_def evolves_refl)
next
  case (Cons i ids)
  obtain a where a: "m i = Some a" and read: "read_assumption m i = a"
    using Cons.prems(2) by (auto simp: read_assumption_def)
  show ?case
  proof (cases "invalid m i")
    case True
    then have "propagate_to event u ids m = (m', rs, q)"
      using Cons.prems(1) by (simp add: invalid_def)
    with Cons.IH [OF this] Cons.prems(2) True show ?thesis by auto
  next
    case False
    then have "\<exists>v rs' q'. propagate_to event u ids (m(i \<mapsto> invalidateAssumption a (re_At event) v)) = (m', rs', q') \<and>
        rs = \<lparr>hr_Assumption = invalidateAssumption a (re_At event) v, hr_Changed = True\<rparr> # rs' \<and> q = i # q'"
      using Cons.prems(1) read by (auto simp: Let_def invalid_def split: prod.splits)
    then obtain v rs' q' where
      rec: "propagate_to event u ids (m(i \<mapsto> invalidateAssumption a (re_At event) v)) = (m', rs', q')"
      and rs: "rs = \<lparr>hr_Assumption = invalidateAssumption a (re_At event) v, hr_Changed = True\<rparr> # rs'"
      and q: "q = i # q'" by blast
    have "set ids \<subseteq> dom (m(i \<mapsto> invalidateAssumption a (re_At event) v))" using Cons.prems(2) by auto
    note IH = Cons.IH [OF rec this]
    have "pass_ok event m m' rs q"
      unfolding rs q using False by (intro pass_ok_Cons [OF conjunct1 [OF IH] a _ refl]) simp
    moreover have "invalid m' j \<longleftrightarrow> invalid m j \<or> j \<in> set (i # ids)" for j
      using conjunct2 [OF IH, rule_format, of j] by (cases "j = i") auto
    ultimately show ?thesis by blast
  qed
qed

text \<open>
  The invariant of the propagation that started from \<open>m0\<close>: what is queued or done was newly
  invalidated and is in the closed set \<open>P\<close>, the dependents of what is done are invalidated, and
  the changed results list the newly invalidated assumptions once each.
\<close>

definition propagation_inv ::
  "resource_event \<Rightarrow> reverse_index \<Rightarrow> assumptions \<Rightarrow> string set
    \<Rightarrow> string list \<Rightarrow> assumptions \<Rightarrow> handle_result list \<Rightarrow> bool" where
  "propagation_inv event idx m0 P queue m results \<longleftrightarrow>
     evolves event m0 m \<and>
     (\<forall>i. invalid m i \<and> \<not> invalid m0 i \<longrightarrow> i \<in> P) \<and>
     (\<forall>u \<in> set queue. invalid m u \<and> \<not> invalid m0 u) \<and>
     (\<forall>u. invalid m u \<and> \<not> invalid m0 u \<and> u \<notin> set queue \<longrightarrow>
        (\<forall>i \<in> set (index_ids idx u). invalid m i)) \<and>
     (\<exists>order. distinct order \<and> (\<forall>i. i \<in> set order \<longleftrightarrow> invalid m i \<and> \<not> invalid m0 i) \<and>
        filter hr_Changed results = map (changed m) order)"

lemma changed_stable: "evolves event m m' \<Longrightarrow> invalid m i \<Longrightarrow> changed m' i = changed m i"
  using evolves_stable by (fastforce simp: changed_def read_assumption_def)

lemma propagation_step:
  assumes inv: "propagation_inv event idx m0 P (u # queue) m results"
    and step: "propagate_to event u (sortedIDs (index_ids idx u)) m = (m', rs, q)"
    and dom: "\<And>k. set (index_ids idx k) \<subseteq> dom m0"
    and closed: "\<And>k i. k \<in> P \<Longrightarrow> i \<in> set (index_ids idx k) \<Longrightarrow> \<not> invalid m0 i \<Longrightarrow> i \<in> P"
  shows "propagation_inv event idx m0 P (queue @ q) m' (results @ rs)"
proof -
  have ev0: "evolves event m0 m" and uP: "u \<in> P" "invalid m u" "\<not> invalid m0 u"
    using inv by (auto simp: propagation_inv_def)
  have "set (sortedIDs (index_ids idx u)) \<subseteq> dom m"
    using dom evolves_dom [OF ev0] by (simp add: sortedIDs_def)
  from propagate_to_ok [OF step this] have pass: "pass_ok event m m' rs q"
    and invm': "\<And>j. invalid m' j \<longleftrightarrow> invalid m j \<or> j \<in> set (index_ids idx u)"
    by (auto simp: sortedIDs_def)
  have ev: "evolves event m m'" and q: "distinct q" "\<And>i. i \<in> set q \<longleftrightarrow> invalid m' i \<and> \<not> invalid m i"
    and rs: "filter hr_Changed rs = map (changed m') q"
    using pass by (simp_all add: pass_ok_def)
  obtain order where order: "distinct order" "\<And>i. i \<in> set order \<longleftrightarrow> invalid m i \<and> \<not> invalid m0 i"
      "filter hr_Changed results = map (changed m) order"
    using inv by (auto simp: propagation_inv_def)
  have mono: "invalid m0 i \<Longrightarrow> invalid m i" for i using evolves_invalid [OF ev0] .
  have "map (changed m) order = map (changed m') order"
    using changed_stable [OF ev] order(2) by simp
  then have "filter hr_Changed (results @ rs) = map (changed m') (order @ q)"
    using order(3) rs by simp
  moreover have "distinct (order @ q)" using order(1,2) q by auto
  moreover have "i \<in> set (order @ q) \<longleftrightarrow> invalid m' i \<and> \<not> invalid m0 i" for i
    using order(2) q(2) invm' mono by auto
  moreover have "invalid m' i \<and> \<not> invalid m0 i \<longrightarrow> i \<in> P" for i
    using inv invm' uP(1) closed by (auto simp: propagation_inv_def)
  moreover have "evolves event m0 m'" using evolves_trans [OF ev0 ev] .
  moreover have "\<forall>v \<in> set (queue @ q). invalid m' v \<and> \<not> invalid m0 v"
    using inv invm' q(2) mono by (auto simp: propagation_inv_def)
  moreover have "\<forall>v. invalid m' v \<and> \<not> invalid m0 v \<and> v \<notin> set (queue @ q) \<longrightarrow>
      (\<forall>i \<in> set (index_ids idx v). invalid m' i)"
  proof (intro allI impI ballI)
    fix v i
    assume v: "invalid m' v \<and> \<not> invalid m0 v \<and> v \<notin> set (queue @ q)" and i: "i \<in> set (index_ids idx v)"
    then have "invalid m v" using q(2) by simp
    with v i inv have "v = u \<or> invalid m i" by (auto simp: propagation_inv_def)
    with i show "invalid m' i" using invm' by blast
  qed
  ultimately show ?thesis unfolding propagation_inv_def by blast
qed

lemma propagate_inv:
  assumes "propagation_inv event idx m0 P queue m results"
    and "\<And>k. set (index_ids idx k) \<subseteq> dom m0"
    and "\<And>k i. k \<in> P \<Longrightarrow> i \<in> set (index_ids idx k) \<Longrightarrow> \<not> invalid m0 i \<Longrightarrow> i \<in> P"
    and "propagate event idx queue m results = (m', results')"
  shows "propagation_inv event idx m0 P [] m' results'"
  using assms
proof (induction event idx queue m results rule: propagate.induct)
  case (1 event idx m results)
  then show ?case by simp
next
  case (2 event idx u queue m results)
  obtain m1 rs q where step: "propagate_to event u (sortedIDs (index_ids idx u)) m = (m1, rs, q)"
    using prod_cases3 by blast
  show ?case
    using "2.prems" step by (intro "2.IH" [OF step [symmetric] refl refl] propagation_step) auto
qed

lemma propagate_to_mono: "propagate_to event u ids m = (m', rs, q) \<Longrightarrow> invalid m i \<Longrightarrow> invalid m' i"
proof (induction ids arbitrary: m rs q)
  case (Cons j ids)
  show ?case
  proof (cases "asm_Status (read_assumption m j) = StatusInvalidated")
    case True
    with Cons show ?thesis by simp
  next
    case False
    then have "\<exists>v rs' q'. propagate_to event u ids
        (m(j \<mapsto> invalidateAssumption (read_assumption m j) (re_At event) v)) = (m', rs', q')"
      using Cons.prems(1) by (auto simp: Let_def split: prod.splits)
    then obtain v rs' q' where "propagate_to event u ids
        (m(j \<mapsto> invalidateAssumption (read_assumption m j) (re_At event) v)) = (m', rs', q')" by blast
    then show ?thesis by (rule Cons.IH) (unfold invalid_update, use Cons.prems(2) in simp)
  qed
qed simp

lemma propagate_mono: "propagate event idx queue m results = (m', results') \<Longrightarrow> invalid m i \<Longrightarrow> invalid m' i"
proof (induction event idx queue m results rule: propagate.induct)
  case (2 event idx u queue m results)
  obtain m1 rs q where step: "propagate_to event u (sortedIDs (index_ids idx u)) m = (m1, rs, q)"
    using prod_cases3 by blast
  show ?case
    using "2.prems" step propagate_to_mono [OF step] by (intro "2.IH" [OF step [symmetric] refl refl]) auto
qed simp

section \<open>An event invalidates exactly what depends on it\<close>

text \<open>
  The assumptions an event reaches: those with a direct cause, and those that depend on a reached
  assumption; in both cases only assumptions that are still standing.
\<close>

inductive hit :: "resource_event \<Rightarrow> tracker \<Rightarrow> string \<Rightarrow> bool" for event t where
  hit_direct: "tkr_assumptions t i = Some a \<Longrightarrow> asm_Status a \<noteq> StatusInvalidated \<Longrightarrow>
    direct_cause event (tkr_assumptions t) i \<Longrightarrow> hit event t i"
| hit_step: "hit event t u \<Longrightarrow> tkr_assumptions t i = Some a \<Longrightarrow> asm_Status a \<noteq> StatusInvalidated \<Longrightarrow>
    u \<in> set (asm_AssumptionDependencies a) \<Longrightarrow> hit event t i"

inductive_cases hitE: "hit event t i"

lemma direct_cause_key:
  "direct_cause event m i \<Longrightarrow> resource_Key (re_Resource event) \<in> set (resource_keys (read_assumption m i))"
proof -
  assume "direct_cause event m i"
  then obtain dep where "find (\<lambda>dep. resource_Key dep = resource_Key (re_Resource event))
      (asm_Dependencies (read_assumption m i)) = Some dep"
    by (auto simp: direct_cause_def matchingDependency_def split: option.splits)
  then show ?thesis
    by (auto simp: resource_keys_def find_Some_iff) (metis image_eqI nth_mem)
qed

lemma Handle_inv:
  assumes wf: "well_indexed t" and run: "Handle event t = (rs, t')"
  shows "propagation_inv event (tkr_reverseAssumptions t) (tkr_assumptions t) {i. hit event t i} []
      (tkr_assumptions t') rs \<and>
    (\<forall>i. \<not> invalid (tkr_assumptions t) i \<and> i \<in> dom (tkr_assumptions t) \<and>
       direct_cause event (tkr_assumptions t) i \<longrightarrow> invalid (tkr_assumptions t') i) \<and>
    tkr_reverseAssumptions t' = tkr_reverseAssumptions t \<and> tkr_reverseResources t' = tkr_reverseResources t"
proof -
  let ?m = "tkr_assumptions t" and ?idx = "tkr_reverseAssumptions t"
  let ?root = "resource_Key (re_Resource event)"
  define ids where "ids = sortedIDs (index_ids (tkr_reverseResources t) ?root)"
  obtain m1 rs1 q where direct: "handle_direct event ids ?m = (m1, rs1, q)" using prod_cases3 by blast
  obtain m2 rs2 where loop: "propagate event ?idx q m1 rs1 = (m2, rs2)" by fastforce
  have t': "tkr_assumptions t' = m2" "rs = rs2" "tkr_reverseAssumptions t' = ?idx"
    "tkr_reverseResources t' = tkr_reverseResources t"
    using run direct loop by (auto simp: Handle_def ids_def)
  have ids: "i \<in> set ids \<longleftrightarrow> (\<exists>a. ?m i = Some a \<and> ?root \<in> set (resource_keys a))" for i
    using wf by (simp add: ids_def sortedIDs_def well_indexed_def indexes_def)
  have dom: "set (index_ids ?idx k) \<subseteq> dom ?m" for k
    using wf by (auto simp: well_indexed_def indexes_def)
  have "set ids \<subseteq> dom ?m" using ids by auto
  note ok = handle_direct_ok [OF direct this]
  have closed: "i \<in> {i. hit event t i}"
    if "k \<in> {i. hit event t i}" "i \<in> set (index_ids ?idx k)" "\<not> invalid ?m i" for k i
    using that wf
    by (auto simp: well_indexed_def indexes_def invalid_def read_assumption_def intro: hit_step)
  have new: "hit event t i" if "invalid m1 i" "\<not> invalid ?m i" for i
  proof -
    have "i \<in> set ids" and dc: "direct_cause event ?m i" using ok that by blast+
    then obtain a where "?m i = Some a" using ids by blast
    with that(2) dc show ?thesis by (auto intro!: hit_direct simp: invalid_def read_assumption_def)
  qed
  have "propagation_inv event ?idx ?m {i. hit event t i} q m1 rs1"
    using ok new unfolding propagation_inv_def pass_ok_def by blast
  from propagate_inv [OF this dom closed loop]
  have inv: "propagation_inv event ?idx ?m {i. hit event t i} [] m2 rs2" .
  moreover have "invalid m2 i" if "\<not> invalid ?m i" "i \<in> dom ?m" "direct_cause event ?m i" for i
  proof -
    from that(2) obtain a where a: "?m i = Some a" by blast
    with direct_cause_key [OF that(3)] have "i \<in> set ids" by (simp add: ids read_assumption_def)
    with ok that(3) have "invalid m1 i" by blast
    then show ?thesis by (rule propagate_mono [OF loop])
  qed
  ultimately show ?thesis using t' by simp
qed

lemma Handle_well_indexed:
  assumes "well_indexed t" and "Handle event t = (rs, t')"
  shows "well_indexed t'"
proof -
  let ?m = "tkr_assumptions t" and ?m' = "tkr_assumptions t'"
  note H = Handle_inv [OF assms]
  have ev: "evolves event ?m ?m'" using H by (simp add: propagation_inv_def)
  have "asm_ID b = i" if "?m' i = Some b" for i b
    using that assms(1) evolves_fields [OF ev, of asm_ID i]
    by (cases "?m i") (auto simp: well_indexed_def invalidateAssumption_def)
  moreover have "indexes resource_keys ?m' (tkr_reverseResources t')"
    using assms(1) H evolves_indexes [OF ev, of resource_keys]
    by (simp add: well_indexed_def resource_keys_def invalidateAssumption_def)
  moreover have "indexes asm_AssumptionDependencies ?m' (tkr_reverseAssumptions t')"
    using assms(1) H evolves_indexes [OF ev, of asm_AssumptionDependencies]
    by (simp add: well_indexed_def invalidateAssumption_def)
  ultimately show ?thesis by (simp add: well_indexed_def)
qed

text \<open>
  C15. \<open>Handle\<close> computes the dependency closure: in a well-indexed tracker, the assumptions that are
  invalidated after a resource event are exactly those that were before and those the event
  reaches, through their own resource dependencies or, transitively, through an upstream
  assumption (cyclic dependencies included). Each newly invalidated assumption is reported exactly
  once as changed, in the state the tracker now stores; every other assumption is untouched, and
  the tracker stays well indexed.
\<close>

theorem Handle_closure:
  assumes "well_indexed t" and "Handle event t = (rs, t')"
  shows "(\<forall>i. invalid (tkr_assumptions t') i \<longleftrightarrow> invalid (tkr_assumptions t) i \<or> hit event t i) \<and>
    (\<forall>i. \<not> hit event t i \<longrightarrow> tkr_assumptions t' i = tkr_assumptions t i) \<and>
    (\<exists>order. distinct order \<and> set order = {i. hit event t i} \<and>
       filter hr_Changed rs = map (changed (tkr_assumptions t')) order) \<and>
    well_indexed t'"
proof -
  let ?m = "tkr_assumptions t" and ?m' = "tkr_assumptions t'" and ?idx = "tkr_reverseAssumptions t"
  note H = Handle_inv [OF assms]
  have ev: "evolves event ?m ?m'" and sound: "\<And>i. invalid ?m' i \<Longrightarrow> \<not> invalid ?m i \<Longrightarrow> hit event t i"
    and closed: "\<And>u i. invalid ?m' u \<Longrightarrow> \<not> invalid ?m u \<Longrightarrow> i \<in> set (index_ids ?idx u) \<Longrightarrow> invalid ?m' i"
    and direct: "\<And>i. \<not> invalid ?m i \<Longrightarrow> i \<in> dom ?m \<Longrightarrow> direct_cause event ?m i \<Longrightarrow> invalid ?m' i"
    using H unfolding propagation_inv_def by (auto simp: mem_Collect_eq)
  have standing: "\<not> invalid ?m i" if "?m i = Some a" "asm_Status a \<noteq> StatusInvalidated" for i a
    using that by (simp add: invalid_def read_assumption_def)
  have hit: "invalid ?m' i \<and> \<not> invalid ?m i" if "hit event t i" for i
    using that
  proof induction
    case (hit_direct i a)
    then show ?case using direct standing by blast
  next
    case (hit_step u i a)
    then have "i \<in> set (index_ids ?idx u)"
      using assms(1) by (auto simp: well_indexed_def indexes_def)
    with hit_step show ?case using closed standing by blast
  qed
  have iff: "invalid ?m' i \<longleftrightarrow> invalid ?m i \<or> hit event t i" for i
    using hit sound evolves_invalid [OF ev] by blast
  have same: "?m' i = ?m i" if "\<not> hit event t i" for i
    using that ev sound [of i] standing [of i] unfolding evolves_def
    by (metis invalidateAssumption_Status invalid_def read_assumption_def option.case(2))
  have order: "\<exists>order. distinct order \<and> set order = {i. hit event t i} \<and>
      filter hr_Changed rs = map (changed ?m') order"
    using H hit sound unfolding propagation_inv_def by (metis (mono_tags, lifting) Collect_cong Collect_mem_eq)
  show ?thesis using iff same order Handle_well_indexed [OF assms] by blast
qed

datatype tracker_op = OpPut assumption | OpHandle resource_event

fun tracker_step :: "tracker_op \<Rightarrow> tracker \<Rightarrow> tracker" where
  "tracker_step (OpPut a) t = PutAssumption a t"
| "tracker_step (OpHandle event) t = snd (Handle event t)"

lemma tracker_step_well_indexed: "well_indexed t \<Longrightarrow> well_indexed (tracker_step op t)"
proof (cases op)
  case (OpHandle event)
  obtain rs t' where "Handle event t = (rs, t')" by fastforce
  moreover assume "well_indexed t"
  ultimately show ?thesis using Handle_well_indexed OpHandle by simp
qed (simp add: PutAssumption_well_indexed)

lemma tracker_steps_well_indexed: "well_indexed t \<Longrightarrow> well_indexed (fold tracker_step ops t)"
  by (induction ops arbitrary: t) (simp_all add: tracker_step_well_indexed)

text \<open>
  The indices are maintained by every operation: any tracker obtained from the empty one by
  storing assumptions and handling events, in any order and including replacements of stored
  assumptions with different dependencies, is well indexed.
\<close>

theorem tracker_well_indexed: "well_indexed (fold tracker_step ops NewTracker)"
  using NewTracker_well_indexed by (rule tracker_steps_well_indexed)

section \<open>Witness\<close>

text \<open>\<open>B\<close> depends on \<open>A\<close>, which depends on a resource; the resource is deleted.\<close>

definition demo_resource :: resource_ref where
  "demo_resource = \<lparr>rr_APIVersion = ''v1'', rr_Kind = ''Pod'', rr_Namespace = ''n'', rr_Name = ''p'',
     rr_UID = ''u'', rr_ResourceVersion = ''7''\<rparr>"

definition demo_tracker :: tracker where
  "demo_tracker = fold tracker_step
     [OpPut (zero_assumption\<lparr>asm_ID := ''A'', asm_Dependencies := [demo_resource]\<rparr>),
      OpPut (zero_assumption\<lparr>asm_ID := ''B'', asm_AssumptionDependencies := [''A'']\<rparr>)] NewTracker"

definition demo_event :: resource_event where
  "demo_event = \<lparr>re_Type = ''DELETED'', re_Resource = demo_resource, re_At = 9\<rparr>"

lemma demo_tracker_assumptions:
  "tkr_assumptions demo_tracker ''A'' = Some (zero_assumption\<lparr>asm_ID := ''A'', asm_Dependencies := [demo_resource]\<rparr>)"
  "tkr_assumptions demo_tracker ''B'' =
     Some (zero_assumption\<lparr>asm_ID := ''B'', asm_AssumptionDependencies := [''A'']\<rparr>)"
  by (simp_all add: demo_tracker_def PutAssumption_def Let_def NewTracker_def split: prod.splits option.splits)

lemma demo_hit: "hit demo_event demo_tracker ''B''"
proof -
  have "direct_cause demo_event (tkr_assumptions demo_tracker) ''A''"
    by (simp add: direct_cause_def read_assumption_def demo_tracker_assumptions matchingDependency_def
        demo_event_def resourceInvalidationCause_def)
  then have "hit demo_event demo_tracker ''A''"
    using hit_direct [OF demo_tracker_assumptions(1)] by (simp add: zero_assumption_def)
  from hit_step [OF this demo_tracker_assumptions(2)] show ?thesis
    by (simp add: zero_assumption_def)
qed

theorem Handle_closure_witness:
  "invalid (tkr_assumptions (snd (Handle demo_event demo_tracker))) ''B''"
proof -
  obtain rs t' where run: "Handle demo_event demo_tracker = (rs, t')" by fastforce
  have "well_indexed demo_tracker"
    unfolding demo_tracker_def by (rule tracker_steps_well_indexed [OF NewTracker_well_indexed])
  from Handle_closure [OF this run] demo_hit run show ?thesis by simp
qed

end
