(* ===== verification/Temporal.thy ===== *)
theory Temporal
  imports Epistemic Decision
begin

text \<open>
  Temporal validity of assumptions (\<open>internal/epistemic/temporal.go\<close>) and the gate that puts it in
  front of the decision engine (\<open>internal/assurance/temporal_gate.go\<close>).
\<close>

datatype action_sensitivity =
    SensitivityLow
  | SensitivityMedium
  | SensitivityHigh
  | SensitivityCritical
  | SensitivityOther string

datatype temporal_validity = ValidityValid | ValidityExpired | ValidityInvalidated | ValidityUnknown

datatype temporal_reason =
    TemporalReasonWithinWindow
  | TemporalReasonAgeExceeded
  | TemporalReasonEventInvalidated
  | TemporalReasonMissingTimestamp
  | TemporalReasonClockSkew
  | TemporalReasonUndefinedPolicy
  | TemporalReasonEpistemicEvaluationError

record temporal_policy =
  tp_LowMaxAge :: duration
  tp_MediumMaxAge :: duration
  tp_HighMaxAge :: duration
  tp_CriticalMaxAge :: duration

definition MaxAgeFor :: "temporal_policy \<Rightarrow> action_sensitivity \<Rightarrow> duration" where
  "MaxAgeFor p sensitivity =
     (case sensitivity of
        SensitivityLow \<Rightarrow> tp_LowMaxAge p
      | SensitivityMedium \<Rightarrow> tp_MediumMaxAge p
      | SensitivityHigh \<Rightarrow> tp_HighMaxAge p
      | SensitivityCritical \<Rightarrow> tp_CriticalMaxAge p
      | SensitivityOther _ \<Rightarrow> 0)"

record temporal_assessment =
  ta_Validity :: temporal_validity
  ta_Reason :: temporal_reason
  ta_Sensitivity :: action_sensitivity
  ta_Age :: duration
  ta_MaxAge :: duration
  ta_Assumption :: string

definition expiry_snapshot :: "string \<Rightarrow> time \<Rightarrow> time \<Rightarrow> easl_snapshot" where
  "expiry_snapshot assumptionID validUntil now =
     \<lparr>es_At = now, es_Evidence = [],
      es_Assumptions =
        [\<lparr>ea_ID = assumptionID, ea_Requires = [], ea_DependsOn = [], ea_RequiresStateBindings = [],
          ea_ValidUntil = Some validUntil\<rparr>],
      es_StateBindings = []\<rparr>"

definition assumptionExpiredByEASL ::
  "easl_eval \<Rightarrow> string \<Rightarrow> time \<Rightarrow> time \<Rightarrow> duration \<Rightarrow> easl_error + bool" where
  "assumptionExpiredByEASL eval assumptionID evaluatedAt now maxAge =
     (case eval (expiry_snapshot assumptionID (time_add evaluatedAt maxAge) now) of
        Inl e \<Rightarrow> Inl e
      | Inr evaluation \<Rightarrow>
          Inr (list_ex (\<lambda>i. ei_AssumptionID i = assumptionID \<and> ei_Reason i = ReasonAssumptionExpired)
                 (ev_Invalidations evaluation)))"

definition AssessTemporalValidity ::
  "easl_eval \<Rightarrow> assumption \<Rightarrow> time \<Rightarrow> action_sensitivity \<Rightarrow> temporal_policy \<Rightarrow> temporal_assessment" where
  "AssessTemporalValidity eval a now sensitivity policy =
     (let result = (\<lambda>v r age maxAge. \<lparr>ta_Validity = v, ta_Reason = r, ta_Sensitivity = sensitivity,
            ta_Age = age, ta_MaxAge = maxAge, ta_Assumption = asm_ID a\<rparr>);
          maxAge = MaxAgeFor policy sensitivity;
          age = time_sub now (asm_EvaluatedAt a)
      in if asm_Status a = StatusInvalidated
         then result ValidityInvalidated TemporalReasonEventInvalidated 0 0
         else if is_zero (asm_EvaluatedAt a)
         then result ValidityUnknown TemporalReasonMissingTimestamp 0 0
         else if maxAge \<le> 0
         then result ValidityUnknown TemporalReasonUndefinedPolicy 0 maxAge
         else if age < 0
         then result ValidityUnknown TemporalReasonClockSkew age maxAge
         else case assumptionExpiredByEASL eval (asm_ID a) (asm_EvaluatedAt a) now maxAge of
           Inl _ \<Rightarrow> result ValidityUnknown TemporalReasonEpistemicEvaluationError age maxAge
         | Inr True \<Rightarrow> result ValidityExpired TemporalReasonAgeExceeded age maxAge
         | Inr False \<Rightarrow> result ValidityValid TemporalReasonWithinWindow age maxAge)"

record fixed_ttl_assessment =
  ft_Valid :: bool
  ft_Age :: duration
  ft_MaxAge :: duration
  ft_Reason :: temporal_reason

definition AssessFixedTTL ::
  "easl_eval \<Rightarrow> assumption \<Rightarrow> time \<Rightarrow> duration \<Rightarrow> fixed_ttl_assessment" where
  "AssessFixedTTL eval a now maxAge =
     (let result = (\<lambda>v r age. \<lparr>ft_Valid = v, ft_Age = age, ft_MaxAge = maxAge, ft_Reason = r\<rparr>);
          age = time_sub now (asm_EvaluatedAt a)
      in if asm_Status a = StatusInvalidated
         then result False TemporalReasonEventInvalidated 0
         else if is_zero (asm_EvaluatedAt a) \<or> maxAge \<le> 0
         then result False TemporalReasonUndefinedPolicy 0
         else if age < 0 then result False TemporalReasonClockSkew age
         else case assumptionExpiredByEASL eval (asm_ID a) (asm_EvaluatedAt a) now maxAge of
           Inl _ \<Rightarrow> result False TemporalReasonEpistemicEvaluationError age
         | Inr True \<Rightarrow> result False TemporalReasonAgeExceeded age
         | Inr False \<Rightarrow> result True TemporalReasonWithinWindow age)"

section \<open>The gate (temporal\_gate.go)\<close>

record temporal_gate_result =
  tg_Decision :: result
  tg_Assessment :: temporal_assessment

definition EvaluateWithTemporalAssumption ::
  "easl_eval \<Rightarrow> (string \<Rightarrow> string) \<Rightarrow> request \<Rightarrow> assumption \<Rightarrow> time \<Rightarrow> action_sensitivity
    \<Rightarrow> temporal_policy \<Rightarrow> temporal_gate_result" where
  "EvaluateWithTemporalAssumption eval sha req a now sensitivity policy =
     (let assessment = AssessTemporalValidity eval a now sensitivity policy in
      \<lparr>tg_Decision =
         (case ta_Validity assessment of
            ValidityValid \<Rightarrow> Evaluate eval sha req
          | ValidityExpired \<Rightarrow> refuse Block AssumptionExpired
          | ValidityInvalidated \<Rightarrow> refuse Block AssumptionInvalidated
          | ValidityUnknown \<Rightarrow> refuse Escalate AssumptionValidityUnknown),
       tg_Assessment = assessment\<rparr>)"

section \<open>Properties\<close>

lemma AssessTemporalValidity_valid_iff:
  "ta_Validity (AssessTemporalValidity eval a now sens policy) = ValidityValid \<longleftrightarrow>
     asm_Status a \<noteq> StatusInvalidated \<and> asm_EvaluatedAt a \<noteq> 0 \<and> 0 < MaxAgeFor policy sens \<and>
     asm_EvaluatedAt a \<le> now \<and>
     assumptionExpiredByEASL eval (asm_ID a) (asm_EvaluatedAt a) now (MaxAgeFor policy sens) = Inr False"
  using time_sub_less_0_iff [of now "asm_EvaluatedAt a"]
  by (auto simp: AssessTemporalValidity_def Let_def split: sum.splits bool.splits)

text \<open>
  C26. The temporal gate only narrows the decision: an action is allowed through the gate exactly
  when the decision engine allows it and the assumption stands, carries a time that is not in the
  future, falls under a policy with a positive age limit for this sensitivity, and the EASL
  evaluation at the current time, with the evaluation time plus that limit as the end of validity,
  succeeds and does not report the assumption expired. A failing EASL runtime never allows.
\<close>

theorem temporal_gate_allow_iff:
  "rs_Decision (tg_Decision (EvaluateWithTemporalAssumption eval sha req a now sens policy)) = Allow \<longleftrightarrow>
     rs_Decision (Evaluate eval sha req) = Allow \<and>
     asm_Status a \<noteq> StatusInvalidated \<and> asm_EvaluatedAt a \<noteq> 0 \<and> asm_EvaluatedAt a \<le> now \<and>
     0 < MaxAgeFor policy sens \<and>
     (\<exists>ev. eval (expiry_snapshot (asm_ID a) (asm_EvaluatedAt a + MaxAgeFor policy sens) now) = Inr ev \<and>
        \<not> list_ex (\<lambda>i. ei_AssumptionID i = asm_ID a \<and> ei_Reason i = ReasonAssumptionExpired)
            (ev_Invalidations ev))"
proof -
  have expired: "assumptionExpiredByEASL eval (asm_ID a) (asm_EvaluatedAt a) now m = Inr False \<longleftrightarrow>
      (\<exists>ev. eval (expiry_snapshot (asm_ID a) (asm_EvaluatedAt a + m) now) = Inr ev \<and>
        \<not> list_ex (\<lambda>i. ei_AssumptionID i = asm_ID a \<and> ei_Reason i = ReasonAssumptionExpired)
            (ev_Invalidations ev))" for m
    by (auto simp: assumptionExpiredByEASL_def time_add_def split: sum.splits)
  have "rs_Decision (tg_Decision (EvaluateWithTemporalAssumption eval sha req a now sens policy)) = Allow \<longleftrightarrow>
      ta_Validity (AssessTemporalValidity eval a now sens policy) = ValidityValid \<and>
      rs_Decision (Evaluate eval sha req) = Allow"
    by (auto simp: EvaluateWithTemporalAssumption_def Let_def split: temporal_validity.splits)
  then show ?thesis unfolding AssessTemporalValidity_valid_iff expired by blast
qed

end
