(* ===== verification/Composition.thy ===== *)
theory Composition
  imports Prelude
begin

text \<open>
  Evidence composition (\<open>internal/ege/evidence_composition.go\<close> over the types of \<open>permit.go\<close>): when
  two evidence sources count as independent, the overall independence of a set of sources, and the
  branch-and-bound search for the largest set of pairwise independent sources.
\<close>

section \<open>Data (permit.go)\<close>

datatype declaration_assurance =
    EvidenceDeclarationUnknown
  | EvidenceDeclarationAsserted
  | EvidenceDeclarationCorroborated
  | EvidenceDeclarationOther string

text \<open>The status is a string in the code; the zero value is \<open>IndependenceOther []\<close>.\<close>

datatype independence_status =
    EvidenceIndependenceUnknown
  | EvidenceIndependenceDependent
  | EvidenceIndependenceAsserted
  | EvidenceIndependenceCorroborated
  | IndependenceOther string

record evidence_dependency =
  dp_Kind :: string
  dp_ID :: string
  dp_Material :: bool

record source_declaration =
  sd_ProducerID :: string
  sd_Subject :: string
  sd_ObservationPath :: string
  sd_DependencyCoverage :: "string list"
  sd_Dependencies :: "evidence_dependency list"
  sd_Assurance :: declaration_assurance
  sd_CorroborationRefs :: "string list"

record evidence_source =
  src_Name :: string
  src_TrustDomain :: string
  src_Digest :: string
  src_ObservedAt :: time
  src_Classes :: "string list"
  src_Declaration :: "source_declaration option"

record pair_assessment =
  pr_LeftSource :: string
  pr_RightSource :: string
  pr_Status :: independence_status
  pr_SharedDependencies :: "evidence_dependency list"
  pr_ReasonCodes :: "string list"

record composition_assessment =
  ca_ProfileVersion :: string
  ca_RequiredIndependence :: independence_status
  ca_IndependentSourceCount :: int
  ca_OverallIndependence :: independence_status
  ca_PairAssessments :: "pair_assessment list"

record independence_requirement =
  iq_RequiredIndependence :: independence_status
  iq_MinIndependentSources :: int
  iq_RequiredDependencyKinds :: "string list"

section \<open>Pairs of sources\<close>

definition declarationCovers :: "source_declaration option \<Rightarrow> string list \<Rightarrow> bool" where
  "declarationCovers declaration requiredDependencyKinds \<longleftrightarrow>
     (case declaration of
        None \<Rightarrow> False
      | Some d \<Rightarrow>
          \<not> (blank (sd_ProducerID d) \<or> blank (sd_Subject d) \<or> blank (sd_ObservationPath d)) \<and>
          list_all (\<lambda>required. required \<in> set (sd_DependencyCoverage d)) requiredDependencyKinds)"

definition dependency_key :: "evidence_dependency \<Rightarrow> string" where
  "dependency_key d = dp_Kind d @ [CHR 0x00] @ dp_ID d"

text \<open>The loop over \<open>left\<close> with its \<open>seen\<close> set.\<close>

fun shared_scan :: "string list \<Rightarrow> string list \<Rightarrow> evidence_dependency list \<Rightarrow> evidence_dependency list" where
  "shared_scan rightKeys seen [] = []"
| "shared_scan rightKeys seen (d # ds) =
     (if \<not> dp_Material d \<or> dependency_key d \<notin> set rightKeys \<or> dependency_key d \<in> set seen
      then shared_scan rightKeys seen ds
      else d # shared_scan rightKeys (dependency_key d # seen) ds)"

definition sharedMaterialDependencies ::
  "evidence_dependency list \<Rightarrow> evidence_dependency list \<Rightarrow> evidence_dependency list" where
  "sharedMaterialDependencies left right =
     sort_key (\<lambda>d. [dp_Kind d, dp_ID d])
       (shared_scan (map dependency_key (filter dp_Material right)) [] left)"

definition pair_result ::
  "evidence_source \<Rightarrow> evidence_source \<Rightarrow> independence_status \<Rightarrow> evidence_dependency list \<Rightarrow> string list
    \<Rightarrow> pair_assessment" where
  "pair_result left right status shared reasons =
     \<lparr>pr_LeftSource = src_Name left, pr_RightSource = src_Name right, pr_Status = status,
      pr_SharedDependencies = shared, pr_ReasonCodes = reasons\<rparr>"

definition assessEvidencePair ::
  "evidence_source \<Rightarrow> evidence_source \<Rightarrow> string list \<Rightarrow> pair_assessment" where
  "assessEvidencePair left right kinds =
     (case (src_Declaration left, src_Declaration right) of
        (Some l, Some r) \<Rightarrow>
          (if sd_Subject l \<noteq> sd_Subject r
           then pair_result left right EvidenceIndependenceUnknown [] [''SUBJECT_MISMATCH'']
           else if \<not> declarationCovers (Some l) kinds \<or> \<not> declarationCovers (Some r) kinds
           then pair_result left right EvidenceIndependenceUnknown [] [''DEPENDENCY_COVERAGE_UNKNOWN'']
           else if sd_ProducerID l = sd_ProducerID r
           then pair_result left right EvidenceIndependenceDependent [] [''SHARED_PRODUCER'']
           else if sd_ObservationPath l = sd_ObservationPath r
           then pair_result left right EvidenceIndependenceDependent [] [''SHARED_OBSERVATION_PATH'']
           else let shared = sharedMaterialDependencies (sd_Dependencies l) (sd_Dependencies r) in
             if shared \<noteq> []
             then pair_result left right EvidenceIndependenceDependent shared [''SHARED_MATERIAL_DEPENDENCY'']
             else if sd_Assurance l = EvidenceDeclarationUnknown \<or> sd_Assurance r = EvidenceDeclarationUnknown
             then pair_result left right EvidenceIndependenceUnknown [] [''DECLARATION_ASSURANCE_UNKNOWN'']
             else if sd_Assurance l = EvidenceDeclarationCorroborated \<and>
                     sd_Assurance r = EvidenceDeclarationCorroborated
             then pair_result left right EvidenceIndependenceCorroborated [] []
             else pair_result left right EvidenceIndependenceAsserted [] [])
      | _ \<Rightarrow> pair_result left right EvidenceIndependenceUnknown [] [''MISSING_DECLARATION''])"

text \<open>The pairs in the order of the two nested loops.\<close>

fun pairs :: "'a list \<Rightarrow> ('a \<times> 'a) list" where
  "pairs [] = []"
| "pairs (x # xs) = map (Pair x) xs @ pairs xs"

definition pair_assessments :: "evidence_source list \<Rightarrow> string list \<Rightarrow> pair_assessment list" where
  "pair_assessments sources kinds = map (\<lambda>(l, r). assessEvidencePair l r kinds) (pairs sources)"

fun overall_loop :: "independence_status \<Rightarrow> independence_status list \<Rightarrow> independence_status" where
  "overall_loop status [] = status"
| "overall_loop status (p # ps) =
     (case p of
        EvidenceIndependenceDependent \<Rightarrow> EvidenceIndependenceDependent
      | EvidenceIndependenceUnknown \<Rightarrow> overall_loop EvidenceIndependenceUnknown ps
      | EvidenceIndependenceAsserted \<Rightarrow>
          overall_loop (if status = EvidenceIndependenceCorroborated then EvidenceIndependenceAsserted
                        else status) ps
      | _ \<Rightarrow> overall_loop status ps)"

definition overallEvidenceIndependence :: "evidence_source list \<Rightarrow> string list \<Rightarrow> independence_status" where
  "overallEvidenceIndependence sources kinds =
     (if length sources < 2 then EvidenceIndependenceUnknown
      else overall_loop EvidenceIndependenceCorroborated (map pr_Status (pair_assessments sources kinds)))"

section \<open>The largest independent set\<close>

definition independenceMeets :: "independence_status \<Rightarrow> independence_status \<Rightarrow> bool" where
  "independenceMeets actual required \<longleftrightarrow>
     (case required of
        EvidenceIndependenceAsserted \<Rightarrow>
          actual = EvidenceIndependenceAsserted \<or> actual = EvidenceIndependenceCorroborated
      | EvidenceIndependenceCorroborated \<Rightarrow> actual = EvidenceIndependenceCorroborated
      | _ \<Rightarrow> False)"

definition pairKey :: "string \<Rightarrow> string \<Rightarrow> string" where
  "pairKey left right =
     (if left > right then right @ [CHR 0x00] @ left else left @ [CHR 0x00] @ right)"

definition pair_status_map :: "pair_assessment list \<Rightarrow> string \<rightharpoonup> independence_status" where
  "pair_status_map ps =
     fold (\<lambda>p m. m(pairKey (pr_LeftSource p) (pr_RightSource p) \<mapsto> pr_Status p)) ps Map.empty"

text \<open>
  The closure \<open>search\<close> with the captured variable \<open>best\<close> passed along; \<open>compatible i j\<close> is the test
  of one already selected source against the next one.
\<close>

function search :: "(nat \<Rightarrow> nat \<Rightarrow> bool) \<Rightarrow> nat \<Rightarrow> nat \<Rightarrow> nat list \<Rightarrow> nat \<Rightarrow> nat" where
  "search compatible n nxt selected best =
     (if length selected + (n - nxt) \<le> best then best
      else if n \<le> nxt then (if length selected > best then length selected else best)
      else let best1 = (if list_all (\<lambda>existing. compatible existing nxt) selected
                        then search compatible n (Suc nxt) (selected @ [nxt]) best else best)
           in search compatible n (Suc nxt) selected best1)"
  by pat_completeness auto
termination by (relation "measure (\<lambda>(compatible, n, nxt, selected, best). n - nxt)") auto

declare search.simps [simp del]

definition maxQualifyingIndependentSourceCount ::
  "evidence_source list \<Rightarrow> pair_assessment list \<Rightarrow> independence_status \<Rightarrow> nat" where
  "maxQualifyingIndependentSourceCount sources ps required =
     (if length sources = 0 then 0
      else if length sources = 1 then 1
      else let pairStatus = pair_status_map ps in
        search (\<lambda>existing nxt.
            independenceMeets
              (case pairStatus (pairKey (src_Name (sources ! existing)) (src_Name (sources ! nxt))) of
                 None \<Rightarrow> IndependenceOther [] | Some st \<Rightarrow> st)
              required)
          (length sources) 0 [] 0)"

definition AssessEvidenceIndependence ::
  "string \<Rightarrow> evidence_source list \<Rightarrow> independence_requirement \<Rightarrow> composition_assessment" where
  "AssessEvidenceIndependence profileVersion sources requirement =
     (let kinds = iq_RequiredDependencyKinds requirement;
          ps = pair_assessments sources kinds
      in \<lparr>ca_ProfileVersion = profileVersion,
          ca_RequiredIndependence =
            (if iq_RequiredIndependence requirement = IndependenceOther []
             then EvidenceIndependenceUnknown else iq_RequiredIndependence requirement),
          ca_IndependentSourceCount =
            (if iq_MinIndependentSources requirement > 0
             then int (maxQualifyingIndependentSourceCount sources ps (iq_RequiredIndependence requirement))
             else 0),
          ca_OverallIndependence = overallEvidenceIndependence sources kinds,
          ca_PairAssessments = ps\<rparr>)"

definition EvidenceIndependenceSatisfied ::
  "composition_assessment \<Rightarrow> independence_requirement \<Rightarrow> bool" where
  "EvidenceIndependenceSatisfied assessment requirement \<longleftrightarrow>
     (if iq_MinIndependentSources requirement \<le> 0 then True
      else case iq_RequiredIndependence requirement of
        EvidenceIndependenceAsserted \<Rightarrow>
          ca_IndependentSourceCount assessment \<ge> iq_MinIndependentSources requirement
      | EvidenceIndependenceCorroborated \<Rightarrow>
          ca_IndependentSourceCount assessment \<ge> iq_MinIndependentSources requirement
      | _ \<Rightarrow> False)"

section \<open>Correctness of the search\<close>

definition independent_set :: "(nat \<Rightarrow> nat \<Rightarrow> bool) \<Rightarrow> nat set \<Rightarrow> bool" where
  "independent_set compatible S \<longleftrightarrow> (\<forall>i \<in> S. \<forall>j \<in> S. i < j \<longrightarrow> compatible i j)"

text \<open>The independent sets that extend the selection by candidates from \<open>nxt\<close> on.\<close>

definition extension :: "(nat \<Rightarrow> nat \<Rightarrow> bool) \<Rightarrow> nat \<Rightarrow> nat \<Rightarrow> nat list \<Rightarrow> nat set \<Rightarrow> bool" where
  "extension compatible n nxt selected S \<longleftrightarrow>
     set selected \<subseteq> S \<and> S \<subseteq> set selected \<union> {nxt..<n} \<and> independent_set compatible S"

definition selection_ok :: "(nat \<Rightarrow> nat \<Rightarrow> bool) \<Rightarrow> nat \<Rightarrow> nat list \<Rightarrow> bool" where
  "selection_ok compatible nxt selected \<longleftrightarrow>
     distinct selected \<and> set selected \<subseteq> {..<nxt} \<and> independent_set compatible (set selected)"

lemma extension_card:
  assumes "extension c n nxt sel S" and "selection_ok c nxt sel"
  shows "card S \<le> length sel + (n - nxt)"
proof -
  have "card S \<le> card (set sel \<union> {nxt..<n})"
    using assms(1) by (intro card_mono) (auto simp: extension_def)
  also have "\<dots> \<le> card (set sel) + card {nxt..<n}" by (rule card_Un_le)
  finally show ?thesis using card_length [of sel] by simp
qed

lemma extension_step:
  assumes "nxt < n" and "selection_ok c nxt sel" and "extension c n nxt sel S"
  shows "nxt \<notin> S \<and> extension c n (Suc nxt) sel S \<or>
    nxt \<in> S \<and> list_all (\<lambda>e. c e nxt) sel \<and> extension c n (Suc nxt) (sel @ [nxt]) S"
proof (cases "nxt \<in> S")
  case True
  have "c e nxt" if "e \<in> set sel" for e
  proof -
    have "e \<in> S" "e < nxt" using that assms(2,3) by (auto simp: extension_def selection_ok_def)
    with True assms(3) show ?thesis by (auto simp: extension_def independent_set_def)
  qed
  then have "list_all (\<lambda>e. c e nxt) sel" by (simp add: list_all_iff)
  with True assms show ?thesis by (force simp: extension_def)
next
  case False
  have "S \<subseteq> set sel \<union> {Suc nxt..<n}"
  proof
    fix x
    assume "x \<in> S"
    with assms(3) False have "x \<in> set sel \<union> {nxt..<n}" "x \<noteq> nxt" by (auto simp: extension_def)
    then show "x \<in> set sel \<union> {Suc nxt..<n}" by auto
  qed
  with False assms(3) show ?thesis by (simp add: extension_def)
qed

lemma selection_ok_snoc:
  assumes "selection_ok c nxt sel" and "list_all (\<lambda>e. c e nxt) sel"
  shows "selection_ok c (Suc nxt) (sel @ [nxt])"
  using assms by (auto simp: selection_ok_def independent_set_def list_all_iff)

lemma selection_ok_Suc: "selection_ok c nxt sel \<Longrightarrow> selection_ok c (Suc nxt) sel"
  by (auto simp: selection_ok_def)

lemma extension_weaken:
  "extension c n (Suc nxt) sel S \<Longrightarrow> extension c n nxt sel S"
  "nxt < n \<Longrightarrow> extension c n (Suc nxt) (sel @ [nxt]) S \<Longrightarrow> extension c n nxt sel S"
  by (auto simp: extension_def)

text \<open>
  The search returns the best known size or improves on it: nothing extending the selection is
  larger than the result, and the result is attained.
\<close>

definition search_spec :: "(nat \<Rightarrow> nat \<Rightarrow> bool) \<Rightarrow> nat \<Rightarrow> nat \<Rightarrow> nat list \<Rightarrow> nat \<Rightarrow> nat \<Rightarrow> bool" where
  "search_spec c n nxt sel best r \<longleftrightarrow>
     best \<le> r \<and> (\<forall>S. extension c n nxt sel S \<longrightarrow> card S \<le> r) \<and>
     (r = best \<or> (\<exists>S. extension c n nxt sel S \<and> card S = r))"

lemma search_correct:
  "selection_ok c nxt sel \<Longrightarrow> nxt \<le> n \<Longrightarrow> search_spec c n nxt sel best (search c n nxt sel best)"
proof (induction c n nxt sel best rule: search.induct)
  case (1 c n nxt sel best)
  show ?case
  proof (cases "length sel + (n - nxt) \<le> best")
    case True
    then show ?thesis
      using extension_card "1.prems" by (fastforce simp: search.simps [of c n nxt sel best] search_spec_def)
  next
    case big: False
    show ?thesis
    proof (cases "n \<le> nxt")
      case True
      then have "extension c n nxt sel S \<longleftrightarrow> S = set sel" for S
        using "1.prems" by (auto simp: extension_def selection_ok_def)
      moreover have "card (set sel) = length sel"
        using "1.prems" by (simp add: selection_ok_def distinct_card)
      ultimately show ?thesis
        using True big by (simp add: search.simps [of c n nxt sel best] search_spec_def)
    next
      case False
      then have lt: "nxt < n" by simp
      define best1 where "best1 = (if list_all (\<lambda>e. c e nxt) sel
        then search c n (Suc nxt) (sel @ [nxt]) best else best)"
      define r where "r = search c n (Suc nxt) sel best1"
      have r: "search c n nxt sel best = r"
        using big False by (simp add: search.simps [of c n nxt sel best] r_def best1_def)
      have spec1: "list_all (\<lambda>e. c e nxt) sel \<Longrightarrow> search_spec c n (Suc nxt) (sel @ [nxt]) best best1"
        using "1.IH"(1) [OF big False] "1.prems" lt selection_ok_snoc by (auto simp: best1_def)
      have spec: "search_spec c n (Suc nxt) sel best1 r"
        using "1.IH"(2) [OF big False best1_def] "1.prems" lt selection_ok_Suc by (auto simp: r_def)
      have b1: "best \<le> best1" using spec1 by (auto simp: best1_def search_spec_def)
      have "card S \<le> r" if "extension c n nxt sel S" for S
        using extension_step [OF lt "1.prems"(1) that] spec spec1
        unfolding search_spec_def by (meson le_trans)
      moreover have "r = best \<or> (\<exists>S. extension c n nxt sel S \<and> card S = r)"
        using spec spec1 extension_weaken lt unfolding search_spec_def best1_def by (metis (full_types))
      moreover have "best \<le> r" using b1 spec by (auto simp: search_spec_def)
      ultimately show ?thesis unfolding r search_spec_def by blast
    qed
  qed
qed

lemma search_maximum:
  fixes compatible n
  defines "r \<equiv> search compatible n 0 [] 0"
  shows "(\<exists>S \<subseteq> {..<n}. independent_set compatible S \<and> card S = r) \<and>
    (\<forall>S \<subseteq> {..<n}. independent_set compatible S \<longrightarrow> card S \<le> r)"
proof -
  have "selection_ok compatible 0 []" by (simp add: selection_ok_def independent_set_def)
  then have spec: "search_spec compatible n 0 [] 0 r"
    unfolding r_def by (rule search_correct) simp
  have ext: "extension compatible n 0 [] S \<longleftrightarrow> S \<subseteq> {..<n} \<and> independent_set compatible S" for S
    by (auto simp: extension_def)
  have "\<exists>S. S \<subseteq> {..<n} \<and> independent_set compatible S \<and> card S = r"
    using spec unfolding search_spec_def ext
    by (metis card.empty empty_iff empty_subsetI independent_set_def)
  with spec show ?thesis unfolding search_spec_def ext by blast
qed

section \<open>Statuses of pairs\<close>

lemma shared_scan_empty_iff:
  "shared_scan rk [] ds = [] \<longleftrightarrow> (\<forall>d \<in> set ds. dp_Material d \<longrightarrow> dependency_key d \<notin> set rk)"
  by (induction ds) auto

lemma sharedMaterialDependencies_empty_iff:
  "sharedMaterialDependencies left right = [] \<longleftrightarrow>
     (\<forall>l \<in> set left. \<forall>r \<in> set right.
        dp_Material l \<and> dp_Material r \<longrightarrow> dependency_key l \<noteq> dependency_key r)"
proof -
  have "sharedMaterialDependencies left right = [] \<longleftrightarrow>
      shared_scan (map dependency_key (filter dp_Material right)) [] left = []"
    unfolding sharedMaterialDependencies_def by (simp flip: length_0_conv)
  then show ?thesis by (auto simp: shared_scan_empty_iff)
qed

definition pair_status :: "string list \<Rightarrow> evidence_source \<Rightarrow> evidence_source \<Rightarrow> independence_status" where
  "pair_status kinds l r = pr_Status (assessEvidencePair l r kinds)"

lemma pair_result_Status [simp]:
  "pr_Status (pair_result l r st sh rs) = st" "pr_LeftSource (pair_result l r st sh rs) = src_Name l"
  "pr_RightSource (pair_result l r st sh rs) = src_Name r"
  by (simp_all add: pair_result_def)

lemma assess_names:
  "pr_LeftSource (assessEvidencePair l r kinds) = src_Name l"
  "pr_RightSource (assessEvidencePair l r kinds) = src_Name r"
  by (auto simp: assessEvidencePair_def Let_def split: option.splits)

text \<open>The keys of the material dependencies of a declaration.\<close>

definition material_keys :: "evidence_dependency list \<Rightarrow> string set" where
  "material_keys ds = dependency_key ` {d \<in> set ds. dp_Material d}"

lemma shared_empty_iff_disjoint:
  "sharedMaterialDependencies ds es = [] \<longleftrightarrow> material_keys ds \<inter> material_keys es = {}"
  unfolding sharedMaterialDependencies_empty_iff material_keys_def by fastforce

text \<open>
  Independence of a pair is established only by complete declarations: a pair of sources
  counts as asserted (or corroborated) independent exactly when both sources declare the same
  subject, cover the required dependency kinds, name different producers and observation paths,
  share no material dependency, and neither (both) assurance is unknown (corroborated). Names,
  trust domains, digests and classes have no influence, and the order of the pair does not matter.
\<close>

theorem pair_status_spec:
  "(pair_status kinds left right \<in> {EvidenceIndependenceAsserted, EvidenceIndependenceCorroborated} \<longleftrightarrow>
     (\<exists>l r. src_Declaration left = Some l \<and> src_Declaration right = Some r \<and>
        sd_Subject l = sd_Subject r \<and> declarationCovers (Some l) kinds \<and> declarationCovers (Some r) kinds \<and>
        sd_ProducerID l \<noteq> sd_ProducerID r \<and> sd_ObservationPath l \<noteq> sd_ObservationPath r \<and>
        material_keys (sd_Dependencies l) \<inter> material_keys (sd_Dependencies r) = {} \<and>
        sd_Assurance l \<noteq> EvidenceDeclarationUnknown \<and> sd_Assurance r \<noteq> EvidenceDeclarationUnknown \<and>
        (pair_status kinds left right = EvidenceIndependenceCorroborated \<longleftrightarrow>
           sd_Assurance l = EvidenceDeclarationCorroborated \<and>
           sd_Assurance r = EvidenceDeclarationCorroborated))) \<and>
   pair_status kinds right left = pair_status kinds left right"
proof (cases "src_Declaration left")
  case None
  then show ?thesis by (auto simp: pair_status_def assessEvidencePair_def split: option.splits)
next
  case l: (Some l)
  show ?thesis
  proof (cases "src_Declaration right")
    case None
    with l show ?thesis by (auto simp: pair_status_def assessEvidencePair_def split: option.splits)
  next
    case r: (Some r)
    have sym: "sharedMaterialDependencies (sd_Dependencies r) (sd_Dependencies l) = [] \<longleftrightarrow>
        sharedMaterialDependencies (sd_Dependencies l) (sd_Dependencies r) = []"
      unfolding shared_empty_iff_disjoint by blast
    show ?thesis
      using l r sym
      by (simp add: pair_status_def assessEvidencePair_def Let_def shared_empty_iff_disjoint [symmetric])
  qed
qed

section \<open>Overall independence\<close>

lemma pairs_iff: "(l, r) \<in> set (pairs xs) \<longleftrightarrow> (\<exists>i j. i < j \<and> j < length xs \<and> l = xs ! i \<and> r = xs ! j)"
proof (induction xs)
  case (Cons x xs)
  have "(\<exists>i j. i < j \<and> j < length (x # xs) \<and> l = (x # xs) ! i \<and> r = (x # xs) ! j) \<longleftrightarrow>
      (l = x \<and> r \<in> set xs) \<or> (\<exists>i j. i < j \<and> j < length xs \<and> l = xs ! i \<and> r = xs ! j)" (is "?L \<longleftrightarrow> ?R")
  proof
    assume ?L
    then obtain i j where "i < j" "j < Suc (length xs)" "l = (x # xs) ! i" "r = (x # xs) ! j" by auto
    then show ?R by (cases i; cases j) auto
  next
    assume ?R
    then show ?L
    proof (elim disjE exE conjE)
      assume "l = x" "r \<in> set xs"
      then obtain j where "j < length xs" "r = xs ! j" by (auto simp: in_set_conv_nth)
      with \<open>l = x\<close> show ?L by (intro exI [of _ 0] exI [of _ "Suc j"]) simp
    next
      fix i j
      assume "i < j" "j < length xs" "l = xs ! i" "r = xs ! j"
      then show ?L by (intro exI [of _ "Suc i"] exI [of _ "Suc j"]) simp
    qed
  qed
  with Cons.IH show ?case by auto
qed simp

definition independence_rank :: "independence_status \<Rightarrow> nat" where
  "independence_rank st =
     (case st of EvidenceIndependenceDependent \<Rightarrow> 0 | EvidenceIndependenceUnknown \<Rightarrow> 1
      | EvidenceIndependenceAsserted \<Rightarrow> 2 | EvidenceIndependenceCorroborated \<Rightarrow> 3 | IndependenceOther _ \<Rightarrow> 4)"

definition proper :: "independence_status \<Rightarrow> bool" where
  "proper st \<longleftrightarrow> (case st of IndependenceOther _ \<Rightarrow> False | _ \<Rightarrow> True)"

lemma pair_status_proper: "proper (pair_status kinds l r)"
  by (auto simp: pair_status_def assessEvidencePair_def Let_def proper_def split: option.splits)

lemma overall_loop_min:
  "list_all proper ps \<Longrightarrow> proper st \<Longrightarrow> st \<noteq> EvidenceIndependenceDependent \<Longrightarrow>
   overall_loop st ps \<in> set (st # ps) \<and>
   (\<forall>p \<in> set (st # ps). independence_rank (overall_loop st ps) \<le> independence_rank p)"
proof (induction st ps rule: overall_loop.induct)
  case (2 st p ps)
  show ?case
  proof (cases p)
    case EvidenceIndependenceAsserted
    with 2 show ?thesis
      by (cases st) (auto simp: independence_rank_def proper_def split: if_splits)
  next
    case EvidenceIndependenceUnknown
    with 2 show ?thesis
      by (cases st) (auto simp: independence_rank_def proper_def)
  next
    case EvidenceIndependenceCorroborated
    with 2 show ?thesis
      by (cases st) (auto simp: independence_rank_def proper_def)
  qed (use 2 in \<open>auto simp: independence_rank_def proper_def\<close>)
qed simp

lemma overall_is_weakest:
  "if length sources < 2 then overallEvidenceIndependence sources kinds = EvidenceIndependenceUnknown
   else (\<exists>i j. i < j \<and> j < length sources \<and>
       overallEvidenceIndependence sources kinds = pair_status kinds (sources ! i) (sources ! j)) \<and>
     (\<forall>j < length sources. \<forall>i < j.
       independence_rank (overallEvidenceIndependence sources kinds)
         \<le> independence_rank (pair_status kinds (sources ! i) (sources ! j)))"
proof (cases "length sources < 2")
  case False
  define ps where "ps = map (\<lambda>(l, r). pair_status kinds l r) (pairs sources)"
  have overall: "overallEvidenceIndependence sources kinds = overall_loop EvidenceIndependenceCorroborated ps"
    using False
    by (simp add: overallEvidenceIndependence_def ps_def pair_assessments_def pair_status_def comp_def
        case_prod_unfold)
  have ps: "p \<in> set ps \<longleftrightarrow>
      (\<exists>i j. i < j \<and> j < length sources \<and> p = pair_status kinds (sources ! i) (sources ! j))" for p
    by (auto simp: ps_def pairs_iff image_iff Bex_def)
  have "list_all proper ps" by (auto simp: list_all_iff ps pair_status_proper)
  from overall_loop_min [OF this, of EvidenceIndependenceCorroborated]
  have min: "overall_loop EvidenceIndependenceCorroborated ps \<in> set (EvidenceIndependenceCorroborated # ps)"
    "\<And>p. p \<in> set ps \<Longrightarrow>
       independence_rank (overall_loop EvidenceIndependenceCorroborated ps) \<le> independence_rank p"
    by (auto simp: proper_def)
  have first: "pair_status kinds (sources ! 0) (sources ! 1) \<in> set ps"
    using False unfolding ps by (intro exI [of _ 0] exI [of _ "Suc 0"] conjI) simp_all
  have "overall_loop EvidenceIndependenceCorroborated ps \<in> set ps"
  proof (rule ccontr)
    assume no: "\<not> ?thesis"
    with min(1) have "overall_loop EvidenceIndependenceCorroborated ps = EvidenceIndependenceCorroborated" by simp
    with min(2) [OF first] pair_status_proper [of kinds "sources ! 0" "sources ! 1"]
    have "pair_status kinds (sources ! 0) (sources ! 1) = EvidenceIndependenceCorroborated"
      by (cases "pair_status kinds (sources ! 0) (sources ! 1)") (auto simp: independence_rank_def proper_def)
    with no first \<open>overall_loop EvidenceIndependenceCorroborated ps = _\<close> show False by simp
  qed
  with False min(2) show ?thesis unfolding overall ps by auto
qed (simp add: overallEvidenceIndependence_def)

definition pair_statuses :: "string list \<Rightarrow> evidence_source list \<Rightarrow> independence_status set" where
  "pair_statuses kinds sources =
     {pair_status kinds (sources ! i) (sources ! j) | i j. i < j \<and> j < length sources}"

lemma finite_pair_statuses: "finite (pair_statuses kinds sources)"
proof -
  have "pair_statuses kinds sources \<subseteq> (\<lambda>(l, r). pair_status kinds l r) ` (set sources \<times> set sources)"
    by (force simp: pair_statuses_def)
  then show ?thesis by (rule finite_subset) simp
qed

text \<open>
  Overall independence is the weakest link: for two or more sources it is a status that some
  pair of them has and no pair falls below, in the order DEPENDENT, UNKNOWN, ASSERTED,
  CORROBORATED; fewer than two sources are UNKNOWN.
\<close>

theorem overallEvidenceIndependence_weakest:
  "if length sources < 2 then overallEvidenceIndependence sources kinds = EvidenceIndependenceUnknown
   else overallEvidenceIndependence sources kinds \<in> pair_statuses kinds sources \<and>
     independence_rank (overallEvidenceIndependence sources kinds) =
       Min (independence_rank ` pair_statuses kinds sources)"
proof (cases "length sources < 2")
  case False
  with overall_is_weakest [of sources kinds]
  have mem: "overallEvidenceIndependence sources kinds \<in> pair_statuses kinds sources"
    and least: "\<And>s. s \<in> pair_statuses kinds sources \<Longrightarrow>
      independence_rank (overallEvidenceIndependence sources kinds) \<le> independence_rank s"
    by (auto simp: pair_statuses_def)
  have "Min (independence_rank ` pair_statuses kinds sources) =
      independence_rank (overallEvidenceIndependence sources kinds)"
    using mem least finite_pair_statuses [of kinds sources] by (intro Min_eqI) auto
  with False mem show ?thesis by simp
qed (simp add: overallEvidenceIndependence_def)

section \<open>The independence requirement\<close>

lemma pairKey_min_max: "pairKey a b = min a b @ CHR 0x00 # max a b"
  by (auto simp: pairKey_def min_def max_def)

lemma pairKey_eqD:
  assumes "pairKey a b = pairKey c d" and "CHR 0x00 \<notin> set a \<union> set b \<union> set c \<union> set d"
  shows "a = c \<and> b = d \<or> a = d \<and> b = c"
proof -
  have "min a b = min c d \<and> max a b = max c d"
    using assms by (intro split_unique [where c = "CHR 0x00"]) (auto simp: pairKey_min_max min_def)
  then show ?thesis by (auto simp: min_def max_def split: if_splits)
qed

lemma pair_status_map_lookup:
  assumes "p \<in> set ps"
    and "\<And>q. q \<in> set ps \<Longrightarrow> pairKey (pr_LeftSource q) (pr_RightSource q) = k \<Longrightarrow> pr_Status q = pr_Status p"
    and "k = pairKey (pr_LeftSource p) (pr_RightSource p)"
  shows "pair_status_map ps k = Some (pr_Status p)"
  using assms(1,2)
proof (induction ps rule: rev_induct)
  case (snoc q ps)
  show ?case
  proof (cases "pairKey (pr_LeftSource q) (pr_RightSource q) = k")
    case True
    with snoc.prems show ?thesis by (simp add: pair_status_map_def)
  next
    case False
    then have "p \<noteq> q" using assms(3) by auto
    with snoc False show ?thesis by (simp add: pair_status_map_def)
  qed
qed simp

definition source_names_ok :: "evidence_source list \<Rightarrow> bool" where
  "source_names_ok sources \<longleftrightarrow>
     distinct (map src_Name sources) \<and> list_all (\<lambda>s. CHR 0x00 \<notin> set (src_Name s)) sources"

lemma lookup_pair:
  assumes ok: "source_names_ok sources" and ij: "i < j" "j < length sources"
  shows "pair_status_map (pair_assessments sources kinds)
      (pairKey (src_Name (sources ! i)) (src_Name (sources ! j))) =
    Some (pair_status kinds (sources ! i) (sources ! j))"
proof -
  let ?p = "assessEvidencePair (sources ! i) (sources ! j) kinds"
  have nul: "CHR 0x00 \<notin> set (src_Name (sources ! k))" if "k < length sources" for k
    using ok that by (simp add: source_names_ok_def list_all_length)
  have inj: "k = l" if "src_Name (sources ! k) = src_Name (sources ! l)" "k < length sources" "l < length sources" for k l
    using ok that by (simp add: source_names_ok_def distinct_conv_nth) metis
  have "pair_status_map (pair_assessments sources kinds)
      (pairKey (src_Name (sources ! i)) (src_Name (sources ! j))) = Some (pr_Status ?p)"
  proof (rule pair_status_map_lookup)
    show "?p \<in> set (pair_assessments sources kinds)"
    proof -
      have "(sources ! i, sources ! j) \<in> set (pairs sources)" using ij by (auto simp: pairs_iff)
      then show ?thesis by (force simp: pair_assessments_def)
    qed
  next
    fix q
    assume "q \<in> set (pair_assessments sources kinds)"
      and key: "pairKey (pr_LeftSource q) (pr_RightSource q) =
        pairKey (src_Name (sources ! i)) (src_Name (sources ! j))"
    then obtain k l where kl: "k < l" "l < length sources" "q = assessEvidencePair (sources ! k) (sources ! l) kinds"
      by (auto simp: pair_assessments_def pairs_iff)
    with key have "src_Name (sources ! k) = src_Name (sources ! i) \<and> src_Name (sources ! l) = src_Name (sources ! j) \<or>
        src_Name (sources ! k) = src_Name (sources ! j) \<and> src_Name (sources ! l) = src_Name (sources ! i)"
      using ij nul by (intro pairKey_eqD) (auto simp: assess_names)
    then have "k = i \<and> l = j" using inj kl(1,2) ij by (metis less_trans not_less_iff_gr_or_eq)
    with kl show "pr_Status q = pr_Status ?p" by simp
  qed (simp add: assess_names)
  then show ?thesis by (simp add: pair_status_def)
qed

text \<open>Pairwise independence of the sources with the given indices, at the required strength.\<close>

definition pairwise_independent ::
  "evidence_source list \<Rightarrow> string list \<Rightarrow> independence_status \<Rightarrow> nat set \<Rightarrow> bool" where
  "pairwise_independent sources kinds required S \<longleftrightarrow>
     S \<subseteq> {..<length sources} \<and>
     (\<forall>i \<in> S. \<forall>j \<in> S. i < j \<longrightarrow> independenceMeets (pair_status kinds (sources ! i) (sources ! j)) required)"

lemma count_maximum:
  fixes kinds required
  assumes "source_names_ok sources"
  defines "r \<equiv> maxQualifyingIndependentSourceCount sources (pair_assessments sources kinds) required"
  shows "(\<exists>S. pairwise_independent sources kinds required S \<and> card S = r) \<and>
    (\<forall>S. pairwise_independent sources kinds required S \<longrightarrow> card S \<le> r)"
proof (cases "length sources < 2")
  case True
  have sub: "card S \<le> length sources" if "S \<subseteq> {..<length sources}" for S
    using card_mono [OF _ that] by simp
  have "r = length sources"
    using True by (cases sources rule: list.exhaust)
      (auto simp: r_def maxQualifyingIndependentSourceCount_def)
  moreover have "pairwise_independent sources kinds required {..<length sources}"
    using True by (auto simp: pairwise_independent_def)
  moreover have "card {..<length sources} = length sources" by simp
  ultimately show ?thesis using sub unfolding pairwise_independent_def by blast
next
  case False
  define c where "c = (\<lambda>existing nxt.
    independenceMeets
      (case pair_status_map (pair_assessments sources kinds)
              (pairKey (src_Name (sources ! existing)) (src_Name (sources ! nxt))) of
         None \<Rightarrow> IndependenceOther [] | Some st \<Rightarrow> st) required)"
  have r: "r = search c (length sources) 0 [] 0"
  proof -
    have "length sources \<noteq> 0" "length sources \<noteq> 1" using False by auto
    then show ?thesis by (simp add: r_def maxQualifyingIndependentSourceCount_def c_def Let_def)
  qed
  have "pairwise_independent sources kinds required S \<longleftrightarrow>
      S \<subseteq> {..<length sources} \<and> independent_set c S" for S
    using lookup_pair [OF assms(1)] unfolding pairwise_independent_def independent_set_def c_def
    by (intro conj_cong refl ball_cong imp_cong) auto
  then show ?thesis using search_maximum [of "length sources" c] unfolding r by auto
qed

text \<open>
  C29. The independence requirement is decided exactly: for sources with distinct names (free of
  the NUL separator), a positive minimum is satisfied if and only if the required strength is
  ASSERTED or CORROBORATED and there is a set of at least that many sources, every two of which
  are independent at that strength; the pruned branch-and-bound search never misses a larger set
  and never counts a set that is not independent.
\<close>

theorem EvidenceIndependenceSatisfied_iff:
  assumes "source_names_ok sources"
  shows "EvidenceIndependenceSatisfied (AssessEvidenceIndependence v sources req) req \<longleftrightarrow>
    iq_MinIndependentSources req \<le> 0 \<or>
    iq_RequiredIndependence req \<in> {EvidenceIndependenceAsserted, EvidenceIndependenceCorroborated} \<and>
    (\<exists>S. pairwise_independent sources (iq_RequiredDependencyKinds req) (iq_RequiredIndependence req) S \<and>
       iq_MinIndependentSources req \<le> int (card S))"
proof (cases "iq_MinIndependentSources req \<le> 0")
  case False
  define r where "r = maxQualifyingIndependentSourceCount sources
    (pair_assessments sources (iq_RequiredDependencyKinds req)) (iq_RequiredIndependence req)"
  have "ca_IndependentSourceCount (AssessEvidenceIndependence v sources req) = int r"
    using False by (simp add: AssessEvidenceIndependence_def Let_def r_def)
  then have "EvidenceIndependenceSatisfied (AssessEvidenceIndependence v sources req) req \<longleftrightarrow>
      iq_RequiredIndependence req \<in> {EvidenceIndependenceAsserted, EvidenceIndependenceCorroborated} \<and>
      iq_MinIndependentSources req \<le> int r"
    using False by (simp add: EvidenceIndependenceSatisfied_def split: independence_status.splits)
  moreover have "iq_MinIndependentSources req \<le> int r \<longleftrightarrow>
      (\<exists>S. pairwise_independent sources (iq_RequiredDependencyKinds req) (iq_RequiredIndependence req) S \<and>
         iq_MinIndependentSources req \<le> int (card S))"
    using count_maximum [OF assms, of "iq_RequiredDependencyKinds req" "iq_RequiredIndependence req"]
    unfolding r_def [symmetric] by (metis of_nat_le_iff order_trans)
  ultimately show ?thesis using False by simp
qed (simp add: EvidenceIndependenceSatisfied_def)

section \<open>Witness\<close>

definition demo_source :: "string \<Rightarrow> string \<Rightarrow> evidence_source" where
  "demo_source name p = \<lparr>src_Name = name, src_TrustDomain = ''d'', src_Digest = ''x'', src_ObservedAt = 1,
     src_Classes = [], src_Declaration = Some \<lparr>sd_ProducerID = p, sd_Subject = ''s'',
       sd_ObservationPath = p, sd_DependencyCoverage = [''net''], sd_Dependencies = [],
       sd_Assurance = EvidenceDeclarationAsserted, sd_CorroborationRefs = []\<rparr>\<rparr>"

definition demo_requirement :: "int \<Rightarrow> independence_requirement" where
  "demo_requirement n = \<lparr>iq_RequiredIndependence = EvidenceIndependenceAsserted,
     iq_MinIndependentSources = n, iq_RequiredDependencyKinds = [''net'']\<rparr>"

theorem EvidenceIndependenceSatisfied_iff_witness:
  "EvidenceIndependenceSatisfied
     (AssessEvidenceIndependence ''v'' [demo_source ''a'' ''p'', demo_source ''b'' ''q''] (demo_requirement 2))
     (demo_requirement 2)"
proof -
  let ?sources = "[demo_source ''a'' ''p'', demo_source ''b'' ''q'']"
  have "source_names_ok ?sources" by (simp add: source_names_ok_def demo_source_def)
  from EvidenceIndependenceSatisfied_iff [OF this, of "''v''" "demo_requirement 2"]
  have "EvidenceIndependenceSatisfied (AssessEvidenceIndependence ''v'' ?sources (demo_requirement 2))
      (demo_requirement 2) \<longleftrightarrow>
      (\<exists>S. pairwise_independent ?sources [''net''] EvidenceIndependenceAsserted S \<and> 2 \<le> int (card S))"
    by (simp add: demo_requirement_def)
  moreover have "pair_status [''net''] (demo_source ''a'' ''p'') (demo_source ''b'' ''q'') = EvidenceIndependenceAsserted"
    by (simp add: pair_status_def assessEvidencePair_def demo_source_def declarationCovers_def
        sharedMaterialDependencies_def plain_simps)
  then have "pairwise_independent ?sources [''net''] EvidenceIndependenceAsserted {0, 1}"
    by (simp add: pairwise_independent_def independenceMeets_def)
  moreover have "2 \<le> int (card {0, 1 :: nat})" by simp
  ultimately show ?thesis by blast
qed

end
