(* ===== verification/Head_Store.thy ===== *)
theory Head_Store
  imports Prelude
begin

text \<open>
  The external journal head and its in-memory store (\<open>internal/journal/security.go\<close>), and the
  contract that the journal relies on: \<open>Load\<close> reports the stored head, and \<open>CompareAndAdvance\<close>
  replaces exactly the expected head by one that does not go back.
\<close>

record external_head =
  eh_JournalID :: string
  eh_Sequence :: u64
  eh_HeadHash :: string
  eh_KeyID :: string
  eh_StoreVersion :: string

definition zero_head :: external_head where
  "zero_head = \<lparr>eh_JournalID = [], eh_Sequence = 0, eh_HeadHash = [], eh_KeyID = [], eh_StoreVersion = []\<rparr>"

datatype head_error = ErrExternalHeadNotFound | ErrExternalHeadConflict

type_synonym memory_heads = "string \<rightharpoonup> external_head"

definition NewMemoryHeadStore :: memory_heads where
  "NewMemoryHeadStore = Map.empty"

definition Memory_Load :: "string \<Rightarrow> memory_heads \<Rightarrow> (head_error + external_head) \<times> memory_heads" where
  "Memory_Load journalID s =
     (case s journalID of None \<Rightarrow> (Inl ErrExternalHeadNotFound, s) | Some head \<Rightarrow> (Inr head, s))"

definition Memory_CompareAndAdvance ::
  "external_head \<Rightarrow> external_head \<Rightarrow> memory_heads \<Rightarrow> (head_error + external_head) \<times> memory_heads" where
  "Memory_CompareAndAdvance previous nxt s =
     (case s (eh_JournalID nxt) of
        None \<Rightarrow>
          (if eh_Sequence previous \<noteq> 0 \<or> eh_HeadHash previous \<noteq> [] then (Inl ErrExternalHeadConflict, s)
           else if eh_Sequence nxt \<noteq> 0 then (Inl ErrExternalHeadConflict, s)
           else (Inr nxt, s(eh_JournalID nxt \<mapsto> nxt)))
      | Some current \<Rightarrow>
          (if eh_Sequence current \<noteq> eh_Sequence previous \<or> eh_HeadHash current \<noteq> eh_HeadHash previous \<or>
              eh_KeyID current \<noteq> eh_KeyID previous
           then (Inl ErrExternalHeadConflict, s)
           else if eh_Sequence nxt < eh_Sequence current then (Inl ErrExternalHeadConflict, s)
           else if eh_Sequence nxt = eh_Sequence current \<and>
              (eh_HeadHash nxt \<noteq> eh_HeadHash current \<or> eh_KeyID nxt \<noteq> eh_KeyID current)
           then (Inl ErrExternalHeadConflict, s)
           else (Inr nxt, s(eh_JournalID nxt \<mapsto> nxt))))"

section \<open>The contract\<close>

text \<open>What the journal compares of a head.\<close>

definition head_view :: "external_head \<Rightarrow> string \<times> u64 \<times> string \<times> string" where
  "head_view h = (eh_JournalID h, eh_Sequence h, eh_HeadHash h, eh_KeyID h)"

text \<open>
  \<open>head s j\<close> is the head that the store in state \<open>s\<close> holds for journal \<open>j\<close>. A step of the store is
  a load or an attempt to advance; every reachable change of a head is such a step.
\<close>

locale head_store =
  fixes load :: "string \<Rightarrow> 's \<Rightarrow> ('e + external_head) \<times> 's"
    and advance :: "external_head \<Rightarrow> external_head \<Rightarrow> 's \<Rightarrow> ('e + external_head) \<times> 's"
    and head :: "'s \<Rightarrow> string \<rightharpoonup> external_head"
  assumes load_head: "load j s = (Inr h, s') \<Longrightarrow> head s j = Some h"
    and load_frame: "load j s = (r, s') \<Longrightarrow> head s' = head s"
    and advance_ok: "advance p n s = (Inr h, s') \<Longrightarrow> head s' = (head s)(eh_JournalID n \<mapsto> n)"
    and advance_fail: "advance p n s = (Inl e, s') \<Longrightarrow> head s' = head s"
    and advance_expected: "advance p n s = (Inr h, s') \<Longrightarrow> head s (eh_JournalID n) = Some c \<Longrightarrow>
      eh_Sequence c = eh_Sequence p \<and> eh_HeadHash c = eh_HeadHash p \<and> eh_KeyID c = eh_KeyID p"
    and advance_forward: "advance p n s = (Inr h, s') \<Longrightarrow> head s (eh_JournalID n) = Some c \<Longrightarrow>
      eh_Sequence c < eh_Sequence n \<or>
      eh_Sequence c = eh_Sequence n \<and> eh_HeadHash c = eh_HeadHash n \<and> eh_KeyID c = eh_KeyID n"
begin

inductive store_step :: "'s \<Rightarrow> 's \<Rightarrow> bool" where
  "load j s = (r, s') \<Longrightarrow> store_step s s'"
| "advance p n s = (r, s') \<Longrightarrow> store_step s s'"

definition not_behind :: "external_head \<Rightarrow> external_head \<Rightarrow> bool" where
  "not_behind c d \<longleftrightarrow> eh_Sequence c < eh_Sequence d \<or>
     eh_Sequence c = eh_Sequence d \<and> eh_HeadHash c = eh_HeadHash d \<and> eh_KeyID c = eh_KeyID d"

lemma not_behind_trans: "not_behind b c \<Longrightarrow> not_behind c d \<Longrightarrow> not_behind b d"
  by (auto simp: not_behind_def)

lemma step_forward:
  assumes "store_step s s'" and "head s j = Some c"
  shows "\<exists>d. head s' j = Some d \<and> not_behind c d"
  using assms
proof cases
  case (1 i r)
  with assms(2) load_frame show ?thesis by (auto simp: not_behind_def)
next
  case (2 p n r)
  show ?thesis
  proof (cases r)
    case (Inl e)
    with 2 assms(2) advance_fail show ?thesis by (auto simp: not_behind_def)
  next
    case (Inr h)
    with 2 have "head s' = (head s)(eh_JournalID n \<mapsto> n)" by (simp add: advance_ok)
    with 2 Inr assms(2) advance_forward [of p n s h s' c] show ?thesis
      by (auto simp: not_behind_def)
  qed
qed

text \<open>Along any run of the store, a head that exists never disappears and never goes back.\<close>

lemma steps_forward:
  "store_step\<^sup>*\<^sup>* s s' \<Longrightarrow> head s j = Some c \<Longrightarrow> \<exists>d. head s' j = Some d \<and> not_behind c d"
proof (induction rule: rtranclp_induct)
  case base
  then show ?case by (auto simp: not_behind_def)
next
  case (step t u)
  then obtain d where "head t j = Some d" "not_behind c d" by blast
  with step_forward [OF step(2), of j d] show ?case by (blast intro: not_behind_trans)
qed

text \<open>
  A head that was once superseded by a later one is never reported again.
\<close>

lemma no_rollback:
  assumes "store_step\<^sup>*\<^sup>* s s'" and "head s j = Some c" and "eh_Sequence old < eh_Sequence c"
    and "load j s' = (Inr h, s'')"
  shows "eh_Sequence h \<noteq> eh_Sequence old"
proof -
  obtain d where "head s' j = Some d" "not_behind c d" using steps_forward [OF assms(1,2)] by blast
  moreover have "head s' j = Some h" using load_head [OF assms(4)] .
  ultimately show ?thesis using assms(3) by (auto simp: not_behind_def)
qed

end

text \<open>A store that answers: the head it holds is the head it reports.\<close>

locale available_head_store = head_store +
  assumes load_found: "head s j = Some h \<Longrightarrow> fst (load j s) = Inr h"
begin

lemma advance_then_load:
  "advance p n s = (Inr h, s') \<Longrightarrow> fst (load (eh_JournalID n) s') = Inr n"
  by (rule load_found) (simp add: advance_ok)

end

interpretation memory_store: available_head_store Memory_Load Memory_CompareAndAdvance "\<lambda>s. s"
  by unfold_locales
    (auto simp: Memory_Load_def Memory_CompareAndAdvance_def split: option.splits if_splits)

section \<open>The in-memory store\<close>

text \<open>The sequence of calls that clients make of the store.\<close>

datatype head_call = CallLoad string | CallAdvance external_head external_head

fun memory_call :: "head_call \<Rightarrow> memory_heads \<Rightarrow> memory_heads" where
  "memory_call (CallLoad j) s = snd (Memory_Load j s)"
| "memory_call (CallAdvance p n) s = snd (Memory_CompareAndAdvance p n s)"

lemma memory_calls_steps: "memory_store.store_step\<^sup>*\<^sup>* s (fold memory_call calls s)"
proof (induction calls arbitrary: s)
  case (Cons c calls)
  have "memory_store.store_step s (memory_call c s)"
    by (cases c) (auto intro: memory_store.store_step.intros prod.collapse [symmetric])
  with Cons [of "memory_call c s"] show ?case by (simp add: converse_rtranclp_into_rtranclp)
qed simp

text \<open>
  The head store is monotone: whatever calls are made, in whatever order, the head recorded
  for a journal is never removed, its sequence number never decreases, and while the sequence
  number stays the same the head hash and the key stay the same.
\<close>

theorem memory_head_monotone:
  assumes "s j = Some c"
  shows "\<exists>d. fold memory_call calls s j = Some d \<and> eh_Sequence c \<le> eh_Sequence d \<and>
    (eh_Sequence d = eh_Sequence c \<longrightarrow> eh_HeadHash d = eh_HeadHash c \<and> eh_KeyID d = eh_KeyID c)"
  using memory_store.steps_forward [OF memory_calls_steps [of s calls] assms]
  by (auto simp: memory_store.not_behind_def)

theorem memory_head_monotone_witness:
  "\<exists>d. fold memory_call [CallAdvance zero_head (zero_head\<lparr>eh_JournalID := ''j'', eh_Sequence := 1\<rparr>), CallLoad ''j'']
      [''j'' \<mapsto> zero_head\<lparr>eh_JournalID := ''j''\<rparr>] ''j'' = Some d \<and> 0 \<le> eh_Sequence d"
  using memory_head_monotone [of "[''j'' \<mapsto> zero_head\<lparr>eh_JournalID := ''j''\<rparr>]" "''j''"
      "zero_head\<lparr>eh_JournalID := ''j''\<rparr>"
      "[CallAdvance zero_head (zero_head\<lparr>eh_JournalID := ''j'', eh_Sequence := 1\<rparr>), CallLoad ''j'']"]
  by auto

end
