(* ===== verification/Journal.thy ===== *)
theory Journal
  imports Head_Store
begin

text \<open>
  The hash-chained journal (\<open>internal/journal/journal.go\<close>): entries and the signed anchor, the
  verification of the chain against the anchor and an external head, and the append operation.
  The journal file is its newline-terminated lines, the anchor file its bytes; JSON encoding and
  decoding (\<open>marshal\<close>, \<open>unmarshal_entry\<close>, \<open>unmarshal_anchor\<close>), SHA-256 (\<open>sha\<close>), base64 and the
  signature scheme are parameters. Failures of the file system are an argument of \<open>Append\<close>.
\<close>

section \<open>Data\<close>

type_synonym event_type = string

abbreviation EventAuthorization :: event_type where "EventAuthorization \<equiv> ''AUTHORIZATION''"
abbreviation EventExecution :: event_type where "EventExecution \<equiv> ''EXECUTION''"
abbreviation EventOutcome :: event_type where "EventOutcome \<equiv> ''OUTCOME''"
abbreviation EventDecision :: event_type where "EventDecision \<equiv> ''DECISION''"

record journal_event =
  je_Type :: event_type
  je_ActionID :: string
  je_Target :: string
  je_Decision :: string
  je_ReasonCodes :: "string list"
  je_EvidenceDigest :: string
  je_EvidencePacketDigest :: string
  je_PlanDigest :: string
  je_AttemptID :: string
  je_DestinationID :: string
  je_AccountID :: string
  je_ObservationHandle :: string
  je_AttemptState :: string
  je_OutcomeVerdict :: string
  je_PayloadDigest :: string
  je_OccurredAt :: time

record entry =
  en_Version :: int
  en_JournalID :: string
  en_Sequence :: u64
  en_PrevHash :: string
  en_Event :: journal_event
  en_EntryHash :: string

record anchor =
  an_Version :: int
  an_JournalID :: string
  an_Sequence :: u64
  an_HeadHash :: string
  an_KeyID :: string
  an_UpdatedAt :: time
  an_Signature :: string

abbreviation formatVersion :: int where "formatVersion \<equiv> 2"

text \<open>The JSON documents of the structs, by their tags; \<open>omitempty\<close> fields appear when not empty.\<close>

definition omit_empty :: "string \<Rightarrow> string \<Rightarrow> (string \<times> json) list" where
  "omit_empty k v = (if v = [] then [] else [(k, JStr v)])"

definition event_json :: "journal_event \<Rightarrow> json" where
  "event_json e = JObj
     ([(''type'', JStr (je_Type e))] @
      omit_empty ''action_id'' (je_ActionID e) @ omit_empty ''target'' (je_Target e) @
      omit_empty ''decision'' (je_Decision e) @
      (if je_ReasonCodes e = [] then [] else [(''reason_codes'', JArr (map JStr (je_ReasonCodes e)))]) @
      omit_empty ''evidence_digest'' (je_EvidenceDigest e) @
      omit_empty ''evidence_packet_digest'' (je_EvidencePacketDigest e) @
      omit_empty ''plan_digest'' (je_PlanDigest e) @ omit_empty ''attempt_id'' (je_AttemptID e) @
      omit_empty ''destination_id'' (je_DestinationID e) @ omit_empty ''account_id'' (je_AccountID e) @
      omit_empty ''observation_handle'' (je_ObservationHandle e) @
      omit_empty ''attempt_state'' (je_AttemptState e) @ omit_empty ''outcome_verdict'' (je_OutcomeVerdict e) @
      omit_empty ''payload_digest'' (je_PayloadDigest e) @
      [(''occurred_at'', JTime (je_OccurredAt e))])"

definition entry_json :: "entry \<Rightarrow> json" where
  "entry_json e = JObj
     [(''version'', JNum (en_Version e)), (''journal_id'', JStr (en_JournalID e)),
      (''sequence'', JNum (uint (en_Sequence e))), (''prev_hash'', JStr (en_PrevHash e)),
      (''event'', event_json (en_Event e)), (''entry_hash'', JStr (en_EntryHash e))]"

definition anchor_json :: "anchor \<Rightarrow> json" where
  "anchor_json a = JObj
     [(''version'', JNum (an_Version a)), (''journal_id'', JStr (an_JournalID a)),
      (''sequence'', JNum (uint (an_Sequence a))), (''head_hash'', JStr (an_HeadHash a)),
      (''key_id'', JStr (an_KeyID a)), (''updated_at'', JTime (an_UpdatedAt a)),
      (''signature'', JStr (an_Signature a))]"

text \<open>The library functions that the journal is built on.\<close>

record codec =
  cd_marshal :: "json \<Rightarrow> string option"
  cd_unmarshal_entry :: "string \<Rightarrow> entry option"
  cd_unmarshal_anchor :: "string \<Rightarrow> anchor option"
  cd_sha :: "string \<Rightarrow> string"
  cd_encode_signature :: "string \<Rightarrow> string"
  cd_decode_signature :: "string \<Rightarrow> string option"

datatype journal_error =
    ErrContext string
  | ErrReadAnchor
  | ErrUnsupportedAnchorVersion
  | ErrJournalIdentityMismatch
  | ErrVerifierMissing
  | ErrSignerMissing
  | ErrKeyIDMissing
  | ErrKeyIDMismatch
  | ErrDecodeSignature
  | ErrMarshal
  | ErrSignature string
  | ErrOpenJournal
  | ErrDecodeEntry u64
  | ErrEntryVersion u64
  | ErrEntryJournalID u64
  | ErrSequenceMismatch u64
  | ErrPrevHash u64
  | ErrEntryHash u64
  | ErrScan
  | ErrAnchorSequence
  | ErrAnchorHead
  | ErrExternalUnavailable
  | ErrExternalMismatch
  | ErrUnverifiable "journal_error option"
  | ErrSign string
  | ErrIO string
  | ErrAdvanceExternal
  | ErrJournalIdentityRequired
  | ErrJournalAlreadyExists
  | ErrJournalHistoryUnavailable "journal_error option"
  | ErrExternalRequired
  | ErrCreationWitness
  | ErrPairIncomplete

datatype historical_trust = HistoryUntrusted | HistoryUnverified | HistoryTrusted

record verification =
  vf_Valid :: bool
  vf_EntryCount :: u64
  vf_HeadHash :: string
  vf_Error :: "journal_error option"
  vf_HistoricalTrust :: historical_trust

text \<open>
  A journal object and the world it works on: the lines of the journal file and the bytes of the
  anchor file (absent, unreadable: \<open>None\<close>), and the state \<open>'s\<close> of the external head store.
  \<open>fj_now j i\<close> is the reading of the clock for the event (0) and for the anchor (1) of a call.
\<close>

record ('s, 'e) file_journal =
  fj_signer :: "(string \<times> (string \<Rightarrow> string + string)) option"
  fj_verifier :: "(string \<Rightarrow> string \<Rightarrow> string \<Rightarrow> string option) option"
  fj_externalLoad :: "(string \<Rightarrow> 's \<Rightarrow> ('e + external_head) \<times> 's) option"
  fj_externalAdvance :: "external_head \<Rightarrow> external_head \<Rightarrow> 's \<Rightarrow> ('e + external_head) \<times> 's"
  fj_expectedJournalID :: string
  fj_now :: "nat \<Rightarrow> time"

record 's journal_world =
  jw_lines :: "string list option"
  jw_anchor :: "string option"
  jw_external :: 's

section \<open>Hashes and signatures\<close>

definition hashEntry :: "codec \<Rightarrow> entry \<Rightarrow> journal_error + string" where
  "hashEntry cd e =
     (case cd_marshal cd (entry_json (e\<lparr>en_EntryHash := []\<rparr>)) of
        None \<Rightarrow> Inl ErrMarshal
      | Some payload \<Rightarrow> Inr (sha256_tag (cd_sha cd) payload))"

definition anchorSigningPayload :: "codec \<Rightarrow> anchor \<Rightarrow> journal_error + string" where
  "anchorSigningPayload cd a =
     (case cd_marshal cd (anchor_json (a\<lparr>an_Signature := []\<rparr>)) of
        None \<Rightarrow> Inl ErrMarshal | Some payload \<Rightarrow> Inr payload)"

definition signAnchor ::
  "codec \<Rightarrow> anchor \<Rightarrow> (string \<times> (string \<Rightarrow> string + string)) option \<Rightarrow> journal_error + anchor" where
  "signAnchor cd a signer =
     (case signer of
        None \<Rightarrow> Inl ErrSignerMissing
      | Some (keyID, sign) \<Rightarrow>
        (let a = (if an_KeyID a = [] then a\<lparr>an_KeyID := keyID\<rparr> else a) in
         if an_KeyID a \<noteq> keyID then Inl ErrKeyIDMismatch
         else case anchorSigningPayload cd a of
           Inl e \<Rightarrow> Inl e
         | Inr payload \<Rightarrow>
           (case sign payload of
              Inl e \<Rightarrow> Inl (ErrSign e)
            | Inr signature \<Rightarrow> Inr (a\<lparr>an_Signature := cd_encode_signature cd signature\<rparr>))))"

definition verifyAnchor ::
  "codec \<Rightarrow> anchor \<Rightarrow> (string \<Rightarrow> string \<Rightarrow> string \<Rightarrow> string option) option \<Rightarrow> journal_error option" where
  "verifyAnchor cd a verifier =
     (case verifier of
        None \<Rightarrow> Some ErrVerifierMissing
      | Some verify \<Rightarrow>
        (if an_KeyID a = [] then Some ErrKeyIDMissing
         else case cd_decode_signature cd (an_Signature a) of
           None \<Rightarrow> Some ErrDecodeSignature
         | Some signature \<Rightarrow>
           (case anchorSigningPayload cd a of
              Inl e \<Rightarrow> Some e
            | Inr payload \<Rightarrow> map_option ErrSignature (verify (an_KeyID a) payload signature))))"

definition externalHeadFromAnchor :: "anchor \<Rightarrow> external_head" where
  "externalHeadFromAnchor a =
     \<lparr>eh_JournalID = an_JournalID a, eh_Sequence = an_Sequence a, eh_HeadHash = an_HeadHash a,
      eh_KeyID = an_KeyID a, eh_StoreVersion = []\<rparr>"

section \<open>Verification\<close>

text \<open>
  The scanner of the file has a buffer of four mebibytes, which has to hold a line with its
  newline.
\<close>

abbreviation scan_limit :: nat where "scan_limit \<equiv> 4 * 1024 * 1024"

fun verify_lines ::
  "codec \<Rightarrow> string \<Rightarrow> string list \<Rightarrow> u64 \<Rightarrow> string \<Rightarrow> u64 \<Rightarrow> journal_error + (string \<times> u64)" where
  "verify_lines cd journalID [] expectedSequence previousHash entryCount = Inr (previousHash, entryCount)"
| "verify_lines cd journalID (l # ls) expectedSequence previousHash entryCount =
     (if length l + 1 > scan_limit then Inl ErrScan
      else let line = trim_space l in
        if line = [] then verify_lines cd journalID ls expectedSequence previousHash entryCount
        else case cd_unmarshal_entry cd line of
          None \<Rightarrow> Inl (ErrDecodeEntry expectedSequence)
        | Some e \<Rightarrow>
          (if en_Version e \<noteq> formatVersion then Inl (ErrEntryVersion expectedSequence)
           else if en_JournalID e \<noteq> journalID then Inl (ErrEntryJournalID expectedSequence)
           else if en_Sequence e \<noteq> expectedSequence then Inl (ErrSequenceMismatch expectedSequence)
           else if en_PrevHash e \<noteq> previousHash then Inl (ErrPrevHash (en_Sequence e))
           else case hashEntry cd e of
             Inl err \<Rightarrow> Inl err
           | Inr wantHash \<Rightarrow>
             (if en_EntryHash e \<noteq> wantHash then Inl (ErrEntryHash (en_Sequence e))
              else verify_lines cd journalID ls (expectedSequence + 1) (en_EntryHash e) (entryCount + 1))))"

definition readAnchor :: "codec \<Rightarrow> string option \<Rightarrow> anchor option" where
  "readAnchor cd file = (case file of None \<Rightarrow> None | Some bytes \<Rightarrow> cd_unmarshal_anchor cd bytes)"

definition failed :: "u64 \<Rightarrow> string \<Rightarrow> journal_error \<Rightarrow> verification" where
  "failed n head err = \<lparr>vf_Valid = False, vf_EntryCount = n, vf_HeadHash = head, vf_Error = Some err,
     vf_HistoricalTrust = HistoryUntrusted\<rparr>"

definition verifyIntegrityAndHead ::
  "codec \<Rightarrow> ('s, 'e) file_journal \<Rightarrow> 's journal_world \<Rightarrow> verification \<times> 's journal_world" where
  "verifyIntegrityAndHead cd j w =
     (case readAnchor cd (jw_anchor w) of
        None \<Rightarrow> (failed 0 [] ErrReadAnchor, w)
      | Some a \<Rightarrow>
        (if an_Version a \<noteq> formatVersion then (failed 0 [] ErrUnsupportedAnchorVersion, w)
         else if fj_expectedJournalID j \<noteq> [] \<and> an_JournalID a \<noteq> fj_expectedJournalID j
         then (failed 0 [] ErrJournalIdentityMismatch, w)
         else if fj_verifier j = None then (failed 0 [] ErrVerifierMissing, w)
         else case verifyAnchor cd a (fj_verifier j) of
           Some e \<Rightarrow> (failed 0 [] e, w)
         | None \<Rightarrow>
           (case jw_lines w of
              None \<Rightarrow> (failed 0 [] ErrOpenJournal, w)
            | Some ls \<Rightarrow>
              (case verify_lines cd (an_JournalID a) ls 1 [] 0 of
                 Inl e \<Rightarrow> (failed 0 [] e, w)
               | Inr (previousHash, entryCount) \<Rightarrow>
                 (if an_Sequence a \<noteq> entryCount then (failed entryCount previousHash ErrAnchorSequence, w)
                  else if an_HeadHash a \<noteq> previousHash
                  then (failed entryCount previousHash ErrAnchorHead, w)
                  else
                    let ok = \<lparr>vf_Valid = True, vf_EntryCount = entryCount, vf_HeadHash = previousHash,
                              vf_Error = None, vf_HistoricalTrust = HistoryUntrusted\<rparr> in
                    case fj_externalLoad j of
                      None \<Rightarrow> (ok, w)
                    | Some load \<Rightarrow>
                      (case load (an_JournalID a) (jw_external w) of
                         (Inl _, s) \<Rightarrow>
                           (failed entryCount previousHash ErrExternalUnavailable, w\<lparr>jw_external := s\<rparr>)
                       | (Inr external, s) \<Rightarrow>
                         (if head_view external \<noteq> head_view (externalHeadFromAnchor a)
                          then (failed entryCount previousHash ErrExternalMismatch, w\<lparr>jw_external := s\<rparr>)
                          else (ok, w\<lparr>jw_external := s\<rparr>))))))))"

definition verifyUnlocked ::
  "codec \<Rightarrow> ('s, 'e) file_journal \<Rightarrow> 's journal_world \<Rightarrow> verification \<times> 's journal_world" where
  "verifyUnlocked cd j w =
     (case verifyIntegrityAndHead cd j w of
        (v, w') \<Rightarrow>
          (v\<lparr>vf_HistoricalTrust :=
               (if vf_Valid v
                then if fj_expectedJournalID j \<noteq> [] \<and> fj_externalLoad j \<noteq> None then HistoryTrusted
                     else HistoryUnverified
                else HistoryUntrusted)\<rparr>, w'))"

section \<open>Append\<close>

text \<open>
  What the file system does to one append: an error at opening, writing (with the fragment that
  reached the file), syncing or closing the journal file, and an error at writing the anchor.
\<close>

record io_faults =
  io_open :: "string option"
  io_write :: "(string \<times> string) option"
  io_sync_close :: "string option"
  io_anchor :: "string option"

definition writeAnchorAtomic :: "codec \<Rightarrow> string option \<Rightarrow> anchor \<Rightarrow> journal_error + string" where
  "writeAnchorAtomic cd fault a =
     (case cd_marshal cd (anchor_json a) of
        None \<Rightarrow> Inl ErrMarshal
      | Some data \<Rightarrow> (case fault of Some e \<Rightarrow> Inl (ErrIO e) | None \<Rightarrow> Inr (data @ [CHR 0x0A])))"

definition add_line :: "string \<Rightarrow> 's journal_world \<Rightarrow> 's journal_world" where
  "add_line l w = w\<lparr>jw_lines := map_option (\<lambda>ls. ls @ [l]) (jw_lines w)\<rparr>"

text \<open>The entry that follows the anchor \<open>a\<close>, with its hash.\<close>

definition next_entry ::
  "codec \<Rightarrow> ('s, 'e) file_journal \<Rightarrow> anchor \<Rightarrow> journal_event \<Rightarrow> journal_error + entry" where
  "next_entry cd j a event =
     (let event = (if is_zero (je_OccurredAt event) then event\<lparr>je_OccurredAt := fj_now j 0\<rparr> else event);
          e = \<lparr>en_Version = formatVersion, en_JournalID = an_JournalID a, en_Sequence = an_Sequence a + 1,
               en_PrevHash = an_HeadHash a, en_Event = event, en_EntryHash = []\<rparr> in
      case hashEntry cd e of
        Inl err \<Rightarrow> Inl err
      | Inr hash \<Rightarrow> Inr (e\<lparr>en_EntryHash := hash\<rparr>))"

text \<open>The new anchor is signed, replaces the old one, and is then published to the external store.\<close>

definition publish_anchor ::
  "codec \<Rightarrow> io_faults \<Rightarrow> ('s, 'e) file_journal \<Rightarrow> anchor \<Rightarrow> entry \<Rightarrow> 's journal_world
    \<Rightarrow> (journal_error + entry) \<times> 's journal_world" where
  "publish_anchor cd io j a e w =
     (let a0 = \<lparr>an_Version = formatVersion, an_JournalID = an_JournalID a, an_Sequence = en_Sequence e,
                an_HeadHash = en_EntryHash e, an_KeyID = (case fj_signer j of None \<Rightarrow> [] | Some (k, _) \<Rightarrow> k),
                an_UpdatedAt = fj_now j 1, an_Signature = []\<rparr> in
      case signAnchor cd a0 (fj_signer j) of
        Inl err \<Rightarrow> (Inl err, w)
      | Inr newAnchor \<Rightarrow>
        (case writeAnchorAtomic cd (io_anchor io) newAnchor of
           Inl err \<Rightarrow> (Inl err, w)
         | Inr bytes \<Rightarrow>
           (let w2 = w\<lparr>jw_anchor := Some bytes\<rparr> in
            if fj_externalLoad j = None then (Inr e, w2)
            else case fj_externalAdvance j (externalHeadFromAnchor a) (externalHeadFromAnchor newAnchor)
                        (jw_external w2) of
              (Inl _, s) \<Rightarrow> (Inl ErrAdvanceExternal, w2\<lparr>jw_external := s\<rparr>)
            | (Inr _, s) \<Rightarrow> (Inr e, w2\<lparr>jw_external := s\<rparr>))))"

definition Append ::
  "codec \<Rightarrow> io_faults \<Rightarrow> ('s, 'e) file_journal \<Rightarrow> string option \<Rightarrow> journal_event \<Rightarrow> 's journal_world
    \<Rightarrow> (journal_error + entry) \<times> 's journal_world" where
  "Append cd io j ctxErr event w0 =
     (case ctxErr of
        Some e \<Rightarrow> (Inl (ErrContext e), w0)
      | None \<Rightarrow>
        (case verifyUnlocked cd j w0 of (v, w) \<Rightarrow>
          (if \<not> vf_Valid v then (Inl (ErrUnverifiable (vf_Error v)), w)
           else
             (case readAnchor cd (jw_anchor w) of
                None \<Rightarrow> (Inl ErrReadAnchor, w)
              | Some a \<Rightarrow>
                (case next_entry cd j a event of
                   Inl err \<Rightarrow> (Inl err, w)
                 | Inr e \<Rightarrow>
                   (case cd_marshal cd (entry_json e) of
                      None \<Rightarrow> (Inl ErrMarshal, w)
                    | Some line \<Rightarrow>
                      (case io_open io of
                         Some err \<Rightarrow> (Inl (ErrIO err), w)
                       | None \<Rightarrow>
                         (case io_write io of
                            Some (err, fragment) \<Rightarrow>
                              (Inl (ErrIO err), if fragment = [] then w else add_line fragment w)
                          | None \<Rightarrow>
                            (case io_sync_close io of
                               Some err \<Rightarrow> (Inl (ErrIO err), add_line line w)
                             | None \<Rightarrow> publish_anchor cd io j a e (add_line line w))))))))))"

definition Verify ::
  "codec \<Rightarrow> ('s, 'e) file_journal \<Rightarrow> string option \<Rightarrow> 's journal_world \<Rightarrow> verification \<times> 's journal_world" where
  "Verify cd j ctxErr w =
     (case ctxErr of
        Some e \<Rightarrow> (failed 0 [] (ErrContext e), w)
      | None \<Rightarrow> verifyUnlocked cd j w)"

section \<open>Creating and opening\<close>

text \<open>
  The file-system answers of a creation: whether each path can be inspected, and the error of
  making the directories, creating the empty file, syncing or closing it, or writing the anchor.
\<close>

record init_faults =
  if_stat_journal :: "string option"
  if_stat_anchor :: "string option"
  if_mkdir :: "string option"
  if_create :: "string option"
  if_sync_close :: "string option"
  if_anchor :: "string option"

definition pathExists :: "string option \<Rightarrow> 'a option \<Rightarrow> journal_error + bool" where
  "pathExists fault file = (case fault of Some e \<Rightarrow> Inl (ErrIO e) | None \<Rightarrow> Inr (file \<noteq> None))"

definition initialize ::
  "codec \<Rightarrow> init_faults \<Rightarrow> (string + string) \<Rightarrow> ('s, 'e) file_journal \<Rightarrow> 's journal_world
    \<Rightarrow> journal_error option \<times> 's journal_world" where
  "initialize cd io randomID j w =
     (case pathExists (if_stat_journal io) (jw_lines w) of
        Inl e \<Rightarrow> (Some e, w)
      | Inr journalExists \<Rightarrow>
        (case pathExists (if_stat_anchor io) (jw_anchor w) of
           Inl e \<Rightarrow> (Some e, w)
         | Inr anchorExists \<Rightarrow>
           (if journalExists \<and> anchorExists then (None, w)
            else if journalExists \<noteq> anchorExists then (Some ErrPairIncomplete, w)
            else case if_mkdir io of
              Some e \<Rightarrow> (Some (ErrIO e), w)
            | None \<Rightarrow>
              (case (if fj_expectedJournalID j = [] then randomID else Inr (fj_expectedJournalID j)) of
                 Inl e \<Rightarrow> (Some (ErrIO e), w)
               | Inr journalID \<Rightarrow>
                 (case if_create io of
                    Some e \<Rightarrow> (Some (ErrIO e), w)
                  | None \<Rightarrow>
                    (let w1 = w\<lparr>jw_lines := Some []\<rparr> in
                     case if_sync_close io of
                       Some e \<Rightarrow> (Some (ErrIO e), w1)
                     | None \<Rightarrow>
                       (let a0 = \<lparr>an_Version = formatVersion, an_JournalID = journalID, an_Sequence = 0,
                                  an_HeadHash = [],
                                  an_KeyID = (case fj_signer j of None \<Rightarrow> [] | Some (k, _) \<Rightarrow> k),
                                  an_UpdatedAt = fj_now j 1, an_Signature = []\<rparr> in
                        case signAnchor cd a0 (fj_signer j) of
                          Inl e \<Rightarrow> (Some e, w1)
                        | Inr a \<Rightarrow>
                          (case writeAnchorAtomic cd (if_anchor io) a of
                             Inl e \<Rightarrow> (Some e, w1)
                           | Inr bytes \<Rightarrow>
                             (let w2 = w1\<lparr>jw_anchor := Some bytes\<rparr> in
                              if fj_externalLoad j = None then (None, w2)
                              else case fj_externalAdvance j (zero_head\<lparr>eh_JournalID := journalID\<rparr>)
                                          (externalHeadFromAnchor a) (jw_external w2) of
                                (Inl _, s) \<Rightarrow> (Some ErrAdvanceExternal, w2\<lparr>jw_external := s\<rparr>)
                              | (Inr _, s) \<Rightarrow> (None, w2\<lparr>jw_external := s\<rparr>))))))))))"

definition newFileJournal ::
  "(string \<times> (string \<Rightarrow> string + string)) option \<Rightarrow> (string \<Rightarrow> string \<Rightarrow> string \<Rightarrow> string option) option
    \<Rightarrow> (nat \<Rightarrow> time) \<Rightarrow> journal_error + ('s, 'e) file_journal" where
  "newFileJournal signer verifier now =
     (if signer = None then Inl ErrSignerMissing
      else if fst (the signer) = [] then Inl ErrKeyIDMissing
      else if verifier = None then Inl ErrVerifierMissing
      else Inr \<lparr>fj_signer = signer, fj_verifier = verifier, fj_externalLoad = None,
                fj_externalAdvance = (\<lambda>p n s. (Inr n, s)), fj_expectedJournalID = [], fj_now = now\<rparr>)"

type_synonym ('s, 'e) external_store =
  "(string \<Rightarrow> 's \<Rightarrow> ('e + external_head) \<times> 's) \<times>
   (external_head \<Rightarrow> external_head \<Rightarrow> 's \<Rightarrow> ('e + external_head) \<times> 's)"

definition newAnchoredFileJournal ::
  "string \<Rightarrow> (string \<times> (string \<Rightarrow> string + string)) option
    \<Rightarrow> (string \<Rightarrow> string \<Rightarrow> string \<Rightarrow> string option) option \<Rightarrow> ('s, 'e) external_store option
    \<Rightarrow> (nat \<Rightarrow> time) \<Rightarrow> journal_error + ('s, 'e) file_journal" where
  "newAnchoredFileJournal journalID signer verifier external now =
     (if blank journalID \<or> journalID \<noteq> trim_space journalID then Inl ErrJournalIdentityRequired
      else case external of
        None \<Rightarrow> Inl ErrExternalRequired
      | Some (load, advance) \<Rightarrow>
        (case newFileJournal signer verifier now of
           Inl e \<Rightarrow> Inl e
         | Inr j \<Rightarrow> Inr (j\<lparr>fj_expectedJournalID := journalID, fj_externalLoad := Some load,
                          fj_externalAdvance := advance\<rparr>)))"

definition OpenAnchoredFileJournal ::
  "codec \<Rightarrow> string option \<Rightarrow> string \<Rightarrow> (string \<times> (string \<Rightarrow> string + string)) option
    \<Rightarrow> (string \<Rightarrow> string \<Rightarrow> string \<Rightarrow> string option) option \<Rightarrow> ('s, 'e) external_store option
    \<Rightarrow> (nat \<Rightarrow> time) \<Rightarrow> 's journal_world
    \<Rightarrow> (journal_error + ('s, 'e) file_journal) \<times> 's journal_world" where
  "OpenAnchoredFileJournal cd ctxErr journalID signer verifier external now w =
     (case ctxErr of
        Some e \<Rightarrow> (Inl (ErrContext e), w)
      | None \<Rightarrow>
        (case newAnchoredFileJournal journalID signer verifier external now of
           Inl e \<Rightarrow> (Inl e, w)
         | Inr j \<Rightarrow>
           (case verifyUnlocked cd j w of (v, w') \<Rightarrow>
              if vf_Valid v then (Inr j, w') else (Inl (ErrJournalHistoryUnavailable (vf_Error v)), w'))))"

text \<open>
  \<open>ctxErr\<close> is what the context reports at the entry and, second, before the files are created;
  \<open>isNotFound\<close> tells whether a store error is the missing head.
\<close>

definition CreateAnchoredFileJournal ::
  "codec \<Rightarrow> init_faults \<Rightarrow> ('e \<Rightarrow> bool) \<Rightarrow> string option \<Rightarrow> string option \<Rightarrow> string
    \<Rightarrow> (string \<times> (string \<Rightarrow> string + string)) option
    \<Rightarrow> (string \<Rightarrow> string \<Rightarrow> string \<Rightarrow> string option) option \<Rightarrow> ('s, 'e) external_store option
    \<Rightarrow> (nat \<Rightarrow> time) \<Rightarrow> 's journal_world
    \<Rightarrow> (journal_error + ('s, 'e) file_journal) \<times> 's journal_world" where
  "CreateAnchoredFileJournal cd io isNotFound ctxErr ctxErr' journalID signer verifier external now w =
     (case ctxErr of
        Some e \<Rightarrow> (Inl (ErrContext e), w)
      | None \<Rightarrow>
        (case newAnchoredFileJournal journalID signer verifier external now of
           Inl e \<Rightarrow> (Inl e, w)
         | Inr j \<Rightarrow>
           (case pathExists (if_stat_journal io) (jw_lines w) of
              Inl e \<Rightarrow> (Inl e, w)
            | Inr True \<Rightarrow> (Inl ErrJournalAlreadyExists, w)
            | Inr False \<Rightarrow>
              (case pathExists (if_stat_anchor io) (jw_anchor w) of
                 Inl e \<Rightarrow> (Inl e, w)
               | Inr True \<Rightarrow> (Inl ErrJournalAlreadyExists, w)
               | Inr False \<Rightarrow>
                 (case the (fj_externalLoad j) journalID (jw_external w) of
                    (Inr _, s) \<Rightarrow> (Inl ErrJournalAlreadyExists, w\<lparr>jw_external := s\<rparr>)
                  | (Inl e, s) \<Rightarrow>
                    (let w1 = w\<lparr>jw_external := s\<rparr> in
                     if \<not> isNotFound e then (Inl ErrCreationWitness, w1)
                     else case ctxErr' of
                       Some e \<Rightarrow> (Inl (ErrContext e), w1)
                     | None \<Rightarrow>
                       (case initialize cd io (Inr []) j w1 of
                          (Some e, w2) \<Rightarrow> (Inl e, w2)
                        | (None, w2) \<Rightarrow>
                          (case verifyUnlocked cd j w2 of (v, w3) \<Rightarrow>
                             if vf_Valid v then (Inr j, w3)
                             else (Inl (ErrJournalHistoryUnavailable (vf_Error v)), w3)))))))))"

section \<open>Keys\<close>

text \<open>A keyring maps key identifiers to public keys; \<open>ed_verify\<close> is the signature check.\<close>

definition Keyring_Add :: "string \<Rightarrow> string \<Rightarrow> (string \<rightharpoonup> string) \<Rightarrow> string option \<times> (string \<rightharpoonup> string)" where
  "Keyring_Add keyID publicKey keys =
     (if keyID = [] then (Some ''key id is required'', keys)
      else if length publicKey \<noteq> 32 then (Some ''invalid Ed25519 public key length'', keys)
      else (None, keys(keyID \<mapsto> publicKey)))"

definition Keyring_Verify ::
  "(string \<Rightarrow> string \<Rightarrow> string \<Rightarrow> bool) \<Rightarrow> (string \<rightharpoonup> string) \<Rightarrow> string option \<Rightarrow> string \<Rightarrow> string \<Rightarrow> string
    \<Rightarrow> string option" where
  "Keyring_Verify ed_verify keys ctxErr keyID payload signature =
     (case ctxErr of
        Some e \<Rightarrow> Some e
      | None \<Rightarrow>
        (case keys keyID of
           None \<Rightarrow> Some ''unknown journal signing key''
         | Some publicKey \<Rightarrow>
           (if ed_verify publicKey payload signature then None
            else Some ''journal anchor signature verification failed'')))"

section \<open>The chain that verification establishes\<close>

text \<open>The entries recorded by the lines of the file, and the chain they have to form.\<close>

definition decoded :: "codec \<Rightarrow> string list \<Rightarrow> entry list" where
  "decoded cd ls =
     List.map_filter (\<lambda>l. if trim_space l = [] then None else cd_unmarshal_entry cd (trim_space l)) ls"

fun chain :: "codec \<Rightarrow> string \<Rightarrow> entry list \<Rightarrow> u64 \<Rightarrow> string \<Rightarrow> string \<Rightarrow> bool" where
  "chain cd journalID [] n prev h = (h = prev)"
| "chain cd journalID (e # es) n prev h =
     (en_Version e = formatVersion \<and> en_JournalID e = journalID \<and> en_Sequence e = n \<and>
      en_PrevHash e = prev \<and> hashEntry cd e = Inr (en_EntryHash e) \<and>
      chain cd journalID es (n + 1) (en_EntryHash e) h)"

lemma decoded_simps [simp]:
  "decoded cd [] = []"
  "trim_space l = [] \<Longrightarrow> decoded cd (l # ls) = decoded cd ls"
  "trim_space l \<noteq> [] \<Longrightarrow> cd_unmarshal_entry cd (trim_space l) = Some e \<Longrightarrow> decoded cd (l # ls) = e # decoded cd ls"
  by (simp_all add: decoded_def List.map_filter_def)

lemma decoded_append: "decoded cd (ls @ ms) = decoded cd ls @ decoded cd ms"
  by (simp add: decoded_def List.map_filter_def)

lemma verify_lines_chain:
  assumes "verify_lines cd journalID ls n prev k = Inr (h, m)"
  shows "chain cd journalID (decoded cd ls) n prev h \<and> m = k + of_nat (length (decoded cd ls))"
  using assms
proof (induction cd journalID ls n prev k arbitrary: h m rule: verify_lines.induct)
  case (2 cd journalID l ls n prev k)
  show ?case
  proof (cases "trim_space l = []")
    case True
    with 2 show ?thesis by (simp add: Let_def split: if_splits)
  next
    case False
    with "2.prems" obtain e where e: "cd_unmarshal_entry cd (trim_space l) = Some e"
      and ok: "en_Version e = formatVersion" "en_JournalID e = journalID" "en_Sequence e = n" "en_PrevHash e = prev"
        "hashEntry cd e = Inr (en_EntryHash e)" "length l + 1 \<le> scan_limit"
      and rest: "verify_lines cd journalID ls (n + 1) (en_EntryHash e) (k + 1) = Inr (h, m)"
      by (simp add: Let_def split: if_splits option.splits sum.splits)
    from "2.IH" (2) [OF _ refl False e _ _ _ _ ok(5) _ rest] ok False e show ?thesis by simp
  qed
qed simp

lemma verify_lines_append:
  "verify_lines cd journalID (ls @ ms) n prev k =
     (case verify_lines cd journalID ls n prev k of
        Inl e \<Rightarrow> Inl e
      | Inr (h, m) \<Rightarrow> verify_lines cd journalID ms (n + (m - k)) h m)"
proof (induction cd journalID ls n prev k rule: verify_lines.induct)
  case (2 cd journalID l ls n prev k)
  then show ?case
    by (auto simp: Let_def algebra_simps split: option.split sum.split)
qed simp

lemma verify_lines_limit:
  "verify_lines cd journalID ls n prev k = Inr r \<Longrightarrow> l \<in> set ls \<Longrightarrow> length l + 1 \<le> scan_limit"
  by (induction cd journalID ls n prev k rule: verify_lines.induct)
    (auto simp: Let_def split: if_splits option.splits sum.splits)

lemma chain_append:
  "chain cd journalID (es @ fs) n prev h \<longleftrightarrow>
     (\<exists>g. chain cd journalID es n prev g \<and> chain cd journalID fs (n + of_nat (length es)) g h)"
  by (induction es arbitrary: n prev) (auto simp: algebra_simps)

lemma verifyAnchor_None [simp]: "verifyAnchor cd a None = Some ErrVerifierMissing"
  by (simp add: verifyAnchor_def)

text \<open>Everything that verification has checked when it accepts.\<close>

definition accepted :: "codec \<Rightarrow> ('s, 'e) file_journal \<Rightarrow> 's journal_world \<Rightarrow> anchor \<Rightarrow> string list \<Rightarrow> bool" where
  "accepted cd j w a ls \<longleftrightarrow>
     readAnchor cd (jw_anchor w) = Some a \<and> jw_lines w = Some ls \<and> an_Version a = formatVersion \<and>
     (fj_expectedJournalID j \<noteq> [] \<longrightarrow> an_JournalID a = fj_expectedJournalID j) \<and>
     verifyAnchor cd a (fj_verifier j) = None \<and>
     verify_lines cd (an_JournalID a) ls 1 [] 0 = Inr (an_HeadHash a, an_Sequence a) \<and>
     (case fj_externalLoad j of
        None \<Rightarrow> True
      | Some load \<Rightarrow> \<exists>external s. load (an_JournalID a) (jw_external w) = (Inr external, s) \<and>
          head_view external = head_view (externalHeadFromAnchor a))"

lemma verify_accepted:
  assumes "accepted cd j w a ls"
  shows "fst (verifyIntegrityAndHead cd j w) =
    \<lparr>vf_Valid = True, vf_EntryCount = an_Sequence a, vf_HeadHash = an_HeadHash a, vf_Error = None,
     vf_HistoricalTrust = HistoryUntrusted\<rparr>"
proof -
  from assms have r: "readAnchor cd (jw_anchor w) = Some a" "jw_lines w = Some ls"
      "an_Version a = formatVersion" "\<not> (fj_expectedJournalID j \<noteq> [] \<and> an_JournalID a \<noteq> fj_expectedJournalID j)"
      "verifyAnchor cd a (fj_verifier j) = None"
      "verify_lines cd (an_JournalID a) ls 1 [] 0 = Inr (an_HeadHash a, an_Sequence a)"
    by (auto simp: accepted_def)
  from r(5) have v: "fj_verifier j \<noteq> None" by (cases "fj_verifier j") simp_all
  show ?thesis
  proof (cases "fj_externalLoad j")
    case None
    with r v show ?thesis
      by (simp only: verifyIntegrityAndHead_def Let_def option.simps sum.simps prod.simps if_False) simp
  next
    case (Some load)
    with assms obtain external s where "load (an_JournalID a) (jw_external w) = (Inr external, s)"
      "head_view external = head_view (externalHeadFromAnchor a)" by (auto simp: accepted_def)
    with Some r v show ?thesis
      by (simp only: verifyIntegrityAndHead_def Let_def option.simps sum.simps prod.simps if_False) simp
  qed
qed

lemma verify_valid_accepted:
  assumes "vf_Valid (fst (verifyIntegrityAndHead cd j w))"
  obtains a ls where "accepted cd j w a ls"
proof -
  from assms have "\<exists>a ls. accepted cd j w a ls" unfolding accepted_def
    by (auto simp: verifyIntegrityAndHead_def failed_def Let_def
        split: option.splits if_splits sum.splits prod.splits)
  with that show thesis by blast
qed

lemma accepted_chain:
  assumes "accepted cd j w a ls"
  shows "chain cd (an_JournalID a) (decoded cd ls) 1 [] (an_HeadHash a)"
    and "an_Sequence a = of_nat (length (decoded cd ls))"
  using assms verify_lines_chain [of cd "an_JournalID a" ls 1 "[]" 0] by (simp_all add: accepted_def)

text \<open>The documents of entries determine the entries.\<close>

lemma lookup_omit [simp]:
  "map_of (omit_empty k v @ xs) k' = (if k = k' \<and> v \<noteq> [] then Some (JStr v) else map_of xs k')"
  by (simp add: omit_empty_def)

lemma lookup_optional [simp]:
  "map_of ((if vs = [] then [] else [(k, JArr (map JStr vs))]) @ xs) k' =
     (if k = k' \<and> vs \<noteq> [] then Some (JArr (map JStr vs)) else map_of xs k')"
  by simp

lemma map_JStr_eq [simp]: "map JStr xs = map JStr ys \<longleftrightarrow> xs = ys"
  by (simp add: inj_map_eq_map inj_def)

lemma event_json_inj:
  assumes "event_json e = event_json f"
  shows "e = f"
proof -
  define members where "members d = (case d of JObj ms \<Rightarrow> ms)" for d
  have same: "map_of (members (event_json e)) k = map_of (members (event_json f)) k" for k
    using assms by simp
  note k = same [unfolded members_def event_json_def json.simps]
  show ?thesis
    supply map_of_append [simp del]
  proof (rule journal_event.equality)
    show "je_Type e = je_Type f" using k [of "''type''"] by simp
    show "je_ActionID e = je_ActionID f" using k [of "''action_id''"] by (simp split: if_splits)
    show "je_Target e = je_Target f" using k [of "''target''"] by (simp split: if_splits)
    show "je_Decision e = je_Decision f" using k [of "''decision''"] by (simp split: if_splits)
    show "je_ReasonCodes e = je_ReasonCodes f" using k [of "''reason_codes''"] by (simp split: if_splits)
    show "je_EvidenceDigest e = je_EvidenceDigest f" using k [of "''evidence_digest''"] by (simp split: if_splits)
    show "je_EvidencePacketDigest e = je_EvidencePacketDigest f" using k [of "''evidence_packet_digest''"]
      by (simp split: if_splits)
    show "je_PlanDigest e = je_PlanDigest f" using k [of "''plan_digest''"] by (simp split: if_splits)
    show "je_AttemptID e = je_AttemptID f" using k [of "''attempt_id''"] by (simp split: if_splits)
    show "je_DestinationID e = je_DestinationID f" using k [of "''destination_id''"] by (simp split: if_splits)
    show "je_AccountID e = je_AccountID f" using k [of "''account_id''"] by (simp split: if_splits)
    show "je_ObservationHandle e = je_ObservationHandle f" using k [of "''observation_handle''"]
      by (simp split: if_splits)
    show "je_AttemptState e = je_AttemptState f" using k [of "''attempt_state''"] by (simp split: if_splits)
    show "je_OutcomeVerdict e = je_OutcomeVerdict f" using k [of "''outcome_verdict''"] by (simp split: if_splits)
    show "je_PayloadDigest e = je_PayloadDigest f" using k [of "''payload_digest''"] by (simp split: if_splits)
    show "je_OccurredAt e = je_OccurredAt f" using k [of "''occurred_at''"] by (simp split: if_splits)
  qed simp
qed

lemma entry_json_inj: "entry_json e = entry_json f \<Longrightarrow> e = f"
  by (rule entry.equality) (auto simp: entry_json_def dest: event_json_inj simp: word_uint_eq_iff)

section \<open>Tamper evidence\<close>

text \<open>
  What the hash has to provide for the entries at hand: different documents of these entries have
  different encodings, and different encodings different digests.
\<close>

definition entry_payload :: "codec \<Rightarrow> entry \<Rightarrow> string option" where
  "entry_payload cd e = cd_marshal cd (entry_json (e\<lparr>en_EntryHash := []\<rparr>))"

definition collision_free :: "codec \<Rightarrow> entry list \<Rightarrow> entry list \<Rightarrow> bool" where
  "collision_free cd es fs \<longleftrightarrow> (\<forall>e\<in>set es. \<forall>f\<in>set fs. \<forall>p q.
     entry_payload cd e = Some p \<longrightarrow> entry_payload cd f = Some q \<longrightarrow>
     (cd_sha cd p = cd_sha cd q \<longrightarrow> p = q) \<and>
     (p = q \<longrightarrow> entry_json (e\<lparr>en_EntryHash := []\<rparr>) = entry_json (f\<lparr>en_EntryHash := []\<rparr>)))"

lemma collision_free_mono:
  "collision_free cd es fs \<Longrightarrow> set es' \<subseteq> set es \<Longrightarrow> set fs' \<subseteq> set fs \<Longrightarrow> collision_free cd es' fs'"
  unfolding collision_free_def by (meson subsetD)

lemma hashEntry_Inr:
  "hashEntry cd e = Inr h \<longleftrightarrow> (\<exists>p. entry_payload cd e = Some p \<and> h = sha256_tag (cd_sha cd) p)"
  by (auto simp: hashEntry_def entry_payload_def split: option.splits)

lemma hashEntry_nonempty: "hashEntry cd e \<noteq> Inr []"
  by (auto simp: hashEntry_Inr sha256_tag_def)

lemma hash_determines_entry:
  assumes "collision_free cd es fs" "e \<in> set es" "f \<in> set fs"
    and "hashEntry cd e = Inr h" "hashEntry cd f = Inr h" "en_EntryHash e = h" "en_EntryHash f = h"
  shows "e = f"
proof -
  from assms(4,5) obtain p q where pq: "entry_payload cd e = Some p" "entry_payload cd f = Some q"
    and "sha256_tag (cd_sha cd) p = sha256_tag (cd_sha cd) q" by (auto simp: hashEntry_Inr)
  then have "cd_sha cd p = cd_sha cd q" by (simp add: sha256_tag_eq_iff)
  with assms(1-3) pq have "entry_json (e\<lparr>en_EntryHash := []\<rparr>) = entry_json (f\<lparr>en_EntryHash := []\<rparr>)"
    unfolding collision_free_def by blast
  then have "e\<lparr>en_EntryHash := []\<rparr> = f\<lparr>en_EntryHash := []\<rparr>" by (rule entry_json_inj)
  with assms(6,7) show ?thesis by (cases e; cases f) simp
qed

lemma chain_snoc:
  "chain cd journalID (es @ [e]) n prev h \<longleftrightarrow>
     chain cd journalID es n prev (en_PrevHash e) \<and> en_Version e = formatVersion \<and>
     en_JournalID e = journalID \<and> en_Sequence e = n + of_nat (length es) \<and>
     hashEntry cd e = Inr h \<and> en_EntryHash e = h"
  by (auto simp: chain_append)

lemma chain_determined_by_head:
  assumes "chain cd i es n [] h" and "chain cd i' fs n' [] h" and "collision_free cd es fs"
  shows "es = fs"
  using assms
proof (induction es arbitrary: fs h rule: rev_induct)
  case Nil
  then show ?case by (cases fs rule: rev_cases) (auto simp: chain_snoc hashEntry_nonempty)
next
  case (snoc e es)
  show ?case
  proof (cases fs rule: rev_cases)
    case Nil
    with snoc.prems show ?thesis by (auto simp: chain_snoc hashEntry_nonempty)
  next
    case snoc': (snoc gs f)
    with snoc.prems hash_determines_entry [of cd "es @ [e]" fs e f h] have ef: "e = f"
      by (simp add: chain_snoc)
    have "collision_free cd es gs" using snoc.prems(3)
      by (rule collision_free_mono) (auto simp: snoc')
    with snoc.IH [of "en_PrevHash e" gs] snoc.prems snoc' ef show ?thesis by (simp add: chain_snoc)
  qed
qed

abbreviation recorded :: "codec \<Rightarrow> 's journal_world \<Rightarrow> entry list" where
  "recorded cd w \<equiv> decoded cd (the (jw_lines w))"

lemma verifyUnlocked_valid [simp]:
  "vf_Valid (fst (verifyUnlocked cd j w)) = vf_Valid (fst (verifyIntegrityAndHead cd j w))"
  "vf_HeadHash (fst (verifyUnlocked cd j w)) = vf_HeadHash (fst (verifyIntegrityAndHead cd j w))"
  "vf_EntryCount (fst (verifyUnlocked cd j w)) = vf_EntryCount (fst (verifyIntegrityAndHead cd j w))"
  by (simp_all add: verifyUnlocked_def split: prod.split)

text \<open>
  C16. The history is tamper evident: two journals, whatever is in their files, that both verify
  and report the same head hash record the same entries, in the same order, provided that no
  digest collision exists between their entries. So changing, removing, inserting or reordering
  any entry of a verified journal makes it unverifiable against the same head.
\<close>

theorem journal_tamper_evident:
  assumes "vf_Valid (fst (verifyUnlocked cd j w))" and "vf_Valid (fst (verifyUnlocked cd j' w'))"
    and "vf_HeadHash (fst (verifyUnlocked cd j w)) = vf_HeadHash (fst (verifyUnlocked cd j' w'))"
    and "collision_free cd (recorded cd w) (recorded cd w')"
  shows "recorded cd w = recorded cd w'"
proof -
  have v: "vf_Valid (fst (verifyIntegrityAndHead cd j w))" "vf_Valid (fst (verifyIntegrityAndHead cd j' w'))"
    using assms(1,2) by simp_all
  obtain a ls where a: "accepted cd j w a ls" by (rule verify_valid_accepted [OF v(1)])
  obtain b ms where b: "accepted cd j' w' b ms" by (rule verify_valid_accepted [OF v(2)])
  have "an_HeadHash a = an_HeadHash b"
    using assms(3) verify_accepted [OF a] verify_accepted [OF b] by simp
  moreover have "recorded cd w = decoded cd ls" "recorded cd w' = decoded cd ms"
    using a b by (simp_all add: accepted_def)
  ultimately show ?thesis
    using chain_determined_by_head [OF accepted_chain(1) [OF a], of "an_JournalID b" "decoded cd ms" 1]
      accepted_chain(1) [OF b] assms(4) by simp
qed

section \<open>Append\<close>

lemma verify_world:
  assumes "verifyUnlocked cd j w = (v, w')"
  shows "jw_lines w' = jw_lines w" and "jw_anchor w' = jw_anchor w"
    and "fj_externalLoad j = None \<Longrightarrow> jw_external w' = jw_external w"
    and "fj_externalLoad j = Some load \<Longrightarrow>
      jw_external w' = jw_external w \<or> (\<exists>i r. load i (jw_external w) = (r, jw_external w'))"
  using assms unfolding verifyUnlocked_def verifyIntegrityAndHead_def Let_def
  by (auto split: option.splits if_splits sum.splits prod.splits)

lemma next_entry_Inr:
  "next_entry cd j a event = Inr e \<Longrightarrow>
     en_Version e = formatVersion \<and> en_JournalID e = an_JournalID a \<and> en_Sequence e = an_Sequence a + 1 \<and>
     en_PrevHash e = an_HeadHash a \<and> hashEntry cd e = Inr (en_EntryHash e) \<and>
     en_Event e = (if is_zero (je_OccurredAt event) then event\<lparr>je_OccurredAt := fj_now j 0\<rparr> else event)"
  by (auto simp: next_entry_def Let_def hashEntry_def split: sum.splits option.splits)

lemma signAnchor_Inr:
  "signAnchor cd a (Some (k, sign)) = Inr b \<Longrightarrow> an_KeyID a = k \<Longrightarrow>
     \<exists>p s. anchorSigningPayload cd b = Inr p \<and> sign p = Inr s \<and> b = a\<lparr>an_Signature := cd_encode_signature cd s\<rparr>"
  by (auto simp: signAnchor_def Let_def anchorSigningPayload_def split: sum.splits option.splits if_splits)

lemma publish_anchor_cases:
  assumes "publish_anchor cd io j a e w = (r, w')"
  obtains
    (unchanged) err where "r = Inl err" "w' = w"
  | (replaced) k sign p s d where "fj_signer j = Some (k, sign)" "sign p = Inr s" "jw_lines w' = jw_lines w"
      "let b = \<lparr>an_Version = formatVersion, an_JournalID = an_JournalID a, an_Sequence = en_Sequence e,
                an_HeadHash = en_EntryHash e, an_KeyID = k, an_UpdatedAt = fj_now j 1,
                an_Signature = cd_encode_signature cd s\<rparr> in
         anchorSigningPayload cd b = Inr p \<and> cd_marshal cd (anchor_json b) = Some d \<and>
         jw_anchor w' = Some (d @ [CHR 0x0A]) \<and>
         (if fj_externalLoad j = None then r = Inr e \<and> jw_external w' = jw_external w
          else \<exists>x. fj_externalAdvance j (externalHeadFromAnchor a) (externalHeadFromAnchor b) (jw_external w)
                 = (x, jw_external w') \<and>
               r = (if isl x then Inl ErrAdvanceExternal else Inr e))"
proof -
  define a0 where "a0 = \<lparr>an_Version = formatVersion, an_JournalID = an_JournalID a, an_Sequence = en_Sequence e,
                an_HeadHash = en_EntryHash e, an_KeyID = (case fj_signer j of None \<Rightarrow> [] | Some (k, _) \<Rightarrow> k),
                an_UpdatedAt = fj_now j 1, an_Signature = []\<rparr>"
  note def = assms [unfolded publish_anchor_def Let_def, folded a0_def]
  show thesis
  proof (cases "signAnchor cd a0 (fj_signer j)")
    case (Inl err)
    with def show ?thesis by (intro unchanged [of err]) simp_all
  next
    case (Inr b)
    then obtain k sign where k: "fj_signer j = Some (k, sign)"
      by (auto simp: signAnchor_def split: option.splits)
    moreover have "an_KeyID a0 = k" by (simp add: a0_def k)
    ultimately obtain p s where ps: "anchorSigningPayload cd b = Inr p" "sign p = Inr s"
      "b = a0\<lparr>an_Signature := cd_encode_signature cd s\<rparr>"
      using signAnchor_Inr [of cd a0 k sign b] Inr by auto
    have b: "b = \<lparr>an_Version = formatVersion, an_JournalID = an_JournalID a, an_Sequence = en_Sequence e,
                an_HeadHash = en_EntryHash e, an_KeyID = k, an_UpdatedAt = fj_now j 1,
                an_Signature = cd_encode_signature cd s\<rparr>" using ps(3) k by (simp add: a0_def)
    show ?thesis
    proof (cases "writeAnchorAtomic cd (io_anchor io) b")
      case (Inl err)
      with def Inr show ?thesis by (intro unchanged [of err]) simp_all
    next
      case bytes: (Inr bytes)
      then obtain d where d: "cd_marshal cd (anchor_json b) = Some d" "bytes = d @ [CHR 0x0A]"
        by (auto simp: writeAnchorAtomic_def split: option.splits)
      note rest = def [unfolded Inr sum.case bytes]
      have lines: "jw_lines w' = jw_lines w" and anchor: "jw_anchor w' = Some bytes"
        using rest by (auto split: if_splits sum.splits prod.splits)
      have "if fj_externalLoad j = None then r = Inr e \<and> jw_external w' = jw_external w
          else \<exists>x. fj_externalAdvance j (externalHeadFromAnchor a) (externalHeadFromAnchor b) (jw_external w)
                 = (x, jw_external w') \<and>
               r = (if isl x then Inl ErrAdvanceExternal else Inr e)"
        using rest by (auto split: if_splits sum.splits prod.splits)
      with replaced [OF k ps(2) lines, unfolded Let_def, folded b, of d] ps(1) d anchor show ?thesis
        by simp
    qed
  qed
qed

lemma Append_cases:
  assumes "Append cd io j ctxErr event w = (r, w')"
  obtains
    (untouched) err where "r = Inl err" "jw_lines w' = jw_lines w"
  | (interrupted) err a ls l where "r = Inl err" "accepted cd j w a ls" "jw_lines w' = Some (ls @ [l])"
      "jw_anchor w' = jw_anchor w"
  | (published) a ls e line u where "accepted cd j w a ls" "next_entry cd j a event = Inr e"
      "cd_marshal cd (entry_json e) = Some line" "jw_lines u = Some (ls @ [line])" "jw_anchor u = jw_anchor w"
      "snd (verifyUnlocked cd j w) = u\<lparr>jw_lines := jw_lines w\<rparr>"
      "publish_anchor cd io j a e u = (r, w')"
proof (cases "ctxErr = None \<and> vf_Valid (fst (verifyUnlocked cd j w))")
  case False
  obtain v w1 where vw: "verifyUnlocked cd j w = (v, w1)" by (cases "verifyUnlocked cd j w")
  with False assms verify_world(1) [OF vw] untouched show ?thesis
    by (auto simp: Append_def split: option.splits if_splits)
next
  case True
  obtain v w1 where vw: "verifyUnlocked cd j w = (v, w1)" by (cases "verifyUnlocked cd j w")
  from True obtain a ls where acc: "accepted cd j w a ls" by (auto elim: verify_valid_accepted)
  note w1 = verify_world(1,2) [OF vw]
  from acc w1 have read: "readAnchor cd (jw_anchor w1) = Some a" and lines: "jw_lines w1 = Some ls"
    by (simp_all add: accepted_def)
  from True vw have "vf_Valid v" by simp
  with assms True vw read have app: "(case next_entry cd j a event of
                   Inl err \<Rightarrow> (Inl err, w1)
                 | Inr e \<Rightarrow>
                   (case cd_marshal cd (entry_json e) of
                      None \<Rightarrow> (Inl ErrMarshal, w1)
                    | Some line \<Rightarrow>
                      (case io_open io of
                         Some err \<Rightarrow> (Inl (ErrIO err), w1)
                       | None \<Rightarrow>
                         (case io_write io of
                            Some (err, fragment) \<Rightarrow>
                              (Inl (ErrIO err), if fragment = [] then w1 else add_line fragment w1)
                          | None \<Rightarrow>
                            (case io_sync_close io of
                               Some err \<Rightarrow> (Inl (ErrIO err), add_line line w1)
                             | None \<Rightarrow> publish_anchor cd io j a e (add_line line w1)))))) = (r, w')"
    by (simp add: Append_def del: verifyUnlocked_valid)
  have added: "jw_lines (add_line l w1) = Some (ls @ [l])" "jw_anchor (add_line l w1) = jw_anchor w"
      "snd (verifyUnlocked cd j w) = add_line l w1\<lparr>jw_lines := jw_lines w\<rparr>" for l
    using w1 lines vw by (simp_all add: add_line_def)
  consider (early) err where "r = Inl err" "w' = w1"
    | (partial) err l where "r = Inl err" "w' = add_line l w1"
    | (full) e line where "next_entry cd j a event = Inr e" "cd_marshal cd (entry_json e) = Some line"
        "publish_anchor cd io j a e (add_line line w1) = (r, w')"
  proof (cases "next_entry cd j a event")
    case (Inl err)
    with app have "r = Inl err" "w' = w1" by simp_all
    then show ?thesis by (rule early)
  next
    case (Inr e)
    with app early partial full show ?thesis
      by (auto split: option.splits prod.splits if_splits)
  qed
  then show thesis
  proof cases
    case early
    with w1 show ?thesis by (intro untouched [of err]) simp_all
  next
    case (partial err l)
    with acc added [of l] show ?thesis by (intro interrupted [of err a ls l]) simp_all
  next
    case (full e line)
    from published [OF acc full(1,2) added full(3)] show ?thesis .
  qed
qed

section \<open>The journal over a head store\<close>

text \<open>The encoding of anchors reads back what it wrote.\<close>

definition anchor_roundtrip :: "codec \<Rightarrow> bool" where
  "anchor_roundtrip cd \<longleftrightarrow>
     (\<forall>a d. cd_marshal cd (anchor_json a) = Some d \<longrightarrow> cd_unmarshal_anchor cd (d @ [CHR 0x0A]) = Some a)"

lemma decoded_one: "length (decoded cd [l]) \<le> 1"
  by (simp add: decoded_def List.map_filter_def)

lemma same_anchor_no_new_entry:
  assumes "accepted cd j w a ls" and "accepted cd j' w' b (ls @ [l])" and "jw_anchor w' = jw_anchor w"
  shows "decoded cd (ls @ [l]) = decoded cd ls"
proof -
  from assms have "a = b" by (simp add: accepted_def)
  with accepted_chain(2) [OF assms(1)] accepted_chain(2) [OF assms(2)]
  have "(of_nat (length (decoded cd [l])) :: u64) = 0" by (simp add: decoded_append)
  with decoded_one [of cd l] have "decoded cd [l] = []"
    by (cases "decoded cd [l]") (simp_all add: le_Suc_eq)
  then show ?thesis by (simp add: decoded_append)
qed

context head_store
begin

lemma rollback_detected:
  assumes "store_step\<^sup>*\<^sup>* s (jw_external w)" and "head s (an_JournalID a) = Some c"
    and "fj_externalLoad j = Some load" and "readAnchor cd (jw_anchor w) = Some a"
    and "an_Sequence a < eh_Sequence c"
  shows "\<not> vf_Valid (fst (verifyUnlocked cd j w))"
proof
  assume "vf_Valid (fst (verifyUnlocked cd j w))"
  then obtain b ls where acc: "accepted cd j w b ls" by (auto elim: verify_valid_accepted)
  with assms(4) have "b = a" by (simp add: accepted_def)
  with acc assms(3) obtain h s' where "load (an_JournalID a) (jw_external w) = (Inr h, s')"
    and "eh_Sequence h = an_Sequence a"
    by (auto simp: accepted_def head_view_def externalHeadFromAnchor_def)
  with no_rollback [OF assms(1,2), of "externalHeadFromAnchor a"] assms(5) show False
    by (auto simp: externalHeadFromAnchor_def)
qed

lemma external_matches:
  assumes "accepted cd j w a ls" and "fj_externalLoad j = Some load"
  shows "\<exists>h. head (jw_external w) (an_JournalID a) = Some h \<and> eh_Sequence h = an_Sequence a"
  using assms load_head by (fastforce simp: accepted_def head_view_def externalHeadFromAnchor_def)

lemma verify_keeps_heads:
  assumes "fj_externalLoad j = Some load"
  shows "head (jw_external (snd (verifyUnlocked cd j w))) = head (jw_external w)"
  using verify_world(4) [of cd j w _ _ load, OF prod.collapse [symmetric] assms] load_frame by metis

lemma failed_append_closed:
  assumes "Append cd io j ctxErr event w = (Inl err, w')"
    and ext: "fj_externalLoad j = Some load" "fj_externalAdvance j = advance"
    and rt: "anchor_roundtrip cd"
    and valid: "vf_Valid (fst (verifyUnlocked cd j w'))"
  shows "recorded cd w' = recorded cd w"
proof -
  from valid obtain b ms where b: "accepted cd j w' b ms" by (auto elim: verify_valid_accepted)
  from assms(1) show ?thesis
  proof (cases rule: Append_cases)
    case (interrupted err' a ls l)
    then have "ms = ls @ [l]" "jw_lines w = Some ls" using b by (simp_all add: accepted_def)
    with same_anchor_no_new_entry [of cd j w a ls j w' b l] interrupted b show ?thesis by simp
  next
    case (published a ls e line u)
    from published(7) show ?thesis
    proof (cases rule: publish_anchor_cases)
      case (unchanged err')
      then have "ms = ls @ [line]" "jw_lines w = Some ls" using b published by (simp_all add: accepted_def)
      with same_anchor_no_new_entry [of cd j w a ls j w' b line] unchanged published b show ?thesis
        by simp
    next
      case (replaced k sign p s d)
      define b' where "b' = \<lparr>an_Version = formatVersion, an_JournalID = an_JournalID a, an_Sequence = en_Sequence e,
                an_HeadHash = en_EntryHash e, an_KeyID = k, an_UpdatedAt = fj_now j 1,
                an_Signature = cd_encode_signature cd s\<rparr>"
      note rep = replaced(4) [unfolded Let_def, folded b'_def]
      from rep ext obtain y where y: "advance (externalHeadFromAnchor a) (externalHeadFromAnchor b')
          (jw_external u) = (y, jw_external w')" "isl y"
        by (auto split: if_splits)
      then obtain x where adv: "advance (externalHeadFromAnchor a) (externalHeadFromAnchor b')
          (jw_external u) = (Inl x, jw_external w')" by (cases y) auto
      have "b = b'" using b rep rt by (auto simp: accepted_def readAnchor_def anchor_roundtrip_def)
      moreover have "head (jw_external w') = head (jw_external w)"
        using advance_fail [OF adv] verify_keeps_heads [OF ext(1), of cd w] published(6) by simp
      ultimately have "an_Sequence b = an_Sequence a"
        using external_matches [OF b ext(1)] external_matches [OF published(1) ext(1)]
        by (auto simp: b'_def)
      moreover have "an_Sequence b = an_Sequence a + 1"
        using \<open>b = b'\<close> next_entry_Inr [OF published(2)] by (simp add: b'_def)
      ultimately show ?thesis by simp
    qed
  qed simp
qed

end

text \<open>What an append relies on: encodings read back, and the signer's signatures verify.\<close>

definition entry_roundtrip :: "codec \<Rightarrow> entry \<Rightarrow> bool" where
  "entry_roundtrip cd e \<longleftrightarrow> (\<forall>line. cd_marshal cd (entry_json e) = Some line \<longrightarrow>
     trim_space line = line \<and> line \<noteq> [] \<and> length line + 1 \<le> scan_limit \<and> cd_unmarshal_entry cd line = Some e)"

definition signatures_verify :: "codec \<Rightarrow> ('s, 'e) file_journal \<Rightarrow> bool" where
  "signatures_verify cd j \<longleftrightarrow>
     (case fj_signer j of
        None \<Rightarrow> False
      | Some (k, sign) \<Rightarrow> k \<noteq> [] \<and>
          (\<forall>p s. sign p = Inr s \<longrightarrow> cd_decode_signature cd (cd_encode_signature cd s) = Some s \<and>
             (\<exists>verify. fj_verifier j = Some verify \<and> verify k p s = None)))"

context available_head_store
begin

lemma append_keeps_verifiable:
  assumes app: "Append cd io j ctxErr event w = (Inr e, w')"
    and ext: "fj_externalLoad j = Some load" "fj_externalAdvance j = advance"
    and codec: "anchor_roundtrip cd" "entry_roundtrip cd e" "signatures_verify cd j"
  shows "\<exists>b. accepted cd j w' b (the (jw_lines w')) \<and> an_Sequence b = en_Sequence e \<and>
      an_HeadHash b = en_EntryHash e \<and> recorded cd w' = recorded cd w @ [e]"
  using app
proof (cases rule: Append_cases)
  case (published a ls e' line u)
  from published(7) show ?thesis
  proof (cases rule: publish_anchor_cases)
    case (replaced k sign p s d)
    define b where "b = \<lparr>an_Version = formatVersion, an_JournalID = an_JournalID a, an_Sequence = en_Sequence e',
                an_HeadHash = en_EntryHash e', an_KeyID = k, an_UpdatedAt = fj_now j 1,
                an_Signature = cd_encode_signature cd s\<rparr>"
    note rep = replaced(4) [unfolded Let_def, folded b_def]
    from rep ext obtain y where y: "advance (externalHeadFromAnchor a) (externalHeadFromAnchor b)
        (jw_external u) = (y, jw_external w')" "\<not> isl y" and e': "e' = e"
      by (auto split: if_splits)
    then obtain h where adv: "advance (externalHeadFromAnchor a) (externalHeadFromAnchor b)
        (jw_external u) = (Inr h, jw_external w')" by (cases y) auto
    have lines: "jw_lines w' = Some (ls @ [line])" "jw_lines w = Some ls"
      using replaced(3) published(1,4) by (simp_all add: accepted_def)
    have line: "trim_space line = line" "line \<noteq> []" "length line + 1 \<le> scan_limit"
        "cd_unmarshal_entry cd line = Some e"
      using codec(2) published(3) e' by (simp_all add: entry_roundtrip_def)
    note e = next_entry_Inr [OF published(2), unfolded e']
    have old: "verify_lines cd (an_JournalID a) ls 1 [] 0 = Inr (an_HeadHash a, an_Sequence a)"
      using published(1) by (simp add: accepted_def)
    have one: "verify_lines cd (an_JournalID a) [line] (1 + an_Sequence a) (an_HeadHash a) (an_Sequence a) =
        Inr (en_EntryHash e, 1 + an_Sequence a)"
      using line e by (simp add: Let_def add.commute)
    from old e have new: "verify_lines cd (an_JournalID b) (ls @ [line]) 1 [] 0 = Inr (an_HeadHash b, an_Sequence b)"
      by (simp add: verify_lines_append b_def e' one add.commute del: verify_lines.simps)
    have sig: "verifyAnchor cd b (fj_verifier j) = None"
    proof -
      from codec(3) replaced(1,2) obtain verify where "fj_verifier j = Some verify" "verify k p s = None"
        "k \<noteq> []" "cd_decode_signature cd (cd_encode_signature cd s) = Some s"
        by (auto simp: signatures_verify_def)
      moreover have "an_KeyID b = k" "an_Signature b = cd_encode_signature cd s" by (simp_all add: b_def)
      ultimately show ?thesis using rep by (simp add: verifyAnchor_def)
    qed
    have anchor: "readAnchor cd (jw_anchor w') = Some b"
      using rep codec(1) by (simp add: readAnchor_def anchor_roundtrip_def)
    obtain s' where "load (an_JournalID b) (jw_external w') = (Inr (externalHeadFromAnchor b), s')"
      using advance_then_load [OF adv] by (cases "load (an_JournalID b) (jw_external w')")
        (auto simp: externalHeadFromAnchor_def)
    then have "accepted cd j w' b (ls @ [line])"
      using anchor new sig lines ext(1) published(1) by (auto simp: accepted_def b_def)
    then show ?thesis using lines line by (auto simp: b_def e' decoded_append)
  qed simp
qed simp_all

end

section \<open>Properties of the journal over the in-memory store\<close>

abbreviation over_memory :: "(memory_heads, head_error) file_journal \<Rightarrow> bool" where
  "over_memory j \<equiv> fj_externalLoad j = Some Memory_Load \<and> fj_externalAdvance j = Memory_CompareAndAdvance"


text \<open>
  Append fails closed: when it returns an error, at whatever point (file system, signer, anchor
  or external store), either the journal no longer verifies, so that nothing more is appended to
  it, or its history is what it was before the call. A half-done append is never taken for history.
\<close>

theorem Append_fails_closed:
  assumes "Append cd io j ctxErr event w = (Inl err, w')" and "over_memory j" and "anchor_roundtrip cd"
  shows "vf_Valid (fst (verifyUnlocked cd j w')) \<longrightarrow> recorded cd w' = recorded cd w"
  using memory_store.failed_append_closed [OF assms(1) _ _ assms(3)] assms(2) by blast



section \<open>A journal at work\<close>

text \<open>
  A journal \<open>j\<close> with one key, an encoding given by a table, and a first event: the properties
  above at these values.
\<close>

definition demo_event :: journal_event where
  "demo_event = \<lparr>je_Type = EventDecision, je_ActionID = ''a'', je_Target = [], je_Decision = ''ALLOW'',
     je_ReasonCodes = [], je_EvidenceDigest = [], je_EvidencePacketDigest = [], je_PlanDigest = [],
     je_AttemptID = [], je_DestinationID = [], je_AccountID = [], je_ObservationHandle = [],
     je_AttemptState = [], je_OutcomeVerdict = [], je_PayloadDigest = [], je_OccurredAt = 5\<rparr>"

definition demo_entry :: entry where
  "demo_entry = \<lparr>en_Version = 2, en_JournalID = ''j'', en_Sequence = 1, en_PrevHash = [],
     en_Event = demo_event, en_EntryHash = sha256_tag (\<lambda>x. x) ''p''\<rparr>"

definition demo_anchor :: "u64 \<Rightarrow> string \<Rightarrow> string \<Rightarrow> anchor" where
  "demo_anchor n h s = \<lparr>an_Version = 2, an_JournalID = ''j'', an_Sequence = n, an_HeadHash = h,
     an_KeyID = ''k'', an_UpdatedAt = 7, an_Signature = s\<rparr>"

abbreviation demo_head :: string where "demo_head \<equiv> sha256_tag (\<lambda>x. x) ''p''"

definition demo_codec :: "string \<Rightarrow> codec" where
  "demo_codec line =
     \<lparr>cd_marshal = map_of
        [(entry_json (demo_entry\<lparr>en_EntryHash := []\<rparr>), ''p''), (entry_json demo_entry, line),
         (anchor_json (demo_anchor 0 [] []), ''z''), (anchor_json (demo_anchor 1 demo_head []), ''a''),
         (anchor_json (demo_anchor 1 demo_head ''s''), ''A'')],
      cd_unmarshal_entry = (\<lambda>l. if l = line then Some demo_entry else None),
      cd_unmarshal_anchor = map_of
        [(''Z'', demo_anchor 0 [] ''s''), (''z'' @ [CHR 0x0A], demo_anchor 0 [] []),
         (''a'' @ [CHR 0x0A], demo_anchor 1 demo_head []), (''A'' @ [CHR 0x0A], demo_anchor 1 demo_head ''s'')],
      cd_sha = (\<lambda>x. x), cd_encode_signature = (\<lambda>s. s), cd_decode_signature = Some\<rparr>"

definition demo_journal :: "(memory_heads, head_error) file_journal" where
  "demo_journal = \<lparr>fj_signer = Some (''k'', \<lambda>p. Inr ''s''),
     fj_verifier = Some (\<lambda>k p s. if s = ''s'' then None else Some ''bad signature''),
     fj_externalLoad = Some Memory_Load, fj_externalAdvance = Memory_CompareAndAdvance,
     fj_expectedJournalID = ''j'', fj_now = (\<lambda>_. 7)\<rparr>"

definition demo_ext :: "u64 \<Rightarrow> string \<Rightarrow> memory_heads" where
  "demo_ext n h = [''j'' \<mapsto> externalHeadFromAnchor (demo_anchor n h [])]"

definition demo_world :: "memory_heads journal_world" where
  "demo_world = \<lparr>jw_lines = Some [], jw_anchor = Some ''Z'', jw_external = demo_ext 0 []\<rparr>"

definition demo_after :: "string \<Rightarrow> memory_heads journal_world" where
  "demo_after line = \<lparr>jw_lines = Some [line], jw_anchor = Some (''A'' @ [CHR 0x0A]), jw_external = demo_ext 1 demo_head\<rparr>"

definition no_faults :: io_faults where
  "no_faults = \<lparr>io_open = None, io_write = None, io_sync_close = None, io_anchor = None\<rparr>"

lemma anchor_json_inj [simp]: "anchor_json a = anchor_json b \<longleftrightarrow> a = b"
  by (auto simp: anchor_json_def word_uint_eq_iff intro: anchor.equality)

lemma entry_json_eq [simp]: "entry_json e = entry_json f \<longleftrightarrow> e = f"
  using entry_json_inj by auto

lemma entry_not_anchor [simp]: "entry_json e \<noteq> anchor_json a" "anchor_json a \<noteq> entry_json e"
  by (auto simp: entry_json_def anchor_json_def)

lemma demo_anchor_eq [simp]: "demo_anchor n h s = demo_anchor n' h' s' \<longleftrightarrow> n = n' \<and> h = h' \<and> s = s'"
  by (auto simp: demo_anchor_def)

lemma demo_anchor_fields [simp]:
  "an_Version (demo_anchor n h s) = 2" "an_JournalID (demo_anchor n h s) = ''j''"
  "an_Sequence (demo_anchor n h s) = n" "an_HeadHash (demo_anchor n h s) = h"
  "an_KeyID (demo_anchor n h s) = ''k''" "an_Signature (demo_anchor n h s) = s"
  "(demo_anchor n h s)\<lparr>an_Signature := t\<rparr> = demo_anchor n h t"
  by (simp_all add: demo_anchor_def)

lemma demo_head_nonempty [simp]: "demo_head \<noteq> []" "[] \<noteq> demo_head"
  by (simp_all add: sha256_tag_def)

lemma demo_verifies:
  "verifyUnlocked (demo_codec line) demo_journal demo_world =
     (\<lparr>vf_Valid = True, vf_EntryCount = 0, vf_HeadHash = [], vf_Error = None, vf_HistoricalTrust = HistoryTrusted\<rparr>,
      demo_world)"
  by (simp add: verifyUnlocked_def verifyIntegrityAndHead_def readAnchor_def demo_world_def demo_codec_def
      demo_journal_def demo_ext_def Memory_Load_def verifyAnchor_def anchorSigningPayload_def head_view_def
      externalHeadFromAnchor_def Let_def)

lemma demo_next_entry:
  "next_entry (demo_codec line) demo_journal (demo_anchor 0 [] t) demo_event = Inr demo_entry"
proof -
  have "\<lparr>en_Version = 2, en_JournalID = ''j'', en_Sequence = 1, en_PrevHash = [], en_Event = demo_event,
      en_EntryHash = []\<rparr> = demo_entry\<lparr>en_EntryHash := []\<rparr>" by (simp add: demo_entry_def)
  moreover have "je_OccurredAt demo_event \<noteq> 0" by (simp add: demo_event_def)
  ultimately show ?thesis
    by (simp add: next_entry_def Let_def hashEntry_def demo_codec_def) (simp add: demo_entry_def)
qed

lemma demo_append:
  "Append (demo_codec line) no_faults demo_journal None demo_event demo_world = (Inr demo_entry, demo_after line)"
proof -
  have "demo_entry \<noteq> demo_entry\<lparr>en_EntryHash := []\<rparr>" by (simp add: demo_entry_def)
  then have line: "cd_marshal (demo_codec line) (entry_json demo_entry) = Some line"
    by (simp add: demo_codec_def)
  have anchor: "readAnchor (demo_codec line) (jw_anchor demo_world) = Some (demo_anchor 0 [] ''s'')"
    by (simp add: readAnchor_def demo_world_def demo_codec_def)
  have new: "\<lparr>an_Version = 2, an_JournalID = ''j'', an_Sequence = en_Sequence demo_entry,
      an_HeadHash = en_EntryHash demo_entry, an_KeyID = ''k'', an_UpdatedAt = 7, an_Signature = []\<rparr> =
      demo_anchor 1 demo_head []" by (simp add: demo_anchor_def demo_entry_def)
  have "publish_anchor (demo_codec line) no_faults demo_journal (demo_anchor 0 [] ''s'') demo_entry
      (add_line line demo_world) = (Inr demo_entry, demo_after line)"
    unfolding publish_anchor_def demo_journal_def
    by (simp add: new Let_def signAnchor_def anchorSigningPayload_def writeAnchorAtomic_def demo_codec_def
        no_faults_def Memory_CompareAndAdvance_def demo_world_def demo_after_def add_line_def demo_ext_def
        externalHeadFromAnchor_def)
  with line anchor demo_next_entry demo_verifies show ?thesis by (simp add: Append_def no_faults_def)
qed

lemma demo_codec_laws:
  "anchor_roundtrip (demo_codec line)" "signatures_verify (demo_codec line) demo_journal"
  "entry_roundtrip (demo_codec ''E'') demo_entry"
  by (auto simp: anchor_roundtrip_def demo_codec_def signatures_verify_def demo_journal_def entry_roundtrip_def
      plain_simps demo_entry_def split: if_splits)


theorem Append_fails_closed_witness:
  "\<exists>err w'. Append (demo_codec ''E'') (no_faults\<lparr>io_sync_close := Some ''no space''\<rparr>) demo_journal None demo_event demo_world
       = (Inl err, w') \<and>
     (vf_Valid (fst (verifyUnlocked (demo_codec ''E'') demo_journal w')) \<longrightarrow>
      recorded (demo_codec ''E'') w' = recorded (demo_codec ''E'') demo_world)"
proof -
  have "\<exists>err w'. Append (demo_codec ''E'') (no_faults\<lparr>io_sync_close := Some ''no space''\<rparr>) demo_journal None demo_event
      demo_world = (Inl err, w')"
    unfolding Append_def demo_verifies by (auto simp: no_faults_def split: option.split sum.split)
  then obtain err w' where app: "Append (demo_codec ''E'') (no_faults\<lparr>io_sync_close := Some ''no space''\<rparr>)
      demo_journal None demo_event demo_world = (Inl err, w')" by blast
  with Append_fails_closed [OF app _ demo_codec_laws(1)] show ?thesis
    by (auto simp: demo_journal_def)
qed



lemma demo_lines:
  "verify_lines (demo_codec ''E'') ''j'' [''E''] 1 [] 0 = Inr (demo_head, 1)"
  "verify_lines (demo_codec ''E'') ''j'' [[], ''E''] 1 [] 0 = Inr (demo_head, 1)"
proof -
  have "hashEntry (demo_codec ''E'') demo_entry = Inr demo_head"
    by (simp add: hashEntry_def demo_codec_def)
  moreover have "cd_unmarshal_entry (demo_codec ''E'') ''E'' = Some demo_entry" by (simp add: demo_codec_def)
  moreover have "trim_space ''E'' = ''E''" by (simp add: plain_simps)
  moreover have "en_Version demo_entry = 2" "en_JournalID demo_entry = ''j''" "en_Sequence demo_entry = 1"
    "en_PrevHash demo_entry = []" "en_EntryHash demo_entry = demo_head" by (simp_all add: demo_entry_def)
  ultimately show "verify_lines (demo_codec ''E'') ''j'' [''E''] 1 [] 0 = Inr (demo_head, 1)"
    "verify_lines (demo_codec ''E'') ''j'' [[], ''E''] 1 [] 0 = Inr (demo_head, 1)"
    by (simp_all add: Let_def)
qed

lemma demo_accepted:
  assumes "verify_lines (demo_codec ''E'') ''j'' ls 1 [] 0 = Inr (demo_head, 1)"
  shows "accepted (demo_codec ''E'') demo_journal ((demo_after ''E'')\<lparr>jw_lines := Some ls\<rparr>)
    (demo_anchor 1 demo_head ''s'') ls"
  using assms
  by (simp add: accepted_def readAnchor_def demo_after_def demo_codec_def demo_journal_def demo_ext_def
      Memory_Load_def verifyAnchor_def anchorSigningPayload_def head_view_def externalHeadFromAnchor_def)

theorem journal_tamper_evident_witness:
  "recorded (demo_codec ''E'') ((demo_after ''E'')\<lparr>jw_lines := Some [''E'']\<rparr>) =
   recorded (demo_codec ''E'') ((demo_after ''E'')\<lparr>jw_lines := Some [[], ''E'']\<rparr>)"
  using verify_accepted [OF demo_accepted [OF demo_lines(1)]] verify_accepted [OF demo_accepted [OF demo_lines(2)]]
  by (intro journal_tamper_evident [where j = demo_journal and j' = demo_journal])
    (simp_all add: collision_free_def decoded_def List.map_filter_def demo_codec_def)

end
