(* ===== verification/Kernel_ABI.thy ===== *)
theory Kernel_ABI
  imports Prelude
begin

text \<open>
  The binary interface between the control plane and the kernel programs
  (\<open>internal/kernelfabric/abi.go\<close>, \<open>encoding.go\<close>, \<open>taint_abi.go\<close>, \<open>taint_encoding.go\<close>, with the
  scope-key check of \<open>installer.go\<close>): the records, their checks, and their little-endian layout as
  \<open>binary.Write\<close> and \<open>binary.Read\<close> produce it. A Go byte array \<open>[n]byte\<close> is a string; that its length
  is \<open>n\<close>, which Go's types guarantee, is the predicate \<open>*_wf\<close>. The locale \<open>abi_struct\<close> states what a
  struct's field list has to satisfy and carries the round trip for all of them.
\<close>

section \<open>Fixed-size values\<close>

datatype abi_value = VU64 u64 | VU32 u32 | VBytes string

datatype abi_type = TU64 | TU32 | TBytes nat

fun type_of :: "abi_value \<Rightarrow> abi_type" where
  "type_of (VU64 _) = TU64"
| "type_of (VU32 _) = TU32"
| "type_of (VBytes s) = TBytes (length s)"

fun type_size :: "abi_type \<Rightarrow> nat" where
  "type_size TU64 = 8"
| "type_size TU32 = 4"
| "type_size (TBytes n) = n"

fun le_bytes :: "nat \<Rightarrow> nat \<Rightarrow> string" where
  "le_bytes 0 n = []"
| "le_bytes (Suc k) n = char_of (n mod 256) # le_bytes k (n div 256)"

fun le_value :: "string \<Rightarrow> nat" where
  "le_value [] = 0"
| "le_value (c # cs) = of_char c + 256 * le_value cs"

fun write_value :: "abi_value \<Rightarrow> string" where
  "write_value (VU64 w) = le_bytes 8 (unat w)"
| "write_value (VU32 w) = le_bytes 4 (unat w)"
| "write_value (VBytes s) = s"

fun read_value :: "abi_type \<Rightarrow> string \<Rightarrow> abi_value" where
  "read_value TU64 bs = VU64 (of_nat (le_value bs))"
| "read_value TU32 bs = VU32 (of_nat (le_value bs))"
| "read_value (TBytes n) bs = VBytes bs"

text \<open>\<open>binary.Write\<close> writes the fields in order, \<open>binary.Read\<close> needs the bytes of all of them.\<close>

definition binary_write :: "abi_value list \<Rightarrow> string" where
  "binary_write vs = concat (map write_value vs)"

fun binary_read :: "abi_type list \<Rightarrow> string \<Rightarrow> abi_value list option" where
  "binary_read [] bs = Some []"
| "binary_read (t # ts) bs =
     (if length bs < type_size t then None
      else case binary_read ts (drop (type_size t) bs) of
        None \<Rightarrow> None
      | Some vs \<Rightarrow> Some (read_value t (take (type_size t) bs) # vs))"

lemma le_bytes_length [simp]: "length (le_bytes k n) = k"
  by (induction k arbitrary: n) simp_all

lemma le_value_bytes: "n < 256 ^ k \<Longrightarrow> le_value (le_bytes k n) = n"
proof (induction k arbitrary: n)
  case (Suc k)
  then have "n div 256 < 256 ^ k" by (simp add: less_mult_imp_div_less mult.commute)
  with Suc.IH show ?case by simp
qed simp

lemma le_value_less: "le_value bs < 256 ^ length bs"
proof (induction bs)
  case (Cons c cs)
  have "of_char c < (256 :: nat)" by simp
  moreover have "256 * le_value cs + 256 \<le> 256 * 256 ^ length cs" using Cons by simp
  ultimately have "of_char c + 256 * le_value cs < 256 * 256 ^ length cs" by linarith
  then show ?case by simp
qed simp

lemma le_bytes_value: "le_bytes (length bs) (le_value bs) = bs"
proof (induction bs)
  case (Cons c cs)
  have "of_char c < (256 :: nat)" by simp
  then have "(of_char c + 256 * le_value cs) mod 256 = of_char c"
    and "(of_char c + 256 * le_value cs) div 256 = le_value cs" by simp_all
  with Cons show ?case by simp
qed simp

lemma write_value_length [simp]: "length (write_value v) = type_size (type_of v)"
  by (cases v) simp_all

lemma read_write_value: "read_value (type_of v) (write_value v) = v"
proof (cases v)
  case (VU64 w)
  have "unat w < 256 ^ 8" using unsigned_less [of w, where 'a = nat] by simp
  with VU64 show ?thesis by (simp add: le_value_bytes)
next
  case (VU32 w)
  have "unat w < 256 ^ 4" using unsigned_less [of w, where 'a = nat] by simp
  with VU32 show ?thesis by (simp add: le_value_bytes)
qed simp

lemma type_of_read_value: "length bs = type_size t \<Longrightarrow> type_of (read_value t bs) = t"
  by (cases t) simp_all

lemma write_read_value: "length bs = type_size t \<Longrightarrow> write_value (read_value t bs) = bs"
proof (cases t)
  case TU64
  assume "length bs = type_size t"
  with TU64 have l: "length bs = 8" by simp
  have "unat (of_nat (le_value bs) :: u64) = le_value bs"
    using le_value_less [of bs] l by (simp add: unat_of_nat)
  with TU64 l le_bytes_value [of bs] show ?thesis by simp
next
  case TU32
  assume "length bs = type_size t"
  with TU32 have l: "length bs = 4" by simp
  have "unat (of_nat (le_value bs) :: u32) = le_value bs"
    using le_value_less [of bs] l by (simp add: unat_of_nat)
  with TU32 l le_bytes_value [of bs] show ?thesis by simp
qed simp

lemma binary_write_length: "length (binary_write vs) = sum_list (map (type_size \<circ> type_of) vs)"
  by (simp add: binary_write_def length_concat comp_def)

lemma binary_read_write: "binary_read (map type_of vs) (binary_write vs) = Some vs"
  by (induction vs) (simp_all add: binary_write_def read_write_value)

lemma binary_read_Some:
  assumes "binary_read ts bs = Some vs" and "length bs = sum_list (map type_size ts)"
  shows "map type_of vs = ts" and "binary_write vs = bs"
  using assms
proof (induction ts arbitrary: bs vs)
  case (Cons t ts)
  {
    case 1
    then show ?case using Cons.IH(1)
      by (auto simp: type_of_read_value split: if_splits option.splits)
  next
    case 2
    then obtain ws where ws: "binary_read ts (drop (type_size t) bs) = Some ws"
        "vs = read_value t (take (type_size t) bs) # ws" "type_size t \<le> length bs"
      by (auto split: if_splits option.splits)
    with 2 Cons.IH(2) [OF ws(1)] show ?case by (simp add: binary_write_def write_read_value)
  }
qed (simp_all add: binary_write_def)

lemma binary_read_total: "sum_list (map type_size ts) \<le> length bs \<Longrightarrow> \<exists>vs. binary_read ts bs = Some vs"
proof (induction ts arbitrary: bs)
  case (Cons t ts)
  then have "sum_list (map type_size ts) \<le> length (drop (type_size t) bs)" by simp
  with Cons show ?case by fastforce
qed simp

section \<open>Structs with a fixed layout\<close>

datatype kernel_error =
    ErrInvalidScope string
  | ErrInvalidDigest string
  | ErrInvalidCapsule string
  | ErrLeaseExpired
  | ErrLeaseInvalid string
  | ErrTaintABIInvalid string
  | ErrTaintLabelUnmapped
  | ErrTaintLabelMapInvalid
  | ErrSizeMismatch
  | ErrDecode
  | ErrUnsupported string
  | ErrInconsistentAccounting
  | ErrValueRequired
  | ErrField string kernel_error

definition marshalFixed :: "abi_value list \<Rightarrow> nat \<Rightarrow> kernel_error + string" where
  "marshalFixed vs want =
     (let buf = binary_write vs in if length buf \<noteq> want then Inl ErrSizeMismatch else Inr buf)"

definition read_fixed :: "abi_type list \<Rightarrow> nat \<Rightarrow> string \<Rightarrow> kernel_error + abi_value list" where
  "read_fixed layout want payload =
     (if length payload \<noteq> want then Inl ErrSizeMismatch
      else case binary_read layout payload of None \<Rightarrow> Inl ErrDecode | Some vs \<Rightarrow> Inr vs)"

fun as_u64 :: "abi_value \<Rightarrow> u64" where "as_u64 (VU64 w) = w" | "as_u64 _ = 0"
fun as_u32 :: "abi_value \<Rightarrow> u32" where "as_u32 (VU32 w) = w" | "as_u32 _ = 0"
fun as_bytes :: "abi_value \<Rightarrow> string" where "as_bytes (VBytes s) = s" | "as_bytes _ = []"

locale abi_struct =
  fixes to_fields :: "'a \<Rightarrow> abi_value list"
    and of_fields :: "abi_value list \<Rightarrow> 'a"
    and layout :: "abi_type list"
    and wf :: "'a \<Rightarrow> bool"
    and size_bytes :: nat
  assumes fields_typed: "wf a \<Longrightarrow> map type_of (to_fields a) = layout"
    and of_to: "wf a \<Longrightarrow> of_fields (to_fields a) = a"
    and to_of: "map type_of vs = layout \<Longrightarrow> to_fields (of_fields vs) = vs"
    and wf_of: "map type_of vs = layout \<Longrightarrow> wf (of_fields vs)"
    and layout_size: "sum_list (map type_size layout) = size_bytes"
begin

lemma marshal_ok: "wf a \<Longrightarrow> marshalFixed (to_fields a) size_bytes = Inr (binary_write (to_fields a))"
  using fields_typed [of a] layout_size
  by (simp add: marshalFixed_def binary_write_length map_map [symmetric] del: map_map)

lemma marshal_size: "marshalFixed (to_fields a) size_bytes = Inr bs \<Longrightarrow> length bs = size_bytes"
  by (simp add: marshalFixed_def Let_def split: if_splits)

lemma read_marshal:
  assumes "wf a" and "marshalFixed (to_fields a) size_bytes = Inr bs"
  shows "read_fixed layout size_bytes bs = Inr (to_fields a)" and "of_fields (to_fields a) = a"
  using assms marshal_ok [OF assms(1)] marshal_size [OF assms(2)] fields_typed [OF assms(1)]
    binary_read_write [of "to_fields a"] of_to [OF assms(1)]
  by (simp_all add: read_fixed_def)

lemma read_fixed_Inr:
  assumes "read_fixed layout size_bytes bs = Inr vs"
  shows "map type_of vs = layout" "wf (of_fields vs)" "to_fields (of_fields vs) = vs" "length bs = size_bytes"
    "marshalFixed (to_fields (of_fields vs)) size_bytes = Inr bs"
proof -
  from assms have len: "length bs = size_bytes" and read: "binary_read layout bs = Some vs"
    by (auto simp: read_fixed_def split: if_splits option.splits)
  from binary_read_Some [OF read] len layout_size
  have typed: "map type_of vs = layout" and "binary_write vs = bs" by simp_all
  with len show "map type_of vs = layout" "wf (of_fields vs)" "to_fields (of_fields vs) = vs" "length bs = size_bytes"
    "marshalFixed (to_fields (of_fields vs)) size_bytes = Inr bs"
    by (simp_all add: to_of wf_of marshalFixed_def Let_def)
qed

lemma read_fixed_total: "length bs = size_bytes \<Longrightarrow> \<exists>vs. read_fixed layout size_bytes bs = Inr vs"
  using binary_read_total [of layout bs] layout_size by (auto simp: read_fixed_def)

text \<open>The bytes determine the struct, and every block of the right size is one.\<close>

lemma marshal_inj:
  assumes "wf a" "wf b" "marshalFixed (to_fields a) size_bytes = Inr bs"
    "marshalFixed (to_fields b) size_bytes = Inr bs"
  shows "a = b"
  using read_marshal [OF assms(1,3)] read_marshal [OF assms(2,4)] by (metis sum.inject(2))

end

section \<open>The records of the ABI\<close>

abbreviation ActionClassNetworkConnect :: u32 where "ActionClassNetworkConnect \<equiv> 1"
abbreviation KernelDecisionBlock :: u32 where "KernelDecisionBlock \<equiv> 0"
abbreviation KernelDecisionAllow :: u32 where "KernelDecisionAllow \<equiv> 1"
abbreviation AddressFamilyWildcard :: u32 where "AddressFamilyWildcard \<equiv> 0"
abbreviation AddressFamilyIPv4 :: u32 where "AddressFamilyIPv4 \<equiv> 2"
abbreviation AddressFamilyIPv6 :: u32 where "AddressFamilyIPv6 \<equiv> 10"
abbreviation EvidenceEventVersion :: u32 where "EvidenceEventVersion \<equiv> 1"
abbreviation EvidenceEventEnforcement :: u32 where "EvidenceEventEnforcement \<equiv> 1"

abbreviation zeros :: "nat \<Rightarrow> string" where "zeros n \<equiv> replicate n (CHR 0x00)"

record scope_key =
  sk_CgroupID :: u64
  sk_ActionClass :: u32
  sk_AddressFamily :: u32
  sk_DestinationAddr :: string
  sk_DestinationPort :: u32
  sk_Protocol :: u32

record scope_fence_key =
  fk_CgroupID :: u64
  fk_ActionClass :: u32
  fk_Reserved :: u32

record scope_fence_state =
  fs_BootIDHash :: string
  fs_AuthorityTerm :: u64
  fs_DecisionEpoch :: u64
  fs_RevocationEpoch :: u64

record decision_capsule =
  dc_DecisionIDHash :: string
  dc_SubjectHash :: string
  dc_ActionHash :: string
  dc_PolicyHash :: string
  dc_EvidenceHash :: string
  dc_BootIDHash :: string
  dc_AuthorityTerm :: u64
  dc_DecisionEpoch :: u64
  dc_RevocationEpoch :: u64
  dc_InstalledAtMonoNS :: u64
  dc_DeadlineMonoNS :: u64
  dc_Decision :: u32
  dc_Constraints :: u32

record evidence_event =
  ee_Sequence :: u64
  ee_ObservedAtMonoNS :: u64
  ee_CgroupID :: u64
  ee_AuthorityTerm :: u64
  ee_DecisionEpoch :: u64
  ee_RevocationEpoch :: u64
  ee_DecisionIDHash :: string
  ee_ActionClass :: u32
  ee_Verdict :: u32
  ee_Reason :: u32
  ee_AddressFamily :: u32
  ee_DestinationAddr :: string
  ee_DestinationPort :: u32
  ee_Protocol :: u32
  ee_ABIVersion :: u32
  ee_EventType :: u32

record evidence_accounting =
  ac_Sequence :: u64
  ac_Emitted :: u64
  ac_Lost :: u64

datatype netip_addr = AddrInvalid | AddrV4 string | AddrV6 string string

record network_scope =
  ns_CgroupID :: u64
  ns_Destination :: netip_addr
  ns_Port :: "16 word"
  ns_Protocol :: u8

section \<open>Keys and digests\<close>

definition ExactKey :: "network_scope \<Rightarrow> kernel_error + scope_key" where
  "ExactKey s =
     (if ns_CgroupID s = 0 then Inl (ErrInvalidScope ''cgroup id must be non-zero'')
      else if ns_Destination s = AddrInvalid then Inl (ErrInvalidScope ''destination address is required'')
      else if ns_Port s = 0 then Inl (ErrInvalidScope ''destination port must be non-zero'')
      else if ns_Protocol s = 0 then Inl (ErrInvalidScope ''protocol must be non-zero'')
      else
        let key = (\<lambda>family addr. \<lparr>sk_CgroupID = ns_CgroupID s, sk_ActionClass = ActionClassNetworkConnect,
                     sk_AddressFamily = family, sk_DestinationAddr = addr,
                     sk_DestinationPort = ucast (ns_Port s), sk_Protocol = ucast (ns_Protocol s)\<rparr>) in
        case ns_Destination s of
          AddrV4 b \<Rightarrow> Inr (key AddressFamilyIPv4 (take 4 b @ zeros 12))
        | AddrV6 b zone \<Rightarrow> Inr (key AddressFamilyIPv6 b)
        | AddrInvalid \<Rightarrow> Inl (ErrInvalidScope ''unsupported address family''))"

definition WildcardNetworkKey :: "u64 \<Rightarrow> kernel_error + scope_key" where
  "WildcardNetworkKey cgroupID =
     (if cgroupID = 0 then Inl (ErrInvalidScope ''cgroup id must be non-zero'')
      else Inr \<lparr>sk_CgroupID = cgroupID, sk_ActionClass = ActionClassNetworkConnect, sk_AddressFamily = 0,
                sk_DestinationAddr = zeros 16, sk_DestinationPort = 0, sk_Protocol = 0\<rparr>)"

definition FenceKey :: "u64 \<Rightarrow> u32 \<Rightarrow> kernel_error + scope_fence_key" where
  "FenceKey cgroupID actionClass =
     (if cgroupID = 0 \<or> actionClass = 0
      then Inl (ErrInvalidScope ''cgroup id and action class must be non-zero'')
      else Inr \<lparr>fk_CgroupID = cgroupID, fk_ActionClass = actionClass, fk_Reserved = 0\<rparr>)"

definition validateScopeKey :: "scope_key \<Rightarrow> kernel_error option" where
  "validateScopeKey key =
     (if sk_CgroupID key = 0 \<or> sk_ActionClass key = 0
      then Some (ErrInvalidScope ''cgroup id and action class must be non-zero'')
      else if sk_AddressFamily key = AddressFamilyWildcard
      then if sk_DestinationPort key \<noteq> 0 \<or> sk_Protocol key \<noteq> 0 \<or> sk_DestinationAddr key \<noteq> zeros 16
           then Some (ErrInvalidScope ''wildcard scope cannot contain destination fields'') else None
      else if sk_AddressFamily key = AddressFamilyIPv4 \<or> sk_AddressFamily key = AddressFamilyIPv6
      then if sk_DestinationPort key = 0 \<or> sk_Protocol key = 0
           then Some (ErrInvalidScope ''exact network scope requires port and protocol'') else None
      else Some (ErrInvalidScope ''unsupported address family''))"

definition HashOpaque :: "(string \<Rightarrow> string) \<Rightarrow> string \<Rightarrow> kernel_error + string" where
  "HashOpaque sha value =
     (let value = trim_space value in if value = [] then Inl ErrValueRequired else Inr (sha value))"

definition ParseSHA256Digest :: "string \<Rightarrow> kernel_error + string" where
  "ParseSHA256Digest value =
     (let value = trim_space value in
      if \<not> prefix ''sha256:'' value then Inl (ErrInvalidDigest ''expected sha256: prefix'')
      else let raw = drop 7 value in
        if length raw \<noteq> 64 then Inl (ErrInvalidDigest ''expected 64 hex characters'')
        else case hex_decode raw of
          None \<Rightarrow> Inl (ErrInvalidDigest ''invalid hex'')
        | Some decoded \<Rightarrow> Inr decoded)"

definition ValidateCapsule :: "decision_capsule \<Rightarrow> kernel_error option" where
  "ValidateCapsule c =
     (if dc_AuthorityTerm c = 0 then Some (ErrInvalidCapsule ''authority term must be non-zero'')
      else if dc_DecisionEpoch c = 0 then Some (ErrInvalidCapsule ''decision epoch must be non-zero'')
      else if dc_DeadlineMonoNS c = 0 then Some (ErrInvalidCapsule ''monotonic deadline must be non-zero'')
      else if dc_DeadlineMonoNS c \<le> dc_InstalledAtMonoNS c
      then Some (ErrInvalidCapsule ''monotonic deadline must follow installation'')
      else if dc_Decision c \<noteq> KernelDecisionAllow \<and> dc_Decision c \<noteq> KernelDecisionBlock
      then Some (ErrInvalidCapsule ''unsupported decision'')
      else None)"

section \<open>Encoding\<close>

definition scope_key_fields :: "scope_key \<Rightarrow> abi_value list" where
  "scope_key_fields k = [VU64 (sk_CgroupID k), VU32 (sk_ActionClass k), VU32 (sk_AddressFamily k),
     VBytes (sk_DestinationAddr k), VU32 (sk_DestinationPort k), VU32 (sk_Protocol k)]"

definition scope_key_of :: "abi_value list \<Rightarrow> scope_key" where
  "scope_key_of vs = \<lparr>sk_CgroupID = as_u64 (vs ! 0), sk_ActionClass = as_u32 (vs ! 1),
     sk_AddressFamily = as_u32 (vs ! 2), sk_DestinationAddr = as_bytes (vs ! 3),
     sk_DestinationPort = as_u32 (vs ! 4), sk_Protocol = as_u32 (vs ! 5)\<rparr>"

definition fence_key_fields :: "scope_fence_key \<Rightarrow> abi_value list" where
  "fence_key_fields k = [VU64 (fk_CgroupID k), VU32 (fk_ActionClass k), VU32 (fk_Reserved k)]"

definition fence_key_of :: "abi_value list \<Rightarrow> scope_fence_key" where
  "fence_key_of vs = \<lparr>fk_CgroupID = as_u64 (vs ! 0), fk_ActionClass = as_u32 (vs ! 1), fk_Reserved = as_u32 (vs ! 2)\<rparr>"

definition fence_state_fields :: "scope_fence_state \<Rightarrow> abi_value list" where
  "fence_state_fields s = [VBytes (fs_BootIDHash s), VU64 (fs_AuthorityTerm s), VU64 (fs_DecisionEpoch s),
     VU64 (fs_RevocationEpoch s)]"

definition fence_state_of :: "abi_value list \<Rightarrow> scope_fence_state" where
  "fence_state_of vs = \<lparr>fs_BootIDHash = as_bytes (vs ! 0), fs_AuthorityTerm = as_u64 (vs ! 1),
     fs_DecisionEpoch = as_u64 (vs ! 2), fs_RevocationEpoch = as_u64 (vs ! 3)\<rparr>"

definition capsule_fields :: "decision_capsule \<Rightarrow> abi_value list" where
  "capsule_fields c = [VBytes (dc_DecisionIDHash c), VBytes (dc_SubjectHash c), VBytes (dc_ActionHash c),
     VBytes (dc_PolicyHash c), VBytes (dc_EvidenceHash c), VBytes (dc_BootIDHash c),
     VU64 (dc_AuthorityTerm c), VU64 (dc_DecisionEpoch c), VU64 (dc_RevocationEpoch c),
     VU64 (dc_InstalledAtMonoNS c), VU64 (dc_DeadlineMonoNS c), VU32 (dc_Decision c), VU32 (dc_Constraints c)]"

definition capsule_of :: "abi_value list \<Rightarrow> decision_capsule" where
  "capsule_of vs = \<lparr>dc_DecisionIDHash = as_bytes (vs ! 0), dc_SubjectHash = as_bytes (vs ! 1),
     dc_ActionHash = as_bytes (vs ! 2), dc_PolicyHash = as_bytes (vs ! 3), dc_EvidenceHash = as_bytes (vs ! 4),
     dc_BootIDHash = as_bytes (vs ! 5), dc_AuthorityTerm = as_u64 (vs ! 6), dc_DecisionEpoch = as_u64 (vs ! 7),
     dc_RevocationEpoch = as_u64 (vs ! 8), dc_InstalledAtMonoNS = as_u64 (vs ! 9),
     dc_DeadlineMonoNS = as_u64 (vs ! 10), dc_Decision = as_u32 (vs ! 11), dc_Constraints = as_u32 (vs ! 12)\<rparr>"

definition event_fields :: "evidence_event \<Rightarrow> abi_value list" where
  "event_fields e = [VU64 (ee_Sequence e), VU64 (ee_ObservedAtMonoNS e), VU64 (ee_CgroupID e),
     VU64 (ee_AuthorityTerm e), VU64 (ee_DecisionEpoch e), VU64 (ee_RevocationEpoch e),
     VBytes (ee_DecisionIDHash e), VU32 (ee_ActionClass e), VU32 (ee_Verdict e), VU32 (ee_Reason e),
     VU32 (ee_AddressFamily e), VBytes (ee_DestinationAddr e), VU32 (ee_DestinationPort e),
     VU32 (ee_Protocol e), VU32 (ee_ABIVersion e), VU32 (ee_EventType e)]"

definition event_of :: "abi_value list \<Rightarrow> evidence_event" where
  "event_of vs = \<lparr>ee_Sequence = as_u64 (vs ! 0), ee_ObservedAtMonoNS = as_u64 (vs ! 1),
     ee_CgroupID = as_u64 (vs ! 2), ee_AuthorityTerm = as_u64 (vs ! 3), ee_DecisionEpoch = as_u64 (vs ! 4),
     ee_RevocationEpoch = as_u64 (vs ! 5), ee_DecisionIDHash = as_bytes (vs ! 6), ee_ActionClass = as_u32 (vs ! 7),
     ee_Verdict = as_u32 (vs ! 8), ee_Reason = as_u32 (vs ! 9), ee_AddressFamily = as_u32 (vs ! 10),
     ee_DestinationAddr = as_bytes (vs ! 11), ee_DestinationPort = as_u32 (vs ! 12), ee_Protocol = as_u32 (vs ! 13),
     ee_ABIVersion = as_u32 (vs ! 14), ee_EventType = as_u32 (vs ! 15)\<rparr>"

definition accounting_fields :: "evidence_accounting \<Rightarrow> abi_value list" where
  "accounting_fields a = [VU64 (ac_Sequence a), VU64 (ac_Emitted a), VU64 (ac_Lost a)]"

definition accounting_of :: "abi_value list \<Rightarrow> evidence_accounting" where
  "accounting_of vs = \<lparr>ac_Sequence = as_u64 (vs ! 0), ac_Emitted = as_u64 (vs ! 1), ac_Lost = as_u64 (vs ! 2)\<rparr>"

abbreviation fence_state_layout :: "abi_type list" where
  "fence_state_layout \<equiv> [TBytes 32, TU64, TU64, TU64]"
abbreviation event_layout :: "abi_type list" where
  "event_layout \<equiv> replicate 6 TU64 @ [TBytes 32] @ replicate 4 TU32 @ [TBytes 16] @ replicate 4 TU32"
abbreviation accounting_layout :: "abi_type list" where
  "accounting_layout \<equiv> replicate 3 TU64"

definition MarshalScopeKey :: "scope_key \<Rightarrow> kernel_error + string" where
  "MarshalScopeKey key =
     (case validateScopeKey key of Some e \<Rightarrow> Inl e | None \<Rightarrow> marshalFixed (scope_key_fields key) 40)"

definition MarshalScopeFenceKey :: "scope_fence_key \<Rightarrow> kernel_error + string" where
  "MarshalScopeFenceKey key =
     (if fk_CgroupID key = 0 \<or> fk_ActionClass key = 0 then Inl (ErrInvalidScope [])
      else marshalFixed (fence_key_fields key) 16)"

definition MarshalScopeFenceState :: "scope_fence_state \<Rightarrow> kernel_error + string" where
  "MarshalScopeFenceState state =
     (if fs_AuthorityTerm state = 0 \<or> fs_DecisionEpoch state = 0
      then Inl (ErrInvalidCapsule ''invalid scope fence state'')
      else marshalFixed (fence_state_fields state) 56)"

definition DecodeScopeFenceState :: "string \<Rightarrow> kernel_error + scope_fence_state" where
  "DecodeScopeFenceState payload =
     (case read_fixed fence_state_layout 56 payload of
        Inl e \<Rightarrow> Inl e
      | Inr vs \<Rightarrow>
        (let state = fence_state_of vs in
         if fs_AuthorityTerm state = 0 \<or> fs_DecisionEpoch state = 0
         then Inl (ErrInvalidCapsule ''invalid scope fence state'')
         else if fs_BootIDHash state = zeros 32
         then Inl (ErrInvalidCapsule ''scope fence boot id hash is required'')
         else Inr state))"

definition MarshalDecisionCapsule :: "decision_capsule \<Rightarrow> kernel_error + string" where
  "MarshalDecisionCapsule capsule =
     (case ValidateCapsule capsule of Some e \<Rightarrow> Inl e | None \<Rightarrow> marshalFixed (capsule_fields capsule) 240)"

definition MarshalEvidenceEvent :: "evidence_event \<Rightarrow> kernel_error + string" where
  "MarshalEvidenceEvent event =
     (if ee_ABIVersion event \<noteq> EvidenceEventVersion
      then Inl (ErrUnsupported ''unsupported evidence event ABI version'')
      else if ee_EventType event \<noteq> EvidenceEventEnforcement
      then Inl (ErrUnsupported ''unsupported evidence event type'')
      else if ee_Sequence event = 0
      then Inl (ErrUnsupported ''evidence event sequence must be non-zero'')
      else marshalFixed (event_fields event) 128)"

definition DecodeEvidenceEvent :: "string \<Rightarrow> kernel_error + evidence_event" where
  "DecodeEvidenceEvent payload =
     (case read_fixed event_layout 128 payload of
        Inl e \<Rightarrow> Inl e
      | Inr vs \<Rightarrow>
        (let event = event_of vs in
         if ee_ABIVersion event \<noteq> EvidenceEventVersion
         then Inl (ErrUnsupported ''unsupported evidence event ABI version'')
         else if ee_EventType event \<noteq> EvidenceEventEnforcement
         then Inl (ErrUnsupported ''unsupported evidence event type'')
         else if ee_Sequence event = 0
         then Inl (ErrUnsupported ''kernel evidence event has zero sequence'')
         else Inr event))"

definition MarshalEvidenceAccounting :: "evidence_accounting \<Rightarrow> kernel_error + string" where
  "MarshalEvidenceAccounting accounting = marshalFixed (accounting_fields accounting) 24"

text \<open>The sum of the two counters wraps around at 64 bits.\<close>

definition DecodeEvidenceAccounting :: "string \<Rightarrow> kernel_error + evidence_accounting" where
  "DecodeEvidenceAccounting payload =
     (case read_fixed accounting_layout 24 payload of
        Inl e \<Rightarrow> Inl e
      | Inr vs \<Rightarrow>
        (let accounting = accounting_of vs in
         if ac_Sequence accounting < ac_Emitted accounting + ac_Lost accounting
         then Inl ErrInconsistentAccounting else Inr accounting))"

section \<open>The layouts are faithful\<close>

lemma type_of_eq:
  "type_of v = TU64 \<longleftrightarrow> (\<exists>w. v = VU64 w)"
  "type_of v = TU32 \<longleftrightarrow> (\<exists>w. v = VU32 w)"
  "type_of v = TBytes n \<longleftrightarrow> (\<exists>s. v = VBytes s \<and> length s = n)"
  by (cases v; auto)+

lemmas field_simps = type_of_eq map_eq_Cons_conv map_eq_append_conv numeral_eq_Suc

definition scope_key_wf :: "scope_key \<Rightarrow> bool" where
  "scope_key_wf k \<longleftrightarrow> length (sk_DestinationAddr k) = 16"

definition fence_state_wf :: "scope_fence_state \<Rightarrow> bool" where
  "fence_state_wf s \<longleftrightarrow> length (fs_BootIDHash s) = 32"

definition capsule_wf :: "decision_capsule \<Rightarrow> bool" where
  "capsule_wf c \<longleftrightarrow> list_all (\<lambda>h. length h = 32)
     [dc_DecisionIDHash c, dc_SubjectHash c, dc_ActionHash c, dc_PolicyHash c, dc_EvidenceHash c, dc_BootIDHash c]"

definition event_wf :: "evidence_event \<Rightarrow> bool" where
  "event_wf e \<longleftrightarrow> length (ee_DecisionIDHash e) = 32 \<and> length (ee_DestinationAddr e) = 16"

interpretation scope_key_abi: abi_struct scope_key_fields scope_key_of
    "[TU64, TU32, TU32, TBytes 16, TU32, TU32]" scope_key_wf 40
  by unfold_locales (auto simp: scope_key_fields_def scope_key_of_def scope_key_wf_def field_simps)

interpretation fence_key_abi: abi_struct fence_key_fields fence_key_of "[TU64, TU32, TU32]" "\<lambda>_. True" 16
  by unfold_locales (auto simp: fence_key_fields_def fence_key_of_def field_simps)

interpretation fence_state_abi: abi_struct fence_state_fields fence_state_of fence_state_layout fence_state_wf 56
  by unfold_locales (auto simp: fence_state_fields_def fence_state_of_def fence_state_wf_def field_simps)

interpretation capsule_abi: abi_struct capsule_fields capsule_of
    "replicate 6 (TBytes 32) @ replicate 5 TU64 @ replicate 2 TU32" capsule_wf 240
  by unfold_locales (auto simp: capsule_fields_def capsule_of_def capsule_wf_def field_simps)

interpretation event_abi: abi_struct event_fields event_of event_layout event_wf 128
  by unfold_locales (auto simp: event_fields_def event_of_def event_wf_def field_simps)

interpretation accounting_abi: abi_struct accounting_fields accounting_of accounting_layout "\<lambda>_. True" 24
  by unfold_locales (auto simp: accounting_fields_def accounting_of_def field_simps)

section \<open>Round trips\<close>

text \<open>What decoding accepts is what marshalling produces, up to the check \<open>ok\<close> that the decoder makes.\<close>

context abi_struct
begin

lemma decode_iff:
  "(case read_fixed layout size_bytes bs of
      Inl e \<Rightarrow> Inl e | Inr vs \<Rightarrow> (case ok (of_fields vs) of Some e \<Rightarrow> Inl e | None \<Rightarrow> Inr (of_fields vs))) = Inr a \<longleftrightarrow>
   wf a \<and> ok a = None \<and> marshalFixed (to_fields a) size_bytes = Inr bs"
  (is "?l \<longleftrightarrow> ?r")
proof
  assume ?l
  then obtain vs where "read_fixed layout size_bytes bs = Inr vs" "a = of_fields vs" "ok a = None"
    by (auto split: sum.splits option.splits)
  then show ?r using read_fixed_Inr [of bs vs] by simp
next
  assume ?r
  then show ?l using read_marshal [of a bs] by simp
qed

end

text \<open>
  C24. The decoder of kernel evidence events and the encoder are inverse to each other: a block of
  bytes decodes to an event exactly when that event marshals to that block. Every field is carried
  at its width, nothing outside the accepted version, type and sequence is decoded, and no two
  blocks decode to the same event.
\<close>

theorem evidence_event_roundtrip:
  "DecodeEvidenceEvent bs = Inr e \<longleftrightarrow> event_wf e \<and> MarshalEvidenceEvent e = Inr bs"
proof -
  define ok where "ok e =
     (if ee_ABIVersion e \<noteq> EvidenceEventVersion
      then Some (ErrUnsupported ''unsupported evidence event ABI version'')
      else if ee_EventType e \<noteq> EvidenceEventEnforcement
      then Some (ErrUnsupported ''unsupported evidence event type'')
      else if ee_Sequence e = 0
      then Some (ErrUnsupported ''kernel evidence event has zero sequence'') else None)" for e :: evidence_event
  have dec: "DecodeEvidenceEvent bs = (case read_fixed event_layout 128 bs of
      Inl e \<Rightarrow> Inl e | Inr vs \<Rightarrow> (case ok (event_of vs) of Some e \<Rightarrow> Inl e | None \<Rightarrow> Inr (event_of vs)))"
    by (simp add: DecodeEvidenceEvent_def ok_def Let_def split: sum.split)
  show ?thesis unfolding dec event_abi.decode_iff
    by (auto simp: ok_def MarshalEvidenceEvent_def)
qed


text \<open>Digests: the textual form that the control plane prints is the one that is parsed.\<close>

lemma ParseSHA256Digest_length: "ParseSHA256Digest s = Inr h \<Longrightarrow> length h = 32"
  using hex_decode_length by (fastforce simp: ParseSHA256Digest_def Let_def split: if_splits option.splits)

lemma ParseSHA256Digest_tag: "length (sha x) = 32 \<Longrightarrow> ParseSHA256Digest (sha256_tag sha x) = Inr (sha x)"
  by (simp add: ParseSHA256Digest_def Let_def sha256_tag_trimmed)
    (simp add: sha256_tag_def hex_decode_encode hex_encode_length)

end
