(* ===== verification/Kernel_Enforce.thy ===== *)
theory Kernel_Enforce
  imports Kernel_ABI
begin

text \<open>
  Enforcement in the kernel and the installation of decisions: the reference evaluator
  (\<open>internal/kernelfabric/evaluator.go\<close>), leases (\<open>lease.go\<close>), the installer (\<open>installer.go\<close>), the
  store that drives \<open>bpftool\<close> (\<open>bpftool_store_linux.go\<close>), and the connect program itself
  (\<open>kernel/bpf/aegis_connect.bpf.c\<close>). The installer is verified against the contract \<open>kernel_store\<close>,
  which the bpftool store satisfies for every faithful \<open>bpftool\<close> (\<open>bpftool_runner\<close>): its byte maps
  refine the typed maps of the contract.
\<close>

section \<open>The reference evaluator\<close>

datatype verdict = VerdictDeny | VerdictAllow

datatype deny_reason =
    DenyNone | DenyMissingFence | DenyMissingCapsule | DenyBootMismatch | DenyAuthorityTermMismatch
  | DenyDecisionSuperseded | DenyRevoked | DenyExpired | DenyBlocked

type_synonym evaluation = "verdict \<times> deny_reason"

definition EvaluateReference ::
  "decision_capsule option \<Rightarrow> scope_fence_state option \<Rightarrow> u64 \<Rightarrow> evaluation" where
  "EvaluateReference capsule fence nowMonoNS =
     (case fence of
        None \<Rightarrow> (VerdictDeny, DenyMissingFence)
      | Some f \<Rightarrow>
        (case capsule of
           None \<Rightarrow> (VerdictDeny, DenyMissingCapsule)
         | Some c \<Rightarrow>
           (if dc_BootIDHash c \<noteq> fs_BootIDHash f then (VerdictDeny, DenyBootMismatch)
            else if dc_AuthorityTerm c \<noteq> fs_AuthorityTerm f then (VerdictDeny, DenyAuthorityTermMismatch)
            else if dc_DecisionEpoch c \<noteq> fs_DecisionEpoch f then (VerdictDeny, DenyDecisionSuperseded)
            else if dc_RevocationEpoch c \<noteq> fs_RevocationEpoch f then (VerdictDeny, DenyRevoked)
            else if dc_DeadlineMonoNS c = 0 \<or> nowMonoNS > dc_DeadlineMonoNS c then (VerdictDeny, DenyExpired)
            else if dc_Decision c \<noteq> KernelDecisionAllow then (VerdictDeny, DenyBlocked)
            else (VerdictAllow, DenyNone))))"

section \<open>Leases\<close>

record external_lease =
  xl_IssuedAt :: time
  xl_NotAfter :: time
  xl_MaxLifetime :: duration

record clock_snapshot =
  ck_WallNow :: time
  ck_MonoNowNS :: u64
  ck_BootIDHash :: string

record local_lease =
  ll_InstalledAtMonoNS :: u64
  ll_DeadlineMonoNS :: u64
  ll_BootIDHash :: string

definition BindExternalLease :: "external_lease \<Rightarrow> clock_snapshot \<Rightarrow> kernel_error + local_lease" where
  "BindExternalLease lease clock =
     (if is_zero (ck_WallNow clock) then Inl (ErrLeaseInvalid ''wall clock snapshot is required'')
      else if is_zero (xl_NotAfter lease) then Inl (ErrLeaseInvalid ''not_after is required'')
      else if xl_MaxLifetime lease \<le> 0 then Inl (ErrLeaseInvalid ''max lifetime must be positive'')
      else if \<not> is_zero (xl_IssuedAt lease) \<and> xl_IssuedAt lease > xl_NotAfter lease
      then Inl (ErrLeaseInvalid ''issued_at is after not_after'')
      else
        let remaining = time_sub (xl_NotAfter lease) (ck_WallNow clock) in
        if remaining \<le> 0 then Inl ErrLeaseExpired
        else
          let ns = (if remaining > xl_MaxLifetime lease then xl_MaxLifetime lease else remaining) in
          if ns \<le> 0 then Inl ErrLeaseExpired
          else if (word_of_int ns :: u64) > - 1 - ck_MonoNowNS clock
          then Inl (ErrLeaseInvalid ''monotonic deadline overflow'')
          else Inr \<lparr>ll_InstalledAtMonoNS = ck_MonoNowNS clock,
                    ll_DeadlineMonoNS = ck_MonoNowNS clock + word_of_int ns,
                    ll_BootIDHash = ck_BootIDHash clock\<rparr>)"

definition AdvanceClockSnapshot :: "clock_snapshot \<Rightarrow> clock_snapshot \<Rightarrow> kernel_error + clock_snapshot" where
  "AdvanceClockSnapshot base current =
     (if is_zero (ck_WallNow base) \<or> ck_MonoNowNS base = 0 \<or> ck_BootIDHash base = zeros 32 \<or>
         ck_MonoNowNS current = 0 \<or> ck_BootIDHash current = zeros 32
      then Inl (ErrLeaseInvalid ''clock snapshot is incomplete'')
      else if ck_BootIDHash base \<noteq> ck_BootIDHash current then Inl (ErrLeaseInvalid ''boot identity changed'')
      else if ck_MonoNowNS current < ck_MonoNowNS base
      then Inl (ErrLeaseInvalid ''monotonic clock moved backwards'')
      else
        let delta = ck_MonoNowNS current - ck_MonoNowNS base in
        if delta > 0x7FFFFFFFFFFFFFFF then Inl (ErrLeaseInvalid ''monotonic elapsed duration overflow'')
        else Inr (current\<lparr>ck_WallNow := time_add (ck_WallNow base) (uint delta)\<rparr>))"

section \<open>The installer\<close>

text \<open>
  A kernel store over states \<open>'s\<close>; \<open>ks_GetFence\<close> is missing when the store cannot read fences.
\<close>

record ('s, 'e) kernel_store_ops =
  ks_PutFence :: "scope_fence_key \<Rightarrow> scope_fence_state \<Rightarrow> 's \<Rightarrow> 'e option \<times> 's"
  ks_PutCapsule :: "scope_key \<Rightarrow> decision_capsule \<Rightarrow> 's \<Rightarrow> 'e option \<times> 's"
  ks_DeleteCapsule :: "scope_key \<Rightarrow> 's \<Rightarrow> 'e option \<times> 's"
  ks_GetFence :: "(scope_fence_key \<Rightarrow> 's \<Rightarrow> ('e + scope_fence_state) \<times> 's) option"

record install_request =
  ir_Scope :: scope_key
  ir_DecisionID :: string
  ir_Subject :: string
  ir_Action :: string
  ir_PolicyDigest :: string
  ir_EvidenceDigest :: string
  ir_AuthorityTerm :: u64
  ir_DecisionEpoch :: u64
  ir_RevocationEpoch :: u64
  ir_Decision :: u32
  ir_Constraints :: u32
  ir_Lease :: external_lease

record install_result =
  is_FenceKey :: scope_fence_key
  is_Fence :: scope_fence_state
  is_Scope :: scope_key
  is_Capsule :: decision_capsule

datatype 'e install_error =
    ErrKernelStoreUnavailable
  | ErrKernel kernel_error
  | ErrCannotReadFence
  | ErrReadFence 'e
  | ErrInstallFence 'e
  | ErrInstallCapsule 'e
  | ErrStore 'e
  | ErrBootIdentityMismatch
  | ErrRevocationEpochExhausted

text \<open>The part of an installation before the store is written.\<close>

definition prepare_install ::
  "(string \<Rightarrow> string) \<Rightarrow> install_request \<Rightarrow> clock_snapshot \<Rightarrow> kernel_error + install_result" where
  "prepare_install sha req clock =
     (case validateScopeKey (ir_Scope req) of
        Some e \<Rightarrow> Inl e
      | None \<Rightarrow>
        (if ir_AuthorityTerm req = 0 \<or> ir_DecisionEpoch req = 0
         then Inl (ErrInvalidCapsule ''authority term and decision epoch are required'')
         else case BindExternalLease (ir_Lease req) clock of
           Inl e \<Rightarrow> Inl e
         | Inr localLease \<Rightarrow>
           (case HashOpaque sha (ir_DecisionID req) of
              Inl e \<Rightarrow> Inl (ErrField ''decision id'' e)
            | Inr decisionIDHash \<Rightarrow>
              (case HashOpaque sha (ir_Subject req) of
                 Inl e \<Rightarrow> Inl (ErrField ''subject'' e)
               | Inr subjectHash \<Rightarrow>
                 (case HashOpaque sha (ir_Action req) of
                    Inl e \<Rightarrow> Inl (ErrField ''action'' e)
                  | Inr actionHash \<Rightarrow>
                    (case ParseSHA256Digest (ir_PolicyDigest req) of
                       Inl e \<Rightarrow> Inl (ErrField ''policy digest'' e)
                     | Inr policyHash \<Rightarrow>
                       (case ParseSHA256Digest (ir_EvidenceDigest req) of
                          Inl e \<Rightarrow> Inl (ErrField ''evidence digest'' e)
                        | Inr evidenceHash \<Rightarrow>
                          (case FenceKey (sk_CgroupID (ir_Scope req)) (sk_ActionClass (ir_Scope req)) of
                             Inl e \<Rightarrow> Inl e
                           | Inr fenceKey \<Rightarrow>
                             (let fence = \<lparr>fs_BootIDHash = ll_BootIDHash localLease,
                                           fs_AuthorityTerm = ir_AuthorityTerm req,
                                           fs_DecisionEpoch = ir_DecisionEpoch req,
                                           fs_RevocationEpoch = ir_RevocationEpoch req\<rparr>;
                                  capsule = \<lparr>dc_DecisionIDHash = decisionIDHash, dc_SubjectHash = subjectHash,
                                             dc_ActionHash = actionHash, dc_PolicyHash = policyHash,
                                             dc_EvidenceHash = evidenceHash,
                                             dc_BootIDHash = ll_BootIDHash localLease,
                                             dc_AuthorityTerm = ir_AuthorityTerm req,
                                             dc_DecisionEpoch = ir_DecisionEpoch req,
                                             dc_RevocationEpoch = ir_RevocationEpoch req,
                                             dc_InstalledAtMonoNS = ll_InstalledAtMonoNS localLease,
                                             dc_DeadlineMonoNS = ll_DeadlineMonoNS localLease,
                                             dc_Decision = ir_Decision req,
                                             dc_Constraints = ir_Constraints req\<rparr>
                              in case ValidateCapsule capsule of
                                   Some e \<Rightarrow> Inl e
                                 | None \<Rightarrow> Inr \<lparr>is_FenceKey = fenceKey, is_Fence = fence,
                                                is_Scope = ir_Scope req, is_Capsule = capsule\<rparr>)))))))))"

text \<open>Fence first, then the capsule; a failed capsule write deletes the capsule of the scope.\<close>

definition Install ::
  "(string \<Rightarrow> string) \<Rightarrow> ('s, 'e) kernel_store_ops option \<Rightarrow> install_request \<Rightarrow> clock_snapshot \<Rightarrow> 's
    \<Rightarrow> ('e install_error + install_result) \<times> 's" where
  "Install sha store req clock s =
     (case store of
        None \<Rightarrow> (Inl ErrKernelStoreUnavailable, s)
      | Some ks \<Rightarrow>
        (case prepare_install sha req clock of
           Inl e \<Rightarrow> (Inl (ErrKernel e), s)
         | Inr r \<Rightarrow>
           (case ks_PutFence ks (is_FenceKey r) (is_Fence r) s of
              (Some e, s1) \<Rightarrow> (Inl (ErrInstallFence e), s1)
            | (None, s1) \<Rightarrow>
              (case ks_PutCapsule ks (is_Scope r) (is_Capsule r) s1 of
                 (Some e, s2) \<Rightarrow> (Inl (ErrInstallCapsule e), snd (ks_DeleteCapsule ks (is_Scope r) s2))
               | (None, s2) \<Rightarrow> (Inr r, s2)))))"

definition RevokeScope ::
  "('s, 'e) kernel_store_ops option \<Rightarrow> scope_fence_key \<Rightarrow> scope_fence_state \<Rightarrow> 's
    \<Rightarrow> 'e install_error option \<times> 's" where
  "RevokeScope store key nxt s =
     (case store of
        None \<Rightarrow> (Some ErrKernelStoreUnavailable, s)
      | Some ks \<Rightarrow>
        (if fk_CgroupID key = 0 \<or> fk_ActionClass key = 0 then (Some (ErrKernel (ErrInvalidScope [])), s)
         else if fs_AuthorityTerm nxt = 0 \<or> fs_DecisionEpoch nxt = 0
         then (Some (ErrKernel (ErrInvalidCapsule ''authority term and decision epoch are required'')), s)
         else if fs_BootIDHash nxt = zeros (length (fs_BootIDHash nxt))
         then (Some (ErrKernel (ErrInvalidCapsule ''boot id hash is required'')), s)
         else case ks_PutFence ks key nxt s of (e, s1) \<Rightarrow> (map_option ErrStore e, s1)))"

definition revokeCurrentScope ::
  "('s, 'e) kernel_store_ops option \<Rightarrow> scope_fence_key \<Rightarrow> string option \<Rightarrow> 's
    \<Rightarrow> ('e install_error + scope_fence_state) \<times> 's" where
  "revokeCurrentScope store key expectedBootIDHash s =
     (case store of
        None \<Rightarrow> (Inl ErrKernelStoreUnavailable, s)
      | Some ks \<Rightarrow>
        (case ks_GetFence ks of
           None \<Rightarrow> (Inl ErrCannotReadFence, s)
         | Some getFence \<Rightarrow>
           (case getFence key s of
              (Inl e, s1) \<Rightarrow> (Inl (ErrReadFence e), s1)
            | (Inr current, s1) \<Rightarrow>
              (if expectedBootIDHash \<noteq> None \<and> fs_BootIDHash current \<noteq> the expectedBootIDHash
               then (Inl ErrBootIdentityMismatch, s1)
               else if fs_RevocationEpoch current = - 1 then (Inl ErrRevocationEpochExhausted, s1)
               else
                 let nxt = current\<lparr>fs_RevocationEpoch := fs_RevocationEpoch current + 1\<rparr> in
                 case RevokeScope store key nxt s1 of
                   (Some e, s2) \<Rightarrow> (Inl e, s2)
                 | (None, s2) \<Rightarrow> (Inr nxt, s2)))))"

definition RevokeCurrentScope ::
  "('s, 'e) kernel_store_ops option \<Rightarrow> scope_fence_key \<Rightarrow> 's
    \<Rightarrow> ('e install_error + scope_fence_state) \<times> 's" where
  "RevokeCurrentScope store key s = revokeCurrentScope store key None s"

definition RevokeCurrentScopeForBoot ::
  "('s, 'e) kernel_store_ops option \<Rightarrow> scope_fence_key \<Rightarrow> string \<Rightarrow> 's
    \<Rightarrow> ('e install_error + scope_fence_state) \<times> 's" where
  "RevokeCurrentScopeForBoot store key expectedBootIDHash s =
     (if expectedBootIDHash = zeros 32
      then (Inl (ErrKernel (ErrInvalidCapsule ''expected boot id hash is required'')), s)
      else revokeCurrentScope store key (Some expectedBootIDHash) s)"

section \<open>The connect program\<close>

text \<open>
  \<open>enforce_connect\<close> looks up the fence of the cgroup, then the capsule of the exact destination or
  else the wildcard capsule, and compares them with the clock. The result is the verdict with the
  index of the statistics counter, which is also the reason in the emitted event.
\<close>

record connect_attempt =
  cn_CgroupID :: u64
  cn_Family :: u32
  cn_Addr :: string
  cn_Port :: u32
  cn_Protocol :: u32

definition connect_scope :: "connect_attempt \<Rightarrow> scope_key" where
  "connect_scope c = \<lparr>sk_CgroupID = cn_CgroupID c, sk_ActionClass = ActionClassNetworkConnect,
     sk_AddressFamily = cn_Family c, sk_DestinationAddr = cn_Addr c, sk_DestinationPort = cn_Port c,
     sk_Protocol = cn_Protocol c\<rparr>"

definition wildcard_of :: "scope_key \<Rightarrow> scope_key" where
  "wildcard_of exact = \<lparr>sk_CgroupID = sk_CgroupID exact, sk_ActionClass = sk_ActionClass exact, sk_AddressFamily = 0,
     sk_DestinationAddr = zeros 16, sk_DestinationPort = 0, sk_Protocol = 0\<rparr>"

definition fence_key_of_scope :: "scope_key \<Rightarrow> scope_fence_key" where
  "fence_key_of_scope k = \<lparr>fk_CgroupID = sk_CgroupID k, fk_ActionClass = sk_ActionClass k, fk_Reserved = 0\<rparr>"

definition lookup_capsule :: "(scope_key \<rightharpoonup> decision_capsule) \<Rightarrow> scope_key \<Rightarrow> decision_capsule option" where
  "lookup_capsule capsules exact =
     (case capsules exact of Some c \<Rightarrow> Some c | None \<Rightarrow> capsules (wildcard_of exact))"

definition enforce_connect ::
  "(scope_fence_key \<rightharpoonup> scope_fence_state) \<Rightarrow> (scope_key \<rightharpoonup> decision_capsule) \<Rightarrow> connect_attempt \<Rightarrow> u64 \<Rightarrow> evaluation" where
  "enforce_connect fences capsules attempt now =
     (let scope = connect_scope attempt in
      if cn_Family attempt \<noteq> AddressFamilyIPv4 \<and> cn_Family attempt \<noteq> AddressFamilyIPv6
      then (VerdictDeny, DenyBlocked)
      else case fences (fence_key_of_scope scope) of
        None \<Rightarrow> (VerdictDeny, DenyMissingFence)
      | Some fence \<Rightarrow>
        (case lookup_capsule capsules scope of
           None \<Rightarrow> (VerdictDeny, DenyMissingCapsule)
         | Some capsule \<Rightarrow>
           (if dc_BootIDHash capsule \<noteq> fs_BootIDHash fence then (VerdictDeny, DenyBootMismatch)
            else if dc_AuthorityTerm capsule \<noteq> fs_AuthorityTerm fence then (VerdictDeny, DenyAuthorityTermMismatch)
            else if dc_DecisionEpoch capsule \<noteq> fs_DecisionEpoch fence then (VerdictDeny, DenyDecisionSuperseded)
            else if dc_RevocationEpoch capsule \<noteq> fs_RevocationEpoch fence then (VerdictDeny, DenyRevoked)
            else if dc_DeadlineMonoNS capsule = 0 \<or> now > dc_DeadlineMonoNS capsule then (VerdictDeny, DenyExpired)
            else if dc_Decision capsule \<noteq> KernelDecisionAllow then (VerdictDeny, DenyBlocked)
            else (VerdictAllow, DenyNone))))"

section \<open>The bpftool store\<close>

text \<open>
  \<open>run\<close> is the external \<open>bpftool\<close> (its output and error), \<open>parse\<close> the JSON parser. JSON numbers
  are integers here; a fractional number is an unsupported byte like any other value. Of several
  members with the same name the last one counts; names are matched exactly.
\<close>

datatype 'e store_error = StoreABI kernel_error | StoreTool 'e | StoreOutput string

type_synonym ('s, 'e) bpftool = "string list \<Rightarrow> 's \<Rightarrow> (string \<times> 'e option) \<times> 's"

definition hexByteArgs :: "string \<Rightarrow> string list" where
  "hexByteArgs payload = map hex_byte payload"

definition strip_0x :: "string \<Rightarrow> string" where
  "strip_0x item =
     (let trim = (\<lambda>p s. if prefix p s then drop (length p) s else s) in trim ''0X'' (trim ''0x'' item))"

definition decode_value_byte :: "json \<Rightarrow> string + char" where
  "decode_value_byte raw =
     (case raw of
        JStr v \<Rightarrow>
          (let item = strip_0x (trim_space v) in
           if length item \<noteq> 2 then Inl ''not two hex digits''
           else case hex_decode item of Some [b] \<Rightarrow> Inr b | _ \<Rightarrow> Inl ''invalid hex'')
      | JNum v \<Rightarrow> (if v < 0 \<or> v > 255 then Inl ''numeric value byte is invalid'' else Inr (char_of (nat v)))
      | _ \<Rightarrow> Inl ''unsupported byte type'')"

fun decode_value_bytes :: "json list \<Rightarrow> string + string" where
  "decode_value_bytes [] = Inr []"
| "decode_value_bytes (v # vs) =
     (case decode_value_byte v of
        Inl e \<Rightarrow> Inl e
      | Inr b \<Rightarrow> (case decode_value_bytes vs of Inl e \<Rightarrow> Inl e | Inr bs \<Rightarrow> Inr (b # bs)))"

definition decodeBPFToolLookupValue :: "(string \<Rightarrow> json option) \<Rightarrow> string \<Rightarrow> string + string" where
  "decodeBPFToolLookupValue parse payload =
     (case parse payload of
        Some (JObj members) \<Rightarrow>
          (case map_of (rev members) ''value'' of
             None \<Rightarrow> Inl ''bpftool lookup JSON has no value''
           | Some (JArr values) \<Rightarrow> decode_value_bytes values
           | Some JNull \<Rightarrow> Inr []
           | Some _ \<Rightarrow> Inl ''decode bpftool lookup value'')
      | _ \<Rightarrow> Inl ''decode bpftool lookup JSON'')"

definition updateMap ::
  "('s, 'e) bpftool \<Rightarrow> string \<Rightarrow> string \<Rightarrow> string \<Rightarrow> 's \<Rightarrow> 'e store_error option \<times> 's" where
  "updateMap run path key value s =
     (case run ([''map'', ''update'', ''pinned'', path, ''key'', ''hex''] @ hexByteArgs key @
                [''value'', ''hex''] @ hexByteArgs value) s of
        ((output, err), s1) \<Rightarrow> (map_option StoreTool err, s1))"

definition BPFTool_PutFence ::
  "('s, 'e) bpftool \<Rightarrow> string \<Rightarrow> scope_fence_key \<Rightarrow> scope_fence_state \<Rightarrow> 's \<Rightarrow> 'e store_error option \<times> 's" where
  "BPFTool_PutFence run fenceMapPath key value s =
     (case MarshalScopeFenceKey key of
        Inl e \<Rightarrow> (Some (StoreABI e), s)
      | Inr keyBytes \<Rightarrow>
        (case MarshalScopeFenceState value of
           Inl e \<Rightarrow> (Some (StoreABI e), s)
         | Inr valueBytes \<Rightarrow> updateMap run fenceMapPath keyBytes valueBytes s))"

definition BPFTool_PutCapsule ::
  "('s, 'e) bpftool \<Rightarrow> string \<Rightarrow> scope_key \<Rightarrow> decision_capsule \<Rightarrow> 's \<Rightarrow> 'e store_error option \<times> 's" where
  "BPFTool_PutCapsule run capsuleMapPath key value s =
     (case MarshalScopeKey key of
        Inl e \<Rightarrow> (Some (StoreABI e), s)
      | Inr keyBytes \<Rightarrow>
        (case MarshalDecisionCapsule value of
           Inl e \<Rightarrow> (Some (StoreABI e), s)
         | Inr valueBytes \<Rightarrow> updateMap run capsuleMapPath keyBytes valueBytes s))"

definition BPFTool_DeleteCapsule ::
  "('s, 'e) bpftool \<Rightarrow> string \<Rightarrow> scope_key \<Rightarrow> 's \<Rightarrow> 'e store_error option \<times> 's" where
  "BPFTool_DeleteCapsule run capsuleMapPath key s =
     (case MarshalScopeKey key of
        Inl e \<Rightarrow> (Some (StoreABI e), s)
      | Inr keyBytes \<Rightarrow>
        (case run ([''map'', ''delete'', ''pinned'', capsuleMapPath, ''key'', ''hex''] @ hexByteArgs keyBytes) s of
           ((output, err), s1) \<Rightarrow> (map_option StoreTool err, s1)))"

definition BPFTool_GetFence ::
  "('s, 'e) bpftool \<Rightarrow> (string \<Rightarrow> json option) \<Rightarrow> string \<Rightarrow> scope_fence_key \<Rightarrow> 's
    \<Rightarrow> ('e store_error + scope_fence_state) \<times> 's" where
  "BPFTool_GetFence run parse fenceMapPath key s =
     (case MarshalScopeFenceKey key of
        Inl e \<Rightarrow> (Inl (StoreABI e), s)
      | Inr keyBytes \<Rightarrow>
        (case run ([''-j'', ''map'', ''lookup'', ''pinned'', fenceMapPath, ''key'', ''hex''] @ hexByteArgs keyBytes) s of
           ((output, Some e), s1) \<Rightarrow> (Inl (StoreTool e), s1)
         | ((output, None), s1) \<Rightarrow>
           (case decodeBPFToolLookupValue parse output of
              Inl e \<Rightarrow> (Inl (StoreOutput e), s1)
            | Inr value \<Rightarrow>
              (case DecodeScopeFenceState value of
                 Inl e \<Rightarrow> (Inl (StoreABI e), s1)
               | Inr state \<Rightarrow> (Inr state, s1)))))"

definition BPFToolStore ::
  "('s, 'e) bpftool \<Rightarrow> (string \<Rightarrow> json option) \<Rightarrow> string \<Rightarrow> string \<Rightarrow> ('s, 'e store_error) kernel_store_ops" where
  "BPFToolStore run parse capsuleMapPath fenceMapPath =
     \<lparr>ks_PutFence = BPFTool_PutFence run fenceMapPath, ks_PutCapsule = BPFTool_PutCapsule run capsuleMapPath,
      ks_DeleteCapsule = BPFTool_DeleteCapsule run capsuleMapPath,
      ks_GetFence = Some (BPFTool_GetFence run parse fenceMapPath)\<rparr>"

section \<open>The contract of a kernel store\<close>

text \<open>
  \<open>fences s\<close> and \<open>capsules s\<close> are what the kernel program reads. A write that reports success has
  happened; one that reports an error may or may not have happened.
\<close>

locale kernel_store =
  fixes ks :: "('s, 'e) kernel_store_ops"
    and fences :: "'s \<Rightarrow> scope_fence_key \<rightharpoonup> scope_fence_state"
    and capsules :: "'s \<Rightarrow> scope_key \<rightharpoonup> decision_capsule"
  assumes put_fence_ok: "ks_PutFence ks k v s = (None, s') \<Longrightarrow>
      fences s' = (fences s)(k \<mapsto> v) \<and> capsules s' = capsules s"
    and put_fence_err: "ks_PutFence ks k v s = (Some e, s') \<Longrightarrow>
      (fences s' = fences s \<or> fences s' = (fences s)(k \<mapsto> v)) \<and> capsules s' = capsules s"
    and put_capsule_ok: "ks_PutCapsule ks c d s = (None, s') \<Longrightarrow> capsule_wf d \<Longrightarrow>
      capsules s' = (capsules s)(c \<mapsto> d) \<and> fences s' = fences s"
    and put_capsule_err: "ks_PutCapsule ks c d s = (Some e, s') \<Longrightarrow> capsule_wf d \<Longrightarrow>
      (capsules s' = capsules s \<or> capsules s' = (capsules s)(c \<mapsto> d)) \<and> fences s' = fences s"
    and delete_capsule: "ks_DeleteCapsule ks c s = (err, s') \<Longrightarrow>
      (capsules s' = (capsules s)(c := None) \<or> err \<noteq> None \<and> capsules s' = capsules s) \<and> fences s' = fences s"
    and get_fence: "ks_GetFence ks = Some g \<Longrightarrow> g k s = (r, s') \<Longrightarrow>
      (\<forall>f. r = Inr f \<longrightarrow> fences s k = Some f) \<and> fences s' = fences s \<and> capsules s' = capsules s"

section \<open>The installer against the contract\<close>

lemma ExactKey_fence_key: "FenceKey c a = Inr k \<longleftrightarrow> c \<noteq> 0 \<and> a \<noteq> 0 \<and> k = \<lparr>fk_CgroupID = c, fk_ActionClass = a, fk_Reserved = 0\<rparr>"
  by (auto simp: FenceKey_def)

lemma prepare_install_Inr:
  assumes "prepare_install sha req clock = Inr r"
  obtains lease where "BindExternalLease (ir_Lease req) clock = Inr lease"
    "validateScopeKey (ir_Scope req) = None" "is_Scope r = ir_Scope req"
    "is_FenceKey r = fence_key_of_scope (ir_Scope req)"
    "is_Fence r = \<lparr>fs_BootIDHash = ll_BootIDHash lease, fs_AuthorityTerm = ir_AuthorityTerm req,
       fs_DecisionEpoch = ir_DecisionEpoch req, fs_RevocationEpoch = ir_RevocationEpoch req\<rparr>"
    "dc_BootIDHash (is_Capsule r) = ll_BootIDHash lease"
    "dc_AuthorityTerm (is_Capsule r) = ir_AuthorityTerm req" "dc_DecisionEpoch (is_Capsule r) = ir_DecisionEpoch req"
    "dc_RevocationEpoch (is_Capsule r) = ir_RevocationEpoch req"
    "dc_InstalledAtMonoNS (is_Capsule r) = ll_InstalledAtMonoNS lease"
    "dc_DeadlineMonoNS (is_Capsule r) = ll_DeadlineMonoNS lease"
    "dc_Decision (is_Capsule r) = ir_Decision req" "ValidateCapsule (is_Capsule r) = None"
  using assms that
  by (auto simp: prepare_install_def Let_def ExactKey_fence_key fence_key_of_scope_def
      split: option.splits if_splits sum.splits)

lemma prepare_install_wf:
  assumes "prepare_install sha req clock = Inr r" and "\<And>x. length (sha x) = 32"
    and "length (ck_BootIDHash clock) = 32"
  shows "capsule_wf (is_Capsule r)"
proof -
  have boot: "BindExternalLease l clock = Inr lease \<Longrightarrow> ll_BootIDHash lease = ck_BootIDHash clock" for l lease
    by (auto simp: BindExternalLease_def Let_def split: if_splits)
  have opaque: "HashOpaque sha v = Inr h \<Longrightarrow> length h = 32" for v h
    using assms(2) by (auto simp: HashOpaque_def Let_def split: if_splits)
  show ?thesis
    using assms(1,3) boot opaque ParseSHA256Digest_length
    by (auto simp: prepare_install_def Let_def capsule_wf_def split: option.splits if_splits sum.splits)
qed

definition fence_match :: "decision_capsule \<Rightarrow> scope_fence_state \<Rightarrow> bool" where
  "fence_match c f \<longleftrightarrow> dc_BootIDHash c = fs_BootIDHash f \<and> dc_AuthorityTerm c = fs_AuthorityTerm f \<and>
     dc_DecisionEpoch c = fs_DecisionEpoch f \<and> dc_RevocationEpoch c = fs_RevocationEpoch f"

abbreviation ip_attempt :: "connect_attempt \<Rightarrow> bool" where
  "ip_attempt a \<equiv> cn_Family a = AddressFamilyIPv4 \<or> cn_Family a = AddressFamilyIPv6"

abbreviation attempt_fence :: "connect_attempt \<Rightarrow> scope_fence_key" where
  "attempt_fence a \<equiv> fence_key_of_scope (connect_scope a)"

lemma enforce_allow_iff:
  "fst (enforce_connect F C a now) = VerdictAllow \<longleftrightarrow> ip_attempt a \<and>
     (\<exists>f c. F (attempt_fence a) = Some f \<and> lookup_capsule C (connect_scope a) = Some c \<and> fence_match c f \<and>
        dc_DeadlineMonoNS c \<noteq> 0 \<and> now \<le> dc_DeadlineMonoNS c \<and> dc_Decision c = KernelDecisionAllow)"
  by (auto simp: enforce_connect_def Let_def fence_match_def not_less split: option.splits)

lemma enforce_reference:
  "ip_attempt a \<Longrightarrow>
     enforce_connect F C a now = EvaluateReference (lookup_capsule C (connect_scope a)) (F (attempt_fence a)) now"
  unfolding enforce_connect_def EvaluateReference_def Let_def by (rule if_not_P) auto

text \<open>A wildcard lookup never leaves the cgroup and class, so a new fence is seen by all its attempts.\<close>

lemma lookup_capsule_SomeD:
  "lookup_capsule C k = Some c \<Longrightarrow> \<exists>k'. C k' = Some c \<and> fence_key_of_scope k' = fence_key_of_scope k"
  by (auto simp: lookup_capsule_def fence_key_of_scope_def wildcard_of_def split: option.splits)

lemma lookup_capsule_upd [simp]: "lookup_capsule (C(k \<mapsto> c)) k = Some c"
  by (simp add: lookup_capsule_def)

text \<open>No capsule of the scope matches the fence.\<close>

definition fresh_fence ::
  "(scope_key \<rightharpoonup> decision_capsule) \<Rightarrow> scope_fence_key \<Rightarrow> scope_fence_state \<Rightarrow> bool" where
  "fresh_fence C k f \<longleftrightarrow>
     (\<forall>sk c. C sk = Some c \<longrightarrow> fence_key_of_scope sk = k \<longrightarrow> \<not> fence_match c f)"

lemma fresh_fence_denies:
  assumes "fresh_fence C (attempt_fence a) f" and "F (attempt_fence a) = Some f"
  shows "fst (enforce_connect F C a now) = VerdictDeny"
proof (rule ccontr)
  assume "fst (enforce_connect F C a now) \<noteq> VerdictDeny"
  then have "fst (enforce_connect F C a now) = VerdictAllow"
    by (cases "fst (enforce_connect F C a now)") simp_all
  with assms obtain c where "lookup_capsule C (connect_scope a) = Some c" "fence_match c f"
    by (auto simp: enforce_allow_iff)
  with assms(1) show False by (auto simp: fresh_fence_def dest!: lookup_capsule_SomeD)
qed

context kernel_store
begin

lemma install_success:
  assumes "Install sha (Some ks) req clock s = (Inr r, s')"
    and "\<And>x. length (sha x) = 32" and "length (ck_BootIDHash clock) = 32"
  shows "prepare_install sha req clock = Inr r \<and> fences s' = (fences s)(is_FenceKey r \<mapsto> is_Fence r) \<and>
    capsules s' = (capsules s)(is_Scope r \<mapsto> is_Capsule r)"
proof -
  from assms(1) obtain s1 where p: "prepare_install sha req clock = Inr r"
    and f: "ks_PutFence ks (is_FenceKey r) (is_Fence r) s = (None, s1)"
    and c: "ks_PutCapsule ks (is_Scope r) (is_Capsule r) s1 = (None, s')"
    by (auto simp: Install_def split: sum.splits prod.splits option.splits)
  from put_fence_ok [OF f] put_capsule_ok [OF c prepare_install_wf [OF p assms(2,3)]] p show ?thesis by simp
qed

lemma install_failure:
  assumes "Install sha (Some ks) req clock s = (Inl err, s')"
    and "\<And>x. length (sha x) = 32" and "length (ck_BootIDHash clock) = 32"
  shows "fences s' = fences s \<and> capsules s' = capsules s \<or>
    (\<exists>r. prepare_install sha req clock = Inr r \<and> fences s' = (fences s)(is_FenceKey r \<mapsto> is_Fence r) \<and>
       (\<forall>k. capsules s' k \<in> {capsules s k, None, Some (is_Capsule r)}))"
proof (cases "prepare_install sha req clock")
  case (Inr r)
  show ?thesis
  proof (cases "ks_PutFence ks (is_FenceKey r) (is_Fence r) s")
    case (Pair e s1)
    show ?thesis
    proof (cases e)
      case (Some x)
      with assms(1) Inr Pair have "s' = s1" by (simp add: Install_def)
      with put_fence_err [of "is_FenceKey r" "is_Fence r" s x s1] Pair Some Inr show ?thesis by auto
    next
      case None
      obtain e2 s2 where c: "ks_PutCapsule ks (is_Scope r) (is_Capsule r) s1 = (e2, s2)" by fastforce
      with assms(1) Inr Pair None obtain x where x: "e2 = Some x"
        and s': "s' = snd (ks_DeleteCapsule ks (is_Scope r) s2)"
        by (cases e2) (simp_all add: Install_def)
      have f1: "fences s1 = (fences s)(is_FenceKey r \<mapsto> is_Fence r)" "capsules s1 = capsules s"
        using put_fence_ok [of "is_FenceKey r" "is_Fence r" s s1] Pair None by simp_all
      have c2: "capsules s2 = capsules s1 \<or> capsules s2 = (capsules s1)(is_Scope r \<mapsto> is_Capsule r)" "fences s2 = fences s1"
        using put_capsule_err [OF c [unfolded x] prepare_install_wf [OF Inr assms(2,3)]] by simp_all
      have d: "capsules s' = (capsules s2)(is_Scope r := None) \<or> capsules s' = capsules s2" "fences s' = fences s2"
        using delete_capsule [of "is_Scope r" s2 _ s'] s' prod.collapse by metis+
      have "capsules s' k \<in> {capsules s k, None, Some (is_Capsule r)}" for k
        using f1(2) c2(1) d(1) by auto
      with Inr f1(1) c2(2) d(2) show ?thesis by simp
    qed
  qed
next
  case (Inl e)
  with assms(1) show ?thesis by (simp add: Install_def)
qed

lemma failed_install_safe:
  assumes inst: "Install sha (Some ks) req clock s = (Inl err, s')"
    and sha: "\<And>x. length (sha x) = 32" "length (ck_BootIDHash clock) = 32"
    and fresh: "\<And>r. prepare_install sha req clock = Inr r \<Longrightarrow> fresh_fence (capsules s) (is_FenceKey r) (is_Fence r)"
    and allow: "fst (enforce_connect (fences s') (capsules s') a now) = VerdictAllow"
    and cgroup: "attempt_fence a = fence_key_of_scope (ir_Scope req)"
  shows "fst (enforce_connect (fences s) (capsules s) a now) = VerdictAllow \<or>
    (\<exists>r. prepare_install sha req clock = Inr r \<and>
       lookup_capsule (capsules s') (connect_scope a) = Some (is_Capsule r))"
  using install_failure [OF inst sha]
proof (elim disjE exE conjE)
  fix r
  assume r: "prepare_install sha req clock = Inr r"
    and F: "fences s' = (fences s)(is_FenceKey r \<mapsto> is_Fence r)"
    and C: "\<forall>k. capsules s' k \<in> {capsules s k, None, Some (is_Capsule r)}"
  have key: "is_FenceKey r = attempt_fence a" using r cgroup by (auto elim: prepare_install_Inr)
  with allow F obtain c where c: "lookup_capsule (capsules s') (connect_scope a) = Some c"
    "fence_match c (is_Fence r)" by (auto simp: enforce_allow_iff)
  then obtain k where k: "capsules s' k = Some c" "fence_key_of_scope k = attempt_fence a"
    using lookup_capsule_SomeD by blast
  from C k(1) have "Some c \<in> {capsules s k, None, Some (is_Capsule r)}" by metis
  moreover have "capsules s k \<noteq> Some c" using fresh [OF r] c(2) key k(2) by (auto simp: fresh_fence_def)
  ultimately have "c = is_Capsule r" by auto
  with r c(1) show ?thesis by blast
qed (use allow in simp)

lemma revoke_success:
  assumes "revokeCurrentScope (Some ks) key boot s = (Inr f', s')"
  obtains f where "fences s key = Some f" "f' = f\<lparr>fs_RevocationEpoch := fs_RevocationEpoch f + 1\<rparr>"
    "fs_RevocationEpoch f \<noteq> - 1" "fences s' = (fences s)(key \<mapsto> f')" "capsules s' = capsules s"
proof -
  from assms obtain g f s1 where g: "ks_GetFence ks = Some g" "g key s = (Inr f, s1)"
    and f: "fs_RevocationEpoch f \<noteq> - 1" "f' = f\<lparr>fs_RevocationEpoch := fs_RevocationEpoch f + 1\<rparr>"
    and r: "RevokeScope (Some ks) key f' s1 = (None, s')"
    by (auto simp: revokeCurrentScope_def Let_def split: option.splits sum.splits prod.splits if_splits)
  from r have "ks_PutFence ks key f' s1 = (None, s')"
    by (auto simp: RevokeScope_def split: if_splits prod.splits)
  from put_fence_ok [OF this] get_fence [OF g] f that show ?thesis by simp
qed

end

text \<open>
  A scope is \<open>current\<close> when no capsule of its fence is ahead of the fence: a capsule of the same boot,
  term and epoch carries a revocation epoch that is not greater.
\<close>

definition current_scope ::
  "(scope_fence_key \<rightharpoonup> scope_fence_state) \<Rightarrow> (scope_key \<rightharpoonup> decision_capsule) \<Rightarrow> scope_fence_key \<Rightarrow> bool" where
  "current_scope F C k \<longleftrightarrow>
     (\<forall>sk c f. C sk = Some c \<longrightarrow> fence_key_of_scope sk = k \<longrightarrow> F k = Some f \<longrightarrow>
        dc_BootIDHash c = fs_BootIDHash f \<longrightarrow> dc_AuthorityTerm c = fs_AuthorityTerm f \<longrightarrow>
        dc_DecisionEpoch c = fs_DecisionEpoch f \<longrightarrow> dc_RevocationEpoch c \<le> fs_RevocationEpoch f)"

lemma less_inc:
  fixes x :: u64
  assumes "x \<noteq> - 1"
  shows "x < x + 1"
proof -
  from assms have "x < - 1" by (metis word_order.not_eq_extremum)
  then have "unat (x + 1) = Suc (unat x)" by (rule unat_inc)
  then show ?thesis by (simp add: word_less_nat_alt)
qed

context kernel_store
begin

lemma revoke_denies:
  assumes "revokeCurrentScope (Some ks) key boot s = (Inr f', s')"
    and "current_scope (fences s) (capsules s) key"
  shows "fences s' key = Some f'" and "fresh_fence (capsules s') key f'"
    and "current_scope (fences s') (capsules s') key"
proof -
  from assms(1) obtain f where f: "fences s key = Some f"
    "f' = f\<lparr>fs_RevocationEpoch := fs_RevocationEpoch f + 1\<rparr>" "fs_RevocationEpoch f \<noteq> - 1"
    and s': "fences s' = (fences s)(key \<mapsto> f')" "capsules s' = capsules s"
    by (rule revoke_success)
  have behind: "dc_RevocationEpoch c < fs_RevocationEpoch f'"
    if "capsules s sk = Some c" "fence_key_of_scope sk = key" "dc_BootIDHash c = fs_BootIDHash f'"
      "dc_AuthorityTerm c = fs_AuthorityTerm f'" "dc_DecisionEpoch c = fs_DecisionEpoch f'" for sk c
  proof -
    have "dc_RevocationEpoch c \<le> fs_RevocationEpoch f"
      using assms(2) f(1,2) that by (simp add: current_scope_def)
    also have "fs_RevocationEpoch f < fs_RevocationEpoch f'" using less_inc [OF f(3)] f(2) by simp
    finally show ?thesis .
  qed
  show "fences s' key = Some f'" using s' by simp
  show "fresh_fence (capsules s') key f'"
    unfolding fresh_fence_def fence_match_def s'(2) using behind by (metis order.irrefl)
  show "current_scope (fences s') (capsules s') key"
    unfolding current_scope_def s' using behind by (auto intro: order.strict_implies_order)
qed

lemma install_current:
  assumes inst: "Install sha (Some ks) req clock s = (Inr r, s')"
    and sha: "\<And>x. length (sha x) = 32" "length (ck_BootIDHash clock) = 32"
    and behind: "\<And>sk c. capsules s sk = Some c \<Longrightarrow> fence_key_of_scope sk = is_FenceKey r \<Longrightarrow>
      dc_BootIDHash c = ck_BootIDHash clock \<Longrightarrow> dc_AuthorityTerm c = ir_AuthorityTerm req \<Longrightarrow>
      dc_DecisionEpoch c = ir_DecisionEpoch req \<Longrightarrow> dc_RevocationEpoch c \<le> ir_RevocationEpoch req"
  shows "current_scope (fences s') (capsules s') (is_FenceKey r)"
proof -
  note st = install_success [OF inst sha]
  then obtain lease where lease: "BindExternalLease (ir_Lease req) clock = Inr lease"
    and r: "is_Fence r = \<lparr>fs_BootIDHash = ll_BootIDHash lease, fs_AuthorityTerm = ir_AuthorityTerm req,
       fs_DecisionEpoch = ir_DecisionEpoch req, fs_RevocationEpoch = ir_RevocationEpoch req\<rparr>"
      "dc_RevocationEpoch (is_Capsule r) = ir_RevocationEpoch req"
    by (auto elim: prepare_install_Inr)
  have "ll_BootIDHash lease = ck_BootIDHash clock"
    using lease by (auto simp: BindExternalLease_def Let_def split: if_splits)
  with r st behind show ?thesis by (auto simp: current_scope_def split: if_splits)
qed

end

section \<open>The bpftool store satisfies the contract\<close>

text \<open>
  What \<open>bpftool\<close> does: \<open>table s path\<close> is the raw content of the pinned map \<open>path\<close>. An update or a
  delete that reports success has changed exactly that entry, one that fails may have; a lookup
  that reports success prints the value of the key and changes nothing.
\<close>

locale bpftool_runner =
  fixes run :: "('s, 'e) bpftool"
    and parse :: "string \<Rightarrow> json option"
    and table :: "'s \<Rightarrow> string \<Rightarrow> string \<rightharpoonup> string"
    and capsuleMapPath fenceMapPath :: string
  assumes paths_differ: "capsuleMapPath \<noteq> fenceMapPath"
    and run_update: "run ([''map'', ''update'', ''pinned'', path, ''key'', ''hex''] @ hexByteArgs k @
        [''value'', ''hex''] @ hexByteArgs v) s = ((out, err), s') \<Longrightarrow>
      table s' = (table s)(path := (table s path)(k \<mapsto> v)) \<or> err \<noteq> None \<and> table s' = table s"
    and run_delete: "run ([''map'', ''delete'', ''pinned'', path, ''key'', ''hex''] @ hexByteArgs k) s =
        ((out, err), s') \<Longrightarrow>
      table s' = (table s)(path := (table s path)(k := None)) \<or> err \<noteq> None \<and> table s' = table s"
    and run_lookup: "run ([''-j'', ''map'', ''lookup'', ''pinned'', path, ''key'', ''hex''] @ hexByteArgs k) s =
        ((out, err), s') \<Longrightarrow>
      table s' = table s \<and>
      (err = None \<longrightarrow> (\<exists>v. table s path k = Some v \<and> decodeBPFToolLookupValue parse out = Inr v))"

text \<open>How the kernel reads the byte maps: keys are compared as bytes, values are read by their layout.\<close>

definition fences_view :: "(string \<rightharpoonup> string) \<Rightarrow> scope_fence_key \<rightharpoonup> scope_fence_state" where
  "fences_view m k =
     (case MarshalScopeFenceKey k of
        Inl _ \<Rightarrow> None
      | Inr kb \<Rightarrow>
        (case m kb of
           None \<Rightarrow> None
         | Some vb \<Rightarrow>
           (case read_fixed fence_state_layout 56 vb of Inl _ \<Rightarrow> None | Inr vs \<Rightarrow> Some (fence_state_of vs))))"

definition capsules_view :: "(string \<rightharpoonup> string) \<Rightarrow> scope_key \<rightharpoonup> decision_capsule" where
  "capsules_view m k =
     (case MarshalScopeKey k of
        Inl _ \<Rightarrow> None
      | Inr kb \<Rightarrow>
        (case m kb of
           None \<Rightarrow> None
         | Some vb \<Rightarrow>
           (case read_fixed (replicate 6 (TBytes 32) @ replicate 5 TU64 @ replicate 2 TU32) 240 vb of
              Inl _ \<Rightarrow> None | Inr vs \<Rightarrow> Some (capsule_of vs))))"

lemma MarshalScopeFenceKey_inj:
  "MarshalScopeFenceKey k = Inr b \<Longrightarrow> MarshalScopeFenceKey k' = Inr b \<Longrightarrow> k = k'"
  using fence_key_abi.marshal_inj [of k b k'] by (simp add: MarshalScopeFenceKey_def split: if_splits)

lemma MarshalScopeKey_Inr:
  assumes "MarshalScopeKey k = Inr b"
  shows "scope_key_wf k \<and> marshalFixed (scope_key_fields k) 40 = Inr b"
proof -
  from assms have m: "marshalFixed (scope_key_fields k) 40 = Inr b"
    by (simp add: MarshalScopeKey_def split: option.splits)
  then have "length (sk_DestinationAddr k) = 16"
    by (simp add: marshalFixed_def Let_def binary_write_length scope_key_fields_def split: if_splits)
  with m show ?thesis by (simp add: scope_key_wf_def)
qed

lemma MarshalScopeKey_inj: "MarshalScopeKey k = Inr b \<Longrightarrow> MarshalScopeKey k' = Inr b \<Longrightarrow> k = k'"
  by (meson MarshalScopeKey_Inr scope_key_abi.marshal_inj)

lemma MarshalScopeFenceState_Inr:
  assumes "MarshalScopeFenceState v = Inr b"
  shows "fence_state_wf v \<and> marshalFixed (fence_state_fields v) 56 = Inr b"
proof -
  from assms have m: "marshalFixed (fence_state_fields v) 56 = Inr b"
    by (simp add: MarshalScopeFenceState_def split: if_splits)
  then have "length (fs_BootIDHash v) = 32"
    by (simp add: marshalFixed_def Let_def binary_write_length fence_state_fields_def split: if_splits)
  with m show ?thesis by (simp add: fence_state_wf_def)
qed

lemma fences_view_update:
  assumes "MarshalScopeFenceKey k = Inr kb" and "MarshalScopeFenceState v = Inr vb"
  shows "fences_view (m(kb \<mapsto> vb)) = (fences_view m)(k \<mapsto> v)"
proof
  fix k'
  show "fences_view (m(kb \<mapsto> vb)) k' = ((fences_view m)(k \<mapsto> v)) k'"
  proof (cases "k' = k")
    case True
    with assms fence_state_abi.read_marshal [of v vb] MarshalScopeFenceState_Inr [OF assms(2)]
    show ?thesis by (simp add: fences_view_def)
  next
    case False
    then have "MarshalScopeFenceKey k' \<noteq> Inr kb" using MarshalScopeFenceKey_inj assms(1) by blast
    with False show ?thesis by (auto simp: fences_view_def split: sum.splits)
  qed
qed

lemma capsules_view_update:
  assumes "MarshalScopeKey k = Inr kb" and "MarshalDecisionCapsule v = Inr vb" and "capsule_wf v"
  shows "capsules_view (m(kb \<mapsto> vb)) = (capsules_view m)(k \<mapsto> v)"
proof
  fix k'
  show "capsules_view (m(kb \<mapsto> vb)) k' = ((capsules_view m)(k \<mapsto> v)) k'"
  proof (cases "k' = k")
    case True
    have "marshalFixed (capsule_fields v) 240 = Inr vb"
      using assms(2) by (simp add: MarshalDecisionCapsule_def split: option.splits)
    from capsule_abi.read_marshal [OF assms(3) this] True assms(1) show ?thesis
      by (simp add: capsules_view_def)
  next
    case False
    then have "MarshalScopeKey k' \<noteq> Inr kb" using MarshalScopeKey_inj assms(1) by blast
    with False show ?thesis by (auto simp: capsules_view_def split: sum.splits)
  qed
qed

lemma capsules_view_delete:
  assumes "MarshalScopeKey k = Inr kb"
  shows "capsules_view (m(kb := None)) = (capsules_view m)(k := None)"
proof
  fix k'
  show "capsules_view (m(kb := None)) k' = ((capsules_view m)(k := None)) k'"
  proof (cases "k' = k")
    case False
    then have "MarshalScopeKey k' \<noteq> Inr kb" using MarshalScopeKey_inj assms(1) by blast
    with False show ?thesis by (auto simp: capsules_view_def split: sum.splits)
  qed (simp add: capsules_view_def assms)
qed

lemma capsules_view_no_key: "MarshalScopeKey k = Inl e \<Longrightarrow> (capsules_view m)(k := None) = capsules_view m"
  by (auto simp: capsules_view_def fun_eq_iff)

context bpftool_runner
begin

abbreviation (input) fences_at :: "'s \<Rightarrow> scope_fence_key \<rightharpoonup> scope_fence_state" where
  "fences_at s \<equiv> fences_view (table s fenceMapPath)"

abbreviation (input) capsules_at :: "'s \<Rightarrow> scope_key \<rightharpoonup> decision_capsule" where
  "capsules_at s \<equiv> capsules_view (table s capsuleMapPath)"

lemma updateMap_effect:
  assumes "updateMap run path k v s = (err, s')"
  shows "table s' = (table s)(path := (table s path)(k \<mapsto> v)) \<or> err \<noteq> None \<and> table s' = table s"
  using assms run_update by (fastforce simp: updateMap_def split: prod.splits)

lemma put_fence_effect:
  assumes "BPFTool_PutFence run fenceMapPath k v s = (err, s')"
  shows "(fences_at s' = (fences_at s)(k \<mapsto> v) \<or> err \<noteq> None \<and> fences_at s' = fences_at s) \<and>
    capsules_at s' = capsules_at s"
proof (cases "MarshalScopeFenceKey k")
  case kb: (Inr kb)
  show ?thesis
  proof (cases "MarshalScopeFenceState v")
    case (Inr vb)
    with kb assms have "updateMap run fenceMapPath kb vb s = (err, s')" by (simp add: BPFTool_PutFence_def)
    from updateMap_effect [OF this] fences_view_update [OF kb Inr] paths_differ show ?thesis by auto
  qed (use kb assms in \<open>auto simp: BPFTool_PutFence_def\<close>)
qed (use assms in \<open>auto simp: BPFTool_PutFence_def\<close>)

lemma put_capsule_effect:
  assumes "BPFTool_PutCapsule run capsuleMapPath k v s = (err, s')" and "capsule_wf v"
  shows "(capsules_at s' = (capsules_at s)(k \<mapsto> v) \<or> err \<noteq> None \<and> capsules_at s' = capsules_at s) \<and>
    fences_at s' = fences_at s"
proof (cases "MarshalScopeKey k")
  case kb: (Inr kb)
  show ?thesis
  proof (cases "MarshalDecisionCapsule v")
    case (Inr vb)
    with kb assms have "updateMap run capsuleMapPath kb vb s = (err, s')" by (simp add: BPFTool_PutCapsule_def)
    from updateMap_effect [OF this] capsules_view_update [OF kb Inr assms(2)] paths_differ show ?thesis by auto
  qed (use kb assms in \<open>auto simp: BPFTool_PutCapsule_def\<close>)
qed (use assms in \<open>auto simp: BPFTool_PutCapsule_def\<close>)

lemma delete_capsule_effect:
  assumes "BPFTool_DeleteCapsule run capsuleMapPath k s = (err, s')"
  shows "(capsules_at s' = (capsules_at s)(k := None) \<or> err \<noteq> None \<and> capsules_at s' = capsules_at s) \<and>
    fences_at s' = fences_at s"
proof (cases "MarshalScopeKey k")
  case (Inr kb)
  with assms obtain out e where
    "run ([''map'', ''delete'', ''pinned'', capsuleMapPath, ''key'', ''hex''] @ hexByteArgs kb) s = ((out, e), s')"
    and e: "err = map_option StoreTool e"
    by (auto simp: BPFTool_DeleteCapsule_def split: prod.splits)
  from run_delete [OF this(1)] e capsules_view_delete [OF Inr] paths_differ show ?thesis by auto
qed (use assms in \<open>auto simp: BPFTool_DeleteCapsule_def\<close>)

lemma get_fence_effect:
  assumes "BPFTool_GetFence run parse fenceMapPath k s = (r, s')"
  shows "(\<forall>f. r = Inr f \<longrightarrow> fences_at s k = Some f) \<and> fences_at s' = fences_at s \<and> capsules_at s' = capsules_at s"
proof (cases "MarshalScopeFenceKey k")
  case (Inr kb)
  obtain out err s1 where lookup: "run ([''-j'', ''map'', ''lookup'', ''pinned'', fenceMapPath, ''key'', ''hex''] @
      hexByteArgs kb) s = ((out, err), s1)" using prod.exhaust by metis
  note run = run_lookup [OF this]
  from lookup assms Inr have "s1 = s'"
    by (auto simp: BPFTool_GetFence_def split: option.splits sum.splits)
  moreover have "fences_at s k = Some f" if "r = Inr f" for f
  proof -
    from that lookup assms Inr obtain v where v: "err = None" "decodeBPFToolLookupValue parse out = Inr v"
      "DecodeScopeFenceState v = Inr f"
      by (auto simp: BPFTool_GetFence_def split: option.splits sum.splits)
    with run have "table s fenceMapPath kb = Some v" by auto
    with v(3) Inr show ?thesis
      by (auto simp: fences_view_def DecodeScopeFenceState_def Let_def split: sum.splits if_splits)
  qed
  ultimately show ?thesis using run by simp
qed (use assms in \<open>auto simp: BPFTool_GetFence_def\<close>)

end

text \<open>The byte maps of the store refine the typed maps of the contract.\<close>

sublocale bpftool_runner \<subseteq> kernel_store "BPFToolStore run parse capsuleMapPath fenceMapPath"
    "\<lambda>s. fences_view (table s fenceMapPath)" "\<lambda>s. capsules_view (table s capsuleMapPath)"
proof (unfold_locales, goal_cases)
  case (1 k v s s')
  then show ?case using put_fence_effect [of k v s None s'] by (simp add: BPFToolStore_def)
next
  case (2 k v s e s')
  then show ?case using put_fence_effect [of k v s "Some e" s'] by (auto simp: BPFToolStore_def)
next
  case (3 c d s s')
  then show ?case using put_capsule_effect [of c d s None s'] by (simp add: BPFToolStore_def)
next
  case (4 c d s e s')
  then show ?case using put_capsule_effect [of c d s "Some e" s'] by (auto simp: BPFToolStore_def)
next
  case (5 c s err s')
  then show ?case using delete_capsule_effect [of c s err s'] by (simp add: BPFToolStore_def)
next
  case (6 g k s r s')
  then show ?case using get_fence_effect [of k s r s'] by (simp add: BPFToolStore_def)
qed

section \<open>A bpftool\<close>

text \<open>
  An executable \<open>bpftool\<close> over tables of byte maps, with the output of a lookup standing for the JSON
  text of its value: the commands that the store issues, read back from their argument lists.
  \<open>budget\<close> counts the commands that still succeed, so that failures can be exercised.
\<close>

record bpf_system =
  bs_tables :: "string \<Rightarrow> string \<rightharpoonup> string"
  bs_budget :: nat

definition unhex_args :: "string list \<Rightarrow> string" where
  "unhex_args args = concat (map (\<lambda>a. case hex_decode a of Some b \<Rightarrow> b | None \<Rightarrow> []) args)"

definition bpf_command :: "string list \<Rightarrow> bpf_system \<Rightarrow> (string \<times> string option) \<times> bpf_system" where
  "bpf_command args s =
     (if take 3 args = [''map'', ''update'', ''pinned'']
      then let path = args ! 3; rest = drop 6 args;
               k = unhex_args (takeWhile (\<lambda>a. a \<noteq> ''value'') rest);
               v = unhex_args (drop 2 (dropWhile (\<lambda>a. a \<noteq> ''value'') rest)) in
           (([], None), s\<lparr>bs_tables := (bs_tables s)(path := (bs_tables s path)(k \<mapsto> v))\<rparr>)
      else if take 3 args = [''map'', ''delete'', ''pinned'']
      then let path = args ! 3; k = unhex_args (drop 6 args) in
           (([], None), s\<lparr>bs_tables := (bs_tables s)(path := (bs_tables s path)(k := None))\<rparr>)
      else if take 4 args = [''-j'', ''map'', ''lookup'', ''pinned'']
      then (case bs_tables s (args ! 4) (unhex_args (drop 7 args)) of
              None \<Rightarrow> (([], Some ''key not found''), s)
            | Some v \<Rightarrow> ((v, None), s))
      else (([], Some ''usage''), s))"

definition bpf_run :: "string list \<Rightarrow> bpf_system \<Rightarrow> (string \<times> string option) \<times> bpf_system" where
  "bpf_run args s =
     (case bs_budget s of
        0 \<Rightarrow> (([], Some ''killed''), s)
      | Suc n \<Rightarrow> bpf_command args (s\<lparr>bs_budget := n\<rparr>))"

definition bpf_parse :: "string \<Rightarrow> json option" where
  "bpf_parse out = Some (JObj [(''value'', JArr (map (\<lambda>c. JStr (hex_byte c)) out))])"

lemma hex_decode_byte [simp]: "hex_decode (hex_byte c) = Some [c]"
  using hex_decode_encode [of "[c]"] by (simp add: hex_encode_def)

lemma unhex_hexByteArgs [simp]: "unhex_args (hexByteArgs bs) = bs"
  by (induction bs) (simp_all add: unhex_args_def hexByteArgs_def)

lemma hex_byte_not_value: "hex_byte c \<noteq> ''value''"
  by (simp add: hex_byte_def)

lemma takeWhile_hexByteArgs [simp]:
  "takeWhile (\<lambda>a. a \<noteq> ''value'') (hexByteArgs bs @ ''value'' # r) = hexByteArgs bs"
  "dropWhile (\<lambda>a. a \<noteq> ''value'') (hexByteArgs bs @ ''value'' # r) = ''value'' # r"
  by (induction bs) (simp_all add: hexByteArgs_def hex_byte_not_value)

lemma hex_digit_not_x: "n < 16 \<Longrightarrow> hex_digit n \<noteq> CHR ''x'' \<and> hex_digit n \<noteq> CHR ''X''"
proof -
  assume "n < 16"
  moreover have "list_all (\<lambda>k. hex_digit k \<noteq> CHR ''x'' \<and> hex_digit k \<noteq> CHR ''X'') [0..<16]"
    by (simp add: upt_rec hex_digit_def)
  ultimately show ?thesis by (simp add: list_all_iff)
qed

lemma decode_hex_byte: "decode_value_byte (JStr (hex_byte c)) = Inr c"
proof -
  have d: "of_char c div 16 < (16 :: nat)" "of_char c mod 16 < (16 :: nat)"
    by (simp_all add: less_mult_imp_div_less)
  then have "trim_space (hex_byte c) = hex_byte c"
    by (intro trim_space_plain) (simp_all add: hex_byte_def hex_digit_plain)
  moreover have "strip_0x (hex_byte c) = hex_byte c"
    using hex_digit_not_x [OF d(2)] by (auto simp: strip_0x_def hex_byte_def Let_def)
  moreover have "length (hex_byte c) = 2" by (simp add: hex_byte_def)
  ultimately show ?thesis by (simp add: decode_value_byte_def)
qed

lemma decode_bpf_parse: "decodeBPFToolLookupValue bpf_parse v = Inr v"
proof -
  have "decode_value_bytes (map (\<lambda>c. JStr (hex_byte c)) v) = Inr v"
    by (induction v) (simp_all add: decode_hex_byte)
  then show ?thesis by (simp add: decodeBPFToolLookupValue_def bpf_parse_def)
qed

interpretation bpf: bpftool_runner bpf_run bpf_parse bs_tables "''c''" "''f''"
  by unfold_locales
    (auto simp: bpf_run_def bpf_command_def Let_def decode_bpf_parse split: nat.splits option.splits)

section \<open>Properties of enforcement\<close>


lemma lease_deadline:
  assumes "BindExternalLease lease clock = Inr l"
  shows "uint (ll_DeadlineMonoNS l) = uint (ck_MonoNowNS clock) +
      min (xl_MaxLifetime lease) (time_sub (xl_NotAfter lease) (ck_WallNow clock))"
    and "xl_MaxLifetime lease > 0" and "ck_WallNow clock < xl_NotAfter lease"
proof -
  define ns where "ns = min (xl_MaxLifetime lease) (time_sub (xl_NotAfter lease) (ck_WallNow clock))"
  from assms have l: "ll_DeadlineMonoNS l = ck_MonoNowNS clock + word_of_int ns" "0 < ns"
      "\<not> - 1 - ck_MonoNowNS clock < (word_of_int ns :: u64)"
    and pos: "xl_MaxLifetime lease > 0" "0 < time_sub (xl_NotAfter lease) (ck_WallNow clock)"
    by (auto simp: BindExternalLease_def Let_def ns_def min_def split: if_splits)
  have "ns \<le> max_duration" using time_sub_range(2) [of "xl_NotAfter lease" "ck_WallNow clock"] by (simp add: ns_def)
  with l(2) have ns: "uint (word_of_int ns :: u64) = ns" by (simp add: uint_word_of_int max_duration_def)
  have "(word_of_int ns :: u64) \<le> - 1 - ck_MonoNowNS clock" using l(3) by simp
  then have "uint (word_of_int ns :: u64) \<le> uint (- 1 - ck_MonoNowNS clock)" by (simp add: word_le_def)
  moreover have "uint (- 1 - ck_MonoNowNS clock) = 2 ^ 64 - 1 - uint (ck_MonoNowNS clock)"
  proof -
    have "uint (- 1 :: u64) = 2 ^ 64 - 1" by (simp add: unsigned_minus_1_eq_mask mask_eq_exp_minus_1)
    moreover have "uint (ck_MonoNowNS clock) < 2 ^ 64"
      using unsigned_less [of "ck_MonoNowNS clock", where 'a = int] by simp
    ultimately show ?thesis by (simp add: uint_sub_if')
  qed
  ultimately have "uint (ck_MonoNowNS clock) + ns < 2 ^ 64" using ns by simp
  with ns l show "uint (ll_DeadlineMonoNS l) = uint (ck_MonoNowNS clock) +
      min (xl_MaxLifetime lease) (time_sub (xl_NotAfter lease) (ck_WallNow clock))"
    unfolding ns_def [symmetric] by (simp add: uint_plus_if')
  show "xl_MaxLifetime lease > 0" "ck_WallNow clock < xl_NotAfter lease"
    using pos by (simp_all add: time_sub_pos_iff)
qed

context kernel_store
begin

lemma installed_decision_enforced:
  assumes "Install sha (Some ks) req clock s = (Inr r, s')"
    and "\<And>x. length (sha x) = 32" and "length (ck_BootIDHash clock) = 32"
    and "connect_scope a = ir_Scope req" and "ip_attempt a"
  shows "enforce_connect (fences s') (capsules s') a now =
      (if dc_DeadlineMonoNS (is_Capsule r) < now then (VerdictDeny, DenyExpired)
       else if ir_Decision req = KernelDecisionAllow then (VerdictAllow, DenyNone) else (VerdictDeny, DenyBlocked))"
    and "uint (dc_DeadlineMonoNS (is_Capsule r)) = uint (ck_MonoNowNS clock) +
      min (xl_MaxLifetime (ir_Lease req)) (time_sub (xl_NotAfter (ir_Lease req)) (ck_WallNow clock))"
proof -
  note st = install_success [OF assms(1-3)]
  from st obtain lease where r: "BindExternalLease (ir_Lease req) clock = Inr lease"
    "is_Scope r = ir_Scope req" "is_FenceKey r = fence_key_of_scope (ir_Scope req)"
    "is_Fence r = \<lparr>fs_BootIDHash = ll_BootIDHash lease, fs_AuthorityTerm = ir_AuthorityTerm req,
       fs_DecisionEpoch = ir_DecisionEpoch req, fs_RevocationEpoch = ir_RevocationEpoch req\<rparr>"
    "dc_BootIDHash (is_Capsule r) = ll_BootIDHash lease"
    "dc_AuthorityTerm (is_Capsule r) = ir_AuthorityTerm req" "dc_DecisionEpoch (is_Capsule r) = ir_DecisionEpoch req"
    "dc_RevocationEpoch (is_Capsule r) = ir_RevocationEpoch req"
    "dc_DeadlineMonoNS (is_Capsule r) = ll_DeadlineMonoNS lease" "dc_Decision (is_Capsule r) = ir_Decision req"
    "ValidateCapsule (is_Capsule r) = None"
    by (blast elim: prepare_install_Inr)
  have "dc_DeadlineMonoNS (is_Capsule r) \<noteq> 0" using r(11) by (simp add: ValidateCapsule_def split: if_splits)
  with st r assms(4,5) show "enforce_connect (fences s') (capsules s') a now =
      (if dc_DeadlineMonoNS (is_Capsule r) < now then (VerdictDeny, DenyExpired)
       else if ir_Decision req = KernelDecisionAllow then (VerdictAllow, DenyNone) else (VerdictDeny, DenyBlocked))"
    by (simp add: enforce_reference EvaluateReference_def)
  show "uint (dc_DeadlineMonoNS (is_Capsule r)) = uint (ck_MonoNowNS clock) +
      min (xl_MaxLifetime (ir_Lease req)) (time_sub (xl_NotAfter (ir_Lease req)) (ck_WallNow clock))"
    using lease_deadline(1) [OF r(1)] r(9) by simp
qed

lemma revoked_scope_closed:
  assumes "revokeCurrentScope (Some ks) key boot s = (Inr f', s')"
    and "current_scope (fences s) (capsules s) key" and "attempt_fence a = key"
  shows "fst (enforce_connect (fences s') (capsules s') a now) = VerdictDeny"
  using revoke_denies [OF assms(1,2)] assms(3) by (blast intro: fresh_fence_denies)

lemma reinstall_reopens:
  assumes allowed: "fst (enforce_connect (fences s) (capsules s) a now) = VerdictAllow"
    and exact: "capsules s (connect_scope a) \<noteq> None"
    and rev: "revokeCurrentScope (Some ks) (attempt_fence a) boot s = (Inr f', s1)"
    and inst: "Install sha (Some ks) req clock s1 = (Inr r, s2)"
    and sha: "\<And>x. length (sha x) = 32" "length (ck_BootIDHash clock) = 32"
    and other: "ir_Scope req \<noteq> connect_scope a" "fence_key_of_scope (ir_Scope req) = attempt_fence a"
    and same: "fences s (attempt_fence a) = Some (is_Fence r)"
  shows "fst (enforce_connect (fences s2) (capsules s2) a now) = VerdictAllow"
proof -
  from rev have s1: "capsules s1 = capsules s" by (rule revoke_success)
  note st = install_success [OF inst sha]
  then have key: "is_FenceKey r = attempt_fence a" "is_Scope r = ir_Scope req"
    using other(2) by (auto elim: prepare_install_Inr)
  have "lookup_capsule (capsules s2) (connect_scope a) = lookup_capsule (capsules s) (connect_scope a)"
    using st s1 exact key other(1) by (auto simp: lookup_capsule_def)
  moreover have "fences s2 (attempt_fence a) = fences s (attempt_fence a)" using st key same by simp
  ultimately show ?thesis using allowed by (simp add: enforce_allow_iff)
qed

end

context bpftool_runner
begin

lemma store_contract:
  "kernel_store (BPFToolStore run parse capsuleMapPath fenceMapPath)
     (\<lambda>s. fences_view (table s fenceMapPath)) (\<lambda>s. capsules_view (table s capsuleMapPath))"
  by unfold_locales

end

text \<open>
  An installed decision is enforced for exactly its lease: after a successful installation through
  \<open>bpftool\<close>, a connection to the scope is allowed, if the decision allows it, until the monotonic
  deadline and denied afterwards, whatever was installed before. The deadline is the installation
  time plus the remaining lifetime of the lease, capped by the maximal lifetime, with no wrap-around.
\<close>

theorem Install_enforced:
  assumes "bpftool_runner run parse table cp fp"
    and "Install sha (Some (BPFToolStore run parse cp fp)) req clock s = (Inr r, s')"
    and "\<And>x. length (sha x) = 32" and "length (ck_BootIDHash clock) = 32"
    and "connect_scope a = ir_Scope req" and "ip_attempt a"
  shows "enforce_connect (fences_view (table s' fp)) (capsules_view (table s' cp)) a now =
      (if dc_DeadlineMonoNS (is_Capsule r) < now then (VerdictDeny, DenyExpired)
       else if ir_Decision req = KernelDecisionAllow then (VerdictAllow, DenyNone)
       else (VerdictDeny, DenyBlocked)) \<and>
    uint (dc_DeadlineMonoNS (is_Capsule r)) = uint (ck_MonoNowNS clock) +
      min (xl_MaxLifetime (ir_Lease req)) (time_sub (xl_NotAfter (ir_Lease req)) (ck_WallNow clock))"
  using kernel_store.installed_decision_enforced [OF bpftool_runner.store_contract [OF assms(1)] assms(2-6)]
  by blast

text \<open>
  C22. A failed installation never leaves a stale allow: when the new epochs are carried by no capsule
  of the scope, then after an installation that failed, at whatever write, a connection of the scope
  is allowed only if it was allowed before, or by the very capsule being installed.
\<close>

theorem failed_Install_no_stale_allow:
  assumes "bpftool_runner run parse table cp fp"
    and "Install sha (Some (BPFToolStore run parse cp fp)) req clock s = (Inl err, s')"
    and "\<And>x. length (sha x) = 32" and "length (ck_BootIDHash clock) = 32"
    and "\<And>r. prepare_install sha req clock = Inr r \<Longrightarrow>
      fresh_fence (capsules_view (table s cp)) (is_FenceKey r) (is_Fence r)"
    and "attempt_fence a = fence_key_of_scope (ir_Scope req)"
    and "fst (enforce_connect (fences_view (table s' fp)) (capsules_view (table s' cp)) a now) = VerdictAllow"
  shows "fst (enforce_connect (fences_view (table s fp)) (capsules_view (table s cp)) a now) = VerdictAllow \<or>
    (\<exists>r. prepare_install sha req clock = Inr r \<and>
       lookup_capsule (capsules_view (table s' cp)) (connect_scope a) = Some (is_Capsule r))"
  using kernel_store.failed_install_safe [OF bpftool_runner.store_contract [OF assms(1)] assms(2-5,7,6)]
  by blast

text \<open>
  C23. Revocation closes the whole scope: when no capsule of a cgroup and class is ahead of its fence,
  one successful revocation makes the kernel deny every connection of the scope at every time, exact
  and wildcard capsules alike.
\<close>

theorem revocation_closes_scope:
  assumes "bpftool_runner run parse table cp fp"
    and "revokeCurrentScope (Some (BPFToolStore run parse cp fp)) key boot s = (Inr f', s')"
    and "current_scope (fences_view (table s fp)) (capsules_view (table s cp)) key"
    and "attempt_fence a = key"
  shows "fst (enforce_connect (fences_view (table s' fp)) (capsules_view (table s' cp)) a now) = VerdictDeny"
  using kernel_store.revoked_scope_closed [OF bpftool_runner.store_contract [OF assms(1)] assms(2-4)] .

text \<open>
  C39. Installing does not compare the new fence with the current one: after a revocation, installing
  a decision for another destination of the same cgroup with the epochs of before the revocation
  puts the old fence back, and a revoked connection is allowed again.
\<close>

theorem stale_Install_reopens_revoked:
  assumes "bpftool_runner run parse table cp fp"
    and "fst (enforce_connect (fences_view (table s fp)) (capsules_view (table s cp)) a now) = VerdictAllow"
    and "capsules_view (table s cp) (connect_scope a) \<noteq> None"
    and "revokeCurrentScope (Some (BPFToolStore run parse cp fp)) (attempt_fence a) boot s = (Inr f', s1)"
    and "Install sha (Some (BPFToolStore run parse cp fp)) req clock s1 = (Inr r, s2)"
    and "\<And>x. length (sha x) = 32" and "length (ck_BootIDHash clock) = 32"
    and "ir_Scope req \<noteq> connect_scope a" and "fence_key_of_scope (ir_Scope req) = attempt_fence a"
    and "fences_view (table s fp) (attempt_fence a) = Some (is_Fence r)"
  shows "fst (enforce_connect (fences_view (table s2 fp)) (capsules_view (table s2 cp)) a now) = VerdictAllow"
  using kernel_store.reinstall_reopens [OF bpftool_runner.store_contract [OF assms(1)] assms(2-10)] .

section \<open>An installation at work\<close>

definition demo_scope :: "u32 \<Rightarrow> scope_key" where
  "demo_scope port = \<lparr>sk_CgroupID = 7, sk_ActionClass = 1, sk_AddressFamily = 2, sk_DestinationAddr = zeros 16,
     sk_DestinationPort = port, sk_Protocol = 6\<rparr>"

definition demo_attempt :: "u32 \<Rightarrow> connect_attempt" where
  "demo_attempt port = \<lparr>cn_CgroupID = 7, cn_Family = 2, cn_Addr = zeros 16, cn_Port = port, cn_Protocol = 6\<rparr>"

definition demo_install :: "u32 \<Rightarrow> install_request" where
  "demo_install port = \<lparr>ir_Scope = demo_scope port, ir_DecisionID = ''d'', ir_Subject = ''s'', ir_Action = ''a'',
     ir_PolicyDigest = sha256_tag (\<lambda>_. zeros 32) [], ir_EvidenceDigest = sha256_tag (\<lambda>_. zeros 32) [],
     ir_AuthorityTerm = 1, ir_DecisionEpoch = 1, ir_RevocationEpoch = 0, ir_Decision = 1, ir_Constraints = 0,
     ir_Lease = \<lparr>xl_IssuedAt = 0, xl_NotAfter = 100, xl_MaxLifetime = 50\<rparr>\<rparr>"

definition demo_clock :: clock_snapshot where
  "demo_clock = \<lparr>ck_WallNow = 20, ck_MonoNowNS = 1000, ck_BootIDHash = replicate 32 CHR ''b''\<rparr>"

definition demo_fence :: "u64 \<Rightarrow> scope_fence_state" where
  "demo_fence n = \<lparr>fs_BootIDHash = replicate 32 CHR ''b'', fs_AuthorityTerm = 1, fs_DecisionEpoch = 1,
     fs_RevocationEpoch = n\<rparr>"

definition demo_capsule :: decision_capsule where
  "demo_capsule = \<lparr>dc_DecisionIDHash = zeros 32, dc_SubjectHash = zeros 32, dc_ActionHash = zeros 32,
     dc_PolicyHash = zeros 32, dc_EvidenceHash = zeros 32, dc_BootIDHash = replicate 32 CHR ''b'',
     dc_AuthorityTerm = 1, dc_DecisionEpoch = 1, dc_RevocationEpoch = 0, dc_InstalledAtMonoNS = 1000,
     dc_DeadlineMonoNS = 1050, dc_Decision = 1, dc_Constraints = 0\<rparr>"

definition demo_fence_key :: scope_fence_key where
  "demo_fence_key = \<lparr>fk_CgroupID = 7, fk_ActionClass = 1, fk_Reserved = 0\<rparr>"

abbreviation demo_store :: "(bpf_system, string store_error) kernel_store_ops" where
  "demo_store \<equiv> BPFToolStore bpf_run bpf_parse ''c'' ''f''"

abbreviation demo_sha :: "string \<Rightarrow> string" where "demo_sha \<equiv> \<lambda>_. zeros 32"

lemma demo_digest: "ParseSHA256Digest (sha256_tag demo_sha []) = Inr (zeros 32)"
  by (simp add: ParseSHA256Digest_tag)

lemma demo_prepare:
  assumes "port \<noteq> 0"
  shows "prepare_install demo_sha (demo_install port) demo_clock =
    Inr \<lparr>is_FenceKey = demo_fence_key, is_Fence = demo_fence 0, is_Scope = demo_scope port, is_Capsule = demo_capsule\<rparr>"
proof -
  have "BindExternalLease (ir_Lease (demo_install port)) demo_clock =
      Inr \<lparr>ll_InstalledAtMonoNS = 1000, ll_DeadlineMonoNS = 1050, ll_BootIDHash = replicate 32 CHR ''b''\<rparr>"
    by (simp add: BindExternalLease_def demo_install_def demo_clock_def Let_def time_sub_def max_duration_def
        min_duration_def)
  moreover have "trim_space ''d'' = ''d''" "trim_space ''s'' = ''s''" "trim_space ''a'' = ''a''"
    by (simp_all add: plain_simps)
  ultimately show ?thesis using assms
    by (simp add: prepare_install_def HashOpaque_def demo_install_def demo_digest FenceKey_def ValidateCapsule_def
        validateScopeKey_def demo_scope_def demo_fence_key_def demo_fence_def demo_capsule_def Let_def)
qed

lemma bpf_run_update: "bs_budget s = Suc n \<Longrightarrow>
    bpf_run ([''map'', ''update'', ''pinned'', path, ''key'', ''hex''] @ hexByteArgs k @ [''value'', ''hex''] @ hexByteArgs v) s =
      (([], None), s\<lparr>bs_budget := n, bs_tables := (bs_tables s)(path := (bs_tables s path)(k \<mapsto> v))\<rparr>)"
  by (simp add: bpf_run_def bpf_command_def)

lemma marshal_demo:
  "\<exists>b. MarshalScopeFenceKey demo_fence_key = Inr b"
  "\<exists>b. MarshalScopeFenceState (demo_fence n) = Inr b"
  "port \<noteq> 0 \<Longrightarrow> \<exists>b. MarshalScopeKey (demo_scope port) = Inr b"
  "\<exists>b. MarshalDecisionCapsule demo_capsule = Inr b"
  using fence_key_abi.marshal_ok [of demo_fence_key] fence_state_abi.marshal_ok [of "demo_fence n"]
    scope_key_abi.marshal_ok [of "demo_scope port"] capsule_abi.marshal_ok [of demo_capsule]
  by (simp_all add: MarshalScopeFenceKey_def MarshalScopeFenceState_def MarshalScopeKey_def MarshalDecisionCapsule_def
      demo_fence_key_def demo_fence_def demo_scope_def demo_capsule_def validateScopeKey_def ValidateCapsule_def
      fence_state_wf_def scope_key_wf_def capsule_wf_def)

text \<open>With enough budget the demonstration store accepts a write.\<close>

lemma demo_put_fence:
  assumes "bs_budget s = Suc n"
  shows "\<exists>s'. ks_PutFence demo_store demo_fence_key (demo_fence m) s = (None, s') \<and> bs_budget s' = n"
  using assms marshal_demo(1) marshal_demo(2) [of m]
  by (auto simp: BPFToolStore_def BPFTool_PutFence_def updateMap_def bpf_run_update simp del: append.simps)

lemma demo_put_capsule:
  assumes "bs_budget s = Suc n" and "port \<noteq> 0"
  shows "\<exists>s'. ks_PutCapsule demo_store (demo_scope port) demo_capsule s = (None, s') \<and> bs_budget s' = n"
  using assms(1) marshal_demo(3) [OF assms(2)] marshal_demo(4)
  by (auto simp: BPFToolStore_def BPFTool_PutCapsule_def updateMap_def bpf_run_update simp del: append.simps)

lemma demo_Install:
  assumes "bs_budget s = Suc (Suc n)" and "port \<noteq> 0"
  obtains s' where "Install demo_sha (Some demo_store) (demo_install port) demo_clock s =
      (Inr \<lparr>is_FenceKey = demo_fence_key, is_Fence = demo_fence 0, is_Scope = demo_scope port,
            is_Capsule = demo_capsule\<rparr>, s')" "bs_budget s' = n"
proof -
  obtain s1 where 1: "ks_PutFence demo_store demo_fence_key (demo_fence 0) s = (None, s1)" "bs_budget s1 = Suc n"
    using demo_put_fence [OF assms(1)] by blast
  obtain s2 where "ks_PutCapsule demo_store (demo_scope port) demo_capsule s1 = (None, s2)" "bs_budget s2 = n"
    using demo_put_capsule [OF 1(2) assms(2)] by blast
  with 1 that show ?thesis by (simp add: Install_def demo_prepare [OF assms(2)])
qed

definition demo_system :: "nat \<Rightarrow> bpf_system" where
  "demo_system budget = \<lparr>bs_tables = (\<lambda>_. Map.empty), bs_budget = budget\<rparr>"

lemma demo_system_empty:
  "fences_view (bs_tables (demo_system n) p) = Map.empty" "capsules_view (bs_tables (demo_system n) p) = Map.empty"
  by (auto simp: demo_system_def fences_view_def capsules_view_def split: sum.split)

lemma demo_attempt_scope [simp]:
  "connect_scope (demo_attempt port) = demo_scope port" "cn_Family (demo_attempt port) = 2"
  "ir_Scope (demo_install port) = demo_scope port" "fence_key_of_scope (demo_scope port) = demo_fence_key"
  "ck_BootIDHash demo_clock = replicate 32 CHR ''b''"
  by (simp_all add: connect_scope_def demo_attempt_def demo_scope_def demo_install_def demo_fence_key_def
      fence_key_of_scope_def demo_clock_def)

lemma bpf_run_lookup: "bs_budget s = Suc n \<Longrightarrow> bs_tables s path k = Some v \<Longrightarrow>
    bpf_run ([''-j'', ''map'', ''lookup'', ''pinned'', path, ''key'', ''hex''] @ hexByteArgs k) s =
      ((v, None), s\<lparr>bs_budget := n\<rparr>)"
  by (simp add: bpf_run_def bpf_command_def)

lemma demo_get_fence:
  assumes "bs_budget s = Suc n" and "fences_view (bs_tables s ''f'') demo_fence_key = Some (demo_fence m)"
  shows "\<exists>s'. the (ks_GetFence demo_store) demo_fence_key s = (Inr (demo_fence m), s') \<and> bs_budget s' = n"
proof -
  obtain kb where kb: "MarshalScopeFenceKey demo_fence_key = Inr kb" using marshal_demo(1) by blast
  with assms(2) obtain vb vs where vb: "bs_tables s ''f'' kb = Some vb" "read_fixed fence_state_layout 56 vb = Inr vs"
    "fence_state_of vs = demo_fence m"
    by (auto simp: fences_view_def split: option.splits sum.splits)
  have "DecodeScopeFenceState vb = Inr (demo_fence m)"
    using vb(2,3) by (simp add: DecodeScopeFenceState_def Let_def) (simp add: demo_fence_def numeral_eq_Suc)
  then show ?thesis
    using kb bpf_run_lookup [OF assms(1) vb(1)] by (simp add: BPFToolStore_def BPFTool_GetFence_def decode_bpf_parse)
qed

lemma demo_revoke:
  assumes "bs_budget s = Suc (Suc n)" and "fences_view (bs_tables s ''f'') demo_fence_key = Some (demo_fence 0)"
  obtains s' where "revokeCurrentScope (Some demo_store) demo_fence_key None s = (Inr (demo_fence 1), s')"
    "bs_budget s' = n"
proof -
  obtain s1 where 1: "the (ks_GetFence demo_store) demo_fence_key s = (Inr (demo_fence 0), s1)" "bs_budget s1 = Suc n"
    using demo_get_fence [OF assms] by blast
  obtain s2 where 2: "ks_PutFence demo_store demo_fence_key (demo_fence 1) s1 = (None, s2)" "bs_budget s2 = n"
    using demo_put_fence [OF 1(2)] by blast
  have "demo_fence 0\<lparr>fs_RevocationEpoch := fs_RevocationEpoch (demo_fence 0) + 1\<rparr> = demo_fence 1"
    "fs_RevocationEpoch (demo_fence 0) \<noteq> - 1"
    "fs_BootIDHash (demo_fence 1) \<noteq> zeros (length (fs_BootIDHash (demo_fence 1)))"
    "fs_AuthorityTerm (demo_fence 1) = 1" "fs_DecisionEpoch (demo_fence 1) = 1"
    by (simp_all add: demo_fence_def numeral_eq_Suc)
  moreover obtain g where "ks_GetFence demo_store = Some g" by (simp add: BPFToolStore_def)
  ultimately show ?thesis using 1 2
    by (intro that [of s2]) (simp_all add: revokeCurrentScope_def RevokeScope_def Let_def demo_fence_key_def)
qed

lemma demo_installed:
  assumes "Install demo_sha (Some demo_store) (demo_install port) demo_clock s =
      (Inr \<lparr>is_FenceKey = demo_fence_key, is_Fence = demo_fence 0, is_Scope = demo_scope port,
            is_Capsule = demo_capsule\<rparr>, s')"
  shows "fences_view (bs_tables s' ''f'') = (fences_view (bs_tables s ''f''))(demo_fence_key \<mapsto> demo_fence 0)"
    and "capsules_view (bs_tables s' ''c'') = (capsules_view (bs_tables s ''c''))(demo_scope port \<mapsto> demo_capsule)"
  using bpf.install_success [OF assms] by simp_all

lemma demo_allowed:
  assumes "fences_view (bs_tables s ''f'') demo_fence_key = Some (demo_fence 0)"
    and "capsules_view (bs_tables s ''c'') (demo_scope port) = Some demo_capsule"
  shows "fst (enforce_connect (fences_view (bs_tables s ''f'')) (capsules_view (bs_tables s ''c'')) (demo_attempt port) 1050)
      = VerdictAllow"
  using assms by (simp add: enforce_allow_iff lookup_capsule_def)
    (simp add: fence_match_def demo_fence_def demo_capsule_def)

theorem Install_enforced_witness:
  "\<exists>r s'. Install demo_sha (Some demo_store) (demo_install 80) demo_clock (demo_system 2) = (Inr r, s') \<and>
     enforce_connect (fences_view (bs_tables s' ''f'')) (capsules_view (bs_tables s' ''c'')) (demo_attempt 80) 1050 =
       (VerdictAllow, DenyNone)"
proof -
  obtain s' where i: "Install demo_sha (Some demo_store) (demo_install 80) demo_clock (demo_system 2) =
      (Inr \<lparr>is_FenceKey = demo_fence_key, is_Fence = demo_fence 0, is_Scope = demo_scope 80,
            is_Capsule = demo_capsule\<rparr>, s')"
    by (rule demo_Install [of "demo_system 2" 0 80]) (simp_all add: demo_system_def)
  from Install_enforced [OF bpf.bpftool_runner_axioms i, of "demo_attempt 80" 1050]
  have "enforce_connect (fences_view (bs_tables s' ''f'')) (capsules_view (bs_tables s' ''c'')) (demo_attempt 80) 1050 =
       (VerdictAllow, DenyNone)"
    by (simp add: demo_capsule_def) (simp add: demo_install_def)
  with i show ?thesis by blast
qed

lemma killed_put_fence: "bs_budget s = 0 \<Longrightarrow> \<exists>e. ks_PutFence demo_store k v s = (Some e, s)"
  by (auto simp: BPFToolStore_def BPFTool_PutFence_def updateMap_def bpf_run_def split: sum.split)

theorem failed_Install_no_stale_allow_witness:
  "\<exists>s err. Install demo_sha (Some demo_store) (demo_install 443\<lparr>ir_DecisionEpoch := 2\<rparr>) demo_clock s = (Inl err, s) \<and>
     fst (enforce_connect (fences_view (bs_tables s ''f'')) (capsules_view (bs_tables s ''c'')) (demo_attempt 80) 1050)
       = VerdictAllow"
proof -
  let ?req = "demo_install 443\<lparr>ir_DecisionEpoch := 2\<rparr>"
  obtain s where i: "Install demo_sha (Some demo_store) (demo_install 80) demo_clock (demo_system 2) =
      (Inr \<lparr>is_FenceKey = demo_fence_key, is_Fence = demo_fence 0, is_Scope = demo_scope 80,
            is_Capsule = demo_capsule\<rparr>, s)" "bs_budget s = 0"
    by (rule demo_Install [of "demo_system 2" 0 80]) (simp_all add: demo_system_def)
  note views = demo_installed [OF i(1), unfolded demo_system_empty]
  have killed: "\<exists>err. Install demo_sha (Some demo_store) ?req demo_clock s = (Inl err, s)"
  proof (cases "prepare_install demo_sha ?req demo_clock")
    case (Inr r)
    obtain e where "ks_PutFence demo_store (is_FenceKey r) (is_Fence r) s = (Some e, s)"
      using killed_put_fence [OF i(2)] by blast
    with Inr show ?thesis by (simp add: Install_def)
  qed (simp add: Install_def)
  then obtain err where err: "Install demo_sha (Some demo_store) ?req demo_clock s = (Inl err, s)" by blast
  have allow: "fst (enforce_connect (fences_view (bs_tables s ''f'')) (capsules_view (bs_tables s ''c'')) (demo_attempt 80) 1050)
       = VerdictAllow" by (rule demo_allowed) (simp_all add: views)
  have fresh: "fresh_fence (capsules_view (bs_tables s ''c'')) (is_FenceKey r) (is_Fence r)"
    if r: "prepare_install demo_sha ?req demo_clock = Inr r" for r
  proof -
    have "fs_DecisionEpoch (is_Fence r) = 2" using r by (auto elim!: prepare_install_Inr)
    then show ?thesis by (auto simp: fresh_fence_def views fence_match_def demo_capsule_def)
  qed
  from failed_Install_no_stale_allow [OF bpf.bpftool_runner_axioms err _ _ fresh _ allow]
  have "fst (enforce_connect (fences_view (bs_tables s ''f'')) (capsules_view (bs_tables s ''c'')) (demo_attempt 80) 1050)
       = VerdictAllow \<or> (\<exists>r. prepare_install demo_sha ?req demo_clock = Inr r \<and>
       lookup_capsule (capsules_view (bs_tables s ''c'')) (demo_scope 80) = Some (is_Capsule r))" by simp
  with err allow show ?thesis by blast
qed

lemma demo_current:
  assumes "fences_view (bs_tables s ''f'') = [demo_fence_key \<mapsto> demo_fence 0]"
    and "capsules_view (bs_tables s ''c'') = [demo_scope 80 \<mapsto> demo_capsule]"
  shows "current_scope (fences_view (bs_tables s ''f'')) (capsules_view (bs_tables s ''c'')) demo_fence_key"
  unfolding assms by (auto simp: current_scope_def demo_capsule_def demo_fence_def split: if_splits)

theorem revocation_closes_scope_witness:
  "\<exists>s s'. revokeCurrentScope (Some demo_store) demo_fence_key None s = (Inr (demo_fence 1), s') \<and>
     fst (enforce_connect (fences_view (bs_tables s ''f'')) (capsules_view (bs_tables s ''c'')) (demo_attempt 80) 1050)
       = VerdictAllow \<and>
     fst (enforce_connect (fences_view (bs_tables s' ''f'')) (capsules_view (bs_tables s' ''c'')) (demo_attempt 80) 1050)
       = VerdictDeny"
proof -
  obtain s where i: "Install demo_sha (Some demo_store) (demo_install 80) demo_clock (demo_system 4) =
      (Inr \<lparr>is_FenceKey = demo_fence_key, is_Fence = demo_fence 0, is_Scope = demo_scope 80,
            is_Capsule = demo_capsule\<rparr>, s)" "bs_budget s = 2"
    by (rule demo_Install [of "demo_system 4" 2 80]) (simp_all add: demo_system_def)
  note views = demo_installed [OF i(1), unfolded demo_system_empty]
  obtain s' where r: "revokeCurrentScope (Some demo_store) demo_fence_key None s = (Inr (demo_fence 1), s')"
    by (rule demo_revoke [of s 0]) (simp_all add: i(2) views)
  have "fst (enforce_connect (fences_view (bs_tables s' ''f'')) (capsules_view (bs_tables s' ''c'')) (demo_attempt 80) 1050)
       = VerdictDeny"
    by (rule revocation_closes_scope [OF bpf.bpftool_runner_axioms r demo_current]) (simp_all add: views)
  moreover have "fst (enforce_connect (fences_view (bs_tables s ''f'')) (capsules_view (bs_tables s ''c''))
      (demo_attempt 80) 1050) = VerdictAllow" by (rule demo_allowed) (simp_all add: views)
  ultimately show ?thesis using r by blast
qed

theorem stale_Install_reopens_revoked_witness:
  "\<exists>s1 r s2. fst (enforce_connect (fences_view (bs_tables s1 ''f'')) (capsules_view (bs_tables s1 ''c''))
       (demo_attempt 80) 1050) = VerdictDeny \<and>
     Install demo_sha (Some demo_store) (demo_install 443) demo_clock s1 = (Inr r, s2) \<and>
     fst (enforce_connect (fences_view (bs_tables s2 ''f'')) (capsules_view (bs_tables s2 ''c''))
       (demo_attempt 80) 1050) = VerdictAllow"
proof -
  obtain s where i: "Install demo_sha (Some demo_store) (demo_install 80) demo_clock (demo_system 6) =
      (Inr \<lparr>is_FenceKey = demo_fence_key, is_Fence = demo_fence 0, is_Scope = demo_scope 80,
            is_Capsule = demo_capsule\<rparr>, s)" "bs_budget s = 4"
    by (rule demo_Install [of "demo_system 6" 4 80]) (simp_all add: demo_system_def)
  note views = demo_installed [OF i(1), unfolded demo_system_empty]
  obtain s1 where r: "revokeCurrentScope (Some demo_store) demo_fence_key None s = (Inr (demo_fence 1), s1)"
    "bs_budget s1 = 2"
    by (rule demo_revoke [of s 2]) (simp_all add: i(2) views)
  obtain s2 where j: "Install demo_sha (Some demo_store) (demo_install 443) demo_clock s1 =
      (Inr \<lparr>is_FenceKey = demo_fence_key, is_Fence = demo_fence 0, is_Scope = demo_scope 443,
            is_Capsule = demo_capsule\<rparr>, s2)"
    by (rule demo_Install [of s1 0 443]) (simp_all add: r(2))
  have "demo_scope 443 \<noteq> demo_scope 80" by (simp add: demo_scope_def)
  with stale_Install_reopens_revoked [OF bpf.bpftool_runner_axioms, of s "demo_attempt 80" 1050 None "demo_fence 1" s1
      demo_sha "demo_install 443" demo_clock _ s2, OF demo_allowed _ _ j]
  have "fst (enforce_connect (fences_view (bs_tables s2 ''f'')) (capsules_view (bs_tables s2 ''c''))
      (demo_attempt 80) 1050) = VerdictAllow" using r(1) by (simp add: views)
  moreover have "fst (enforce_connect (fences_view (bs_tables s1 ''f'')) (capsules_view (bs_tables s1 ''c''))
      (demo_attempt 80) 1050) = VerdictDeny"
    by (rule bpf.revoked_scope_closed [OF r(1) demo_current]) (simp_all add: views)
  ultimately show ?thesis using j by blast
qed

end
