(* ===== verification/Kernel_Taint.thy ===== *)
theory Kernel_Taint
  imports Kernel_ABI Boundary
begin

text \<open>
  Kernel taint events (\<open>internal/kernelfabric/taint_abi.go\<close>, \<open>taint_encoding.go\<close>): the records, their
  decoding, and the translation of the label bits of a process into the evidence that the taint
  egress check of the governed action boundary judges. The registry \<open>labelByBit\<close>, a Go map from bit
  numbers to labels, is an association list in the (arbitrary) order of iteration.
\<close>

section \<open>Data\<close>

abbreviation TaintABIVersion :: u32 where "TaintABIVersion \<equiv> 1"
abbreviation TaintOperationRead :: u32 where "TaintOperationRead \<equiv> 1"
abbreviation TaintOperationConnect :: u32 where "TaintOperationConnect \<equiv> 4"
abbreviation TaintOperationIdentityChange :: u32 where "TaintOperationIdentityChange \<equiv> 5"
abbreviation TaintEventSourceRead :: u32 where "TaintEventSourceRead \<equiv> 1"
abbreviation TaintEventFileReadObserved :: u32 where "TaintEventFileReadObserved \<equiv> 8"
abbreviation TaintEventSourceInvalidated :: u32 where "TaintEventSourceInvalidated \<equiv> 9"

record taint_file_key =
  tf_Device :: u64
  tf_Inode :: u64

record taint_event =
  tv_Sequence :: u64
  tv_ObservedAtMonoNS :: u64
  tv_CgroupID :: u64
  tv_FileDevice :: u64
  tv_FileInode :: u64
  tv_Labels :: u64
  tv_TGID :: u32
  tv_RelatedTGID :: u32
  tv_EventType :: u32
  tv_Operation :: u32
  tv_ABIVersion :: u32
  tv_Reserved :: u32

record taint_accounting =
  ta_Sequence :: u64
  ta_Emitted :: u64
  ta_Lost :: u64

definition taint_file_key_fields :: "taint_file_key \<Rightarrow> abi_value list" where
  "taint_file_key_fields k = [VU64 (tf_Device k), VU64 (tf_Inode k)]"

definition taint_file_key_of :: "abi_value list \<Rightarrow> taint_file_key" where
  "taint_file_key_of vs = \<lparr>tf_Device = as_u64 (vs ! 0), tf_Inode = as_u64 (vs ! 1)\<rparr>"

definition taint_event_fields :: "taint_event \<Rightarrow> abi_value list" where
  "taint_event_fields e = [VU64 (tv_Sequence e), VU64 (tv_ObservedAtMonoNS e), VU64 (tv_CgroupID e),
     VU64 (tv_FileDevice e), VU64 (tv_FileInode e), VU64 (tv_Labels e), VU32 (tv_TGID e), VU32 (tv_RelatedTGID e),
     VU32 (tv_EventType e), VU32 (tv_Operation e), VU32 (tv_ABIVersion e), VU32 (tv_Reserved e)]"

definition taint_event_of :: "abi_value list \<Rightarrow> taint_event" where
  "taint_event_of vs = \<lparr>tv_Sequence = as_u64 (vs ! 0), tv_ObservedAtMonoNS = as_u64 (vs ! 1),
     tv_CgroupID = as_u64 (vs ! 2), tv_FileDevice = as_u64 (vs ! 3), tv_FileInode = as_u64 (vs ! 4),
     tv_Labels = as_u64 (vs ! 5), tv_TGID = as_u32 (vs ! 6), tv_RelatedTGID = as_u32 (vs ! 7),
     tv_EventType = as_u32 (vs ! 8), tv_Operation = as_u32 (vs ! 9), tv_ABIVersion = as_u32 (vs ! 10),
     tv_Reserved = as_u32 (vs ! 11)\<rparr>"

definition taint_accounting_fields :: "taint_accounting \<Rightarrow> abi_value list" where
  "taint_accounting_fields a = [VU64 (ta_Sequence a), VU64 (ta_Emitted a), VU64 (ta_Lost a)]"

definition taint_accounting_of :: "abi_value list \<Rightarrow> taint_accounting" where
  "taint_accounting_of vs = \<lparr>ta_Sequence = as_u64 (vs ! 0), ta_Emitted = as_u64 (vs ! 1), ta_Lost = as_u64 (vs ! 2)\<rparr>"

abbreviation taint_event_layout :: "abi_type list" where
  "taint_event_layout \<equiv> replicate 6 TU64 @ replicate 6 TU32"

section \<open>Encoding\<close>

definition MarshalTaintFileKey :: "taint_file_key \<Rightarrow> kernel_error + string" where
  "MarshalTaintFileKey key =
     (if tf_Device key = 0 \<or> tf_Inode key = 0
      then Inl (ErrTaintABIInvalid ''taint file identity is incomplete'')
      else marshalFixed (taint_file_key_fields key) 16)"

definition DecodeTaintEvent :: "string \<Rightarrow> kernel_error + taint_event" where
  "DecodeTaintEvent payload =
     (case read_fixed taint_event_layout 72 payload of
        Inl e \<Rightarrow> Inl e
      | Inr vs \<Rightarrow>
        (let event = taint_event_of vs in
         if tv_ABIVersion event \<noteq> TaintABIVersion
         then Inl (ErrTaintABIInvalid ''unsupported taint ABI version'')
         else if tv_Sequence event = 0 \<or> tv_CgroupID event = 0 \<or> tv_TGID event = 0
         then Inl (ErrTaintABIInvalid ''taint event identity is incomplete'')
         else if tv_EventType event < TaintEventSourceRead \<or> tv_EventType event > TaintEventFileReadObserved
         then Inl (ErrTaintABIInvalid ''unsupported event type'')
         else if tv_Operation event < TaintOperationRead \<or> tv_Operation event > TaintOperationConnect
         then Inl (ErrTaintABIInvalid ''unsupported operation'')
         else if tv_Reserved event \<noteq> 0
         then Inl (ErrTaintABIInvalid ''reserved field is non-zero'')
         else Inr event))"

definition MarshalTaintAccounting :: "taint_accounting \<Rightarrow> kernel_error + string" where
  "MarshalTaintAccounting accounting =
     (if ta_Emitted accounting + ta_Lost accounting > ta_Sequence accounting
      then Inl (ErrTaintABIInvalid ''taint accounting is inconsistent'')
      else marshalFixed (taint_accounting_fields accounting) 24)"

definition DecodeTaintAccounting :: "string \<Rightarrow> kernel_error + taint_accounting" where
  "DecodeTaintAccounting payload =
     (case read_fixed (replicate 3 TU64) 24 payload of
        Inl e \<Rightarrow> Inl e
      | Inr vs \<Rightarrow>
        (let accounting = taint_accounting_of vs in
         if ta_Emitted accounting + ta_Lost accounting > ta_Sequence accounting
         then Inl (ErrTaintABIInvalid ''taint accounting is inconsistent'')
         else Inr accounting))"

section \<open>Labels\<close>

fun check_registry :: "string set \<Rightarrow> (u8 \<times> string) list \<Rightarrow> kernel_error option" where
  "check_registry seen [] = None"
| "check_registry seen ((b, label) # rest) =
     (if b \<ge> 64 then Some ErrTaintLabelMapInvalid
      else if label = [] \<or> trim_space label \<noteq> label \<or>
        list_ex (\<lambda>c. c \<in> {CHR 0x0D, CHR 0x0A, CHR 0x09, CHR 0x20}) label
      then Some ErrTaintLabelMapInvalid
      else if label \<in> seen then Some ErrTaintLabelMapInvalid
      else check_registry (insert label seen) rest)"

fun collect_labels :: "u64 \<Rightarrow> (u8 \<times> string) list \<Rightarrow> nat list \<Rightarrow> kernel_error + string list" where
  "collect_labels bits reg [] = Inr []"
| "collect_labels bits reg (n # ns) =
     (if \<not> bit bits n then collect_labels bits reg ns
      else case map_of reg (of_nat n) of
        None \<Rightarrow> Inl ErrTaintLabelUnmapped
      | Some label \<Rightarrow>
        (case collect_labels bits reg ns of Inl e \<Rightarrow> Inl e | Inr ls \<Rightarrow> Inr (label # ls)))"

definition DecodeTaintLabels :: "u64 \<Rightarrow> (u8 \<times> string) list \<Rightarrow> kernel_error + string list" where
  "DecodeTaintLabels bits labelByBit =
     (if bits = 0 then Inr []
      else if labelByBit = [] then Inl ErrTaintLabelUnmapped
      else case check_registry {} labelByBit of
        Some e \<Rightarrow> Inl e
      | None \<Rightarrow>
        (case collect_labels bits labelByBit [0..<64] of Inl e \<Rightarrow> Inl e | Inr labels \<Rightarrow> Inr (sort labels)))"

definition BuildTaintEvidence ::
  "string \<Rightarrow> string \<Rightarrow> string \<Rightarrow> u64 \<Rightarrow> (u8 \<times> string) list \<Rightarrow> kernel_error + taint_evidence" where
  "BuildTaintEvidence subjectRef monitorRef monitorEpoch bits labelByBit =
     (if blank subjectRef \<or> blank monitorRef \<or> blank monitorEpoch
      then Inl (ErrTaintABIInvalid ''evidence provenance is incomplete'')
      else case DecodeTaintLabels bits labelByBit of
        Inl e \<Rightarrow> Inl e
      | Inr labels \<Rightarrow> Inr \<lparr>te_SubjectRef = subjectRef, te_MonitorRef = monitorRef,
                           te_MonitorEpoch = monitorEpoch, te_Labels = labels\<rparr>)"

section \<open>Layouts\<close>

interpretation taint_file_key_abi: abi_struct taint_file_key_fields taint_file_key_of "[TU64, TU64]" "\<lambda>_. True" 16
  by unfold_locales (auto simp: taint_file_key_fields_def taint_file_key_of_def field_simps)

interpretation taint_event_abi: abi_struct taint_event_fields taint_event_of taint_event_layout "\<lambda>_. True" 72
  by unfold_locales (auto simp: taint_event_fields_def taint_event_of_def field_simps)

interpretation taint_accounting_abi: abi_struct taint_accounting_fields taint_accounting_of "replicate 3 TU64" "\<lambda>_. True" 24
  by unfold_locales (auto simp: taint_accounting_fields_def taint_accounting_of_def field_simps)

section \<open>Labels are exactly the set bits\<close>

lemma check_registry_None_iff:
  "check_registry seen reg = None \<longleftrightarrow>
     list_all (\<lambda>(b, l). b < 64 \<and> valid_taint_label l) reg \<and> snd ` set reg \<inter> seen = {} \<and> distinct (map snd reg)"
proof (induction seen reg rule: check_registry.induct)
  case (2 seen b label rest)
  have "check_registry seen ((b, label) # rest) = None \<longleftrightarrow>
      b < 64 \<and> valid_taint_label label \<and> label \<notin> seen \<and> check_registry (insert label seen) rest = None"
    by (auto simp: valid_taint_label_def not_le)
  with 2 show ?case by (auto simp: valid_taint_label_def not_le)
qed simp

lemma collect_labels_Inr:
  "collect_labels bits reg ns = Inr ls \<longleftrightarrow>
     (\<forall>n \<in> set ns. bit bits n \<longrightarrow> map_of reg (of_nat n) \<noteq> None) \<and>
     ls = map (\<lambda>n. the (map_of reg (of_nat n))) (filter (bit bits) ns)"
proof (induction ns arbitrary: ls)
  case (Cons n ns)
  show ?case
  proof (cases "bit bits n \<and> map_of reg (of_nat n) \<noteq> None")
    case True
    then obtain l where l: "map_of reg (of_nat n) = Some l" by auto
    have "collect_labels bits reg (n # ns) = Inr ls \<longleftrightarrow>
        (\<exists>ks. collect_labels bits reg ns = Inr ks \<and> ls = l # ks)"
      using True l by (auto split: sum.splits)
    with True l Cons show ?thesis by auto
  qed (use Cons in auto)
qed auto

lemma bits_below_64: "(\<forall>n \<in> set [0..<64]. \<not> bit x n) \<longleftrightarrow> x = 0" for x :: u64
  by (auto simp: bit_eq_iff bit_imp_le_length)

lemma unat_of_nat_u8: "n < 64 \<Longrightarrow> unat (of_nat n :: u8) = n"
  by (simp add: unat_of_nat)

lemma one_le_word: "x \<noteq> 0 \<Longrightarrow> 1 \<le> x" for x :: u32
  by (simp add: word_le_nat_alt Suc_le_eq unat_gt_0)

lemma of_nat_u8_inj: "m < 64 \<Longrightarrow> n < 64 \<Longrightarrow> (of_nat m :: u8) = of_nat n \<longleftrightarrow> m = n"
  by (metis (mono_tags) unat_of_nat_u8)


lemma map_of_label_inj:
  assumes "distinct (map snd reg)" and "map_of reg j = Some l" and "map_of reg k = Some l"
  shows "j = k"
proof -
  have "(j, l) \<in> set reg" "(k, l) \<in> set reg" using assms(2,3) by (auto dest: map_of_SomeD)
  then show ?thesis using assms(1) by (metis distinct_map inj_onD snd_conv fst_conv)
qed

lemma DecodeTaintLabels_Inr:
  assumes "DecodeTaintLabels bits reg = Inr ls"
  shows "distinct ls" and "list_all valid_taint_label ls"
    and "\<And>n. bit bits n \<Longrightarrow> map_of reg (of_nat n) \<noteq> None"
    and "set ls = {l. \<exists>n. bit bits n \<and> map_of reg (of_nat n) = Some l}"
proof -
  have "distinct ls \<and> list_all valid_taint_label ls \<and> (\<forall>n. bit bits n \<longrightarrow> map_of reg (of_nat n) \<noteq> None) \<and>
      set ls = {l. \<exists>n. bit bits n \<and> map_of reg (of_nat n) = Some l}"
  proof (cases "bits = 0")
    case True
    with assms show ?thesis by (simp add: DecodeTaintLabels_def)
  next
    case False
    define ns where "ns = filter (bit bits) [0..<64]"
    from False assms have reg: "check_registry {} reg = None"
      and mapped: "\<forall>n \<in> set [0..<64]. bit bits n \<longrightarrow> map_of reg (of_nat n) \<noteq> None"
      and ls: "ls = sort (map (\<lambda>n. the (map_of reg (of_nat n))) ns)"
      unfolding ns_def
      by (auto simp: DecodeTaintLabels_def collect_labels_Inr split: if_splits option.splits sum.splits)
    note reg = reg [unfolded check_registry_None_iff]
    have bits: "bit bits n \<longleftrightarrow> n \<in> set ns" for n by (auto simp: ns_def dest: bit_imp_le_length)
    have all: "map_of reg (of_nat n) \<noteq> None" if "bit bits n" for n
      using mapped that bit_imp_le_length [of bits n] by auto
    have some: "map_of reg (of_nat n) = Some (the (map_of reg (of_nat n)))" if "n \<in> set ns" for n
      using all [of n] that bits by auto
    have "inj_on (\<lambda>n. the (map_of reg (of_nat n))) (set ns)"
    proof (rule inj_onI)
      fix m n
      assume mn: "m \<in> set ns" "n \<in> set ns" and eq: "the (map_of reg (of_nat m)) = the (map_of reg (of_nat n))"
      have "(of_nat m :: u8) = of_nat n"
        using map_of_label_inj [of reg "of_nat m" _ "of_nat n"] reg some [OF mn(1)] some [OF mn(2)] eq by metis
      with mn show "m = n" by (auto simp: ns_def of_nat_u8_inj)
    qed
    then have "distinct ls" by (simp add: ls distinct_map ns_def)
    moreover have set_ls: "set ls = {l. \<exists>n. bit bits n \<and> map_of reg (of_nat n) = Some l}"
      unfolding ls bits using some by force
    moreover have "list_all valid_taint_label ls"
      unfolding list_all_iff set_ls using reg by (auto simp: list_all_iff dest!: map_of_SomeD)
    ultimately show ?thesis using all by blast
  qed
  then show "distinct ls" "list_all valid_taint_label ls" "\<And>n. bit bits n \<Longrightarrow> map_of reg (of_nat n) \<noteq> None"
    "set ls = {l. \<exists>n. bit bits n \<and> map_of reg (of_nat n) = Some l}" by blast+
qed

text \<open>
  From kernel bits to the egress decision: when evidence is built from the taint bits of a
  process, the boundary accepts the egress exactly when subject, monitor and epoch are the admitted
  ones, the allowed labels are well formed, and every bit that the kernel has set is registered to
  an allowed label. No set bit is lost on the way, and an unregistered bit yields no evidence at all.
\<close>

theorem taint_bits_decide_egress:
  assumes "BuildTaintEvidence subject monitor epoch bits reg = Inr evidence"
  shows "CheckTaintEgress admitted evidence = None \<longleftrightarrow>
     tb_SubjectRef admitted = subject \<and> tb_MonitorRef admitted = monitor \<and> tb_MonitorEpoch admitted = epoch \<and>
     distinct (tb_AllowedLabels admitted) \<and> list_all valid_taint_label (tb_AllowedLabels admitted) \<and>
     (\<forall>n. bit bits n \<longrightarrow> (\<exists>l \<in> set (tb_AllowedLabels admitted). map_of reg (of_nat n) = Some l))"
proof -
  from assms obtain ls where ls: "DecodeTaintLabels bits reg = Inr ls"
    and ev: "evidence = \<lparr>te_SubjectRef = subject, te_MonitorRef = monitor, te_MonitorEpoch = epoch, te_Labels = ls\<rparr>"
    and refs: "\<not> blank subject" "\<not> blank monitor" "\<not> blank epoch"
    by (auto simp: BuildTaintEvidence_def split: if_splits sum.splits)
  note d = DecodeTaintLabels_Inr [OF ls]
  have "set ls \<subseteq> set (tb_AllowedLabels admitted) \<longleftrightarrow>
      (\<forall>n. bit bits n \<longrightarrow> (\<exists>l \<in> set (tb_AllowedLabels admitted). map_of reg (of_nat n) = Some l))"
    unfolding d(4) using d(3) by fastforce
  moreover have "CheckTaintEgress admitted evidence = None \<longleftrightarrow>
     tb_SubjectRef admitted = subject \<and> tb_MonitorRef admitted = monitor \<and> tb_MonitorEpoch admitted = epoch \<and>
     distinct (tb_AllowedLabels admitted) \<and> list_all valid_taint_label (tb_AllowedLabels admitted) \<and>
     set ls \<subseteq> set (tb_AllowedLabels admitted)"
    using d(1,2) refs by (auto simp: ev CheckTaintEgress_def guard_simps find_None_iff list_all_iff)
  ultimately show ?thesis by blast
qed

theorem taint_bits_decide_egress_witness:
  "CheckTaintEgress \<lparr>tb_SubjectRef = ''s'', tb_MonitorRef = ''m'', tb_MonitorEpoch = ''e'', tb_AllowedLabels = [''pii'']\<rparr>
     \<lparr>te_SubjectRef = ''s'', te_MonitorRef = ''m'', te_MonitorEpoch = ''e'', te_Labels = [''pii'', ''secret'']\<rparr> \<noteq> None"
proof -
  let ?reg = "[(0, ''secret''), (3, ''pii'')] :: (u8 \<times> string) list"
  have plain: "trim_space ''s'' = ''s''" "trim_space ''m'' = ''m''" "trim_space ''e'' = ''e''"
    "trim_space ''pii'' = ''pii''" "trim_space ''secret'' = ''secret''" by (simp_all add: plain_simps)
  have ls: "DecodeTaintLabels 9 ?reg = Inr [''pii'', ''secret'']"
    by (simp add: DecodeTaintLabels_def plain upt_rec bit_iff_odd less_list_code less_char_def)
  have "BuildTaintEvidence ''s'' ''m'' ''e'' 9 ?reg =
      Inr \<lparr>te_SubjectRef = ''s'', te_MonitorRef = ''m'', te_MonitorEpoch = ''e'', te_Labels = [''pii'', ''secret'']\<rparr>"
    by (simp add: BuildTaintEvidence_def plain ls)
  from taint_bits_decide_egress [OF this] have "?thesis \<longleftrightarrow> \<not> (\<forall>n. bit (9 :: u64) n \<longrightarrow> map_of ?reg (of_nat n) = Some ''pii'')"
    by (simp add: valid_taint_label_def plain)
  moreover have "bit (9 :: u64) 0" by simp
  ultimately show ?thesis by force
qed

text \<open>Decoding accepts exactly the encodings of events within the numbered kinds and operations.\<close>

lemma taint_event_decode_iff:
  "DecodeTaintEvent bs = Inr e \<longleftrightarrow> bs = binary_write (taint_event_fields e) \<and> tv_ABIVersion e = TaintABIVersion \<and>
     tv_Sequence e \<noteq> 0 \<and> tv_CgroupID e \<noteq> 0 \<and> tv_TGID e \<noteq> 0 \<and>
     TaintEventSourceRead \<le> tv_EventType e \<and> tv_EventType e \<le> TaintEventFileReadObserved \<and>
     TaintOperationRead \<le> tv_Operation e \<and> tv_Operation e \<le> TaintOperationConnect \<and> tv_Reserved e = 0"
proof -
  define ok where "ok e =
     (if tv_ABIVersion e \<noteq> TaintABIVersion then Some (ErrTaintABIInvalid ''unsupported taint ABI version'')
      else if tv_Sequence e = 0 \<or> tv_CgroupID e = 0 \<or> tv_TGID e = 0
      then Some (ErrTaintABIInvalid ''taint event identity is incomplete'')
      else if tv_EventType e < TaintEventSourceRead \<or> tv_EventType e > TaintEventFileReadObserved
      then Some (ErrTaintABIInvalid ''unsupported event type'')
      else if tv_Operation e < TaintOperationRead \<or> tv_Operation e > TaintOperationConnect
      then Some (ErrTaintABIInvalid ''unsupported operation'')
      else if tv_Reserved e \<noteq> 0 then Some (ErrTaintABIInvalid ''reserved field is non-zero'')
      else None)" for e :: taint_event
  have dec: "DecodeTaintEvent bs = (case read_fixed taint_event_layout 72 bs of
      Inl e \<Rightarrow> Inl e
    | Inr vs \<Rightarrow> (case ok (taint_event_of vs) of Some e \<Rightarrow> Inl e | None \<Rightarrow> Inr (taint_event_of vs)))"
    by (simp add: DecodeTaintEvent_def ok_def Let_def split: sum.split)
  show ?thesis unfolding dec taint_event_abi.decode_iff
    using taint_event_abi.marshal_ok [of e] by (auto simp: ok_def not_less one_le_word)
qed

text \<open>
  C40. The kernel announces that a taint source has lost its identity by an event of kind 9 and
  operation 5. The decoder accepts kinds up to 8 and operations up to 4 only, so every such event,
  whatever its other fields, is rejected by the reader of the taint evidence.
\<close>

theorem source_invalidation_undecodable:
  "isl (DecodeTaintEvent (binary_write (taint_event_fields
     (e\<lparr>tv_EventType := TaintEventSourceInvalidated, tv_Operation := TaintOperationIdentityChange\<rparr>))))"
proof (rule ccontr)
  let ?e = "e\<lparr>tv_EventType := TaintEventSourceInvalidated, tv_Operation := TaintOperationIdentityChange\<rparr>"
  let ?bs = "binary_write (taint_event_fields ?e)"
  assume "\<not> isl (DecodeTaintEvent ?bs)"
  then obtain d where "DecodeTaintEvent ?bs = Inr d" by (cases "DecodeTaintEvent ?bs") simp_all
  then have d: "?bs = binary_write (taint_event_fields d)" "tv_EventType d \<le> TaintEventFileReadObserved"
    by (simp_all add: taint_event_decode_iff)
  then have "?e = d"
    using taint_event_abi.marshal_inj [of ?e ?bs d] taint_event_abi.marshal_ok [of ?e] taint_event_abi.marshal_ok [of d]
    by simp
  with d(2) have "(9 :: u32) \<le> 8" by auto
  then show False by simp
qed

end
