(* ===== verification/Kernel_Continuity.thy ===== *)
theory Kernel_Continuity
  imports Kernel_Taint Easl_Runtime
begin

text \<open>
  Continuity of kernel evidence (\<open>internal/kernelfabric/continuity.go\<close>, \<open>taint_continuity.go\<close> and
  \<open>easl.go\<close>): trackers that follow the sequence numbers of the events read from a ring buffer and
  compare them with the kernel's own counters. The two trackers of the program, for enforcement and
  for taint events, are verified once, in the locale \<open>sequence_tracker\<close>. Counters are 64-bit words
  and wrap.
\<close>

section \<open>Data\<close>

datatype continuity_status =
    EvidenceContinuityIntact | EvidenceContinuityDegraded | EvidenceContinuityOther string

datatype continuity_reason = ContinuityReasonRingBufferLoss | ContinuityReasonSequenceGap

datatype continuity_error =
    ErrTrackerNil
  | ErrInvalidAccounting
  | ErrEvidenceSequenceInvalid
  | ErrEvidenceCounterReset

record continuity_assessment =
  ca_Status :: continuity_status
  ca_LastSequence :: u64
  ca_KernelSequence :: u64
  ca_EmittedEvents :: u64
  ca_LostEventsTotal :: u64
  ca_LostSinceBaseline :: u64
  ca_SequenceGaps :: u64
  ca_ReasonCodes :: "continuity_reason list"

record continuity_tracker =
  ct_baselineLost :: u64
  ct_lastSequence :: u64
  ct_sequenceGaps :: u64

section \<open>The tracker of enforcement events\<close>

definition NewContinuityTracker :: "evidence_accounting \<Rightarrow> continuity_error + continuity_tracker" where
  "NewContinuityTracker initial =
     (if ac_Emitted initial + ac_Lost initial > ac_Sequence initial then Inl ErrInvalidAccounting
      else Inr \<lparr>ct_baselineLost = ac_Lost initial, ct_lastSequence = 0, ct_sequenceGaps = 0\<rparr>)"

definition Observe ::
  "evidence_event \<Rightarrow> continuity_tracker \<Rightarrow> continuity_error option \<times> continuity_tracker" where
  "Observe event t =
     (if ee_ABIVersion event \<noteq> EvidenceEventVersion \<or> ee_EventType event \<noteq> EvidenceEventEnforcement \<or>
         ee_Sequence event = 0
      then (Some ErrEvidenceSequenceInvalid, t)
      else if ct_lastSequence t \<noteq> 0 \<and> ee_Sequence event \<le> ct_lastSequence t
      then (Some ErrEvidenceSequenceInvalid, t)
      else
        let t = (if ct_lastSequence t \<noteq> 0 \<and> ee_Sequence event > ct_lastSequence t + 1
                 then t\<lparr>ct_sequenceGaps := ct_sequenceGaps t + (ee_Sequence event - ct_lastSequence t - 1)\<rparr>
                 else t) in
        (None, t\<lparr>ct_lastSequence := ee_Sequence event\<rparr>))"

definition assessment_of ::
  "u64 \<Rightarrow> u64 \<Rightarrow> u64 \<Rightarrow> continuity_tracker \<Rightarrow> continuity_assessment" where
  "assessment_of kernelSequence emitted lost t =
     (let lostSince = lost - ct_baselineLost t in
      \<lparr>ca_Status = (if lostSince > 0 \<or> ct_sequenceGaps t > 0 then EvidenceContinuityDegraded
                    else EvidenceContinuityIntact),
       ca_LastSequence = ct_lastSequence t, ca_KernelSequence = kernelSequence, ca_EmittedEvents = emitted,
       ca_LostEventsTotal = lost, ca_LostSinceBaseline = lostSince, ca_SequenceGaps = ct_sequenceGaps t,
       ca_ReasonCodes = (if lostSince > 0 then [ContinuityReasonRingBufferLoss] else []) @
         (if ct_sequenceGaps t > 0 then [ContinuityReasonSequenceGap] else [])\<rparr>)"

definition Assess ::
  "evidence_accounting \<Rightarrow> continuity_tracker \<Rightarrow> continuity_error + continuity_assessment" where
  "Assess accounting t =
     (if ac_Emitted accounting + ac_Lost accounting > ac_Sequence accounting then Inl ErrInvalidAccounting
      else if ac_Lost accounting < ct_baselineLost t then Inl ErrEvidenceCounterReset
      else if ct_lastSequence t > ac_Sequence accounting then Inl ErrEvidenceSequenceInvalid
      else Inr (assessment_of (ac_Sequence accounting) (ac_Emitted accounting) (ac_Lost accounting) t))"

definition Checkpoint ::
  "evidence_accounting \<Rightarrow> continuity_tracker \<Rightarrow> continuity_error option \<times> continuity_tracker" where
  "Checkpoint accounting t =
     (if ac_Lost accounting < ct_baselineLost t then (Some ErrEvidenceCounterReset, t)
      else (None, t\<lparr>ct_baselineLost := ac_Lost accounting, ct_sequenceGaps := 0\<rparr>))"

section \<open>The tracker of taint events\<close>

definition NewTaintContinuityTracker :: "taint_accounting \<Rightarrow> continuity_error + continuity_tracker" where
  "NewTaintContinuityTracker initial =
     (if ta_Emitted initial + ta_Lost initial > ta_Sequence initial then Inl ErrInvalidAccounting
      else Inr \<lparr>ct_baselineLost = ta_Lost initial, ct_lastSequence = 0, ct_sequenceGaps = 0\<rparr>)"

definition Taint_Observe ::
  "taint_event \<Rightarrow> continuity_tracker \<Rightarrow> continuity_error option \<times> continuity_tracker" where
  "Taint_Observe event t =
     (if tv_ABIVersion event \<noteq> TaintABIVersion \<or> tv_Sequence event = 0 \<or>
         tv_EventType event < TaintEventSourceRead \<or> tv_EventType event > TaintEventFileReadObserved \<or>
         tv_Operation event < TaintOperationRead \<or> tv_Operation event > TaintOperationConnect
      then (Some ErrEvidenceSequenceInvalid, t)
      else if ct_lastSequence t \<noteq> 0 \<and> tv_Sequence event \<le> ct_lastSequence t
      then (Some ErrEvidenceSequenceInvalid, t)
      else
        let t = (if ct_lastSequence t \<noteq> 0 \<and> tv_Sequence event > ct_lastSequence t + 1
                 then t\<lparr>ct_sequenceGaps := ct_sequenceGaps t + (tv_Sequence event - ct_lastSequence t - 1)\<rparr>
                 else t) in
        (None, t\<lparr>ct_lastSequence := tv_Sequence event\<rparr>))"

definition Taint_Assess ::
  "taint_accounting \<Rightarrow> continuity_tracker \<Rightarrow> continuity_error + continuity_assessment" where
  "Taint_Assess accounting t =
     (if ta_Emitted accounting + ta_Lost accounting > ta_Sequence accounting then Inl ErrInvalidAccounting
      else if ta_Lost accounting < ct_baselineLost t then Inl ErrEvidenceCounterReset
      else if ct_lastSequence t > ta_Sequence accounting then Inl ErrEvidenceSequenceInvalid
      else Inr (assessment_of (ta_Sequence accounting) (ta_Emitted accounting) (ta_Lost accounting) t))"

definition Taint_Checkpoint ::
  "taint_accounting \<Rightarrow> continuity_tracker \<Rightarrow> continuity_error option \<times> continuity_tracker" where
  "Taint_Checkpoint accounting t =
     (if ta_Lost accounting < ct_baselineLost t then (Some ErrEvidenceCounterReset, t)
      else (None, t\<lparr>ct_baselineLost := ta_Lost accounting, ct_sequenceGaps := 0\<rparr>))"

section \<open>Continuity as evidence\<close>

definition ToEASLEvidence ::
  "continuity_assessment \<Rightarrow> string \<Rightarrow> string \<Rightarrow> time \<Rightarrow> duration \<Rightarrow> string + easl_evidence" where
  "ToEASLEvidence a evidenceID continuityAssumption observedAt validFor =
     (if evidenceID = [] then Inl ''kernel continuity evidence id is required''
      else if continuityAssumption = [] then Inl ''kernel continuity assumption id is required''
      else if is_zero observedAt then Inl ''kernel continuity observed_at is required''
      else if validFor \<le> 0 then Inl ''kernel continuity validity must be positive''
      else if ca_Status a \<noteq> EvidenceContinuityIntact \<and> ca_Status a \<noteq> EvidenceContinuityDegraded
      then Inl ''unsupported kernel continuity status''
      else Inr \<lparr>ee_ID = evidenceID, ee_ObservedAt = observedAt, ee_ExpiresAt = Some (time_add observedAt validFor),
                ee_Contradicts = (if ca_Status a = EvidenceContinuityDegraded then [continuityAssumption] else [])\<rparr>)"

section \<open>Both trackers\<close>

locale sequence_tracker =
  fixes observe :: "'ev \<Rightarrow> continuity_tracker \<Rightarrow> continuity_error option \<times> continuity_tracker"
    and seq_of :: "'ev \<Rightarrow> u64"
    and valid :: "'ev \<Rightarrow> bool"
  assumes refuse_invalid: "\<not> valid e \<Longrightarrow> observe e t = (Some ErrEvidenceSequenceInvalid, t)"
    and refuse_order: "ct_lastSequence t \<noteq> 0 \<Longrightarrow> seq_of e \<le> ct_lastSequence t \<Longrightarrow>
      observe e t = (Some ErrEvidenceSequenceInvalid, t)"
    and accept_first: "valid e \<Longrightarrow> ct_lastSequence t = 0 \<Longrightarrow>
      observe e t = (None, t\<lparr>ct_lastSequence := seq_of e\<rparr>)"
    and accept_next: "valid e \<Longrightarrow> ct_lastSequence t \<noteq> 0 \<Longrightarrow> ct_lastSequence t < seq_of e \<Longrightarrow>
      observe e t = (None, t\<lparr>ct_lastSequence := seq_of e,
        ct_sequenceGaps := ct_sequenceGaps t + (seq_of e - ct_lastSequence t - 1)\<rparr>)"
    and valid_seq: "valid e \<Longrightarrow> seq_of e \<noteq> 0"

fun observe_all ::
  "('ev \<Rightarrow> continuity_tracker \<Rightarrow> continuity_error option \<times> continuity_tracker) \<Rightarrow> 'ev list
    \<Rightarrow> continuity_tracker \<Rightarrow> continuity_tracker option" where
  "observe_all observe [] t = Some t"
| "observe_all observe (e # es) t =
     (case observe e t of (None, t') \<Rightarrow> observe_all observe es t' | (Some _, _) \<Rightarrow> None)"

lemma observe_all_append:
  "observe_all observe (xs @ ys) t =
     (case observe_all observe xs t of None \<Rightarrow> None | Some t' \<Rightarrow> observe_all observe ys t')"
  by (induction xs arbitrary: t) (auto split: prod.split option.split)

text \<open>A strictly increasing list is an interval exactly when it has as many elements as one.\<close>

lemma increasing_length:
  "sorted_wrt (<) xs \<Longrightarrow> xs \<noteq> [] \<Longrightarrow> hd xs + length xs \<le> Suc (last xs)" for xs :: "nat list"
proof (induction xs rule: rev_induct)
  case (snoc x xs)
  show ?case
  proof (cases "xs = []")
    case False
    with snoc have "hd xs + length xs \<le> Suc (last xs)" "last xs < x" by (simp_all add: sorted_wrt_append)
    with False show ?thesis by simp
  qed simp
qed simp

lemma increasing_interval:
  "sorted_wrt (<) xs \<Longrightarrow> xs \<noteq> [] \<Longrightarrow> Suc (last xs) = hd xs + length xs \<longleftrightarrow> xs = [hd xs..<hd xs + length xs]" for xs :: "nat list"
proof (induction xs rule: rev_induct)
  case (snoc x xs)
  show ?case
  proof (cases "xs = []")
    case False
    with snoc.prems have xs: "sorted_wrt (<) xs" "last xs < x" by (simp_all add: sorted_wrt_append)
    with increasing_length [of xs] snoc.IH False show ?thesis by auto
  qed simp
qed simp

context sequence_tracker
begin

lemma observed_step:
  assumes inc: "sorted_wrt (<) (map (\<lambda>e. unat (seq_of e)) evs)" and ne: "evs \<noteq> []"
    and last: "ct_lastSequence u = seq_of (last evs)" "ct_lastSequence u \<noteq> 0"
    and gaps: "unat (ct_sequenceGaps u) + unat (seq_of (hd evs)) + length evs = Suc (unat (ct_lastSequence u))"
    and step: "observe e u = (None, t)"
  shows "sorted_wrt (<) (map (\<lambda>e. unat (seq_of e)) (evs @ [e])) \<and> ct_lastSequence t = seq_of e \<and> ct_lastSequence t \<noteq> 0 \<and>
    ct_baselineLost t = ct_baselineLost u \<and>
    unat (ct_sequenceGaps t) + unat (seq_of (hd evs)) + Suc (length evs) = Suc (unat (ct_lastSequence t))"
proof -
  have valid: "valid e" using refuse_invalid [of e u] step by auto
  have less: "ct_lastSequence u < seq_of e"
    using refuse_order [of u e] last(2) step by (auto simp: not_le [symmetric])
  from accept_next [OF valid last(2) less] step
  have t: "t = u\<lparr>ct_lastSequence := seq_of e,
      ct_sequenceGaps := ct_sequenceGaps u + (seq_of e - ct_lastSequence u - 1)\<rparr>" by simp
  have nat_less: "unat (ct_lastSequence u) < unat (seq_of e)" using less by (simp add: word_less_nat_alt)
  have diff: "unat (seq_of e - ct_lastSequence u - 1) = unat (seq_of e) - unat (ct_lastSequence u) - 1"
  proof -
    have "unat (seq_of e - ct_lastSequence u) = unat (seq_of e) - unat (ct_lastSequence u)"
      using nat_less by (simp add: unat_sub_if')
    with nat_less show ?thesis by (simp add: unat_sub_if')
  qed
  have fits: "unat (ct_sequenceGaps u) + (unat (seq_of e) - unat (ct_lastSequence u) - 1) < 2 ^ 64"
    using gaps nat_less unsigned_less [of "seq_of e", where 'a = nat] ne by (cases evs) auto
  have "unat (ct_sequenceGaps t) = unat (ct_sequenceGaps u) + (unat (seq_of e) - unat (ct_lastSequence u) - 1)"
    using t diff fits by (simp add: unat_plus_if')
  then have "unat (ct_sequenceGaps t) + unat (seq_of (hd evs)) + Suc (length evs) = Suc (unat (ct_lastSequence t))"
    using gaps nat_less t by simp
  moreover have "\<forall>x \<in> set evs. unat (seq_of x) < unat (seq_of e)"
  proof -
    obtain ini l where evs: "evs = ini @ [l]" using ne by (cases evs rule: rev_cases) auto
    with inc have "\<forall>x \<in> set ini. unat (seq_of x) < unat (seq_of l)" by (auto simp: sorted_wrt_append)
    with evs last(1) nat_less show ?thesis by auto
  qed
  ultimately show ?thesis using inc t valid_seq [OF valid] by (auto simp: sorted_wrt_append)
qed

lemma observed_sequence:
  assumes "observe_all observe evs t0 = Some t" and t0: "ct_lastSequence t0 = 0" "ct_sequenceGaps t0 = 0"
    and "evs \<noteq> []"
  shows "sorted_wrt (<) (map (\<lambda>e. unat (seq_of e)) evs) \<and> ct_lastSequence t = seq_of (last evs) \<and>
    ct_lastSequence t \<noteq> 0 \<and> ct_baselineLost t = ct_baselineLost t0 \<and>
    unat (ct_sequenceGaps t) + unat (seq_of (hd evs)) + length evs = Suc (unat (ct_lastSequence t))"
  using assms(1,4)
proof (induction evs arbitrary: t rule: rev_induct)
  case (snoc e evs)
  from snoc.prems(1) obtain u where u: "observe_all observe evs t0 = Some u" and step: "observe e u = (None, t)"
    by (auto simp: observe_all_append split: option.splits prod.splits)
  show ?case
  proof (cases "evs = []")
    case True
    have valid: "valid e" using refuse_invalid [of e u] step by auto
    from True u have "u = t0" by simp
    with step accept_first [OF valid, of u] t0 have "t = t0\<lparr>ct_lastSequence := seq_of e\<rparr>" by simp
    with True valid_seq [OF valid] t0 show ?thesis by simp
  next
    case False
    have IH: "sorted_wrt (<) (map (\<lambda>e. unat (seq_of e)) evs)" "ct_lastSequence u = seq_of (last evs)"
      "ct_lastSequence u \<noteq> 0" "ct_baselineLost u = ct_baselineLost t0"
      "unat (ct_sequenceGaps u) + unat (seq_of (hd evs)) + length evs = Suc (unat (ct_lastSequence u))"
      using snoc.IH [OF u False] by blast+
    from observed_step [OF IH(1) False IH(2,3,5) step] IH(4) False show ?thesis by fastforce
  qed
qed simp

text \<open>The gaps are the missing numbers between the first and the last event; none means an interval.\<close>

lemma no_gaps_iff:
  assumes "observe_all observe evs t0 = Some t" and "ct_lastSequence t0 = 0" "ct_sequenceGaps t0 = 0" "evs \<noteq> []"
  shows "ct_sequenceGaps t = 0 \<longleftrightarrow>
    map (\<lambda>e. unat (seq_of e)) evs = [unat (seq_of (hd evs))..<unat (seq_of (hd evs)) + length evs]"
proof -
  note o = observed_sequence [OF assms]
  have "ct_sequenceGaps t = 0 \<longleftrightarrow> unat (ct_sequenceGaps t) = 0" by (simp add: unat_eq_0)
  also have "\<dots> \<longleftrightarrow> Suc (last (map (\<lambda>e. unat (seq_of e)) evs)) = hd (map (\<lambda>e. unat (seq_of e)) evs) + length (map (\<lambda>e. unat (seq_of e)) evs)"
    using o assms(4) by (auto simp: last_map hd_map)
  also have "\<dots> \<longleftrightarrow> map (\<lambda>e. unat (seq_of e)) evs = [unat (seq_of (hd evs))..<unat (seq_of (hd evs)) + length evs]"
    using increasing_interval [of "map (\<lambda>e. unat (seq_of e)) evs"] o assms(4) by (simp add: hd_map)
  finally show ?thesis .
qed

end

text \<open>Where the code skips the gap update, the gap is zero: no wrap-around can hide a gap.\<close>

lemma gap_zero: "(l :: u64) < s \<Longrightarrow> \<not> l + 1 < s \<Longrightarrow> s - l - 1 = 0"
proof -
  assume less: "l < s" and "\<not> l + 1 < s"
  then have "s \<le> l + 1" by simp
  moreover have "l + 1 \<le> s" using less by (rule inc_le)
  ultimately have "s = l + 1" by simp
  then show ?thesis by simp
qed

definition enforcement_event_ok :: "evidence_event \<Rightarrow> bool" where
  "enforcement_event_ok e \<longleftrightarrow> ee_ABIVersion e = EvidenceEventVersion \<and>
     ee_EventType e = EvidenceEventEnforcement \<and> ee_Sequence e \<noteq> 0"

definition taint_event_ok :: "taint_event \<Rightarrow> bool" where
  "taint_event_ok e \<longleftrightarrow> tv_ABIVersion e = TaintABIVersion \<and> tv_Sequence e \<noteq> 0 \<and>
     TaintEventSourceRead \<le> tv_EventType e \<and> tv_EventType e \<le> TaintEventFileReadObserved \<and>
     TaintOperationRead \<le> tv_Operation e \<and> tv_Operation e \<le> TaintOperationConnect"

interpretation enforcement: sequence_tracker Observe ee_Sequence enforcement_event_ok
proof unfold_locales
  fix e :: evidence_event and t :: continuity_tracker
  show "\<not> enforcement_event_ok e \<Longrightarrow> Observe e t = (Some ErrEvidenceSequenceInvalid, t)"
    unfolding Observe_def enforcement_event_ok_def by auto
  show "ct_lastSequence t \<noteq> 0 \<Longrightarrow> ee_Sequence e \<le> ct_lastSequence t \<Longrightarrow>
      Observe e t = (Some ErrEvidenceSequenceInvalid, t)"
    unfolding Observe_def by simp
  show "enforcement_event_ok e \<Longrightarrow> ct_lastSequence t = 0 \<Longrightarrow>
      Observe e t = (None, t\<lparr>ct_lastSequence := ee_Sequence e\<rparr>)"
    unfolding Observe_def enforcement_event_ok_def by simp
  show "enforcement_event_ok e \<Longrightarrow> ct_lastSequence t \<noteq> 0 \<Longrightarrow> ct_lastSequence t < ee_Sequence e \<Longrightarrow>
      Observe e t = (None, t\<lparr>ct_lastSequence := ee_Sequence e,
        ct_sequenceGaps := ct_sequenceGaps t + (ee_Sequence e - ct_lastSequence t - 1)\<rparr>)"
    using gap_zero [of "ct_lastSequence t" "ee_Sequence e"]
    unfolding Observe_def enforcement_event_ok_def by (simp add: Let_def)
  show "enforcement_event_ok e \<Longrightarrow> ee_Sequence e \<noteq> 0" unfolding enforcement_event_ok_def by simp
qed

interpretation taint: sequence_tracker Taint_Observe tv_Sequence taint_event_ok
proof unfold_locales
  fix e :: taint_event and t :: continuity_tracker
  show "\<not> taint_event_ok e \<Longrightarrow> Taint_Observe e t = (Some ErrEvidenceSequenceInvalid, t)"
    unfolding Taint_Observe_def taint_event_ok_def by (auto simp: not_le)
  show "ct_lastSequence t \<noteq> 0 \<Longrightarrow> tv_Sequence e \<le> ct_lastSequence t \<Longrightarrow>
      Taint_Observe e t = (Some ErrEvidenceSequenceInvalid, t)"
    unfolding Taint_Observe_def by simp
  show "taint_event_ok e \<Longrightarrow> ct_lastSequence t = 0 \<Longrightarrow>
      Taint_Observe e t = (None, t\<lparr>ct_lastSequence := tv_Sequence e\<rparr>)"
    unfolding Taint_Observe_def taint_event_ok_def by (auto simp: not_less)
  show "taint_event_ok e \<Longrightarrow> ct_lastSequence t \<noteq> 0 \<Longrightarrow> ct_lastSequence t < tv_Sequence e \<Longrightarrow>
      Taint_Observe e t = (None, t\<lparr>ct_lastSequence := tv_Sequence e,
        ct_sequenceGaps := ct_sequenceGaps t + (tv_Sequence e - ct_lastSequence t - 1)\<rparr>)"
    using gap_zero [of "ct_lastSequence t" "tv_Sequence e"]
    unfolding Taint_Observe_def taint_event_ok_def by (auto simp: Let_def not_less)
  show "taint_event_ok e \<Longrightarrow> tv_Sequence e \<noteq> 0" unfolding taint_event_ok_def by simp
qed

section \<open>What an intact assessment means\<close>

lemma assessment_of_intact:
  "ca_Status (assessment_of ks em lost t) = EvidenceContinuityIntact \<longleftrightarrow>
     lost = ct_baselineLost t \<and> ct_sequenceGaps t = 0"
  by (auto simp: assessment_of_def Let_def word_gt_0)

text \<open>
  A tracker that started from the kernel's counters and accepted the events \<open>evs\<close> is assessed
  intact exactly when the kernel lost no event since the start and the sequence numbers received are
  a gapless interval; what is reported as gaps is exactly the number of missing sequence numbers,
  with 64-bit counters.
\<close>

theorem continuity_intact_iff:
  assumes "NewContinuityTracker initial = Inr t0" and "observe_all Observe evs t0 = Some t" and "evs \<noteq> []"
    and "Assess acc t = Inr a"
  shows "(ca_Status a = EvidenceContinuityIntact \<longleftrightarrow> ac_Lost acc = ac_Lost initial \<and>
      map (\<lambda>e. unat (ee_Sequence e)) evs = [unat (ee_Sequence (hd evs))..<unat (ee_Sequence (hd evs)) + length evs])
    \<and> unat (ca_SequenceGaps a) = Suc (unat (ee_Sequence (last evs))) - unat (ee_Sequence (hd evs)) - length evs"
proof -
  have t0: "ct_lastSequence t0 = 0" "ct_sequenceGaps t0 = 0" "ct_baselineLost t0 = ac_Lost initial"
    using assms(1) by (auto simp: NewContinuityTracker_def split: if_splits)
  have a: "a = assessment_of (ac_Sequence acc) (ac_Emitted acc) (ac_Lost acc) t"
    using assms(4) by (auto simp: Assess_def split: if_splits)
  have seen: "ct_baselineLost t = ac_Lost initial" "ct_lastSequence t = ee_Sequence (last evs)"
    "unat (ct_sequenceGaps t) + unat (ee_Sequence (hd evs)) + length evs = Suc (unat (ct_lastSequence t))"
    using enforcement.observed_sequence [OF assms(2) t0(1,2) assms(3)] t0(3) by simp_all
  have gaps: "ca_SequenceGaps a = ct_sequenceGaps t" by (simp add: a assessment_of_def Let_def)
  have "ca_Status a = EvidenceContinuityIntact \<longleftrightarrow> ac_Lost acc = ac_Lost initial \<and> ct_sequenceGaps t = 0"
    unfolding a assessment_of_intact seen(1) by simp
  with enforcement.no_gaps_iff [OF assms(2) t0(1,2) assms(3)] gaps seen(2,3) show ?thesis by simp
qed


definition sample_event :: "u64 \<Rightarrow> evidence_event" where
  "sample_event n = \<lparr>ee_Sequence = n, ee_ObservedAtMonoNS = 0, ee_CgroupID = 0, ee_AuthorityTerm = 0,
     ee_DecisionEpoch = 0, ee_RevocationEpoch = 0, ee_DecisionIDHash = [], ee_ActionClass = 0, ee_Verdict = 0,
     ee_Reason = 0, ee_AddressFamily = 0, ee_DestinationAddr = [], ee_DestinationPort = 0, ee_Protocol = 0,
     ee_ABIVersion = EvidenceEventVersion, ee_EventType = EvidenceEventEnforcement\<rparr>"

text \<open>Events 4, 5 and 7 of a kernel that has emitted seven: one gap, so the evidence is degraded.\<close>

theorem continuity_intact_iff_witness:
  "\<exists>a. Assess \<lparr>ac_Sequence = 7, ac_Emitted = 7, ac_Lost = 0\<rparr>
      \<lparr>ct_baselineLost = 0, ct_lastSequence = 7, ct_sequenceGaps = 1\<rparr> = Inr a \<and>
    ca_Status a \<noteq> EvidenceContinuityIntact \<and> unat (ca_SequenceGaps a) = 1"
proof -
  let ?acc = "\<lparr>ac_Sequence = 7, ac_Emitted = 7, ac_Lost = 0\<rparr>"
  let ?t = "\<lparr>ct_baselineLost = 0, ct_lastSequence = 7, ct_sequenceGaps = 1\<rparr>"
  let ?evs = "[sample_event 4, sample_event 5, sample_event 7]"
  have "NewContinuityTracker \<lparr>ac_Sequence = 3, ac_Emitted = 3, ac_Lost = 0\<rparr> =
      Inr \<lparr>ct_baselineLost = 0, ct_lastSequence = 0, ct_sequenceGaps = 0\<rparr>"
    by (simp add: NewContinuityTracker_def)
  moreover have "observe_all Observe ?evs \<lparr>ct_baselineLost = 0, ct_lastSequence = 0, ct_sequenceGaps = 0\<rparr> = Some ?t"
    by (simp add: Observe_def sample_event_def)
  moreover have a: "Assess ?acc ?t = Inr (assessment_of 7 7 0 ?t)" by (simp add: Assess_def)
  ultimately have "ca_Status (assessment_of 7 7 0 ?t) \<noteq> EvidenceContinuityIntact \<and>
      unat (ca_SequenceGaps (assessment_of 7 7 0 ?t)) = 1"
    using continuity_intact_iff [of "\<lparr>ac_Sequence = 3, ac_Emitted = 3, ac_Lost = 0\<rparr>" _ ?evs ?t ?acc]
    by (simp add: sample_event_def upt_rec)
  with a show ?thesis by blast
qed

text \<open>The taint tracker has the same reading.\<close>

lemma taint_continuity_intact_iff:
  assumes "NewTaintContinuityTracker initial = Inr t0" and "observe_all Taint_Observe evs t0 = Some t"
    and "evs \<noteq> []" and "Taint_Assess acc t = Inr a"
  shows "ca_Status a = EvidenceContinuityIntact \<longleftrightarrow> ta_Lost acc = ta_Lost initial \<and>
      map (\<lambda>e. unat (tv_Sequence e)) evs =
        [unat (tv_Sequence (hd evs))..<unat (tv_Sequence (hd evs)) + length evs]"
proof -
  have t0: "ct_lastSequence t0 = 0" "ct_sequenceGaps t0 = 0" "ct_baselineLost t0 = ta_Lost initial"
    using assms(1) by (auto simp: NewTaintContinuityTracker_def split: if_splits)
  have a: "a = assessment_of (ta_Sequence acc) (ta_Emitted acc) (ta_Lost acc) t"
    using assms(4) by (auto simp: Taint_Assess_def split: if_splits)
  have "ct_baselineLost t = ta_Lost initial"
    using taint.observed_sequence [OF assms(2) t0(1,2) assms(3)] t0(3) by simp
  with taint.no_gaps_iff [OF assms(2) t0(1,2) assms(3)] show ?thesis by (simp add: a assessment_of_intact)
qed

end
