(* ===== verification/Quorum_Policy.thy ===== *)
theory Quorum_Policy
  imports Head_Store
begin

text \<open>
  The governed quorum policy of the external journal witnesses
  (\<open>internal/journal/quorum_genesis_binding.go\<close> and the policy states of \<open>quorum_rotation.go\<close>):
  how a quorum is derived from the capability envelope that Genesis pins, and the state machine of
  witness policies ACTIVE, JOINT_FROZEN, ACTIVE. The JSON decoder and the JCS canonicalizer (a third
  party package) are parameters.
\<close>

section \<open>Errors of head stores\<close>

text \<open>Errors are told apart by the sentinel they wrap.\<close>

datatype witness_error =
    WHead head_error
  | ErrExternalHeadQuorum
  | ErrQuorumPolicyMismatch
  | ErrQuorumRotationUnsafe
  | ErrQuorumRotationAmbiguous
  | ErrQuorumRotationContinuity
  | WError string

section \<open>The quorum trust policy\<close>

record policy_member =
  tm_ID :: string
  tm_TrustManifestHash :: string

record quorum_trust_policy =
  tp_Protocol :: string
  tp_Threshold :: int
  tp_Members :: "policy_member list"

record genesis_quorum_binding =
  gb_capabilityEnvelopeHash :: string
  gb_policyHash :: string
  gb_threshold :: int
  gb_members :: "(string \<times> string) list"

definition QuorumTrustPolicyVersion :: string where
  "QuorumTrustPolicyVersion = ''aegis-ege/quorum-trust-policy/v1''"

text \<open>The loop over the members: trimmed, with valid digests, and no identifier twice.\<close>

fun normalize_members :: "string set \<Rightarrow> policy_member list \<Rightarrow> witness_error + policy_member list" where
  "normalize_members seen [] = Inr []"
| "normalize_members seen (x # xs) =
     (let member = \<lparr>tm_ID = trim_space (tm_ID x), tm_TrustManifestHash = trim_space (tm_TrustManifestHash x)\<rparr> in
      if tm_ID member = [] then Inl (WError ''external witness quorum member id is required'')
      else if \<not> validSHA256Digest (tm_TrustManifestHash member)
      then Inl (WError ''external witness quorum member trust manifest hash must be sha256'')
      else if tm_ID member \<in> seen then Inl (WError ''duplicate external witness quorum member id'')
      else case normalize_members (insert (tm_ID member) seen) xs of
        Inl e \<Rightarrow> Inl e | Inr ms \<Rightarrow> Inr (member # ms))"

definition normalizeQuorumTrustPolicy :: "quorum_trust_policy \<Rightarrow> witness_error + quorum_trust_policy" where
  "normalizeQuorumTrustPolicy policy =
     (if tp_Protocol policy \<noteq> QuorumTrustPolicyVersion
      then Inl (WError ''external witness quorum protocol mismatch'')
      else if tp_Members policy = [] then Inl (WError ''external witness quorum requires members'')
      else if tp_Threshold policy \<le> int (length (tp_Members policy)) div 2 \<or>
        tp_Threshold policy > int (length (tp_Members policy))
      then Inl (WError ''external witness quorum threshold must be a strict majority'')
      else case normalize_members {} (tp_Members policy) of
        Inl e \<Rightarrow> Inl e
      | Inr ms \<Rightarrow> Inr (policy\<lparr>tp_Members := sort_key tm_ID ms\<rparr>))"

definition trust_policy_json :: "quorum_trust_policy \<Rightarrow> json" where
  "trust_policy_json p = JObj
     [(''protocol'', JStr (tp_Protocol p)), (''threshold'', JNum (tp_Threshold p)),
      (''members'', JArr (map (\<lambda>x. JObj [(''id'', JStr (tm_ID x)),
         (''trust_manifest_hash'', JStr (tm_TrustManifestHash x))]) (tp_Members p)))]"

text \<open>
  \<open>pc_canonical\<close> is marshalling followed by JCS formatting; \<open>pc_envelope\<close> decodes the raw
  \<open>external_witness_quorum\<close> field of an envelope (empty when absent), \<open>pc_policy\<close> a policy strictly.
\<close>

record policy_codec =
  pc_sha :: "string \<Rightarrow> string"
  pc_canonical :: "json \<Rightarrow> string option"
  pc_envelope :: "string \<Rightarrow> string option"
  pc_policy :: "string \<Rightarrow> quorum_trust_policy option"

definition quorumTrustPolicyDigest :: "policy_codec \<Rightarrow> quorum_trust_policy \<Rightarrow> witness_error + string" where
  "quorumTrustPolicyDigest pc policy =
     (case pc_canonical pc (trust_policy_json policy) of
        None \<Rightarrow> Inl (WError ''canonicalize quorum trust policy'')
      | Some canonical \<Rightarrow> Inr (sha256_tag (pc_sha pc) canonical))"

definition ParseGenesisQuorumBinding :: "policy_codec \<Rightarrow> string \<Rightarrow> string \<Rightarrow> witness_error + genesis_quorum_binding" where
  "ParseGenesisQuorumBinding pc capabilityEnvelope genesisCapabilityEnvelopeHash =
     (if \<not> validSHA256Digest genesisCapabilityEnvelopeHash
      then Inl (WError ''Genesis capability envelope hash must be a sha256 digest'')
      else let actualEnvelopeHash = sha256_tag (pc_sha pc) capabilityEnvelope in
        if actualEnvelopeHash \<noteq> genesisCapabilityEnvelopeHash
        then Inl (WError ''capability envelope hash mismatch'')
        else case pc_envelope pc capabilityEnvelope of
          None \<Rightarrow> Inl (WError ''decode capability envelope'')
        | Some raw \<Rightarrow>
          (if raw = [] \<or> raw = ''null''
           then Inl (WError ''capability envelope is missing external_witness_quorum'')
           else case pc_policy pc raw of
             None \<Rightarrow> Inl (WError ''decode external witness quorum policy'')
           | Some policy \<Rightarrow>
             (case normalizeQuorumTrustPolicy policy of
                Inl e \<Rightarrow> Inl e
              | Inr normalized \<Rightarrow>
                (case quorumTrustPolicyDigest pc normalized of
                   Inl e \<Rightarrow> Inl e
                 | Inr policyHash \<Rightarrow>
                   Inr \<lparr>gb_capabilityEnvelopeHash = actualEnvelopeHash, gb_policyHash = policyHash,
                        gb_threshold = tp_Threshold normalized,
                        gb_members = map (\<lambda>x. (tm_ID x, tm_TrustManifestHash x)) (tp_Members normalized)\<rparr>))))"

definition validateGenesisQuorumBinding :: "genesis_quorum_binding \<Rightarrow> witness_error option" where
  "validateGenesisQuorumBinding binding =
     (if gb_members binding = [] \<or> gb_threshold binding \<le> int (length (gb_members binding)) div 2 \<or>
         gb_threshold binding > int (length (gb_members binding)) \<or>
         \<not> validSHA256Digest (gb_policyHash binding) \<or> \<not> validSHA256Digest (gb_capabilityEnvelopeHash binding)
      then Some (WError ''valid Genesis quorum binding is required'') else None)"

section \<open>Policy states\<close>

datatype policy_phase = QuorumPolicyPhaseActive | QuorumPolicyPhaseJoint | QuorumPolicyPhaseOther string

record quorum_policy_state =
  qp_Phase :: policy_phase
  qp_GenesisEpoch :: u64
  qp_PolicyHash :: string
  qp_FromPolicyHash :: string
  qp_ToPolicyHash :: string

definition validateQuorumPolicyState :: "quorum_policy_state \<Rightarrow> witness_error option" where
  "validateQuorumPolicyState state =
     (if qp_GenesisEpoch state = 0 then Some (WError ''quorum policy Genesis epoch must be positive'')
      else if \<not> validSHA256Digest (qp_PolicyHash state) then Some (WError ''quorum policy hash must be sha256'')
      else case qp_Phase state of
        QuorumPolicyPhaseActive \<Rightarrow>
          (if qp_FromPolicyHash state \<noteq> [] \<or> qp_ToPolicyHash state \<noteq> []
           then Some (WError ''active quorum policy cannot carry transition endpoints'') else None)
      | QuorumPolicyPhaseJoint \<Rightarrow>
          (if \<not> validSHA256Digest (qp_FromPolicyHash state) \<or> \<not> validSHA256Digest (qp_ToPolicyHash state)
           then Some (WError ''joint quorum policy must bind old and new policy hashes'') else None)
      | QuorumPolicyPhaseOther _ \<Rightarrow> Some (WError ''unsupported quorum policy phase''))"

definition ValidateQuorumPolicyTransition :: "quorum_policy_state \<Rightarrow> quorum_policy_state \<Rightarrow> witness_error option" where
  "ValidateQuorumPolicyTransition current nxt =
     (if current = nxt then None
      else case validateQuorumPolicyState current of
        Some e \<Rightarrow> Some e
      | None \<Rightarrow>
        (case validateQuorumPolicyState nxt of
           Some e \<Rightarrow> Some e
         | None \<Rightarrow>
           (if qp_Phase current = QuorumPolicyPhaseActive \<and> qp_Phase nxt = QuorumPolicyPhaseJoint
            then if qp_GenesisEpoch nxt \<le> qp_GenesisEpoch current
                 then Some (WError ''joint transition must advance Genesis epoch'')
                 else if qp_FromPolicyHash nxt \<noteq> qp_PolicyHash current
                 then Some (WError ''joint transition does not bind current policy'')
                 else None
            else if qp_Phase current = QuorumPolicyPhaseJoint \<and> qp_Phase nxt = QuorumPolicyPhaseActive
            then if qp_GenesisEpoch nxt \<noteq> qp_GenesisEpoch current
                 then Some (WError ''joint activation must stay in the target Genesis epoch'')
                 else if qp_PolicyHash nxt \<noteq> qp_ToPolicyHash current
                 then Some (WError ''joint activation does not match committed target policy'')
                 else None
            else Some (WError ''direct or rollback quorum policy transition is forbidden''))))"

definition active_policy_state :: "u64 \<Rightarrow> string \<Rightarrow> quorum_policy_state" where
  "active_policy_state genesisEpoch policyHash =
     \<lparr>qp_Phase = QuorumPolicyPhaseActive, qp_GenesisEpoch = genesisEpoch, qp_PolicyHash = policyHash,
      qp_FromPolicyHash = [], qp_ToPolicyHash = []\<rparr>"

definition ActivePolicy :: "genesis_quorum_binding \<Rightarrow> u64 \<Rightarrow> witness_error + quorum_policy_state" where
  "ActivePolicy b genesisEpoch =
     (case validateGenesisQuorumBinding b of
        Some e \<Rightarrow> Inl e
      | None \<Rightarrow>
        (let policy = active_policy_state genesisEpoch (gb_policyHash b) in
         case validateQuorumPolicyState policy of Some e \<Rightarrow> Inl e | None \<Rightarrow> Inr policy))"

section \<open>What a parsed binding guarantees\<close>

definition strict_majority :: "genesis_quorum_binding \<Rightarrow> bool" where
  "strict_majority b \<longleftrightarrow> distinct (map fst (gb_members b)) \<and> gb_members b \<noteq> [] \<and>
     int (length (gb_members b)) < 2 * gb_threshold b \<and> gb_threshold b \<le> int (length (gb_members b))"

lemma half_less_iff: "n div 2 < t \<longleftrightarrow> n < 2 * t" for n t :: int
  by linarith

lemma normalize_members_ok:
  "normalize_members seen xs = Inr ms \<Longrightarrow>
     distinct (map tm_ID ms) \<and> seen \<inter> set (map tm_ID ms) = {} \<and> length ms = length xs \<and>
     (\<forall>x \<in> set ms. \<not> blank (tm_ID x) \<and> validSHA256Digest (tm_TrustManifestHash x))"
proof (induction xs arbitrary: seen ms)
  case (Cons x xs)
  let ?m = "\<lparr>tm_ID = trim_space (tm_ID x), tm_TrustManifestHash = trim_space (tm_TrustManifestHash x)\<rparr>"
  from Cons.prems obtain ns where ns: "normalize_members (insert (tm_ID ?m) seen) xs = Inr ns" "ms = ?m # ns"
    "tm_ID ?m \<notin> seen" "tm_ID ?m \<noteq> []" "validSHA256Digest (tm_TrustManifestHash ?m)"
    by (auto simp: Let_def split: if_splits sum.splits)
  from Cons.IH [OF ns(1)] ns(2-) show ?case by auto
qed simp

lemma validateGenesisQuorumBinding_None:
  "validateGenesisQuorumBinding b = None \<longleftrightarrow> gb_members b \<noteq> [] \<and>
     int (length (gb_members b)) < 2 * gb_threshold b \<and> gb_threshold b \<le> int (length (gb_members b)) \<and>
     validSHA256Digest (gb_policyHash b) \<and> validSHA256Digest (gb_capabilityEnvelopeHash b)"
  by (auto simp: validateGenesisQuorumBinding_def not_le half_less_iff)

lemma ParseGenesisQuorumBinding_majority:
  assumes "ParseGenesisQuorumBinding pc env h = Inr b"
  shows "strict_majority b \<and> gb_capabilityEnvelopeHash b = h \<and> sha256_tag (pc_sha pc) env = h"
proof -
  from assms obtain raw policy normalized ms where
    p: "pc_envelope pc env = Some raw" "pc_policy pc raw = Some policy"
      "normalizeQuorumTrustPolicy policy = Inr normalized" and
    ms: "normalize_members {} (tp_Members policy) = Inr ms" "normalized = policy\<lparr>tp_Members := sort_key tm_ID ms\<rparr>"
    and t: "int (length (tp_Members policy)) < 2 * tp_Threshold policy"
      "tp_Threshold policy \<le> int (length (tp_Members policy))" "tp_Members policy \<noteq> []"
    and b: "gb_threshold b = tp_Threshold normalized"
      "gb_members b = map (\<lambda>x. (tm_ID x, tm_TrustManifestHash x)) (tp_Members normalized)"
      "gb_capabilityEnvelopeHash b = h" "sha256_tag (pc_sha pc) env = h"
    by (auto simp: ParseGenesisQuorumBinding_def normalizeQuorumTrustPolicy_def Let_def not_le half_less_iff
        split: if_splits option.splits sum.splits)
  have "distinct (map fst (gb_members b))"
    using normalize_members_ok [OF ms(1)] by (simp add: b ms(2) comp_def distinct_map)
  moreover have len: "length (gb_members b) = length (tp_Members policy)"
    using normalize_members_ok [OF ms(1)] by (simp add: b ms(2))
  moreover have "gb_members b \<noteq> []" using len t(3) by (cases "gb_members b") auto
  moreover have "gb_threshold b = tp_Threshold policy" by (simp add: b(1) ms(2))
  ultimately show ?thesis using t(1,2) b(3,4) by (simp add: strict_majority_def)
qed

text \<open>Quorums of a strict majority intersect, also after removing the faulty members.\<close>

lemma quorums_intersect:
  assumes "finite M" and "A \<subseteq> M" and "B \<subseteq> M" and "F \<subseteq> M" and "card M + card F < card A + card B"
  shows "\<exists>x. x \<in> A \<and> x \<in> B \<and> x \<notin> F"
proof (rule ccontr)
  assume none: "\<not> ?thesis"
  note fin = finite_subset [OF assms(2,1)] finite_subset [OF assms(3,1)] finite_subset [OF assms(4,1)]
  have "card A + card B = card (A \<union> B) + card (A \<inter> B)" by (rule card_Un_Int [OF fin(1,2)])
  moreover have "card (A \<union> B) \<le> card M" using assms(1-3) by (simp add: card_mono)
  moreover have "card (A \<inter> B) \<le> card F" using none fin by (intro card_mono) auto
  ultimately show False using assms(5) by linarith
qed

section \<open>The policy state machine\<close>

text \<open>A policy transition that is accepted never goes back to an earlier Genesis epoch.\<close>

lemma transition_epoch: "ValidateQuorumPolicyTransition p q = None \<Longrightarrow> qp_GenesisEpoch p \<le> qp_GenesisEpoch q"
  by (auto simp: ValidateQuorumPolicyTransition_def split: if_splits option.splits)

definition policy_rank :: "quorum_policy_state \<Rightarrow> nat" where
  "policy_rank p = 2 * unat (qp_GenesisEpoch p) + (if qp_Phase p = QuorumPolicyPhaseActive then 1 else 0)"

lemma transition_rank:
  assumes "ValidateQuorumPolicyTransition p q = None" and "p \<noteq> q"
  shows "policy_rank p < policy_rank q"
proof -
  have "unat (qp_GenesisEpoch p) < unat (qp_GenesisEpoch q)"
    if "qp_GenesisEpoch p < qp_GenesisEpoch q" using that by (simp add: word_less_nat_alt)
  with assms show ?thesis
    by (auto simp: ValidateQuorumPolicyTransition_def policy_rank_def not_le split: if_splits option.splits)
qed

end
