(* ===== verification/Quorum.thy ===== *)
theory Quorum
  imports Quorum_Policy
begin

text \<open>
  The quorum of external head witnesses (\<open>internal/journal/quorum_head_store.go\<close>). \<open>Load\<close>,
  \<open>CompareAndAdvance\<close> and \<open>ConvergeAuthorizedTransition\<close> start one goroutine per member and collect
  the results in a select loop; goroutines go on after the call has returned. The loops are
  functions of the results received; a system of any number of such calls, with the witnesses'
  common world, runs the schedule given by a list of actions, so that every interleaving of
  goroutines, calls and outside activity is a list of actions.
\<close>

section \<open>Members and stores\<close>

type_synonym 's head_result = "(witness_error + external_head) \<times> 's"

record 's fenced_store =
  pf_LoadForQuorum :: "string \<Rightarrow> quorum_policy_state \<Rightarrow> 's \<Rightarrow> 's head_result"
  pf_CompareAndAdvanceForQuorum :: "quorum_policy_state \<Rightarrow> external_head \<Rightarrow> external_head \<Rightarrow> 's \<Rightarrow> 's head_result"
  pf_CurrentQuorumPolicy :: "'s \<Rightarrow> (witness_error + quorum_policy_state) \<times> 's"
  pf_ObserveQuorumRotationHead :: "string \<Rightarrow> 's \<Rightarrow> 's head_result"
  pf_CompareAndTransitionQuorumPolicy ::
    "quorum_policy_state \<Rightarrow> quorum_policy_state \<Rightarrow> string \<Rightarrow> external_head \<Rightarrow> 's \<Rightarrow> witness_error option \<times> 's"

text \<open>
  A member store; \<open>ms_Trust\<close> and \<open>ms_Fenced\<close> say whether it has the optional interfaces
  \<open>QuorumTrustIdentityProvider\<close> and \<open>QuorumPolicyFencedStore\<close>.
\<close>

record 's member_store =
  ms_Load :: "string \<Rightarrow> 's \<Rightarrow> 's head_result"
  ms_CompareAndAdvance :: "external_head \<Rightarrow> external_head \<Rightarrow> 's \<Rightarrow> 's head_result"
  ms_Trust :: "string option"
  ms_Fenced :: "'s fenced_store option"

record 's quorum_member =
  qm_ID :: string
  qm_Store :: "'s member_store"

record 's quorum_head_store =
  qs_members :: "'s quorum_member list"
  qs_threshold :: int
  qs_policyHash :: string
  qs_capabilityEnvelopeHash :: string
  qs_governedPolicy :: "quorum_policy_state option"

text \<open>The members as configured, with a store that may be \<open>nil\<close>.\<close>

fun check_members ::
  "genesis_quorum_binding \<Rightarrow> string set \<Rightarrow> (string \<times> 's member_store option) list \<Rightarrow> witness_error + 's quorum_member list" where
  "check_members binding seen [] = Inr []"
| "check_members binding seen ((i, store) # rest) =
     (let i = trim_space i in
      if i = [] then Inl (WError ''quorum witness member id is required'')
      else case store of
        None \<Rightarrow> Inl (WError ''quorum witness store is required'')
      | Some st \<Rightarrow>
        (if i \<in> seen then Inl (WError ''duplicate quorum witness member id'')
         else case map_of (gb_members binding) i of
           None \<Rightarrow> Inl (WError ''quorum witness is not authorized by Genesis binding'')
         | Some wantTrustManifestHash \<Rightarrow>
           (case ms_Trust st of
              None \<Rightarrow> Inl (WError ''quorum witness store does not expose a governed trust identity'')
            | Some trust \<Rightarrow>
              (if trim_space trust \<noteq> wantTrustManifestHash
               then Inl (WError ''quorum witness store trust manifest hash does not match Genesis binding'')
               else case check_members binding (insert i seen) rest of
                 Inl e \<Rightarrow> Inl e
               | Inr ms \<Rightarrow> Inr (\<lparr>qm_ID = i, qm_Store = st\<rparr> # ms)))))"

definition NewQuorumHeadStore ::
  "(string \<times> 's member_store option) list \<Rightarrow> genesis_quorum_binding \<Rightarrow> witness_error + 's quorum_head_store" where
  "NewQuorumHeadStore members binding =
     (case validateGenesisQuorumBinding binding of
        Some e \<Rightarrow> Inl e
      | None \<Rightarrow>
        (if length members \<noteq> length (gb_members binding)
         then Inl (WError ''quorum membership does not match Genesis binding'')
         else case check_members binding {} members of
           Inl e \<Rightarrow> Inl e
         | Inr copied \<Rightarrow>
           Inr \<lparr>qs_members = sort_key qm_ID copied, qs_threshold = gb_threshold binding,
                qs_policyHash = gb_policyHash binding,
                qs_capabilityEnvelopeHash = gb_capabilityEnvelopeHash binding, qs_governedPolicy = None\<rparr>))"

definition NewGovernedQuorumHeadStore ::
  "(string \<times> 's member_store option) list \<Rightarrow> genesis_quorum_binding \<Rightarrow> u64 \<Rightarrow> witness_error + 's quorum_head_store" where
  "NewGovernedQuorumHeadStore members binding genesisEpoch =
     (case NewQuorumHeadStore members binding of
        Inl e \<Rightarrow> Inl e
      | Inr store \<Rightarrow>
        (let policy = active_policy_state genesisEpoch (gb_policyHash binding) in
         case validateQuorumPolicyState policy of
           Some e \<Rightarrow> Inl e
         | None \<Rightarrow>
           (if list_ex (\<lambda>m. ms_Fenced (qm_Store m) = None) (qs_members store)
            then Inl (WError ''quorum witness does not enforce governed policy epochs'')
            else Inr (store\<lparr>qs_governedPolicy := Some policy\<rparr>))))"

definition loadMember :: "'s quorum_head_store \<Rightarrow> 's quorum_member \<Rightarrow> string \<Rightarrow> 's \<Rightarrow> 's head_result" where
  "loadMember q member journalID s =
     (case qs_governedPolicy q of
        Some policy \<Rightarrow>
          (case ms_Fenced (qm_Store member) of
             None \<Rightarrow> (Inl ErrQuorumPolicyMismatch, s)
           | Some store \<Rightarrow> pf_LoadForQuorum store journalID policy s)
      | None \<Rightarrow> ms_Load (qm_Store member) journalID s)"

definition compareAndAdvanceMember ::
  "'s quorum_head_store \<Rightarrow> 's quorum_member \<Rightarrow> external_head \<Rightarrow> external_head \<Rightarrow> 's \<Rightarrow> 's head_result" where
  "compareAndAdvanceMember q member previous nxt s =
     (case qs_governedPolicy q of
        Some policy \<Rightarrow>
          (case ms_Fenced (qm_Store member) of
             None \<Rightarrow> (Inl ErrQuorumPolicyMismatch, s)
           | Some store \<Rightarrow> pf_CompareAndAdvanceForQuorum store policy previous nxt s)
      | None \<Rightarrow> ms_CompareAndAdvance (qm_Store member) previous nxt s)"

section \<open>Observations\<close>

text \<open>Journal, sequence, head hash and key: what witnesses have to agree on.\<close>

record quorum_semantic_head =
  sh_JournalID :: string
  sh_Sequence :: u64
  sh_HeadHash :: string
  sh_KeyID :: string

definition semanticExternalHead :: "external_head \<Rightarrow> quorum_semantic_head" where
  "semanticExternalHead h = \<lparr>sh_JournalID = eh_JournalID h, sh_Sequence = eh_Sequence h,
     sh_HeadHash = eh_HeadHash h, sh_KeyID = eh_KeyID h\<rparr>"

definition sameSemanticHead :: "external_head \<Rightarrow> external_head \<Rightarrow> bool" where
  "sameSemanticHead l r \<longleftrightarrow> semanticExternalHead l = semanticExternalHead r"

record 's observation =
  mo_member :: "'s quorum_member"
  mo_head :: external_head
  mo_err :: "witness_error option"
  mo_notFound :: bool

record 's advance_result =
  ar_member :: "'s quorum_member"
  ar_head :: external_head
  ar_err :: "witness_error option"

text \<open>The bodies of the goroutines of \<open>loadAll\<close> and of an advance.\<close>

definition load_goroutine ::
  "'s quorum_head_store \<Rightarrow> 's quorum_member \<Rightarrow> string \<Rightarrow> 's \<Rightarrow> 's observation \<times> 's" where
  "load_goroutine q member journalID s =
     (case loadMember q member journalID s of
        (Inl e, s') \<Rightarrow> (\<lparr>mo_member = member, mo_head = zero_head, mo_err = Some e,
                        mo_notFound = (e = WHead ErrExternalHeadNotFound)\<rparr>, s')
      | (Inr h, s') \<Rightarrow> (\<lparr>mo_member = member, mo_head = h, mo_err = None, mo_notFound = False\<rparr>, s'))"

definition advance_goroutine ::
  "'s quorum_head_store \<Rightarrow> 's quorum_member \<Rightarrow> external_head \<Rightarrow> external_head \<Rightarrow> 's \<Rightarrow> 's advance_result \<times> 's" where
  "advance_goroutine q member memberPrevious memberNext s =
     (case compareAndAdvanceMember q member memberPrevious memberNext s of
        (Inl e, s') \<Rightarrow> (\<lparr>ar_member = member, ar_head = zero_head, ar_err = Some e\<rparr>, s')
      | (Inr h, s') \<Rightarrow> (\<lparr>ar_member = member, ar_head = h, ar_err = None\<rparr>, s'))"

definition observationMatchesExpected :: "'s observation \<Rightarrow> external_head \<Rightarrow> bool" where
  "observationMatchesExpected observation expected \<longleftrightarrow>
     (if eh_JournalID expected = [] then mo_notFound observation
      else if mo_err observation \<noteq> None \<or> mo_notFound observation then False
      else sameSemanticHead (mo_head observation) expected)"

text \<open>\<open>enc\<close> renders a document as unpadded base64 of its JSON.\<close>

definition quorumHeadStoreVersion :: string where
  "quorumHeadStoreVersion = ''aegis-ege/quorum-head-store/v1''"

fun version_members :: "string set \<Rightarrow> 's observation list \<Rightarrow> (string \<times> string) list" where
  "version_members seen [] = []"
| "version_members seen (ob # obs) =
     (let i = qm_ID (mo_member ob) in
      if i \<in> seen then version_members seen obs
      else (i, eh_StoreVersion (mo_head ob)) # version_members (insert i seen) obs)"

definition encodeQuorumStoreVersion ::
  "(json \<Rightarrow> string option) \<Rightarrow> 's observation list \<Rightarrow> int \<Rightarrow> string \<Rightarrow> witness_error + string" where
  "encodeQuorumStoreVersion enc observations threshold policyHash =
     (let members = sort_key fst (version_members {} observations) in
      case enc (JObj [(''protocol'', JStr quorumHeadStoreVersion), (''policy_hash'', JStr policyHash),
                (''threshold'', JNum threshold),
                (''members'', JArr (map (\<lambda>(i, v). JObj [(''member_id'', JStr i), (''store_version'', JStr v)]) members))]) of
        None \<Rightarrow> Inl (WError ''encode quorum store version'')
      | Some payload \<Rightarrow> Inr (quorumHeadStoreVersion @ '':'' @ payload))"

definition aggregateQuorumHead ::
  "(json \<Rightarrow> string option) \<Rightarrow> quorum_semantic_head \<Rightarrow> 's observation list \<Rightarrow> int \<Rightarrow> string \<Rightarrow> witness_error + external_head" where
  "aggregateQuorumHead enc semantic observations threshold policyHash =
     (if int (length observations) < threshold then Inl ErrExternalHeadQuorum
      else case encodeQuorumStoreVersion enc observations threshold policyHash of
        Inl e \<Rightarrow> Inl e
      | Inr version \<Rightarrow>
          Inr \<lparr>eh_JournalID = sh_JournalID semantic, eh_Sequence = sh_Sequence semantic,
               eh_HeadHash = sh_HeadHash semantic, eh_KeyID = sh_KeyID semantic, eh_StoreVersion = version\<rparr>)"

section \<open>The select loops\<close>

text \<open>
  A loop receives one result at a time. It answers with the goroutines it launches (the member, the
  head it expects there and the next head), its new local state and, when it returns, the result.
\<close>

type_synonym 's job = "'s quorum_member \<times> external_head \<times> external_head"
type_synonym outcome = "(witness_error + external_head) option"

subsection \<open>Load\<close>

record 's load_state =
  ls_groups :: "quorum_semantic_head \<Rightarrow> 's observation list"
  ls_notFound :: int
  ls_remaining :: nat

definition load_receive ::
  "(json \<Rightarrow> string option) \<Rightarrow> 's quorum_head_store \<Rightarrow> string \<Rightarrow> 's observation \<Rightarrow> 's load_state \<Rightarrow> 's load_state \<times> outcome" where
  "load_receive enc q journalID ob st0 =
     (let st = st0\<lparr>ls_remaining := ls_remaining st0 - 1\<rparr>;
          (st', r) =
            (if mo_notFound ob
             then (st\<lparr>ls_notFound := ls_notFound st + 1\<rparr>,
                   if ls_notFound st + 1 \<ge> qs_threshold q then Some (Inl (WHead ErrExternalHeadNotFound)) else None)
             else if mo_err ob \<noteq> None then (st, None)
             else let semantic = semanticExternalHead (mo_head ob) in
               if sh_JournalID semantic \<noteq> journalID then (st, None)
               else let group = ls_groups st semantic @ [ob] in
                 (st\<lparr>ls_groups := (ls_groups st)(semantic := group)\<rparr>,
                  if int (length group) \<ge> qs_threshold q
                  then Some (aggregateQuorumHead enc semantic group (qs_threshold q) (qs_policyHash q)) else None))
      in (st', if r = None \<and> ls_remaining st' = 0 then Some (Inl ErrExternalHeadQuorum) else r))"

subsection \<open>CompareAndAdvance\<close>

record 's cas_state =
  cs_candidates :: "'s observation list"
  cs_launched :: "string set"
  cs_successes :: "'s observation list"
  cs_loadReturned :: nat
  cs_advancePending :: nat
  cs_quorumEstablished :: bool

text \<open>The checks before the loop, with the expectation that the loop then uses.\<close>

definition advance_precheck :: "external_head \<Rightarrow> external_head \<Rightarrow> witness_error + external_head" where
  "advance_precheck previous nxt =
     (if blank (eh_JournalID nxt) then Inl (WError ''journal id is required'')
      else if eh_JournalID previous \<noteq> [] \<and> eh_JournalID previous \<noteq> eh_JournalID nxt
      then Inl (WHead ErrExternalHeadConflict)
      else let previous =
          (if eh_JournalID previous \<noteq> [] \<and> eh_Sequence previous = 0 \<and> eh_HeadHash previous = [] \<and>
              eh_KeyID previous = [] \<and> eh_StoreVersion previous = [] then zero_head else previous) in
        if eh_JournalID previous = []
        then if previous \<noteq> zero_head \<or> eh_Sequence nxt \<noteq> 0 then Inl (WHead ErrExternalHeadConflict) else Inr previous
        else if eh_Sequence nxt < eh_Sequence previous then Inl (WHead ErrExternalHeadConflict)
        else if eh_Sequence nxt = eh_Sequence previous \<and>
          (eh_HeadHash nxt \<noteq> eh_HeadHash previous \<or> eh_KeyID nxt \<noteq> eh_KeyID previous)
        then Inl (WHead ErrExternalHeadConflict)
        else Inr previous)"

definition launch :: "external_head \<Rightarrow> 's observation \<Rightarrow> 's job list \<times> 's cas_state \<Rightarrow> 's job list \<times> 's cas_state" where
  "launch nxt observation = (\<lambda>(jobs, st).
     if qm_ID (mo_member observation) \<in> cs_launched st then (jobs, st)
     else (jobs @ [(mo_member observation, if mo_notFound observation then zero_head else mo_head observation,
                    nxt\<lparr>eh_StoreVersion := []\<rparr>)],
           st\<lparr>cs_launched := insert (qm_ID (mo_member observation)) (cs_launched st),
              cs_advancePending := cs_advancePending st + 1\<rparr>))"

text \<open>The tests at the head of the loop.\<close>

definition cas_check ::
  "(json \<Rightarrow> string option) \<Rightarrow> 's quorum_head_store \<Rightarrow> external_head \<Rightarrow> 's cas_state \<Rightarrow> outcome" where
  "cas_check enc q nxt st =
     (if int (length (cs_successes st)) \<ge> qs_threshold q
      then Some (aggregateQuorumHead enc (semanticExternalHead nxt) (cs_successes st) (qs_threshold q) (qs_policyHash q))
      else if cs_loadReturned st = length (qs_members q) \<and> cs_advancePending st = 0
      then Some (Inl (if cs_quorumEstablished st then ErrExternalHeadQuorum else WHead ErrExternalHeadConflict))
      else None)"

text \<open>A load result: a candidate if it matches, and a launch once the candidates are a quorum.\<close>

definition cas_candidate ::
  "'s quorum_head_store \<Rightarrow> external_head \<Rightarrow> external_head \<Rightarrow> 's observation \<Rightarrow> 's cas_state \<Rightarrow> 's job list \<times> 's cas_state" where
  "cas_candidate q previous nxt observation st =
     (if observationMatchesExpected observation previous
      then let st1 = st\<lparr>cs_candidates := cs_candidates st @ [observation]\<rparr> in
        if cs_quorumEstablished st1 then launch nxt observation ([], st1)
        else if int (length (cs_candidates st1)) \<ge> qs_threshold q
        then fold (launch nxt) (cs_candidates st1) ([], st1\<lparr>cs_quorumEstablished := True\<rparr>)
        else ([], st1)
      else ([], st))"

definition cas_on_load ::
  "(json \<Rightarrow> string option) \<Rightarrow> 's quorum_head_store \<Rightarrow> external_head \<Rightarrow> external_head \<Rightarrow> 's observation \<Rightarrow> 's cas_state
    \<Rightarrow> 's job list \<times> 's cas_state \<times> outcome" where
  "cas_on_load enc q previous nxt observation st0 =
     (case cas_candidate q previous nxt observation (st0\<lparr>cs_loadReturned := cs_loadReturned st0 + 1\<rparr>) of
        (jobs, st) \<Rightarrow>
          (jobs, st,
           if \<not> cs_quorumEstablished st \<and>
              int (length (cs_candidates st)) + (int (length (qs_members q)) - int (cs_loadReturned st)) < qs_threshold q
           then Some (Inl (WHead ErrExternalHeadConflict)) else cas_check enc q nxt st))"

definition cas_on_advance ::
  "(json \<Rightarrow> string option) \<Rightarrow> 's quorum_head_store \<Rightarrow> external_head \<Rightarrow> 's advance_result \<Rightarrow> 's cas_state
    \<Rightarrow> 's cas_state \<times> outcome" where
  "cas_on_advance enc q nxt res st0 =
     (let st = st0\<lparr>cs_advancePending := cs_advancePending st0 - 1\<rparr>;
          st' = (if ar_err res \<noteq> None \<or> \<not> sameSemanticHead (ar_head res) nxt then st
                 else st\<lparr>cs_successes := cs_successes st @
                   [\<lparr>mo_member = ar_member res, mo_head = ar_head res, mo_err = None, mo_notFound = False\<rparr>]\<rparr>)
      in (st', cas_check enc q nxt st'))"

subsection \<open>ConvergeAuthorizedTransition\<close>

record 's converge_state =
  cv_remaining :: nat
  cv_observations :: "'s observation list"
  cv_targetObservations :: "'s observation list"
  cv_pending :: nat
  cv_successes :: "'s observation list"

text \<open>The loop over the admissible heads: the admitted states and whether absence is one of them.\<close>

fun converge_allowed ::
  "external_head \<Rightarrow> external_head list \<Rightarrow> witness_error + (quorum_semantic_head list \<times> bool)" where
  "converge_allowed target [] = Inr ([], False)"
| "converge_allowed target (h # hs) =
     (if eh_JournalID h \<noteq> eh_JournalID target \<or> eh_Sequence h > eh_Sequence target
      then Inl (WHead ErrExternalHeadConflict)
      else let absent = (eh_Sequence h = 0 \<and> eh_HeadHash h = [] \<and> eh_KeyID h = []) in
        if absent \<and> (eh_Sequence target \<noteq> 0 \<or> eh_StoreVersion h \<noteq> [])
        then Inl (WHead ErrExternalHeadConflict)
        else case converge_allowed target hs of
          Inl e \<Rightarrow> Inl e
        | Inr (semantics, absence) \<Rightarrow> Inr (semanticExternalHead h # semantics, absent \<or> absence))"

definition converge_finish ::
  "(json \<Rightarrow> string option) \<Rightarrow> 's quorum_head_store \<Rightarrow> external_head \<Rightarrow> 's converge_state \<Rightarrow> outcome" where
  "converge_finish enc q target st =
     (if cv_remaining st \<noteq> 0 \<or> cv_pending st \<noteq> 0 then None
      else if int (length (cv_successes st)) < qs_threshold q then Some (Inl ErrExternalHeadQuorum)
      else Some (aggregateQuorumHead enc (semanticExternalHead target) (cv_successes st) (qs_threshold q) (qs_policyHash q)))"

definition converge_launch :: "external_head \<Rightarrow> 's observation list \<Rightarrow> 's job list" where
  "converge_launch target observations =
     map (\<lambda>ob. (mo_member ob, if mo_notFound ob then zero_head else mo_head ob, target\<lparr>eh_StoreVersion := []\<rparr>))
       (filter (\<lambda>ob. \<not> sameSemanticHead (mo_head ob) target) observations)"

text \<open>An absent member counts as the identity-only head where absence is admissible.\<close>

definition converge_seen :: "bool \<Rightarrow> external_head \<Rightarrow> 's observation \<Rightarrow> 's observation" where
  "converge_seen absence target ob =
     (if mo_notFound ob \<and> absence then ob\<lparr>mo_head := zero_head\<lparr>eh_JournalID := eh_JournalID target\<rparr>\<rparr> else ob)"

definition converge_skips :: "bool \<Rightarrow> 's observation \<Rightarrow> bool" where
  "converge_skips absence ob \<longleftrightarrow> \<not> (mo_notFound ob \<and> absence) \<and> (mo_err ob \<noteq> None \<or> mo_notFound ob)"

definition converge_record :: "bool \<Rightarrow> external_head \<Rightarrow> 's observation \<Rightarrow> 's converge_state \<Rightarrow> 's converge_state" where
  "converge_record absence target ob st =
     (if converge_skips absence ob then st
      else let ob' = converge_seen absence target ob in
        st\<lparr>cv_observations := cv_observations st @ [ob'],
           cv_targetObservations := cv_targetObservations st @
             (if sameSemanticHead (mo_head ob') target then [ob'] else [])\<rparr>)"

definition converge_on_load ::
  "(json \<Rightarrow> string option) \<Rightarrow> 's quorum_head_store \<Rightarrow> quorum_semantic_head list \<Rightarrow> bool \<Rightarrow> external_head
    \<Rightarrow> 's observation \<Rightarrow> 's converge_state \<Rightarrow> 's job list \<times> 's converge_state \<times> outcome" where
  "converge_on_load enc q allowed absence target ob st0 =
     (let st = st0\<lparr>cv_remaining := cv_remaining st0 - 1\<rparr> in
      if \<not> converge_skips absence ob \<and> semanticExternalHead (mo_head (converge_seen absence target ob)) \<notin> set allowed
      then ([], st, Some (Inl (WHead ErrExternalHeadConflict)))
      else let st1 = converge_record absence target ob st in
        if cv_remaining st1 \<noteq> 0 then ([], st1, None)
        else if int (length (cv_observations st1)) < qs_threshold q
        then ([], st1, Some (Inl ErrExternalHeadQuorum))
        else let jobs = converge_launch target (cv_observations st1);
                 st2 = st1\<lparr>cv_pending := length jobs, cv_successes := cv_targetObservations st1\<rparr>
             in (jobs, st2, converge_finish enc q target st2))"

definition converge_on_advance ::
  "(json \<Rightarrow> string option) \<Rightarrow> 's quorum_head_store \<Rightarrow> bool \<Rightarrow> external_head \<Rightarrow> 's advance_result \<Rightarrow> 's converge_state
    \<Rightarrow> 's converge_state \<times> outcome" where
  "converge_on_advance enc q absence target res st0 =
     (let st = st0\<lparr>cv_pending := cv_pending st0 - 1\<rparr> in
      if ar_err res \<noteq> None \<or> \<not> sameSemanticHead (ar_head res) target
      then (st, if absence then Some (Inl ErrExternalHeadQuorum) else converge_finish enc q target st)
      else let st' = st\<lparr>cv_successes := cv_successes st @
               [\<lparr>mo_member = ar_member res, mo_head = ar_head res, mo_err = None, mo_notFound = False\<rparr>]\<rparr>
           in (st', converge_finish enc q target st'))"

section \<open>Calls and their goroutines\<close>

datatype 's select_loop =
    LoadLoop string "'s load_state"
  | AdvanceLoop external_head external_head "'s cas_state"
  | ConvergeLoop "quorum_semantic_head list" bool external_head "'s converge_state"

datatype quorum_call =
    QLoad string
  | QAdvance external_head external_head
  | QConverge "external_head list" external_head

text \<open>
  A call in progress: load goroutines that have not called their member yet, results waiting in the
  two buffered channels, launched goroutines, the loop's local state and the result once returned.
  \<open>cl_received\<close> and \<open>cl_advanced\<close> are the results received so far; no step reads them.
\<close>

record 's client =
  cl_loop :: "'s select_loop"
  cl_outstanding :: "'s quorum_member list"
  cl_loads :: "'s observation list"
  cl_jobs :: "'s job list"
  cl_advances :: "'s advance_result list"
  cl_received :: "'s observation list"
  cl_advanced :: "'s advance_result list"
  cl_result :: outcome

definition started :: "'s quorum_head_store \<Rightarrow> 's select_loop \<Rightarrow> 's client" where
  "started q loop = \<lparr>cl_loop = loop, cl_outstanding = qs_members q, cl_loads = [], cl_jobs = [], cl_advances = [],
     cl_received = [], cl_advanced = [], cl_result = None\<rparr>"

definition rejected :: "witness_error \<Rightarrow> 's client" where
  "rejected e = \<lparr>cl_loop = LoadLoop [] \<lparr>ls_groups = (\<lambda>_. []), ls_notFound = 0, ls_remaining = 0\<rparr>,
     cl_outstanding = [], cl_loads = [], cl_jobs = [], cl_advances = [], cl_received = [], cl_advanced = [],
     cl_result = Some (Inl e)\<rparr>"

fun start_call :: "'s quorum_head_store \<Rightarrow> quorum_call \<Rightarrow> 's client" where
  "start_call q (QLoad journalID) =
     (if qs_members q = [] then rejected ErrExternalHeadQuorum
      else let journalID = trim_space journalID in
        if journalID = [] then rejected (WError ''journal id is required'')
        else started q (LoadLoop journalID
          \<lparr>ls_groups = (\<lambda>_. []), ls_notFound = 0, ls_remaining = length (qs_members q)\<rparr>))"
| "start_call q (QAdvance previous nxt) =
     (if qs_members q = [] then rejected ErrExternalHeadQuorum
      else case advance_precheck previous nxt of
        Inl e \<Rightarrow> rejected e
      | Inr expected \<Rightarrow> started q (AdvanceLoop expected nxt
          \<lparr>cs_candidates = [], cs_launched = {}, cs_successes = [], cs_loadReturned = 0, cs_advancePending = 0,
           cs_quorumEstablished = False\<rparr>))"
| "start_call q (QConverge allowed target) =
     (if qs_members q = [] \<or> \<not> validSHA256Digest (qs_policyHash q) then rejected ErrExternalHeadQuorum
      else if blank (eh_JournalID target) \<or> allowed = [] then rejected (WHead ErrExternalHeadConflict)
      else case converge_allowed target allowed of
        Inl e \<Rightarrow> rejected e
      | Inr (semantics, absence) \<Rightarrow>
        (if semanticExternalHead target \<notin> set semantics then rejected (WHead ErrExternalHeadConflict)
         else started q (ConvergeLoop semantics absence target
           \<lparr>cv_remaining = length (qs_members q), cv_observations = [], cv_targetObservations = [], cv_pending = 0,
            cv_successes = []\<rparr>)))"

fun loop_journal :: "'s select_loop \<Rightarrow> string" where
  "loop_journal (LoadLoop journalID _) = journalID"
| "loop_journal (AdvanceLoop _ nxt _) = eh_JournalID nxt"
| "loop_journal (ConvergeLoop _ _ target _) = eh_JournalID target"

fun loop_on_load ::
  "(json \<Rightarrow> string option) \<Rightarrow> 's quorum_head_store \<Rightarrow> 's observation \<Rightarrow> 's select_loop
    \<Rightarrow> 's job list \<times> 's select_loop \<times> outcome" where
  "loop_on_load enc q ob (LoadLoop j st) = (case load_receive enc q j ob st of (st', r) \<Rightarrow> ([], LoadLoop j st', r))"
| "loop_on_load enc q ob (AdvanceLoop p n st) =
     (case cas_on_load enc q p n ob st of (jobs, st', r) \<Rightarrow> (jobs, AdvanceLoop p n st', r))"
| "loop_on_load enc q ob (ConvergeLoop a b t st) =
     (case converge_on_load enc q a b t ob st of (jobs, st', r) \<Rightarrow> (jobs, ConvergeLoop a b t st', r))"

fun loop_on_advance ::
  "(json \<Rightarrow> string option) \<Rightarrow> 's quorum_head_store \<Rightarrow> 's advance_result \<Rightarrow> 's select_loop \<Rightarrow> 's select_loop \<times> outcome" where
  "loop_on_advance enc q res (LoadLoop j st) = (LoadLoop j st, None)"
| "loop_on_advance enc q res (AdvanceLoop p n st) =
     (case cas_on_advance enc q n res st of (st', r) \<Rightarrow> (AdvanceLoop p n st', r))"
| "loop_on_advance enc q res (ConvergeLoop a b t st) =
     (case converge_on_advance enc q b t res st of (st', r) \<Rightarrow> (ConvergeLoop a b t st', r))"

section \<open>The system of calls\<close>

record 's quorum_system =
  sy_world :: 's
  sy_clients :: "nat \<Rightarrow> 's client option"

text \<open>
  The actions of a schedule: a call starts; a goroutine of a call performs its operation on its
  member and leaves the result in the channel; the select loop takes a result from a channel; the
  context of a call is done; the world changes from outside. Results are taken in any order, since a
  goroutine may be suspended between its operation and the send.
\<close>

datatype 's quorum_action =
    Start nat quorum_call
  | PerformLoad nat nat
  | ReceiveLoad nat nat
  | PerformAdvance nat nat
  | ReceiveAdvance nat nat
  | Cancel nat
  | Environment 's

definition remove_nth :: "nat \<Rightarrow> 'a list \<Rightarrow> 'a list" where
  "remove_nth i xs = take i xs @ drop (Suc i) xs"

definition set_client :: "nat \<Rightarrow> 's client \<Rightarrow> 's quorum_system \<Rightarrow> 's quorum_system" where
  "set_client c cl sy = sy\<lparr>sy_clients := (sy_clients sy)(c \<mapsto> cl)\<rparr>"

definition perform_load :: "'s quorum_head_store \<Rightarrow> nat \<Rightarrow> 's client \<Rightarrow> 's \<Rightarrow> 's client \<times> 's" where
  "perform_load q i cl s =
     (case load_goroutine q (cl_outstanding cl ! i) (loop_journal (cl_loop cl)) s of
        (ob, s') \<Rightarrow> (cl\<lparr>cl_outstanding := remove_nth i (cl_outstanding cl), cl_loads := cl_loads cl @ [ob]\<rparr>, s'))"

definition receive_load :: "(json \<Rightarrow> string option) \<Rightarrow> 's quorum_head_store \<Rightarrow> nat \<Rightarrow> 's client \<Rightarrow> 's client" where
  "receive_load enc q i cl =
     (case loop_on_load enc q (cl_loads cl ! i) (cl_loop cl) of
        (jobs, loop, r) \<Rightarrow>
          cl\<lparr>cl_loop := loop, cl_loads := remove_nth i (cl_loads cl), cl_jobs := cl_jobs cl @ jobs,
             cl_received := cl_received cl @ [cl_loads cl ! i], cl_result := r\<rparr>)"

definition perform_advance :: "'s quorum_head_store \<Rightarrow> nat \<Rightarrow> 's client \<Rightarrow> 's \<Rightarrow> 's client \<times> 's" where
  "perform_advance q i cl s =
     (case cl_jobs cl ! i of (member, p, n) \<Rightarrow>
       (case advance_goroutine q member p n s of
          (res, s') \<Rightarrow> (cl\<lparr>cl_jobs := remove_nth i (cl_jobs cl), cl_advances := cl_advances cl @ [res]\<rparr>, s')))"

definition receive_advance :: "(json \<Rightarrow> string option) \<Rightarrow> 's quorum_head_store \<Rightarrow> nat \<Rightarrow> 's client \<Rightarrow> 's client" where
  "receive_advance enc q i cl =
     (case loop_on_advance enc q (cl_advances cl ! i) (cl_loop cl) of
        (loop, r) \<Rightarrow>
          cl\<lparr>cl_loop := loop, cl_advances := remove_nth i (cl_advances cl),
             cl_advanced := cl_advanced cl @ [cl_advances cl ! i], cl_result := r\<rparr>)"

text \<open>\<open>None\<close>: the action is not enabled. \<open>env\<close> bounds what the outside may do to the world.\<close>

fun quorum_act ::
  "('s \<Rightarrow> 's \<Rightarrow> bool) \<Rightarrow> (json \<Rightarrow> string option) \<Rightarrow> 's quorum_head_store \<Rightarrow> 's quorum_action \<Rightarrow> 's quorum_system
    \<Rightarrow> 's quorum_system option" where
  "quorum_act env enc q (Start c call) sy =
     (case sy_clients sy c of
        Some _ \<Rightarrow> None
      | None \<Rightarrow> Some (set_client c (start_call q call) sy))"
| "quorum_act env enc q (PerformLoad c i) sy =
     (case sy_clients sy c of
        None \<Rightarrow> None
      | Some cl \<Rightarrow>
        (if i < length (cl_outstanding cl)
         then case perform_load q i cl (sy_world sy) of
           (cl', s) \<Rightarrow> Some (set_client c cl' (sy\<lparr>sy_world := s\<rparr>))
         else None))"
| "quorum_act env enc q (ReceiveLoad c i) sy =
     (case sy_clients sy c of
        None \<Rightarrow> None
      | Some cl \<Rightarrow>
        (if cl_result cl = None \<and> i < length (cl_loads cl)
         then Some (set_client c (receive_load enc q i cl) sy) else None))"
| "quorum_act env enc q (PerformAdvance c i) sy =
     (case sy_clients sy c of
        None \<Rightarrow> None
      | Some cl \<Rightarrow>
        (if i < length (cl_jobs cl)
         then case perform_advance q i cl (sy_world sy) of
           (cl', s) \<Rightarrow> Some (set_client c cl' (sy\<lparr>sy_world := s\<rparr>))
         else None))"
| "quorum_act env enc q (ReceiveAdvance c i) sy =
     (case sy_clients sy c of
        None \<Rightarrow> None
      | Some cl \<Rightarrow>
        (if cl_result cl = None \<and> i < length (cl_advances cl)
         then Some (set_client c (receive_advance enc q i cl) sy) else None))"
| "quorum_act env enc q (Cancel c) sy =
     (case sy_clients sy c of
        None \<Rightarrow> None
      | Some cl \<Rightarrow>
        (if cl_result cl = None then Some (set_client c (cl\<lparr>cl_result := Some (Inl ErrExternalHeadQuorum)\<rparr>) sy)
         else None))"
| "quorum_act env enc q (Environment s) sy = (if env (sy_world sy) s then Some (sy\<lparr>sy_world := s\<rparr>) else None)"

fun quorum_run ::
  "('s \<Rightarrow> 's \<Rightarrow> bool) \<Rightarrow> (json \<Rightarrow> string option) \<Rightarrow> 's quorum_head_store \<Rightarrow> 's quorum_action list \<Rightarrow> 's quorum_system
    \<Rightarrow> 's quorum_system option" where
  "quorum_run env enc q [] sy = Some sy"
| "quorum_run env enc q (a # as) sy =
     (case quorum_act env enc q a sy of None \<Rightarrow> None | Some sy' \<Rightarrow> quorum_run env enc q as sy')"

end
