(* ===== verification/Quorum_Safety.thy ===== *)
theory Quorum_Safety
  imports Quorum
begin

text \<open>
  What a quorum of witnesses guarantees. Each result that a call receives is evidence of the head of
  one member at some moment; a call that returns a head has evidence of that head from a threshold of
  members. With a strict majority of witnesses two such sets share an honest member, whose head never
  goes back.
\<close>

section \<open>The members of a constructed quorum\<close>

lemma check_members_ok:
  "check_members b seen ms = Inr xs \<Longrightarrow> distinct (map qm_ID xs) \<and> seen \<inter> qm_ID ` set xs = {} \<and> length xs = length ms \<and>
     (\<forall>m \<in> set xs. \<exists>i. (i, Some (qm_Store m)) \<in> set ms \<and> qm_ID m = trim_space i)"
proof (induction ms arbitrary: seen xs)
  case (Cons x ms)
  obtain i st where x: "x = (i, st)" by (cases x)
  with Cons.prems obtain s ys where ys: "st = Some s" "trim_space i \<notin> seen"
    "check_members b (insert (trim_space i) seen) ms = Inr ys" "xs = \<lparr>qm_ID = trim_space i, qm_Store = s\<rparr> # ys"
    by (auto simp: Let_def split: if_splits option.splits sum.splits)
  from Cons.IH [OF ys(3)] ys x show ?case by fastforce
qed simp

text \<open>The members of a constructed quorum are exactly those of its binding.\<close>

lemma check_members_authorized: "check_members b seen ms = Inr xs \<Longrightarrow> qm_ID ` set xs \<subseteq> fst ` set (gb_members b)"
proof (induction ms arbitrary: seen xs)
  case (Cons x ms)
  obtain i st where x: "x = (i, st)" by (cases x)
  with Cons.prems obtain h s ys where ys: "map_of (gb_members b) (trim_space i) = Some h"
    "check_members b (insert (trim_space i) seen) ms = Inr ys" "xs = \<lparr>qm_ID = trim_space i, qm_Store = s\<rparr> # ys"
    by (auto simp: Let_def split: if_splits option.splits sum.splits)
  from Cons.IH [OF ys(2)] ys(3) map_of_SomeD [OF ys(1)] show ?case by force
qed simp

lemma NewQuorumHeadStore_members:
  assumes "NewQuorumHeadStore ms b = Inr q"
  shows "qm_ID ` set (qs_members q) = fst ` set (gb_members b) \<and> card (fst ` set (gb_members b)) = length (gb_members b)"
proof -
  obtain xs where xs: "length ms = length (gb_members b)" "check_members b {} ms = Inr xs" "qs_members q = sort_key qm_ID xs"
    using assms by (auto simp: NewQuorumHeadStore_def split: if_splits option.splits sum.splits)
  have "card (qm_ID ` set xs) = length (gb_members b)"
    using check_members_ok [OF xs(2)] distinct_card [of "map qm_ID xs"] xs(1) by simp
  moreover have "card (fst ` set (gb_members b)) \<le> length (gb_members b)" by (metis card_length length_map set_map)
  moreover note check_members_authorized [OF xs(2)]
  ultimately show ?thesis using card_seteq [of "fst ` set (gb_members b)" "qm_ID ` set xs"] xs(3) by auto
qed

section \<open>Evidence\<close>

definition observed :: "'s observation \<Rightarrow> quorum_semantic_head option" where
  "observed ob = (if mo_notFound ob then None else Some (semanticExternalHead (mo_head ob)))"

definition informative :: "'s observation \<Rightarrow> bool" where
  "informative ob \<longleftrightarrow> mo_notFound ob \<or> mo_err ob = None"

fun loop_target :: "'s select_loop \<Rightarrow> quorum_semantic_head option" where
  "loop_target (LoadLoop _ _) = None"
| "loop_target (AdvanceLoop _ nxt _) = Some (semanticExternalHead nxt)"
| "loop_target (ConvergeLoop _ _ target _) = Some (semanticExternalHead target)"

definition advanced_to :: "quorum_semantic_head option \<Rightarrow> 's advance_result \<Rightarrow> bool" where
  "advanced_to target r \<longleftrightarrow> ar_err r = None \<and> target = Some (semanticExternalHead (ar_head r))"

text \<open>Member, journal and the head (or absence) that the member reported.\<close>

type_synonym evidence = "string \<times> string \<times> quorum_semantic_head option"

definition evidence :: "'s client \<Rightarrow> evidence set" where
  "evidence cl =
     {(qm_ID (mo_member ob), loop_journal (cl_loop cl), observed ob) | ob.
        ob \<in> set (cl_loads cl @ cl_received cl) \<and> informative ob} \<union>
     {(qm_ID (ar_member r), loop_journal (cl_loop cl), loop_target (cl_loop cl)) | r.
        r \<in> set (cl_advances cl @ cl_advanced cl) \<and> advanced_to (loop_target (cl_loop cl)) r}"

definition certified :: "'s quorum_head_store \<Rightarrow> 's client \<Rightarrow> quorum_semantic_head option \<Rightarrow> bool" where
  "certified q cl x \<longleftrightarrow> (\<exists>I \<subseteq> qm_ID ` set (qs_members q). qs_threshold q \<le> int (card I) \<and>
     (\<forall>i \<in> I. (i, loop_journal (cl_loop cl), x) \<in> evidence cl))"

lemma certified_from_list:
  assumes "distinct (map f xs)" and "qs_threshold q \<le> int (length xs)"
    and "\<And>x. x \<in> set xs \<Longrightarrow> f x \<in> qm_ID ` set (qs_members q) \<and> (f x, loop_journal (cl_loop cl), v) \<in> evidence cl"
  shows "certified q cl v"
proof -
  have "card (f ` set xs) = length xs" using distinct_card [OF assms(1)] by simp
  with assms(2,3) show ?thesis unfolding certified_def by (intro exI [of _ "f ` set xs"]) auto
qed

lemma aggregateQuorumHead_Inr:
  "aggregateQuorumHead enc semantic obs t ph = Inr h \<Longrightarrow> t \<le> int (length obs) \<and> semanticExternalHead h = semantic"
  by (auto simp: aggregateQuorumHead_def semanticExternalHead_def split: if_splits sum.splits prod.splits)

lemma aggregateQuorumHead_Inl: "aggregateQuorumHead enc semantic obs t ph = Inl e \<Longrightarrow> e \<noteq> WHead x"
  by (auto simp: aggregateQuorumHead_def encodeQuorumStoreVersion_def Let_def
      split: if_splits sum.splits prod.splits option.splits)

section \<open>What the loops know\<close>

text \<open>The loop's local state is determined by the results received.\<close>

definition agreeing :: "string \<Rightarrow> quorum_semantic_head \<Rightarrow> 's observation \<Rightarrow> bool" where
  "agreeing j semantic ob \<longleftrightarrow> \<not> mo_notFound ob \<and> mo_err ob = None \<and> sh_JournalID semantic = j \<and>
     semanticExternalHead (mo_head ob) = semantic"

definition load_knows :: "string \<Rightarrow> 's observation list \<Rightarrow> 's load_state \<Rightarrow> bool" where
  "load_knows j received st \<longleftrightarrow> (\<forall>semantic. ls_groups st semantic = filter (agreeing j semantic) received) \<and>
     ls_notFound st = int (length (filter mo_notFound received))"

lemma load_receive_knows:
  assumes "load_knows j received st" and "load_receive enc q j ob st = (st', r)"
  shows "load_knows j (received @ [ob]) st'"
  using assms by (auto simp: load_receive_def load_knows_def agreeing_def Let_def split: if_splits)

lemma load_receive_remaining:
  "load_receive enc q j ob st = (st', r) \<Longrightarrow> ls_remaining st' = ls_remaining st - 1"
  by (auto simp: load_receive_def Let_def split: if_splits)

lemma load_receive_Inr:
  assumes "load_receive enc q j ob st = (st', Some (Inr h))"
  shows "\<not> mo_notFound ob \<and> mo_err ob = None \<and> sh_JournalID (semanticExternalHead (mo_head ob)) = j \<and>
    aggregateQuorumHead enc (semanticExternalHead (mo_head ob))
      (ls_groups st (semanticExternalHead (mo_head ob)) @ [ob]) (qs_threshold q) (qs_policyHash q) = Inr h"
  using assms by (auto simp: load_receive_def Let_def split: if_splits)

lemma load_receive_head:
  assumes "load_knows j received st" and "load_receive enc q j ob st = (st', Some (Inr h))"
  shows "sh_JournalID (semanticExternalHead h) = j \<and>
    qs_threshold q \<le> int (length (filter (agreeing j (semanticExternalHead h)) (received @ [ob])))"
proof -
  note r = load_receive_Inr [OF assms(2)]
  from aggregateQuorumHead_Inr [OF r [THEN conjunct2, THEN conjunct2, THEN conjunct2]]
  have len: "qs_threshold q \<le> int (length (ls_groups st (semanticExternalHead (mo_head ob)) @ [ob]))"
    and h: "semanticExternalHead h = semanticExternalHead (mo_head ob)" by auto
  have "ls_groups st (semanticExternalHead (mo_head ob)) =
      filter (agreeing j (semanticExternalHead (mo_head ob))) received"
    using assms(1) by (simp add: load_knows_def)
  moreover have "agreeing j (semanticExternalHead (mo_head ob)) ob" using r by (simp add: agreeing_def)
  ultimately show ?thesis using len r unfolding h by simp
qed

lemma load_receive_absent:
  assumes "load_knows j received st" and "load_receive enc q j ob st = (st', Some (Inl (WHead e)))"
  shows "qs_threshold q \<le> int (length (filter mo_notFound (received @ [ob])))"
  using assms unfolding load_receive_def Let_def
  by (auto simp: load_knows_def split: if_splits dest: aggregateQuorumHead_Inl)

text \<open>A received advance as the success that the loop records.\<close>

definition success_of :: "'s advance_result \<Rightarrow> 's observation" where
  "success_of r = \<lparr>mo_member = ar_member r, mo_head = ar_head r, mo_err = None, mo_notFound = False\<rparr>"

lemma success_of_simps [simp]: "mo_member (success_of r) = ar_member r" "mo_head (success_of r) = ar_head r"
  by (simp_all add: success_of_def)

definition cas_knows ::
  "external_head \<Rightarrow> 's observation list \<Rightarrow> string set \<Rightarrow> 's advance_result list \<Rightarrow> 's cas_state \<Rightarrow> bool" where
  "cas_knows nxt received ids adv st \<longleftrightarrow> ids \<subseteq> cs_launched st \<and> set (cs_candidates st) \<subseteq> set received \<and>
     cs_successes st = map success_of (filter (advanced_to (Some (semanticExternalHead nxt))) adv)"

lemma cas_check_Inr:
  "cas_check enc q nxt st = Some (Inr h) \<Longrightarrow>
     semanticExternalHead h = semanticExternalHead nxt \<and> qs_threshold q \<le> int (length (cs_successes st))"
  by (auto simp: cas_check_def split: if_splits dest: aggregateQuorumHead_Inr)

lemma cas_check_Inl: "cas_check enc q nxt st = Some (Inl e) \<Longrightarrow> e \<noteq> WHead ErrExternalHeadNotFound"
  by (auto simp: cas_check_def split: if_splits dest: aggregateQuorumHead_Inl)

text \<open>Jobs launched for distinct members of \<open>M\<close> that were not launched before, all towards \<open>nxt\<close>.\<close>

definition fresh_jobs ::
  "external_head \<Rightarrow> string set \<Rightarrow> string set \<Rightarrow> 's quorum_member set \<Rightarrow> 's job list \<Rightarrow> bool" where
  "fresh_jobs nxt before after M jobs \<longleftrightarrow> distinct (map (qm_ID \<circ> fst) jobs) \<and>
     qm_ID ` fst ` set jobs \<subseteq> after - before \<and> before \<subseteq> after \<and> fst ` set jobs \<subseteq> M \<and>
     (\<forall>job \<in> set jobs. semanticExternalHead (snd (snd job)) = semanticExternalHead nxt)"

lemma interval_Un: "X \<subseteq> c - b \<Longrightarrow> Y \<subseteq> d - c \<Longrightarrow> b \<subseteq> c \<Longrightarrow> c \<subseteq> d \<Longrightarrow> X \<union> Y \<subseteq> d - b \<and> X \<inter> Y = {} \<and> b \<subseteq> d"
  by blast

lemma fresh_jobs_append:
  assumes "fresh_jobs nxt b c M xs" and "fresh_jobs nxt c d N ys"
  shows "fresh_jobs nxt b d (M \<union> N) (xs @ ys)"
proof -
  have ids: "set (map (qm_ID \<circ> fst) zs) = qm_ID ` fst ` set zs" for zs :: "'a job list" by (simp add: image_comp)
  note x = assms(1) [unfolded fresh_jobs_def, folded ids] and y = assms(2) [unfolded fresh_jobs_def, folded ids]
  from interval_Un [of "set (map (qm_ID \<circ> fst) xs)" c b "set (map (qm_ID \<circ> fst) ys)" d] x y
  have "set (map (qm_ID \<circ> fst) (xs @ ys)) \<subseteq> d - b" "distinct (map (qm_ID \<circ> fst) (xs @ ys))" "b \<subseteq> d"
    unfolding map_append set_append distinct_append by simp_all
  moreover have "fst ` set (xs @ ys) \<subseteq> M \<union> N"
    unfolding set_append image_Un using x y by (intro Un_mono) simp_all
  moreover have "\<forall>job \<in> set (xs @ ys). semanticExternalHead (snd (snd job)) = semanticExternalHead nxt"
    unfolding set_append ball_Un using x y by simp
  ultimately show ?thesis unfolding fresh_jobs_def ids [symmetric] by simp
qed

lemma launch_facts:
  assumes "launch nxt ob (jobs, st) = (jobs', st')"
  obtains new where "jobs' = jobs @ new" "cs_successes st' = cs_successes st"
    "fresh_jobs nxt (cs_launched st) (cs_launched st') {mo_member ob} new"
proof (cases "qm_ID (mo_member ob) \<in> cs_launched st")
  case True
  with assms that [of "[]"] show thesis by (simp add: launch_def fresh_jobs_def)
next
  case False
  let ?job = "(mo_member ob, if mo_notFound ob then zero_head else mo_head ob, nxt\<lparr>eh_StoreVersion := []\<rparr>)"
  from False assms have "jobs' = jobs @ [?job]" "cs_successes st' = cs_successes st"
    "cs_launched st' = insert (qm_ID (mo_member ob)) (cs_launched st)" by (auto simp: launch_def)
  with False that [of "[?job]"] show thesis by (auto simp: fresh_jobs_def semanticExternalHead_def)
qed

lemma launch_all_facts:
  assumes "fold (launch nxt) obs (jobs, st) = (jobs', st')"
  shows "\<exists>new. jobs' = jobs @ new \<and> cs_successes st' = cs_successes st \<and>
    fresh_jobs nxt (cs_launched st) (cs_launched st') (mo_member ` set obs) new"
  using assms
proof (induction obs arbitrary: jobs st)
  case Nil
  then show ?case by (auto simp: fresh_jobs_def)
next
  case (Cons ob obs)
  obtain jobs1 st1 where one: "launch nxt ob (jobs, st) = (jobs1, st1)" by fastforce
  with Cons.prems have rest: "fold (launch nxt) obs (jobs1, st1) = (jobs', st')" by simp
  obtain new1 where n1: "jobs1 = jobs @ new1" "cs_successes st1 = cs_successes st"
    "fresh_jobs nxt (cs_launched st) (cs_launched st1) {mo_member ob} new1" using launch_facts [OF one] .
  from Cons.IH [OF rest] obtain new2 where n2: "jobs' = jobs1 @ new2" "cs_successes st' = cs_successes st1"
    "fresh_jobs nxt (cs_launched st1) (cs_launched st') (mo_member ` set obs) new2" by blast
  from fresh_jobs_append [OF n1(3) n2(3)] n1(1,2) n2(1,2) show ?case
    by (intro exI [of _ "new1 @ new2"]) simp
qed

lemma fresh_jobs_none: "fresh_jobs nxt L L M []"
  by (simp add: fresh_jobs_def)

lemma fresh_jobs_mono: "fresh_jobs nxt L L' M jobs \<Longrightarrow> M \<subseteq> N \<Longrightarrow> fresh_jobs nxt L L' N jobs"
  by (auto simp: fresh_jobs_def)

lemma launch_candidates: "cs_candidates (snd (launch nxt ob (jobs, st))) = cs_candidates st"
  by (simp add: launch_def)

lemma launch_all_candidates: "cs_candidates (snd (fold (launch nxt) obs x)) = cs_candidates (snd x)"
  by (induction obs arbitrary: x) (simp_all add: launch_def split: prod.splits)

lemma cas_candidate_candidates:
  "set (cs_candidates (snd (cas_candidate q p n ob st))) \<subseteq> insert ob (set (cs_candidates st))"
  by (auto simp: cas_candidate_def Let_def launch_candidates launch_all_candidates simp del: fold_append split: if_splits)

lemma cas_candidate_launches:
  assumes "cas_candidate q p n ob st = (jobs, st')"
  shows "cs_successes st' = cs_successes st \<and>
    fresh_jobs n (cs_launched st) (cs_launched st') (mo_member ` insert ob (set (cs_candidates st))) jobs"
proof -
  let ?st1 = "st\<lparr>cs_candidates := cs_candidates st @ [ob]\<rparr>"
  let ?full = "qs_threshold q \<le> int (length (cs_candidates ?st1))"
  note def = assms [unfolded cas_candidate_def Let_def]
  consider (skip) "\<not> observationMatchesExpected ob p \<or> \<not> cs_quorumEstablished st \<and> \<not> ?full"
    | (one) "observationMatchesExpected ob p" "cs_quorumEstablished st"
    | (all) "observationMatchesExpected ob p" "\<not> cs_quorumEstablished st" ?full by blast
  then show ?thesis
  proof cases
    case skip
    with def have "jobs = []" "cs_successes st' = cs_successes st" "cs_launched st' = cs_launched st"
      by (auto split: if_splits)
    then show ?thesis by (simp add: fresh_jobs_none)
  next
    case one
    with def have "launch n ob ([], ?st1) = (jobs, st')" by simp
    then obtain new where new: "jobs = [] @ new" "cs_successes st' = cs_successes ?st1"
      "fresh_jobs n (cs_launched ?st1) (cs_launched st') {mo_member ob} new" by (rule launch_facts)
    from fresh_jobs_mono [OF new(3), of "mo_member ` insert ob (set (cs_candidates st))"] new(1,2) show ?thesis by simp
  next
    case all
    with def have "fold (launch n) (cs_candidates ?st1) ([], ?st1\<lparr>cs_quorumEstablished := True\<rparr>) = (jobs, st')"
      by (simp del: fold_append)
    from launch_all_facts [OF this] obtain new where new: "jobs = new" "cs_successes st' = cs_successes st"
      "fresh_jobs n (cs_launched st) (cs_launched st') (mo_member ` set (cs_candidates st @ [ob])) new" by auto
    from fresh_jobs_mono [OF new(3), of "mo_member ` insert ob (set (cs_candidates st))"] new(1,2) show ?thesis by simp
  qed
qed

lemma cas_on_load_facts:
  assumes "cas_on_load enc q p n ob st = (jobs, st', r)" and "cas_knows n received ids adv st"
  shows "fresh_jobs n (cs_launched st) (cs_launched st') (mo_member ` set (received @ [ob])) jobs \<and>
    cas_knows n (received @ [ob]) (ids \<union> qm_ID ` fst ` set jobs) adv st' \<and>
    (\<forall>h. r = Some (Inr h) \<longrightarrow> cas_check enc q n st' = Some (Inr h)) \<and> r \<noteq> Some (Inl (WHead ErrExternalHeadNotFound))"
proof -
  let ?st0 = "st\<lparr>cs_loadReturned := cs_loadReturned st + 1\<rparr>"
  from assms(1) have step: "cas_candidate q p n ob ?st0 = (jobs, st')"
    and r: "r = Some (Inl (WHead ErrExternalHeadConflict)) \<or> r = cas_check enc q n st'"
    by (auto simp: cas_on_load_def split: prod.splits if_splits)
  have cand: "set (cs_candidates st) \<subseteq> set received" using assms(2) by (simp add: cas_knows_def)
  from cas_candidate_launches [OF step] have succ: "cs_successes st' = cs_successes st"
    and fresh: "fresh_jobs n (cs_launched st) (cs_launched st') (mo_member ` insert ob (set (cs_candidates st))) jobs" by auto
  have "mo_member ` insert ob (set (cs_candidates st)) \<subseteq> mo_member ` set (received @ [ob])" using cand by auto
  note fresh = fresh_jobs_mono [OF fresh this]
  have "set (cs_candidates st') \<subseteq> set (received @ [ob])"
    using cas_candidate_candidates [of q p n ob ?st0] step cand by auto
  moreover have "ids \<union> qm_ID ` fst ` set jobs \<subseteq> cs_launched st'"
    using fresh assms(2) unfolding fresh_jobs_def cas_knows_def by blast
  ultimately have "cas_knows n (received @ [ob]) (ids \<union> qm_ID ` fst ` set jobs) adv st'"
    using assms(2) succ by (simp add: cas_knows_def)
  with fresh show ?thesis using r cas_check_Inl [of enc q n st'] by auto
qed

lemma cas_on_advance_facts:
  assumes "cas_on_advance enc q n res st = (st', r)" and "cas_knows n received ids adv st"
  shows "cas_knows n received ids (adv @ [res]) st' \<and> r = cas_check enc q n st'"
  using assms by (auto simp: cas_on_advance_def cas_knows_def advanced_to_def sameSemanticHead_def success_of_def Let_def
      split: if_splits)

subsection \<open>ConvergeAuthorizedTransition\<close>

definition seen_list :: "bool \<Rightarrow> external_head \<Rightarrow> 's observation list \<Rightarrow> 's observation list" where
  "seen_list absence target received =
     map (converge_seen absence target) (filter (\<lambda>ob. \<not> converge_skips absence ob) received)"

text \<open>The successes of a convergence: members seen at the target and members advanced to it.\<close>

definition at_target :: "external_head \<Rightarrow> 's observation \<Rightarrow> bool" where
  "at_target target ob \<longleftrightarrow> sameSemanticHead (mo_head ob) target"

definition converge_successes ::
  "bool \<Rightarrow> external_head \<Rightarrow> 's observation list \<Rightarrow> 's advance_result list \<Rightarrow> 's observation list" where
  "converge_successes absence target received adv =
     filter (at_target target) (seen_list absence target received) @
     map success_of (filter (advanced_to (Some (semanticExternalHead target))) adv)"

definition converge_knows ::
  "bool \<Rightarrow> external_head \<Rightarrow> nat \<Rightarrow> 's observation list \<Rightarrow> string set \<Rightarrow> 's advance_result list \<Rightarrow> 's converge_state \<Rightarrow> bool" where
  "converge_knows absence target k received ids adv st \<longleftrightarrow> cv_remaining st = k \<and>
     cv_observations st = seen_list absence target received \<and>
     cv_targetObservations st = filter (at_target target) (cv_observations st) \<and>
     (if k = 0 then cv_successes st = converge_successes absence target received adv \<and>
        ids \<subseteq> qm_ID ` mo_member ` set (filter (\<lambda>ob. \<not> at_target target ob) (cv_observations st))
      else ids = {} \<and> adv = [])"

lemma converge_record_facts:
  assumes "cv_observations st = seen_list absence target received"
    and "cv_targetObservations st = filter (at_target target) (cv_observations st)"
    and "st' = converge_record absence target ob st"
  shows "cv_observations st' = seen_list absence target (received @ [ob]) \<and>
    cv_targetObservations st' = filter (at_target target) (cv_observations st') \<and> cv_remaining st' = cv_remaining st"
  using assms by (simp add: converge_record_def seen_list_def at_target_def Let_def)

lemma converge_finish_Inr:
  "converge_finish enc q target st = Some (Inr h) \<Longrightarrow>
     semanticExternalHead h = semanticExternalHead target \<and> qs_threshold q \<le> int (length (cv_successes st))"
  by (auto simp: converge_finish_def split: if_splits dest: aggregateQuorumHead_Inr)

lemma converge_finish_Inl: "converge_finish enc q target st \<noteq> Some (Inl (WHead e))"
  by (auto simp: converge_finish_def split: if_splits dest: aggregateQuorumHead_Inl)

lemma converge_seen_member [simp]: "mo_member (converge_seen absence target ob) = mo_member ob"
  by (simp add: converge_seen_def)

lemma seen_list_members:
  "distinct (map (qm_ID \<circ> mo_member) received) \<Longrightarrow> distinct (map (qm_ID \<circ> mo_member) (seen_list absence target received))"
  "mo_member ` set (seen_list absence target received) \<subseteq> mo_member ` set received"
  by (auto simp: seen_list_def comp_def distinct_map_filter)

lemma converge_launch_fresh:
  assumes "distinct (map (qm_ID \<circ> mo_member) received)"
  shows "fresh_jobs target {} UNIV (mo_member ` set received) (converge_launch target (seen_list absence target received))"
proof -
  let ?xs = "filter (\<lambda>ob. \<not> sameSemanticHead (mo_head ob) target) (seen_list absence target received)"
  have "distinct (map (qm_ID \<circ> mo_member) ?xs)"
    using seen_list_members(1) [OF assms] by (rule distinct_map_filter)
  moreover have "mo_member ` set ?xs \<subseteq> mo_member ` set received"
    using seen_list_members(2) [of absence target received] by auto
  ultimately show ?thesis
    by (auto simp: fresh_jobs_def converge_launch_def comp_def semanticExternalHead_def)
qed

lemma converge_on_load_facts:
  assumes step: "converge_on_load enc q allowed absence target ob st = (jobs, st', r)"
    and knows: "converge_knows absence target (Suc k) received ids adv st"
    and ids: "distinct (map (qm_ID \<circ> mo_member) (received @ [ob]))"
  shows "fresh_jobs target {} UNIV (mo_member ` set (received @ [ob])) jobs \<and>
    (r = None \<longrightarrow> converge_knows absence target k (received @ [ob]) (qm_ID ` fst ` set jobs) [] st') \<and>
    (\<forall>h. r = Some (Inr h) \<longrightarrow> jobs = [] \<and> semanticExternalHead h = semanticExternalHead target \<and>
      qs_threshold q \<le> int (length (converge_successes absence target (received @ [ob]) []))) \<and>
    r \<noteq> Some (Inl (WHead ErrExternalHeadNotFound))"
proof -
  let ?st0 = "st\<lparr>cv_remaining := cv_remaining st - 1\<rparr>"
  define st1 where "st1 = converge_record absence target ob ?st0"
  from knows have st1: "cv_observations st1 = seen_list absence target (received @ [ob])"
    "cv_targetObservations st1 = filter (at_target target) (cv_observations st1)" "cv_remaining st1 = k"
    using converge_record_facts [of ?st0 absence target received st1 ob] by (simp_all add: converge_knows_def st1_def)
  let ?jobs = "converge_launch target (cv_observations st1)"
  define st2 where "st2 = st1\<lparr>cv_pending := length ?jobs, cv_successes := cv_targetObservations st1\<rparr>"
  have succ: "cv_successes st2 = converge_successes absence target (received @ [ob]) []"
    by (simp add: st2_def st1 converge_successes_def)
  consider (stop) e where "jobs = []" "r = Some (Inl e)" "e \<noteq> WHead ErrExternalHeadNotFound"
    | (more) "jobs = []" "st' = st1" "r = None" "k \<noteq> 0"
    | (go) "jobs = ?jobs" "st' = st2" "r = converge_finish enc q target st2" "k = 0"
    using step st1(3) unfolding converge_on_load_def Let_def st1_def [symmetric] st2_def [symmetric]
    by (auto split: if_splits)
  then show ?thesis
  proof cases
    case stop
    then show ?thesis by (simp add: fresh_jobs_def)
  next
    case more
    then show ?thesis using st1 by (simp add: converge_knows_def fresh_jobs_def)
  next
    case go
    have fresh: "fresh_jobs target {} UNIV (mo_member ` set (received @ [ob])) ?jobs"
      using converge_launch_fresh [OF ids] st1(1) by simp
    have "qm_ID ` fst ` set ?jobs \<subseteq> qm_ID ` mo_member ` set (filter (\<lambda>ob. \<not> at_target target ob) (cv_observations st1))"
      by (auto simp: converge_launch_def at_target_def)
    then have "converge_knows absence target k (received @ [ob]) (qm_ID ` fst ` set jobs) [] st2"
      using go(1,4) st1 succ by (simp add: converge_knows_def) (simp add: st2_def st1 converge_successes_def)
    moreover have "?jobs = []" if "converge_finish enc q target st2 = Some (Inr h)" for h
      using that by (auto simp: converge_finish_def st2_def split: if_splits)
    ultimately show ?thesis
      using fresh go succ converge_finish_Inr [of enc q target st2] converge_finish_Inl [of enc q target st2] by auto
  qed
qed

lemma converge_on_advance_facts:
  assumes step: "converge_on_advance enc q absence target res st = (st', r)"
    and knows: "converge_knows absence target 0 received ids adv st"
  shows "converge_knows absence target 0 received ids (adv @ [res]) st' \<and>
    (\<forall>h. r = Some (Inr h) \<longrightarrow> semanticExternalHead h = semanticExternalHead target \<and>
      qs_threshold q \<le> int (length (converge_successes absence target received (adv @ [res])))) \<and>
    r \<noteq> Some (Inl (WHead ErrExternalHeadNotFound))"
proof -
  have k: "converge_knows absence target 0 received ids (adv @ [res]) st'"
    using step knows by (auto simp: converge_on_advance_def converge_knows_def converge_successes_def advanced_to_def
        sameSemanticHead_def success_of_def Let_def split: if_splits)
  then have "cv_successes st' = converge_successes absence target received (adv @ [res])"
    by (simp add: converge_knows_def)
  moreover have "r = Some (Inl ErrExternalHeadQuorum) \<or> r = converge_finish enc q target st'"
    using step by (auto simp: converge_on_advance_def Let_def split: if_splits)
  ultimately show ?thesis
    using k converge_finish_Inr [of enc q target st'] converge_finish_Inl [of enc q target st'] by auto
qed

section \<open>The invariant of a call\<close>

definition load_members :: "'s client \<Rightarrow> 's quorum_member list" where
  "load_members cl = cl_outstanding cl @ map mo_member (cl_loads cl @ cl_received cl)"

definition adv_members :: "'s client \<Rightarrow> 's quorum_member list" where
  "adv_members cl = map fst (cl_jobs cl) @ map ar_member (cl_advances cl @ cl_advanced cl)"

definition loop_knows :: "'s client \<Rightarrow> bool" where
  "loop_knows cl \<longleftrightarrow>
     (case cl_loop cl of
        LoadLoop j st \<Rightarrow> load_knows j (cl_received cl) st \<and> adv_members cl = []
      | AdvanceLoop p n st \<Rightarrow> cas_knows n (cl_received cl) (set (map qm_ID (adv_members cl))) (cl_advanced cl) st
      | ConvergeLoop a b t st \<Rightarrow> converge_knows b t (length (cl_outstanding cl) + length (cl_loads cl)) (cl_received cl)
          (set (map qm_ID (adv_members cl))) (cl_advanced cl) st)"

text \<open>
  A convergence has a proper target: not the identity-only head, which stands for the absence of a
  head and which the code would report as reached when every member is absent.
\<close>

definition proper_target :: "external_head \<Rightarrow> bool" where
  "proper_target t \<longleftrightarrow> \<not> (eh_Sequence t = 0 \<and> eh_HeadHash t = [] \<and> eh_KeyID t = [])"

fun proper_loop :: "'s select_loop \<Rightarrow> bool" where
  "proper_loop (ConvergeLoop a b t st) = proper_target t"
| "proper_loop _ = True"

definition answer_ok :: "'s quorum_head_store \<Rightarrow> 's client \<Rightarrow> bool" where
  "answer_ok q cl \<longleftrightarrow>
     (\<forall>h. cl_result cl = Some (Inr h) \<longrightarrow>
        certified q cl (Some (semanticExternalHead h)) \<and> eh_JournalID h = loop_journal (cl_loop cl)) \<and>
     (cl_result cl = Some (Inl (WHead ErrExternalHeadNotFound)) \<longrightarrow> certified q cl None)"

definition well_membered :: "'s quorum_head_store \<Rightarrow> 's client \<Rightarrow> bool" where
  "well_membered q cl \<longleftrightarrow>
     distinct (map qm_ID (load_members cl)) \<and> set (load_members cl) \<subseteq> set (qs_members q) \<and>
     distinct (map qm_ID (adv_members cl)) \<and> set (adv_members cl) \<subseteq> set (qs_members q)"

definition client_ok :: "'s quorum_head_store \<Rightarrow> 's client \<Rightarrow> bool" where
  "client_ok q cl \<longleftrightarrow> well_membered q cl \<and>
     (\<forall>job \<in> set (cl_jobs cl). loop_target (cl_loop cl) = Some (semanticExternalHead (snd (snd job)))) \<and>
     proper_loop (cl_loop cl) \<and> (cl_result cl = None \<longrightarrow> loop_knows cl) \<and> answer_ok q cl"

lemma evidence_mono:
  assumes "loop_journal (cl_loop cl') = loop_journal (cl_loop cl)" "loop_target (cl_loop cl') = loop_target (cl_loop cl)"
    and "set (cl_loads cl @ cl_received cl) \<subseteq> set (cl_loads cl' @ cl_received cl')"
    and "set (cl_advances cl @ cl_advanced cl) \<subseteq> set (cl_advances cl' @ cl_advanced cl')"
  shows "evidence cl \<subseteq> evidence cl'"
  using assms(3,4) unfolding evidence_def assms(1,2) by blast

lemma answer_ok_mono:
  assumes "answer_ok q cl" and "evidence cl \<subseteq> evidence cl'"
    and "loop_journal (cl_loop cl') = loop_journal (cl_loop cl)" and "cl_result cl' = cl_result cl"
  shows "answer_ok q cl'"
proof -
  have "certified q cl x \<Longrightarrow> certified q cl' x" for x
    unfolding certified_def assms(3) using assms(2) by blast
  with assms(1) show ?thesis by (simp add: answer_ok_def assms(3,4))
qed

lemma mset_remove_nth: "i < length xs \<Longrightarrow> mset (remove_nth i xs) + {#xs ! i#} = mset xs"
  unfolding remove_nth_def
  by (metis add.commute add_mset_add_single append_take_drop_id Cons_nth_drop_Suc mset.simps(2) mset_append
      union_mset_add_mset_right)

lemma distinct_map_mset: "mset xs = mset ys \<Longrightarrow> distinct (map f xs) = distinct (map f ys)"
  by (metis mset_eq_imp_distinct_iff mset_map)

lemma started_ok:
  assumes "distinct (map qm_ID (qs_members q))" and "proper_loop l" and "loop_knows (started q l)"
  shows "client_ok q (started q l)"
  using assms by (simp add: client_ok_def well_membered_def started_def load_members_def adv_members_def answer_ok_def)

lemma rejected_ok: "e \<noteq> WHead ErrExternalHeadNotFound \<Longrightarrow> client_ok q (rejected e)"
  by (simp add: client_ok_def well_membered_def rejected_def load_members_def adv_members_def answer_ok_def)

fun proper_call :: "quorum_call \<Rightarrow> bool" where
  "proper_call (QConverge allowed target) = proper_target target"
| "proper_call _ = True"

lemma start_call_ok:
  assumes "distinct (map qm_ID (qs_members q))" and "proper_call call"
  shows "client_ok q (start_call q call)"
proof (cases call)
  case (QLoad j)
  then show ?thesis
    by (auto simp: Let_def intro!: rejected_ok started_ok assms)
      (simp_all add: loop_knows_def started_def load_knows_def adv_members_def)
next
  case (QAdvance p n)
  have "advance_precheck p n = Inl e \<Longrightarrow> e \<noteq> WHead ErrExternalHeadNotFound" for e
    by (auto simp: advance_precheck_def Let_def split: if_splits)
  with QAdvance show ?thesis
    by (auto intro!: rejected_ok started_ok assms split: sum.split)
      (simp add: loop_knows_def started_def cas_knows_def adv_members_def)
next
  case (QConverge hs t)
  have "converge_allowed t hs = Inl e \<Longrightarrow> e \<noteq> WHead ErrExternalHeadNotFound" for e
    by (induction hs arbitrary: e) (auto simp: Let_def split: if_splits sum.splits prod.splits)
  with QConverge assms(2) show ?thesis
    by (auto intro!: rejected_ok started_ok assms(1) split: sum.split)
      (auto simp: loop_knows_def started_def converge_knows_def adv_members_def seen_list_def)
qed

subsection \<open>Goroutines\<close>

lemma load_goroutine_member: "load_goroutine q m j s = (ob, s') \<Longrightarrow> mo_member ob = m"
  by (auto simp: load_goroutine_def split: sum.splits prod.splits)

lemma advance_goroutine_member: "advance_goroutine q m p n s = (res, s') \<Longrightarrow> ar_member res = m"
  by (auto simp: advance_goroutine_def split: sum.splits prod.splits)

lemma perform_load_cases:
  assumes "perform_load q i cl s = (cl', s')" and "i < length (cl_outstanding cl)"
  obtains m ob where "m \<in> set (cl_outstanding cl)" "load_goroutine q m (loop_journal (cl_loop cl)) s = (ob, s')"
    "cl' = cl\<lparr>cl_outstanding := remove_nth i (cl_outstanding cl), cl_loads := cl_loads cl @ [ob]\<rparr>"
    "mset (load_members cl') = mset (load_members cl)" "length (cl_outstanding cl') + 1 = length (cl_outstanding cl)"
proof -
  obtain ob where ob: "load_goroutine q (cl_outstanding cl ! i) (loop_journal (cl_loop cl)) s = (ob, s')"
    "cl' = cl\<lparr>cl_outstanding := remove_nth i (cl_outstanding cl), cl_loads := cl_loads cl @ [ob]\<rparr>"
    using assms(1) by (auto simp: perform_load_def split: prod.splits)
  have "mset (load_members cl') = mset (load_members cl)"
    using mset_remove_nth [OF assms(2)] load_goroutine_member [OF ob(1)] ob(2)
    by (simp add: load_members_def add.assoc)
  moreover have "length (remove_nth i (cl_outstanding cl)) + 1 = length (cl_outstanding cl)"
    using assms(2) by (simp add: remove_nth_def min_def)
  ultimately show thesis using that [OF _ ob] assms(2) ob(2) by simp
qed

lemma perform_load_ok:
  assumes "perform_load q i cl s = (cl', s')" and "i < length (cl_outstanding cl)" and ok: "client_ok q cl"
  shows "client_ok q cl' \<and> evidence cl \<subseteq> evidence cl'"
proof -
  obtain m ob where m: "cl' = cl\<lparr>cl_outstanding := remove_nth i (cl_outstanding cl), cl_loads := cl_loads cl @ [ob]\<rparr>"
    "mset (load_members cl') = mset (load_members cl)" "length (cl_outstanding cl') + 1 = length (cl_outstanding cl)"
    using perform_load_cases [OF assms(1,2)] by metis
  have ev: "evidence cl \<subseteq> evidence cl'" by (rule evidence_mono) (auto simp: m(1))
  have knows: "loop_knows cl \<Longrightarrow> loop_knows cl'"
    using m(3) [symmetric] unfolding m(1) by (auto simp: loop_knows_def adv_members_def split: select_loop.split)
  have "answer_ok q cl'" using ok by (intro answer_ok_mono [OF _ ev]) (simp_all add: client_ok_def m(1))
  with ok ev knows m(2) show ?thesis unfolding client_ok_def well_membered_def
    by (simp add: distinct_map_mset [OF m(2)] mset_eq_setD [OF m(2)]) (simp add: m(1) adv_members_def)
qed

lemma perform_advance_cases:
  assumes "perform_advance q i cl s = (cl', s')" and "i < length (cl_jobs cl)"
  obtains m p n res where "(m, p, n) \<in> set (cl_jobs cl)" "advance_goroutine q m p n s = (res, s')"
    "cl' = cl\<lparr>cl_jobs := remove_nth i (cl_jobs cl), cl_advances := cl_advances cl @ [res]\<rparr>"
    "mset (adv_members cl') = mset (adv_members cl)"
proof -
  obtain m p n where job: "cl_jobs cl ! i = (m, p, n)" by (cases "cl_jobs cl ! i")
  obtain res where res: "advance_goroutine q m p n s = (res, s')"
    "cl' = cl\<lparr>cl_jobs := remove_nth i (cl_jobs cl), cl_advances := cl_advances cl @ [res]\<rparr>"
    using assms(1) job by (auto simp: perform_advance_def split: prod.splits)
  have "image_mset fst (mset (remove_nth i (cl_jobs cl))) + {#m#} = image_mset fst (mset (cl_jobs cl))"
    using arg_cong [OF mset_remove_nth [OF assms(2)], of "image_mset fst"] job by simp
  then have "mset (adv_members cl') = mset (adv_members cl)"
    using advance_goroutine_member [OF res(1)] res(2)
    by (simp add: adv_members_def add.assoc)
  with that [OF _ res] show thesis using assms(2) job by (metis nth_mem)
qed

lemma perform_advance_ok:
  assumes "perform_advance q i cl s = (cl', s')" and "i < length (cl_jobs cl)" and ok: "client_ok q cl"
  shows "client_ok q cl' \<and> evidence cl \<subseteq> evidence cl'"
proof -
  obtain m p n res where m: "cl' = cl\<lparr>cl_jobs := remove_nth i (cl_jobs cl), cl_advances := cl_advances cl @ [res]\<rparr>"
    "mset (adv_members cl') = mset (adv_members cl)"
    using perform_advance_cases [OF assms(1,2)] by metis
  have ev: "evidence cl \<subseteq> evidence cl'" by (rule evidence_mono) (auto simp: m(1))
  have empty: "adv_members cl' = [] \<longleftrightarrow> adv_members cl = []"
    using m(2) by (metis mset_zero_iff)
  have knows: "loop_knows cl \<Longrightarrow> loop_knows cl'"
    unfolding loop_knows_def set_map mset_eq_setD [OF m(2)] empty by (simp add: m(1) split: select_loop.splits)
  have "answer_ok q cl'" using ok by (intro answer_ok_mono [OF _ ev]) (simp_all add: client_ok_def m(1))
  moreover have "set (cl_jobs cl') \<subseteq> set (cl_jobs cl)"
    unfolding m(1) by (auto simp: remove_nth_def dest: in_set_takeD in_set_dropD)
  ultimately show ?thesis using ok ev knows unfolding client_ok_def well_membered_def
    by (simp add: distinct_map_mset [OF m(2)] mset_eq_setD [OF m(2)]) (auto simp: m(1) load_members_def)
qed

subsection \<open>Certificates\<close>

lemma received_distinct:
  "well_membered q cl \<Longrightarrow> distinct (map (qm_ID \<circ> mo_member) (cl_received cl)) \<and>
     mo_member ` set (cl_received cl) \<subseteq> set (qs_members q)"
  by (auto simp: well_membered_def load_members_def comp_def)

lemma advanced_distinct:
  "well_membered q cl \<Longrightarrow> distinct (map (qm_ID \<circ> ar_member) (cl_advanced cl)) \<and>
     ar_member ` set (cl_advanced cl) \<subseteq> set (qs_members q)"
  by (auto simp: well_membered_def adv_members_def comp_def)

lemma received_evidence:
  "ob \<in> set (cl_received cl) \<Longrightarrow> informative ob \<Longrightarrow>
     (qm_ID (mo_member ob), loop_journal (cl_loop cl), observed ob) \<in> evidence cl"
  unfolding evidence_def by auto

lemma advanced_evidence:
  "r \<in> set (cl_advanced cl) \<Longrightarrow> advanced_to (loop_target (cl_loop cl)) r \<Longrightarrow>
     (qm_ID (ar_member r), loop_journal (cl_loop cl), loop_target (cl_loop cl)) \<in> evidence cl"
  unfolding evidence_def by auto

lemma certified_received:
  assumes "well_membered q cl" and "qs_threshold q \<le> int (length (filter P (cl_received cl)))"
    and "\<And>ob. P ob \<Longrightarrow> informative ob \<and> observed ob = v"
  shows "certified q cl v"
proof (rule certified_from_list [of "qm_ID \<circ> mo_member" "filter P (cl_received cl)"])
  show "distinct (map (qm_ID \<circ> mo_member) (filter P (cl_received cl)))"
    using received_distinct [OF assms(1)] by (simp add: distinct_map_filter)
  fix ob
  assume "ob \<in> set (filter P (cl_received cl))"
  then show "(qm_ID \<circ> mo_member) ob \<in> qm_ID ` set (qs_members q) \<and>
      ((qm_ID \<circ> mo_member) ob, loop_journal (cl_loop cl), v) \<in> evidence cl"
    using received_distinct [OF assms(1)] assms(3) [of ob] received_evidence [of ob cl] by auto
qed (fact assms(2))

lemma certified_advanced:
  assumes "well_membered q cl" and "loop_target (cl_loop cl) = t"
    and "qs_threshold q \<le> int (length (filter (advanced_to t) (cl_advanced cl)))"
  shows "certified q cl t"
proof (rule certified_from_list [of "qm_ID \<circ> ar_member" "filter (advanced_to t) (cl_advanced cl)"])
  show "distinct (map (qm_ID \<circ> ar_member) (filter (advanced_to t) (cl_advanced cl)))"
    using advanced_distinct [OF assms(1)] by (simp add: distinct_map_filter)
  fix r
  assume "r \<in> set (filter (advanced_to t) (cl_advanced cl))"
  then show "(qm_ID \<circ> ar_member) r \<in> qm_ID ` set (qs_members q) \<and>
      ((qm_ID \<circ> ar_member) r, loop_journal (cl_loop cl), t) \<in> evidence cl"
    using advanced_distinct [OF assms(1)] advanced_evidence [of r cl] assms(2) by auto
qed (fact assms(3))

text \<open>For a proper target, a member counted as being at the target has reported that head.\<close>

lemma at_target_observed:
  assumes "proper_target t" and "\<not> converge_skips b ob" and "at_target t (converge_seen b t ob)"
  shows "informative ob \<and> observed ob = Some (semanticExternalHead t)"
  using assms by (auto simp: proper_target_def converge_skips_def at_target_def converge_seen_def sameSemanticHead_def
      semanticExternalHead_def informative_def observed_def zero_head_def split: if_splits)

lemma certified_converged:
  assumes wm: "well_membered q cl" and loop: "cl_loop cl = ConvergeLoop a b t st" and proper: "proper_target t"
    and thr: "qs_threshold q \<le> int (length (converge_successes b t (cl_received cl) (cl_advanced cl)))"
    and ids: "set (map qm_ID (adv_members cl)) \<subseteq>
      qm_ID ` mo_member ` set (filter (\<lambda>ob. \<not> at_target t ob) (seen_list b t (cl_received cl)))"
  shows "certified q cl (Some (semanticExternalHead t))"
proof (rule certified_from_list [of "qm_ID \<circ> mo_member" "converge_successes b t (cl_received cl) (cl_advanced cl)"])
  let ?seen = "seen_list b t (cl_received cl)" and ?f = "qm_ID \<circ> mo_member"
  let ?adv = "filter (advanced_to (Some (semanticExternalHead t))) (cl_advanced cl)"
  have seen: "distinct (map ?f ?seen)" using received_distinct [OF wm] by (intro seen_list_members(1)) simp
  then have inj: "inj_on ?f (set ?seen)" by (simp add: distinct_map)
  have "distinct (map (qm_ID \<circ> ar_member) ?adv)" using advanced_distinct [OF wm] by (simp add: distinct_map_filter)
  moreover have "?f ` set (filter (at_target t) ?seen) \<inter> qm_ID ` ar_member ` set ?adv = {}"
  proof -
    have "qm_ID ` ar_member ` set ?adv \<subseteq> ?f ` set (filter (\<lambda>ob. \<not> at_target t ob) ?seen)"
      using ids by (auto simp: adv_members_def image_comp)
    moreover have "?f ` set (filter (at_target t) ?seen) \<inter> ?f ` set (filter (\<lambda>ob. \<not> at_target t ob) ?seen) = {}"
      using inj by (auto simp: inj_on_def)
    ultimately show ?thesis by blast
  qed
  ultimately show "distinct (map ?f (converge_successes b t (cl_received cl) (cl_advanced cl)))"
    using seen by (simp add: converge_successes_def distinct_map_filter comp_def image_comp)
  fix ob
  assume "ob \<in> set (converge_successes b t (cl_received cl) (cl_advanced cl))"
  then consider o' where "o' \<in> set (cl_received cl)" "\<not> converge_skips b o'" "at_target t (converge_seen b t o')"
      "mo_member ob = mo_member o'"
    | r where "r \<in> set ?adv" "mo_member ob = ar_member r"
    by (auto simp: converge_successes_def seen_list_def)
  then show "?f ob \<in> qm_ID ` set (qs_members q) \<and>
      (?f ob, loop_journal (cl_loop cl), Some (semanticExternalHead t)) \<in> evidence cl"
  proof cases
    case 1
    with received_distinct [OF wm] received_evidence [of o' cl] at_target_observed [OF proper 1(2,3)] show ?thesis by auto
  next
    case 2
    with advanced_distinct [OF wm] advanced_evidence [of r cl] loop show ?thesis by auto
  qed
qed (fact thr)

subsection \<open>Receiving\<close>

lemma loop_on_load_keeps:
  "loop_on_load enc q ob l = (jobs, l', r) \<Longrightarrow>
     loop_journal l' = loop_journal l \<and> loop_target l' = loop_target l \<and> proper_loop l' = proper_loop l"
  by (cases l) (auto split: prod.splits)

lemma loop_on_advance_keeps:
  "loop_on_advance enc q res l = (l', r) \<Longrightarrow>
     loop_journal l' = loop_journal l \<and> loop_target l' = loop_target l \<and> proper_loop l' = proper_loop l"
  by (cases l) (auto split: prod.splits)

lemma receive_load_cases:
  assumes "i < length (cl_loads cl)"
  obtains ob jobs l r where "loop_on_load enc q ob (cl_loop cl) = (jobs, l, r)"
    "receive_load enc q i cl = cl\<lparr>cl_loop := l, cl_loads := remove_nth i (cl_loads cl), cl_jobs := cl_jobs cl @ jobs,
       cl_received := cl_received cl @ [ob], cl_result := r\<rparr>"
    "mset (cl_loads cl) = mset (remove_nth i (cl_loads cl)) + {#ob#}" "ob \<in> set (cl_loads cl)"
proof -
  obtain jobs l r where "loop_on_load enc q (cl_loads cl ! i) (cl_loop cl) = (jobs, l, r)"
    by (cases "loop_on_load enc q (cl_loads cl ! i) (cl_loop cl)") auto
  with that show thesis using mset_remove_nth [OF assms] assms by (simp add: receive_load_def)
qed

lemma receive_advance_cases:
  assumes "i < length (cl_advances cl)"
  obtains res l r where "loop_on_advance enc q res (cl_loop cl) = (l, r)"
    "receive_advance enc q i cl = cl\<lparr>cl_loop := l, cl_advances := remove_nth i (cl_advances cl),
       cl_advanced := cl_advanced cl @ [res], cl_result := r\<rparr>"
    "mset (cl_advances cl) = mset (remove_nth i (cl_advances cl)) + {#res#}" "res \<in> set (cl_advances cl)"
proof -
  obtain l r where "loop_on_advance enc q (cl_advances cl ! i) (cl_loop cl) = (l, r)"
    by (cases "loop_on_advance enc q (cl_advances cl ! i) (cl_loop cl)") auto
  with that show thesis using mset_remove_nth [OF assms] assms by (simp add: receive_advance_def)
qed

text \<open>What a loop knows, and what it may answer, after one more load result.\<close>

lemma semantic_journal [simp]: "sh_JournalID (semanticExternalHead h) = eh_JournalID h"
  by (simp add: semanticExternalHead_def)

lemma semantic_eq_journal: "semanticExternalHead h = semanticExternalHead n \<Longrightarrow> eh_JournalID h = eh_JournalID n"
  by (simp add: semanticExternalHead_def)

definition received_load ::
  "'s client \<Rightarrow> 's select_loop \<Rightarrow> 's observation list \<Rightarrow> 's job list \<Rightarrow> 's observation \<Rightarrow> outcome \<Rightarrow> 's client" where
  "received_load cl l ls jobs ob r = cl\<lparr>cl_loop := l, cl_loads := ls, cl_jobs := cl_jobs cl @ jobs,
     cl_received := cl_received cl @ [ob], cl_result := r\<rparr>"

lemma received_load_simps [simp]:
  "cl_loop (received_load cl l ls jobs ob r) = l" "cl_loads (received_load cl l ls jobs ob r) = ls"
  "cl_jobs (received_load cl l ls jobs ob r) = cl_jobs cl @ jobs" "cl_result (received_load cl l ls jobs ob r) = r"
  "cl_received (received_load cl l ls jobs ob r) = cl_received cl @ [ob]"
  "cl_advanced (received_load cl l ls jobs ob r) = cl_advanced cl"
  "cl_outstanding (received_load cl l ls jobs ob r) = cl_outstanding cl"
  "set (adv_members (received_load cl l ls jobs ob r)) = set (adv_members cl) \<union> fst ` set jobs"
  by (auto simp: received_load_def adv_members_def)

lemma answer_okI:
  assumes "cl_result cl = r" and "r \<noteq> Some (Inl (WHead ErrExternalHeadNotFound))"
    and "\<And>h. r = Some (Inr h) \<Longrightarrow> certified q cl (Some (semanticExternalHead h)) \<and> eh_JournalID h = loop_journal (cl_loop cl)"
  shows "answer_ok q cl"
  using assms by (simp add: answer_ok_def)

lemma load_loop_after_load:
  assumes step: "load_receive enc q j ob st = (st', r)"
    and k: "load_knows j (cl_received cl) st" "adv_members cl = []"
    and cl': "cl' = received_load cl (LoadLoop j st') ls [] ob r" and wm: "well_membered q cl'"
  shows "loop_knows cl' \<and> answer_ok q cl'"
proof -
  have "adv_members cl' = []" using k(2) unfolding cl' by (simp flip: set_empty)
  then have "loop_knows cl'" unfolding loop_knows_def using load_receive_knows [OF k(1) step] by (simp add: cl')
  moreover have "certified q cl' (Some (semanticExternalHead h)) \<and> eh_JournalID h = j" if "r = Some (Inr h)" for h
  proof
    from load_receive_head [OF k(1), of enc q ob st' h] step that have head: "eh_JournalID h = j"
      "qs_threshold q \<le> int (length (filter (agreeing j (semanticExternalHead h)) (cl_received cl')))"
      by (simp_all add: cl')
    show "eh_JournalID h = j" by (fact head(1))
    show "certified q cl' (Some (semanticExternalHead h))"
      by (rule certified_received [OF wm head(2)]) (simp add: agreeing_def informative_def observed_def)
  qed
  moreover have "certified q cl' None" if "r = Some (Inl (WHead ErrExternalHeadNotFound))"
    by (rule certified_received [OF wm, of mo_notFound])
      (use load_receive_absent [OF k(1), of enc q ob st' ErrExternalHeadNotFound] step that in
        \<open>simp_all add: cl' informative_def observed_def\<close>)
  ultimately show ?thesis by (simp add: answer_ok_def cl')
qed

lemma advance_loop_after_load:
  assumes step: "cas_on_load enc q p n ob st = (jobs, st', r)"
    and k: "cas_knows n (cl_received cl) (set (map qm_ID (adv_members cl))) (cl_advanced cl) st"
    and cl': "cl' = received_load cl (AdvanceLoop p n st') ls jobs ob r" and wm: "well_membered q cl'"
  shows "loop_knows cl' \<and> answer_ok q cl'"
proof -
  note f = cas_on_load_facts [OF step k]
  have ids: "set (map qm_ID (adv_members cl')) = set (map qm_ID (adv_members cl)) \<union> qm_ID ` fst ` set jobs"
    unfolding set_map cl' received_load_simps image_Un by simp
  have "loop_knows cl'" using f unfolding loop_knows_def ids by (simp add: cl')
  moreover have "certified q cl' (Some (semanticExternalHead h)) \<and> eh_JournalID h = loop_journal (cl_loop cl')"
    if "r = Some (Inr h)" for h
  proof -
    from that f have c: "semanticExternalHead h = semanticExternalHead n" "qs_threshold q \<le> int (length (cs_successes st'))"
      using cas_check_Inr by blast+
    have "certified q cl' (Some (semanticExternalHead n))"
      using c(2) f by (intro certified_advanced [OF wm]) (simp_all add: cl' cas_knows_def)
    then show ?thesis unfolding c(1) using semantic_eq_journal [OF c(1)] by (simp add: cl')
  qed
  ultimately show ?thesis using f answer_okI [of cl' r q] by (metis received_load_simps(4) cl')
qed

lemma converge_loop_after_load:
  assumes step: "converge_on_load enc q a b t ob st = (jobs, st', r)"
    and k: "converge_knows b t (Suc (length (cl_outstanding cl) + length ls)) (cl_received cl)
      (set (map qm_ID (adv_members cl))) (cl_advanced cl) st"
    and cl': "cl' = received_load cl (ConvergeLoop a b t st') ls jobs ob r" and wm: "well_membered q cl'"
    and proper: "proper_target t"
  shows "(r = None \<longrightarrow> loop_knows cl') \<and> answer_ok q cl'"
proof -
  have none: "adv_members cl = []" "cl_advanced cl = []" using k by (simp_all add: converge_knows_def)
  have d: "distinct (map (qm_ID \<circ> mo_member) (cl_received cl @ [ob]))"
    using received_distinct [OF wm] by (simp add: cl')
  note f = converge_on_load_facts [OF step k d]
  have ids: "set (map qm_ID (adv_members cl')) = qm_ID ` fst ` set jobs"
    unfolding set_map cl' received_load_simps none by simp
  have "r = None \<longrightarrow> loop_knows cl'" using f none unfolding loop_knows_def ids by (simp add: cl')
  moreover have "certified q cl' (Some (semanticExternalHead h)) \<and> eh_JournalID h = loop_journal (cl_loop cl')"
    if "r = Some (Inr h)" for h
  proof -
    from that f have c: "jobs = []" "semanticExternalHead h = semanticExternalHead t"
      "qs_threshold q \<le> int (length (converge_successes b t (cl_received cl @ [ob]) []))" by blast+
    have "certified q cl' (Some (semanticExternalHead t))"
      using c(3) none ids c(1) by (intro certified_converged [OF wm _ proper]) (simp_all add: cl')
    then show ?thesis unfolding c(2) using semantic_eq_journal [OF c(2)] by (simp add: cl')
  qed
  ultimately show ?thesis using f answer_okI [of cl' r q] by (metis received_load_simps(4) cl')
qed

text \<open>The jobs that a loop launches on a load result.\<close>

lemma fresh_jobs_disjoint:
  assumes "fresh_jobs nxt b c M jobs" and "Y \<subseteq> b"
  shows "distinct (map (qm_ID \<circ> fst) jobs) \<and> fst ` set jobs \<subseteq> M \<and> qm_ID ` fst ` set jobs \<inter> Y = {} \<and>
    (\<forall>job \<in> set jobs. Some (semanticExternalHead nxt) = Some (semanticExternalHead (snd (snd job))))"
proof -
  have "X \<inter> Y = {}" if "X \<subseteq> c - b" for X using that assms(2) by blast
  with assms(1) show ?thesis by (simp add: fresh_jobs_def)
qed

lemma launched_jobs:
  assumes step: "loop_on_load enc q ob (cl_loop cl) = (jobs, l, r)" and ok: "client_ok q cl" "cl_result cl = None"
    and d: "distinct (map (qm_ID \<circ> mo_member) (cl_received cl @ [ob]))" and n: "cl_loads cl \<noteq> []"
  shows "distinct (map (qm_ID \<circ> fst) jobs) \<and> fst ` set jobs \<subseteq> mo_member ` set (cl_received cl @ [ob]) \<and>
    qm_ID ` fst ` set jobs \<inter> set (map qm_ID (adv_members cl)) = {} \<and>
    (\<forall>job \<in> set jobs. loop_target (cl_loop cl) = Some (semanticExternalHead (snd (snd job))))"
proof (cases "cl_loop cl")
  case (LoadLoop j st)
  with step show ?thesis by (auto split: prod.splits)
next
  case (AdvanceLoop p nxt st)
  then obtain st' where s: "cas_on_load enc q p nxt ob st = (jobs, st', r)" using step by (auto split: prod.splits)
  have k: "cas_knows nxt (cl_received cl) (set (map qm_ID (adv_members cl))) (cl_advanced cl) st"
    using ok AdvanceLoop by (simp add: client_ok_def loop_knows_def)
  have "fresh_jobs nxt (cs_launched st) (cs_launched st') (mo_member ` set (cl_received cl @ [ob])) jobs"
    using cas_on_load_facts [OF s k] by blast
  moreover have "set (map qm_ID (adv_members cl)) \<subseteq> cs_launched st" using k by (simp add: cas_knows_def)
  ultimately show ?thesis unfolding AdvanceLoop loop_target.simps by (rule fresh_jobs_disjoint)
next
  case (ConvergeLoop a b t st)
  then obtain st' where s: "converge_on_load enc q a b t ob st = (jobs, st', r)" using step by (auto split: prod.splits)
  obtain k where k: "length (cl_outstanding cl) + length (cl_loads cl) = Suc k" using n by (cases "cl_loads cl") auto
  have kn: "converge_knows b t (Suc k) (cl_received cl) (set (map qm_ID (adv_members cl))) (cl_advanced cl) st"
    using ok ConvergeLoop k by (simp add: client_ok_def loop_knows_def)
  have "fresh_jobs t {} UNIV (mo_member ` set (cl_received cl @ [ob])) jobs"
    using converge_on_load_facts [OF s kn d] by blast
  moreover have "set (map qm_ID (adv_members cl)) \<subseteq> {}" using kn by (simp add: converge_knows_def)
  ultimately show ?thesis unfolding ConvergeLoop loop_target.simps by (rule fresh_jobs_disjoint)
qed

lemma loop_after_load:
  assumes step: "loop_on_load enc q ob (cl_loop cl) = (jobs, l, r)" and ok: "client_ok q cl" "cl_result cl = None"
    and n: "length (cl_loads cl) = Suc (length ls)" and cl': "cl' = received_load cl l ls jobs ob r"
    and wm: "well_membered q cl'"
  shows "(r = None \<longrightarrow> loop_knows cl') \<and> answer_ok q cl'"
proof (cases "cl_loop cl")
  case (LoadLoop j st)
  then obtain st' where s: "load_receive enc q j ob st = (st', r)" "l = LoadLoop j st'" "jobs = []"
    using step by (auto split: prod.splits)
  have "load_knows j (cl_received cl) st" "adv_members cl = []"
    using ok LoadLoop by (simp_all add: client_ok_def loop_knows_def)
  from load_loop_after_load [OF s(1) this cl' [unfolded s(2,3)] wm] show ?thesis by simp
next
  case (AdvanceLoop p nxt st)
  then obtain st' where s: "cas_on_load enc q p nxt ob st = (jobs, st', r)" "l = AdvanceLoop p nxt st'"
    using step by (auto split: prod.splits)
  have "cas_knows nxt (cl_received cl) (set (map qm_ID (adv_members cl))) (cl_advanced cl) st"
    using ok AdvanceLoop by (simp add: client_ok_def loop_knows_def)
  from advance_loop_after_load [OF s(1) this cl' [unfolded s(2)] wm] show ?thesis by simp
next
  case (ConvergeLoop a b t st)
  then obtain st' where s: "converge_on_load enc q a b t ob st = (jobs, st', r)" "l = ConvergeLoop a b t st'"
    using step by (auto split: prod.splits)
  have "converge_knows b t (Suc (length (cl_outstanding cl) + length ls)) (cl_received cl)
      (set (map qm_ID (adv_members cl))) (cl_advanced cl) st" "proper_target t"
    using ok ConvergeLoop n by (simp_all add: client_ok_def loop_knows_def)
  from converge_loop_after_load [OF s(1) this(1) cl' [unfolded s(2)] wm this(2)] show ?thesis .
qed

lemma receive_load_ok:
  assumes i: "i < length (cl_loads cl)" and ok: "client_ok q cl" "cl_result cl = None"
  shows "client_ok q (receive_load enc q i cl) \<and> evidence (receive_load enc q i cl) = evidence cl"
proof -
  obtain ob jobs l r where step: "loop_on_load enc q ob (cl_loop cl) = (jobs, l, r)"
    and rl: "receive_load enc q i cl = received_load cl l (remove_nth i (cl_loads cl)) jobs ob r"
    and ms: "mset (cl_loads cl) = mset (remove_nth i (cl_loads cl)) + {#ob#}" and ob: "ob \<in> set (cl_loads cl)"
    using receive_load_cases [OF i] unfolding received_load_def by metis
  define cl' where "cl' = received_load cl l (remove_nth i (cl_loads cl)) jobs ob r"
  note keep = loop_on_load_keeps [OF step]
  have lm: "mset (load_members cl') = mset (load_members cl)" by (simp add: load_members_def cl'_def ms)
  have "set (cl_loads cl' @ cl_received cl') = set (cl_loads cl @ cl_received cl)"
    using arg_cong [OF ms, of set_mset] by (auto simp: cl'_def)
  then have ev: "evidence cl' = evidence cl" unfolding evidence_def by (simp add: cl'_def keep) (simp add: received_load_def)
  have wl: "distinct (map qm_ID (load_members cl'))" "set (load_members cl') \<subseteq> set (qs_members q)"
    using ok(1) unfolding client_ok_def well_membered_def
    by (simp_all add: distinct_map_mset [OF lm] mset_eq_setD [OF lm])
  have d: "distinct (map (qm_ID \<circ> mo_member) (cl_received cl @ [ob]))"
    using wl(1) by (auto simp: load_members_def cl'_def comp_def)
  have jobs: "distinct (map (qm_ID \<circ> fst) jobs)" "fst ` set jobs \<subseteq> mo_member ` set (cl_received cl @ [ob])"
    "qm_ID ` fst ` set jobs \<inter> set (map qm_ID (adv_members cl)) = {}"
    "\<forall>job \<in> set jobs. loop_target (cl_loop cl) = Some (semanticExternalHead (snd (snd job)))"
    using launched_jobs [OF step ok d length_pos_if_in_set [OF ob, THEN length_greater_0_conv [THEN iffD1]]] by blast+
  have "mo_member ` set (cl_received cl @ [ob]) \<subseteq> set (qs_members q)"
    using wl(2) by (auto simp: load_members_def cl'_def)
  with jobs(2) have members: "fst ` set jobs \<subseteq> set (qs_members q)" by (rule order_trans)
  have am: "mset (adv_members cl') = mset (adv_members cl @ map fst jobs)"
    by (simp add: adv_members_def cl'_def received_load_def)
  have "distinct (map qm_ID (adv_members cl'))" "set (adv_members cl') \<subseteq> set (qs_members q)"
    using ok(1) jobs(1,3) members
    unfolding client_ok_def well_membered_def distinct_map_mset [OF am] mset_eq_setD [OF am]
    by (simp_all add: comp_def image_comp Int_commute)
  with wl have wm: "well_membered q cl'" by (simp add: well_membered_def)
  have n: "length (cl_loads cl) = Suc (length (remove_nth i (cl_loads cl)))" using arg_cong [OF ms, of size] by simp
  from loop_after_load [OF step ok n cl'_def wm] ok ev keep wm jobs(4) show ?thesis
    unfolding rl cl'_def [symmetric] by (auto simp: client_ok_def) (auto simp: cl'_def)
qed

definition received_advance ::
  "'s client \<Rightarrow> 's select_loop \<Rightarrow> 's advance_result list \<Rightarrow> 's advance_result \<Rightarrow> outcome \<Rightarrow> 's client" where
  "received_advance cl l as res r =
     cl\<lparr>cl_loop := l, cl_advances := as, cl_advanced := cl_advanced cl @ [res], cl_result := r\<rparr>"

lemma received_advance_simps [simp]:
  "cl_loop (received_advance cl l as res r) = l" "cl_loads (received_advance cl l as res r) = cl_loads cl"
  "cl_jobs (received_advance cl l as res r) = cl_jobs cl" "cl_result (received_advance cl l as res r) = r"
  "cl_received (received_advance cl l as res r) = cl_received cl" "cl_advances (received_advance cl l as res r) = as"
  "cl_advanced (received_advance cl l as res r) = cl_advanced cl @ [res]"
  "cl_outstanding (received_advance cl l as res r) = cl_outstanding cl"
  by (simp_all add: received_advance_def)

lemma advance_loop_after_advance:
  assumes step: "cas_on_advance enc q n res st = (st', r)"
    and k: "cas_knows n (cl_received cl) (set (map qm_ID (adv_members cl))) (cl_advanced cl) st"
    and cl': "cl' = received_advance cl (AdvanceLoop p n st') as res r" and wm: "well_membered q cl'"
    and ids: "set (adv_members cl') = set (adv_members cl)"
  shows "loop_knows cl' \<and> answer_ok q cl'"
proof -
  note f = cas_on_advance_facts [OF step k]
  have "loop_knows cl'" using f unfolding loop_knows_def set_map ids by (simp add: cl')
  moreover have "answer_ok q cl'"
  proof (rule answer_okI)
    show "cl_result cl' = r" by (simp add: cl')
    show "r \<noteq> Some (Inl (WHead ErrExternalHeadNotFound))" using f cas_check_Inl by metis
    fix h
    assume "r = Some (Inr h)"
    with f have c: "semanticExternalHead h = semanticExternalHead n" "qs_threshold q \<le> int (length (cs_successes st'))"
      using cas_check_Inr by metis+
    have "certified q cl' (Some (semanticExternalHead n))"
      using c(2) f by (intro certified_advanced [OF wm]) (simp_all add: cl' cas_knows_def)
    then show "certified q cl' (Some (semanticExternalHead h)) \<and> eh_JournalID h = loop_journal (cl_loop cl')"
      unfolding c(1) using semantic_eq_journal [OF c(1)] by (simp add: cl')
  qed
  ultimately show ?thesis ..
qed

lemma converge_loop_after_advance:
  assumes step: "converge_on_advance enc q b t res st = (st', r)"
    and k: "converge_knows b t 0 (cl_received cl) (set (map qm_ID (adv_members cl))) (cl_advanced cl) st"
    and cl': "cl' = received_advance cl (ConvergeLoop a b t st') as res r" and wm: "well_membered q cl'"
    and ids: "set (adv_members cl') = set (adv_members cl)" and proper: "proper_target t"
    and zero: "length (cl_outstanding cl) + length (cl_loads cl) = 0"
  shows "loop_knows cl' \<and> answer_ok q cl'"
proof -
  note f = converge_on_advance_facts [OF step k]
  have "loop_knows cl'" using f zero unfolding loop_knows_def set_map ids by (simp add: cl')
  moreover have "answer_ok q cl'"
  proof (rule answer_okI)
    show "cl_result cl' = r" by (simp add: cl')
    show "r \<noteq> Some (Inl (WHead ErrExternalHeadNotFound))" using f by blast
    fix h
    assume "r = Some (Inr h)"
    with f have c: "semanticExternalHead h = semanticExternalHead t"
      "qs_threshold q \<le> int (length (converge_successes b t (cl_received cl) (cl_advanced cl @ [res])))" by blast+
    have "certified q cl' (Some (semanticExternalHead t))"
    proof (rule certified_converged [OF wm _ proper])
      show "set (map qm_ID (adv_members cl')) \<subseteq>
          qm_ID ` mo_member ` set (filter (\<lambda>ob. \<not> at_target t ob) (seen_list b t (cl_received cl')))"
        using k unfolding set_map ids converge_knows_def by (simp add: cl') auto
    qed (use c(2) in \<open>simp_all add: cl'\<close>)
    then show "certified q cl' (Some (semanticExternalHead h)) \<and> eh_JournalID h = loop_journal (cl_loop cl')"
      unfolding c(1) using semantic_eq_journal [OF c(1)] by (simp add: cl')
  qed
  ultimately show ?thesis ..
qed

lemma receive_advance_ok:
  assumes i: "i < length (cl_advances cl)" and ok: "client_ok q cl" "cl_result cl = None"
  shows "client_ok q (receive_advance enc q i cl) \<and> evidence (receive_advance enc q i cl) = evidence cl"
proof -
  obtain res l r where step: "loop_on_advance enc q res (cl_loop cl) = (l, r)"
    and ra: "receive_advance enc q i cl = received_advance cl l (remove_nth i (cl_advances cl)) res r"
    and ms: "mset (cl_advances cl) = mset (remove_nth i (cl_advances cl)) + {#res#}" and res: "res \<in> set (cl_advances cl)"
    using receive_advance_cases [OF i] unfolding received_advance_def by metis
  define cl' where "cl' = received_advance cl l (remove_nth i (cl_advances cl)) res r"
  note keep = loop_on_advance_keeps [OF step]
  have am: "mset (adv_members cl') = mset (adv_members cl)" by (simp add: adv_members_def cl'_def ms)
  have "set (cl_advances cl' @ cl_advanced cl') = set (cl_advances cl @ cl_advanced cl)"
    using arg_cong [OF ms, of set_mset] by (auto simp: cl'_def)
  then have ev: "evidence cl' = evidence cl" unfolding evidence_def by (simp add: cl'_def keep)
  have wm: "well_membered q cl'"
    using ok(1) unfolding client_ok_def well_membered_def distinct_map_mset [OF am] mset_eq_setD [OF am]
    by (simp add: cl'_def load_members_def)
  have some: "adv_members cl \<noteq> []" using res by (auto simp: adv_members_def)
  have knows: "loop_knows cl" and proper: "proper_loop (cl_loop cl)" using ok by (simp_all add: client_ok_def)
  have "loop_knows cl' \<and> answer_ok q cl'"
  proof (cases "cl_loop cl")
    case (LoadLoop j st)
    with knows some show ?thesis by (simp add: loop_knows_def)
  next
    case (AdvanceLoop p n st)
    then obtain st' where s: "cas_on_advance enc q n res st = (st', r)" "l = AdvanceLoop p n st'"
      using step by (auto split: prod.splits)
    from AdvanceLoop knows have "cas_knows n (cl_received cl) (set (map qm_ID (adv_members cl))) (cl_advanced cl) st"
      by (simp add: loop_knows_def)
    from advance_loop_after_advance [OF s(1) this cl'_def [unfolded s(2)] wm mset_eq_setD [OF am]] show ?thesis .
  next
    case (ConvergeLoop a b t st)
    then obtain st' where s: "converge_on_advance enc q b t res st = (st', r)" "l = ConvergeLoop a b t st'"
      using step by (auto split: prod.splits)
    from ConvergeLoop knows have kn: "converge_knows b t (length (cl_outstanding cl) + length (cl_loads cl)) (cl_received cl)
        (set (map qm_ID (adv_members cl))) (cl_advanced cl) st" by (simp add: loop_knows_def)
    with some have zero: "length (cl_outstanding cl) + length (cl_loads cl) = 0"
      by (auto simp: converge_knows_def split: if_splits)
    from converge_loop_after_advance [OF s(1) kn [unfolded zero] cl'_def [unfolded s(2)] wm mset_eq_setD [OF am] _ zero]
      proper ConvergeLoop show ?thesis by simp
  qed
  with ok ev keep wm show ?thesis unfolding ra cl'_def [symmetric] by (auto simp: client_ok_def) (auto simp: cl'_def)
qed

lemma cancel_ok:
  assumes "client_ok q cl" and "cl' = cl\<lparr>cl_result := Some (Inl ErrExternalHeadQuorum)\<rparr>"
  shows "client_ok q cl' \<and> evidence cl' = evidence cl"
  using assms by (auto simp: client_ok_def well_membered_def load_members_def adv_members_def answer_ok_def evidence_def)

section \<open>Witnesses\<close>

text \<open>Progress of a head: absent, then forward in sequence; the head of a sequence number is fixed.\<close>

fun head_le :: "quorum_semantic_head option \<Rightarrow> quorum_semantic_head option \<Rightarrow> bool" where
  "head_le None y = True"
| "head_le (Some a) None = False"
| "head_le (Some a) (Some b) \<longleftrightarrow> sh_Sequence a < sh_Sequence b \<or>
     sh_Sequence a = sh_Sequence b \<and> sh_HeadHash a = sh_HeadHash b \<and> sh_KeyID a = sh_KeyID b"

lemma head_le_refl [simp]: "head_le x x"
  by (cases x) auto

lemma head_le_trans: "head_le x y \<Longrightarrow> head_le y z \<Longrightarrow> head_le x z"
  by (cases x; cases y; cases z) auto

fun proper_action :: "'s quorum_action \<Rightarrow> bool" where
  "proper_action (Start c call) = proper_call call"
| "proper_action _ = True"

definition clients_ok :: "'s quorum_head_store \<Rightarrow> 's quorum_system \<Rightarrow> bool" where
  "clients_ok q sy \<longleftrightarrow> (\<forall>c cl. sy_clients sy c = Some cl \<longrightarrow> client_ok q cl)"

text \<open>Calls keep their journal and their evidence; a result is final.\<close>

definition call_continues :: "'s client \<Rightarrow> 's client \<Rightarrow> bool" where
  "call_continues cl cl' \<longleftrightarrow> evidence cl \<subseteq> evidence cl' \<and> loop_journal (cl_loop cl') = loop_journal (cl_loop cl) \<and>
     (cl_result cl \<noteq> None \<longrightarrow> cl_result cl' = cl_result cl)"

lemma loop_target_journal: "loop_target l = Some t \<Longrightarrow> sh_JournalID t = loop_journal l"
  by (cases l) auto

text \<open>
  What is relied on of a quorum \<open>q\<close> of members: \<open>head s i j\<close> is the head that member \<open>i\<close> holds for journal
  \<open>j\<close> in the world \<open>s\<close>, \<open>honest\<close> the members that follow the contract of a head store. The others may
  answer anything, as long as a threshold of members still outnumbers them.
\<close>

locale witness_quorum =
  fixes q :: "'s quorum_head_store" and head :: "'s \<Rightarrow> string \<Rightarrow> string \<Rightarrow> quorum_semantic_head option"
    and honest :: "string set" and env :: "'s \<Rightarrow> 's \<Rightarrow> bool"
  assumes distinct_ids: "distinct (map qm_ID (qs_members q))"
    and majority: "int (length (qs_members q)) + int (card (qm_ID ` set (qs_members q) - honest)) < 2 * qs_threshold q"
    and load_reports: "m \<in> set (qs_members q) \<Longrightarrow> qm_ID m \<in> honest \<Longrightarrow> loadMember q m j s = (Inr h, s') \<Longrightarrow>
      head s' (qm_ID m) j = Some (semanticExternalHead h)"
    and load_absence: "m \<in> set (qs_members q) \<Longrightarrow> qm_ID m \<in> honest \<Longrightarrow>
      loadMember q m j s = (Inl (WHead ErrExternalHeadNotFound), s') \<Longrightarrow> head s' (qm_ID m) j = None"
    and load_forward: "m \<in> set (qs_members q) \<Longrightarrow> i \<in> honest \<Longrightarrow> loadMember q m j s = (r, s') \<Longrightarrow>
      head_le (head s i k) (head s' i k)"
    and advance_reports: "m \<in> set (qs_members q) \<Longrightarrow> qm_ID m \<in> honest \<Longrightarrow>
      compareAndAdvanceMember q m p n s = (Inr h, s') \<Longrightarrow> semanticExternalHead h = semanticExternalHead n \<Longrightarrow>
      head s' (qm_ID m) (eh_JournalID n) = Some (semanticExternalHead n)"
    and advance_forward: "m \<in> set (qs_members q) \<Longrightarrow> i \<in> honest \<Longrightarrow> compareAndAdvanceMember q m p n s = (r, s') \<Longrightarrow>
      head_le (head s i k) (head s' i k)"
    and env_forward: "env s s' \<Longrightarrow> i \<in> honest \<Longrightarrow> head_le (head s i k) (head s' i k)"
begin

definition forward :: "'s \<Rightarrow> 's \<Rightarrow> bool" where
  "forward s s' \<longleftrightarrow> (\<forall>i \<in> honest. \<forall>k. head_le (head s i k) (head s' i k))"

text \<open>Evidence of an honest member that is new in a call is the member's current head.\<close>

definition current_evidence :: "'s \<Rightarrow> evidence set \<Rightarrow> 's client \<Rightarrow> bool" where
  "current_evidence s old cl \<longleftrightarrow> (\<forall>i j x. (i, j, x) \<in> evidence cl \<longrightarrow> i \<in> honest \<longrightarrow> (i, j, x) \<in> old \<or> head s i j = x)"

lemma perform_load_evidence:
  assumes "perform_load q k cl s = (cl', s')" and "k < length (cl_outstanding cl)" and "client_ok q cl"
  shows "call_continues cl cl' \<and> forward s s' \<and> current_evidence s' (evidence cl) cl'"
proof -
  obtain m ob where m: "m \<in> set (cl_outstanding cl)" "load_goroutine q m (loop_journal (cl_loop cl)) s = (ob, s')"
    "cl' = cl\<lparr>cl_outstanding := remove_nth k (cl_outstanding cl), cl_loads := cl_loads cl @ [ob]\<rparr>"
    using perform_load_cases [OF assms(1,2)] by metis
  have mem: "m \<in> set (qs_members q)"
    using m(1) assms(3) by (auto simp: client_ok_def well_membered_def load_members_def)
  obtain r where r: "loadMember q m (loop_journal (cl_loop cl)) s = (r, s')"
    using m(2) by (auto simp: load_goroutine_def split: prod.splits sum.splits)
  have "head s' (qm_ID m) (loop_journal (cl_loop cl)) = observed ob" if "qm_ID m \<in> honest" "informative ob"
    using m(2) r that load_reports [OF mem that(1)] load_absence [OF mem that(1)]
    by (auto simp: load_goroutine_def informative_def observed_def split: sum.splits)
  moreover have "evidence cl' \<subseteq> evidence cl \<union> {(qm_ID m, loop_journal (cl_loop cl), observed ob) | u :: unit. informative ob}"
    using load_goroutine_member [OF m(2)] unfolding evidence_def m(3) by auto
  moreover have "forward s s'" using load_forward [OF mem _ r] by (simp add: forward_def)
  moreover have "call_continues cl cl'"
    using perform_load_ok [OF assms] by (simp add: call_continues_def m(3))
  ultimately show ?thesis unfolding current_evidence_def by blast
qed

lemma perform_advance_evidence:
  assumes "perform_advance q k cl s = (cl', s')" and "k < length (cl_jobs cl)" and ok: "client_ok q cl"
  shows "call_continues cl cl' \<and> forward s s' \<and> current_evidence s' (evidence cl) cl'"
proof -
  obtain m p n res where m: "(m, p, n) \<in> set (cl_jobs cl)" "advance_goroutine q m p n s = (res, s')"
    "cl' = cl\<lparr>cl_jobs := remove_nth k (cl_jobs cl), cl_advances := cl_advances cl @ [res]\<rparr>"
    using perform_advance_cases [OF assms(1,2)] by metis
  have "m \<in> set (adv_members cl)" using imageI [OF m(1), of fst] by (simp add: adv_members_def)
  then have mem: "m \<in> set (qs_members q)" using ok by (auto simp: client_ok_def well_membered_def)
  have t: "loop_target (cl_loop cl) = Some (semanticExternalHead n)" using m(1) ok by (auto simp: client_ok_def)
  have j: "loop_journal (cl_loop cl) = eh_JournalID n" using loop_target_journal [OF t] by simp
  obtain r where r: "compareAndAdvanceMember q m p n s = (r, s')"
    using m(2) by (auto simp: advance_goroutine_def split: prod.splits sum.splits)
  have "head s' (qm_ID m) (loop_journal (cl_loop cl)) = loop_target (cl_loop cl)"
    if hon: "qm_ID m \<in> honest" and adv: "advanced_to (loop_target (cl_loop cl)) res"
  proof -
    obtain h where h: "r = Inr h" "ar_head res = h"
      using m(2) r adv by (cases r) (auto simp: advance_goroutine_def advanced_to_def)
    then have "semanticExternalHead h = semanticExternalHead n" using adv t by (simp add: advanced_to_def)
    from advance_reports [OF mem hon r [unfolded h(1)] this] show ?thesis unfolding t j .
  qed
  moreover have "evidence cl' \<subseteq> evidence cl \<union>
      {(qm_ID m, loop_journal (cl_loop cl), loop_target (cl_loop cl)) | u :: unit. advanced_to (loop_target (cl_loop cl)) res}"
    using advance_goroutine_member [OF m(2)] unfolding evidence_def m(3) by auto
  moreover have "forward s s'" using advance_forward [OF mem _ r] by (simp add: forward_def)
  moreover have "call_continues cl cl'"
    using perform_advance_ok [OF assms] by (simp add: call_continues_def m(3))
  ultimately show ?thesis unfolding current_evidence_def by blast
qed

text \<open>One action, and any run.\<close>

definition advances :: "'s quorum_system \<Rightarrow> 's quorum_system \<Rightarrow> bool" where
  "advances sy sy' \<longleftrightarrow> clients_ok q sy' \<and> forward (sy_world sy) (sy_world sy') \<and>
     (\<forall>c cl. sy_clients sy c = Some cl \<longrightarrow> (\<exists>cl'. sy_clients sy' c = Some cl' \<and> call_continues cl cl')) \<and>
     (\<forall>c cl'. sy_clients sy' c = Some cl' \<longrightarrow>
        current_evidence (sy_world sy') (case sy_clients sy c of None \<Rightarrow> {} | Some cl \<Rightarrow> evidence cl) cl')"

lemma call_continues_refl [simp]: "call_continues cl cl"
  by (simp add: call_continues_def)

lemma forward_refl [simp]: "forward s s"
  by (simp add: forward_def)

lemma current_evidence_old: "evidence cl' \<subseteq> old \<Longrightarrow> current_evidence s old cl'"
  by (auto simp: current_evidence_def)

lemma advances_client:
  assumes ok: "clients_ok q sy" and sy': "sy' = set_client c cl' (sy\<lparr>sy_world := s\<rparr>)" and ok': "client_ok q cl'"
    and "forward (sy_world sy) s"
    and "\<And>cl. sy_clients sy c = Some cl \<Longrightarrow> call_continues cl cl'"
    and "current_evidence s (case sy_clients sy c of None \<Rightarrow> {} | Some cl \<Rightarrow> evidence cl) cl'"
  shows "advances sy sy'"
  using assms unfolding advances_def sy' clients_ok_def set_client_def
  by (auto intro: current_evidence_old)

lemma start_call_evidence: "evidence (start_call q call) = {}"
  by (cases call) (auto simp: evidence_def started_def rejected_def Let_def split: sum.split prod.split)

lemma act_advances:
  assumes "quorum_act env enc q a sy = Some sy'" and ok: "clients_ok q sy" and "proper_action a"
  shows "advances sy sy'"
proof (cases a)
  case (Start c call)
  with assms show ?thesis using start_call_ok [OF distinct_ids, of call] start_call_evidence [of call]
    by (intro advances_client [OF ok, of _ c "start_call q call" "sy_world sy"])
      (auto split: option.splits intro: current_evidence_old)
next
  case (PerformLoad c i)
  then obtain cl cl' s where cl: "sy_clients sy c = Some cl" "i < length (cl_outstanding cl)"
    "perform_load q i cl (sy_world sy) = (cl', s)" "sy' = set_client c cl' (sy\<lparr>sy_world := s\<rparr>)"
    using assms(1) by (auto split: option.splits if_splits prod.splits)
  have "client_ok q cl" using ok cl(1) by (simp add: clients_ok_def)
  with perform_load_evidence [OF cl(3,2)] perform_load_ok [OF cl(3,2)] cl(1) show ?thesis
    by (intro advances_client [OF ok cl(4)]) auto
next
  case (ReceiveLoad c i)
  then obtain cl where cl: "sy_clients sy c = Some cl" "i < length (cl_loads cl)" "cl_result cl = None"
    "sy' = set_client c (receive_load enc q i cl) sy"
    using assms(1) by (auto split: option.splits if_splits)
  have "client_ok q cl" using ok cl(1) by (simp add: clients_ok_def)
  from receive_load_ok [OF cl(2) this cl(3), of enc] cl show ?thesis
    by (intro advances_client [OF ok, of _ c "receive_load enc q i cl" "sy_world sy"])
      (auto simp: call_continues_def receive_load_def dest: loop_on_load_keeps split: prod.splits intro: current_evidence_old)
next
  case (PerformAdvance c i)
  then obtain cl cl' s where cl: "sy_clients sy c = Some cl" "i < length (cl_jobs cl)"
    "perform_advance q i cl (sy_world sy) = (cl', s)" "sy' = set_client c cl' (sy\<lparr>sy_world := s\<rparr>)"
    using assms(1) by (auto split: option.splits if_splits prod.splits)
  have "client_ok q cl" using ok cl(1) by (simp add: clients_ok_def)
  with perform_advance_evidence [OF cl(3,2)] perform_advance_ok [OF cl(3,2)] cl(1) show ?thesis
    by (intro advances_client [OF ok cl(4)]) auto
next
  case (ReceiveAdvance c i)
  then obtain cl where cl: "sy_clients sy c = Some cl" "i < length (cl_advances cl)" "cl_result cl = None"
    "sy' = set_client c (receive_advance enc q i cl) sy"
    using assms(1) by (auto split: option.splits if_splits)
  have "client_ok q cl" using ok cl(1) by (simp add: clients_ok_def)
  from receive_advance_ok [OF cl(2) this cl(3), of enc] cl show ?thesis
    by (intro advances_client [OF ok, of _ c "receive_advance enc q i cl" "sy_world sy"])
      (auto simp: call_continues_def receive_advance_def dest: loop_on_advance_keeps split: prod.splits intro: current_evidence_old)
next
  case (Cancel c)
  then obtain cl where cl: "sy_clients sy c = Some cl" "cl_result cl = None"
    "sy' = set_client c (cl\<lparr>cl_result := Some (Inl ErrExternalHeadQuorum)\<rparr>) sy"
    using assms(1) by (auto split: option.splits if_splits)
  have "client_ok q cl" using ok cl(1) by (simp add: clients_ok_def)
  from cancel_ok [OF this refl] cl show ?thesis
    by (intro advances_client [OF ok, of _ c "cl\<lparr>cl_result := Some (Inl ErrExternalHeadQuorum)\<rparr>" "sy_world sy"])
      (auto simp: call_continues_def intro: current_evidence_old)
next
  case (Environment s)
  then have "env (sy_world sy) s" "sy' = sy\<lparr>sy_world := s\<rparr>" using assms(1) by (auto split: if_splits)
  with ok env_forward show ?thesis
    by (auto simp: advances_def clients_ok_def forward_def split: option.splits intro: current_evidence_old)
qed

text \<open>Every piece of evidence is behind the present head of its member, and evidence is comparable.\<close>

definition bounded_by :: "evidence set \<Rightarrow> 's \<Rightarrow> bool" where
  "bounded_by E s \<longleftrightarrow> (\<forall>i j x. (i, j, x) \<in> E \<longrightarrow> i \<in> honest \<longrightarrow> head_le x (head s i j))"

definition evidenced :: "'s quorum_system \<Rightarrow> bool" where
  "evidenced sy \<longleftrightarrow> (\<forall>c cl. sy_clients sy c = Some cl \<longrightarrow> bounded_by (evidence cl) (sy_world sy))"

definition comparable :: "'s quorum_system \<Rightarrow> bool" where
  "comparable sy \<longleftrightarrow> (\<forall>c cl d dl i j x y. sy_clients sy c = Some cl \<longrightarrow> sy_clients sy d = Some dl \<longrightarrow> i \<in> honest \<longrightarrow>
     (i, j, x) \<in> evidence cl \<longrightarrow> (i, j, y) \<in> evidence dl \<longrightarrow> head_le x y \<or> head_le y x)"

lemma bounded_by_forward: "bounded_by E s \<Longrightarrow> forward s s' \<Longrightarrow> bounded_by E s'"
  unfolding bounded_by_def forward_def by (meson head_le_trans)

lemma advances_old_or_current:
  assumes "advances sy sy'" and "sy_clients sy' c = Some cl'" and "(i, j, x) \<in> evidence cl'" and "i \<in> honest"
  obtains (old) cl where "sy_clients sy c = Some cl" "(i, j, x) \<in> evidence cl" | (new) "head (sy_world sy') i j = x"
proof -
  from assms have "(i, j, x) \<in> (case sy_clients sy c of None \<Rightarrow> {} | Some cl \<Rightarrow> evidence cl) \<or> head (sy_world sy') i j = x"
    unfolding advances_def current_evidence_def by blast
  with old new show thesis by (auto split: option.splits)
qed

lemma advances_evidenced:
  assumes "advances sy sy'" and "evidenced sy"
  shows "evidenced sy'"
  unfolding evidenced_def bounded_by_def
proof (intro allI impI)
  fix c cl' i j x
  assume e: "sy_clients sy' c = Some cl'" "(i, j, x) \<in> evidence cl'" "i \<in> honest"
  have fw: "head_le (head (sy_world sy) i j) (head (sy_world sy') i j)"
    using assms(1) e(3) by (simp add: advances_def forward_def)
  from assms(1) e show "head_le x (head (sy_world sy') i j)"
  proof (cases rule: advances_old_or_current)
    case (old cl)
    with assms(2) e(3) have "head_le x (head (sy_world sy) i j)" by (auto simp: evidenced_def bounded_by_def)
    with fw show ?thesis by (rule head_le_trans [rotated])
  qed simp
qed

lemma advances_comparable:
  assumes adv: "advances sy sy'" and "evidenced sy" and comp: "comparable sy"
  shows "comparable sy'"
  unfolding comparable_def
proof (intro allI impI)
  fix c cl d dl i j x y
  assume e: "sy_clients sy' c = Some cl" "sy_clients sy' d = Some dl" "i \<in> honest"
    "(i, j, x) \<in> evidence cl" "(i, j, y) \<in> evidence dl"
  have "evidenced sy'" using advances_evidenced [OF adv assms(2)] .
  then have le: "head_le x (head (sy_world sy') i j)" "head_le y (head (sy_world sy') i j)"
    using e by (auto simp: evidenced_def bounded_by_def)
  from adv e(1,4,3) show "head_le x y \<or> head_le y x"
  proof (cases rule: advances_old_or_current)
    case oldx: (old cl0)
    from adv e(2,5,3) show ?thesis
    proof (cases rule: advances_old_or_current)
      case (old dl0)
      with oldx e(3) comp show ?thesis unfolding comparable_def by blast
    next
      case new
      with le show ?thesis by simp
    qed
  next
    case new
    with le show ?thesis by simp
  qed
qed

lemma run_step:
  assumes "quorum_run env enc q (a # as) sy = Some sy'" and "clients_ok q sy" and "list_all proper_action (a # as)"
  obtains sy1 where "advances sy sy1" "clients_ok q sy1" "quorum_run env enc q as sy1 = Some sy'" "list_all proper_action as"
proof -
  obtain sy1 where "quorum_act env enc q a sy = Some sy1" "quorum_run env enc q as sy1 = Some sy'"
    using assms(1) by (auto split: option.splits)
  with act_advances [of enc a sy sy1] assms(2,3) that show thesis by (auto simp: advances_def)
qed

lemma run_invariant:
  assumes "quorum_run env enc q as sy = Some sy'" and "list_all proper_action as"
    and "clients_ok q sy" "evidenced sy" "comparable sy"
  shows "clients_ok q sy' \<and> evidenced sy' \<and> comparable sy'"
  using assms
proof (induction as arbitrary: sy)
  case (Cons a as)
  from run_step [OF Cons.prems(1,3,2)] obtain sy1 where "advances sy sy1" "clients_ok q sy1"
    "quorum_run env enc q as sy1 = Some sy'" "list_all proper_action as" .
  with Cons.IH [of sy1] Cons.prems(4,5) advances_evidenced advances_comparable show ?case by blast
qed simp

lemma run_initial:
  assumes "quorum_run env enc q as \<lparr>sy_world = s, sy_clients = (\<lambda>_. None)\<rparr> = Some sy" and "list_all proper_action as"
  shows "clients_ok q sy \<and> evidenced sy \<and> comparable sy"
  using run_invariant [OF assms] by (simp add: clients_ok_def evidenced_def comparable_def)

text \<open>What is known now bounds from below whatever calls that start later will learn.\<close>

lemma run_later:
  assumes "quorum_run env enc q as sy = Some sy'" and "list_all proper_action as" and "clients_ok q sy"
    and "bounded_by E (sy_world sy)"
    and "\<And>c cl i j x y. c \<in> C \<Longrightarrow> sy_clients sy c = Some cl \<Longrightarrow> i \<in> honest \<Longrightarrow> (i, j, x) \<in> E \<Longrightarrow> (i, j, y) \<in> evidence cl \<Longrightarrow> head_le x y"
    and "c \<in> C" "sy_clients sy' c = Some cl" "i \<in> honest" "(i, j, x) \<in> E" "(i, j, y) \<in> evidence cl"
  shows "head_le x y"
  using assms
proof (induction as arbitrary: sy)
  case (Cons a as)
  from run_step [OF Cons.prems(1,3,2)] obtain sy1 where sy1: "advances sy sy1" "clients_ok q sy1"
    "quorum_run env enc q as sy1 = Some sy'" "list_all proper_action as" .
  have "bounded_by E (sy_world sy1)"
    using bounded_by_forward [OF Cons.prems(4)] sy1(1) by (simp add: advances_def)
  moreover have "head_le x y" if e: "c \<in> C" "sy_clients sy1 c = Some cl" "i \<in> honest" "(i, j, x) \<in> E" "(i, j, y) \<in> evidence cl"
    for c cl i j x y
    using sy1(1) e(2,5,3)
  proof (cases rule: advances_old_or_current)
    case (old cl0)
    with Cons.prems(5) [OF e(1) old(1) e(3,4)] show ?thesis by blast
  next
    case new
    with calculation e(3,4) show ?thesis by (auto simp: bounded_by_def)
  qed
  ultimately show ?case using Cons.IH [OF sy1(3,4,2)] Cons.prems(6-10) by blast
qed simp

lemma certificates_meet:
  assumes "certified q cl x" and "certified q dl y"
  obtains i where "i \<in> honest" "(i, loop_journal (cl_loop cl), x) \<in> evidence cl" "(i, loop_journal (cl_loop dl), y) \<in> evidence dl"
proof -
  let ?M = "qm_ID ` set (qs_members q)"
  obtain I J where I: "I \<subseteq> ?M" "qs_threshold q \<le> int (card I)" "\<forall>i \<in> I. (i, loop_journal (cl_loop cl), x) \<in> evidence cl"
    and J: "J \<subseteq> ?M" "qs_threshold q \<le> int (card J)" "\<forall>i \<in> J. (i, loop_journal (cl_loop dl), y) \<in> evidence dl"
    using assms by (auto simp: certified_def)
  have "card ?M \<le> length (qs_members q)" by (metis card_length length_map set_map)
  with majority I(2) J(2) have "card ?M + card (?M - honest) < card I + card J" by linarith
  with quorums_intersect [of ?M I J "?M - honest"] I(1) J(1) obtain i where "i \<in> I" "i \<in> J" "i \<notin> ?M - honest" by auto
  with I J that [of i] show thesis by blast
qed

theorem no_rollback:
  assumes run1: "quorum_run env enc q as1 \<lparr>sy_world = s, sy_clients = (\<lambda>_. None)\<rparr> = Some sy1"
    and a: "sy_clients sy1 a = Some cla" "cl_result cla = Some (Inr ha)" and b: "sy_clients sy1 b = None"
    and run2: "quorum_run env enc q as2 sy1 = Some sy2" and proper: "list_all proper_action (as1 @ as2)"
    and clb: "sy_clients sy2 b = Some clb" "loop_journal (cl_loop clb) = eh_JournalID ha"
  shows "(\<forall>hb. cl_result clb = Some (Inr hb) \<longrightarrow>
      head_le (Some (semanticExternalHead ha)) (Some (semanticExternalHead hb))) \<and>
    cl_result clb \<noteq> Some (Inl (WHead ErrExternalHeadNotFound))"
proof -
  have inv1: "clients_ok q sy1" "evidenced sy1" "comparable sy1" using run_initial [OF run1] proper by auto
  have inv2: "clients_ok q sy2" using run_invariant [OF run2 _ inv1] proper by simp
  have ja: "eh_JournalID ha = loop_journal (cl_loop cla)" and ca: "certified q cla (Some (semanticExternalHead ha))"
    using inv1(1) a by (auto simp: clients_ok_def client_ok_def answer_ok_def)
  have later: "head_le (Some (semanticExternalHead ha)) y" if cb: "certified q clb y" for y
  proof -
    from certificates_meet [OF ca cb] obtain i where i: "i \<in> honest"
      "(i, loop_journal (cl_loop cla), Some (semanticExternalHead ha)) \<in> evidence cla"
      "(i, loop_journal (cl_loop clb), y) \<in> evidence clb" .
    have "bounded_by (evidence cla) (sy_world sy1)" using inv1(2) a(1) by (simp add: evidenced_def)
    from run_later [OF run2 _ inv1(1) this, of "{b}" b clb i "loop_journal (cl_loop cla)"] i clb ja b proper
    show ?thesis by simp
  qed
  have "answer_ok q clb" using inv2 clb(1) by (simp add: clients_ok_def client_ok_def)
  with later later [of None] head_le.simps(2) show ?thesis unfolding answer_ok_def by blast
qed

theorem no_fork:
  assumes "quorum_run env enc q as \<lparr>sy_world = s, sy_clients = (\<lambda>_. None)\<rparr> = Some sy" and "list_all proper_action as"
    and a: "sy_clients sy a = Some cla" "cl_result cla = Some (Inr ha)"
    and b: "sy_clients sy b = Some clb" "cl_result clb = Some (Inr hb)"
    and same: "eh_JournalID ha = eh_JournalID hb" "eh_Sequence ha = eh_Sequence hb"
  shows "sameSemanticHead ha hb"
proof -
  have inv: "clients_ok q sy" "comparable sy" using run_initial [OF assms(1,2)] by auto
  have c: "certified q cla (Some (semanticExternalHead ha))" "certified q clb (Some (semanticExternalHead hb))"
    and j: "loop_journal (cl_loop cla) = loop_journal (cl_loop clb)"
    using inv(1) a b same(1) by (auto simp: clients_ok_def client_ok_def answer_ok_def)
  from certificates_meet [OF c] obtain i where i: "i \<in> honest"
    "(i, loop_journal (cl_loop cla), Some (semanticExternalHead ha)) \<in> evidence cla"
    "(i, loop_journal (cl_loop cla), Some (semanticExternalHead hb)) \<in> evidence clb" unfolding j .
  with inv(2) a(1) b(1) have "head_le (Some (semanticExternalHead ha)) (Some (semanticExternalHead hb)) \<or>
      head_le (Some (semanticExternalHead hb)) (Some (semanticExternalHead ha))"
    unfolding comparable_def by blast
  with same show ?thesis by (auto simp: sameSemanticHead_def semanticExternalHead_def)
qed

end

end
