(* ===== verification/Witness.thy ===== *)
theory Witness
  imports Quorum "HOL-Library.AList"
begin

text \<open>
  A governed witness: its persistent state in a Kubernetes ConfigMap
  (\<open>internal/journal/governed_witness_state_store.go\<close>), the HTTP handler in front of it
  (\<open>remote_witness_policy_protocol.go\<close>) and the client that a quorum uses as a member store
  (\<open>remote_head_store.go\<close>). Parameters: the ConfigMap API, the rendering of JSON documents, the
  signature scheme and the network. Bodies and headers are exchanged as values, \<open>None\<close> where decoding
  fails; the wire form of a head has the fields of a head.
\<close>

section \<open>The persistent state\<close>

record governed_state =
  gw_Protocol :: string
  gw_Policy :: quorum_policy_state
  gw_Heads :: "(string \<times> external_head) list"
  gw_StoreVersion :: string

datatype state_error =
    ErrGovernedWitnessStateNotFound
  | ErrGovernedWitnessStateConflict
  | StateError witness_error

definition GovernedWitnessStateVersion :: string where
  "GovernedWitnessStateVersion = ''aegis-ege/governed-witness-state/v1''"

definition validateGovernedWitnessState :: "governed_state \<Rightarrow> witness_error option" where
  "validateGovernedWitnessState state =
     (if gw_Protocol state \<noteq> GovernedWitnessStateVersion then Some (WError ''governed witness state protocol mismatch'')
      else case validateQuorumPolicyState (gw_Policy state) of
        Some e \<Rightarrow> Some e
      | None \<Rightarrow>
        (if list_ex (\<lambda>(i, head). trim_space i = [] \<or> eh_JournalID head \<noteq> trim_space i) (gw_Heads state)
         then Some (WError ''governed witness head key does not match journal id'') else None))"

definition with_version :: "string \<Rightarrow> governed_state \<Rightarrow> governed_state" where
  "with_version v state = state\<lparr>gw_StoreVersion := v,
     gw_Heads := map (\<lambda>(i, head). (i, head\<lparr>eh_StoreVersion := v\<rparr>)) (gw_Heads state)\<rparr>"

record 's governed_store =
  gs_Load :: "'s \<Rightarrow> (state_error + governed_state) \<times> 's"
  gs_CompareAndSwap :: "string \<Rightarrow> governed_state \<Rightarrow> 's \<Rightarrow> (state_error + governed_state) \<times> 's"

subsection \<open>The ConfigMap store\<close>

datatype api_error = APINotFound | APIAlreadyExists | APIConflict | APIError string

text \<open>
  Get returns the \<open>state.json\<close> entry, if any, and the resource version; writes return the new version.
  \<open>'p\<close> is the type of payloads, the JSON text of a state.
\<close>

record ('s, 'p) configmap_api =
  cm_Get :: "'s \<Rightarrow> (api_error + 'p option \<times> string) \<times> 's"
  cm_Create :: "'p \<Rightarrow> 's \<Rightarrow> (api_error + string) \<times> 's"
  cm_Update :: "string \<Rightarrow> 'p \<Rightarrow> 's \<Rightarrow> (api_error + string) \<times> 's"
  cm_marshal :: "governed_state \<Rightarrow> 'p option"
  cm_unmarshal :: "'p \<Rightarrow> governed_state option"

definition K8s_Load :: "('s, 'p) configmap_api \<Rightarrow> 's \<Rightarrow> (state_error + governed_state) \<times> 's" where
  "K8s_Load api s =
     (case cm_Get api s of
        (Inl APINotFound, s') \<Rightarrow> (Inl ErrGovernedWitnessStateNotFound, s')
      | (Inl _, s') \<Rightarrow> (Inl (StateError (WError ''get governed witness state'')), s')
      | (Inr (None, _), s') \<Rightarrow> (Inl (StateError (WError ''governed witness state is missing state.json'')), s')
      | (Inr (Some payload, version), s') \<Rightarrow>
        (case cm_unmarshal api payload of
           None \<Rightarrow> (Inl (StateError (WError ''decode governed witness state'')), s')
         | Some state \<Rightarrow>
           (case validateGovernedWitnessState state of
              Some e \<Rightarrow> (Inl (StateError e), s')
            | None \<Rightarrow> (Inr (with_version version state), s'))))"

definition K8s_write ::
  "('s, 'p) configmap_api \<Rightarrow> string \<Rightarrow> 'p \<Rightarrow> 's \<Rightarrow> (state_error + string) \<times> 's" where
  "K8s_write api expectedVersion payload s =
     (if blank expectedVersion
      then case cm_Create api payload s of
        (Inl APIAlreadyExists, s') \<Rightarrow> (Inl ErrGovernedWitnessStateConflict, s')
      | (Inl _, s') \<Rightarrow> (Inl (StateError (WError ''write governed witness state'')), s')
      | (Inr version, s') \<Rightarrow> (Inr version, s')
      else case cm_Update api expectedVersion payload s of
        (Inl APIConflict, s') \<Rightarrow> (Inl ErrGovernedWitnessStateConflict, s')
      | (Inl APINotFound, s') \<Rightarrow> (Inl ErrGovernedWitnessStateConflict, s')
      | (Inl _, s') \<Rightarrow> (Inl (StateError (WError ''write governed witness state'')), s')
      | (Inr version, s') \<Rightarrow> (Inr version, s'))"

definition K8s_CompareAndSwap ::
  "('s, 'p) configmap_api \<Rightarrow> string \<Rightarrow> governed_state \<Rightarrow> 's \<Rightarrow> (state_error + governed_state) \<times> 's" where
  "K8s_CompareAndSwap api expectedVersion nxt s =
     (let state = with_version [] (nxt\<lparr>gw_Protocol := GovernedWitnessStateVersion\<rparr>) in
      case validateGovernedWitnessState state of
        Some e \<Rightarrow> (Inl (StateError e), s)
      | None \<Rightarrow>
        (case cm_marshal api state of
           None \<Rightarrow> (Inl (StateError (WError ''encode governed witness state'')), s)
         | Some payload \<Rightarrow>
           (case K8s_write api expectedVersion payload s of
              (Inl e, s') \<Rightarrow> (Inl e, s')
            | (Inr version, s') \<Rightarrow> (Inr (with_version version state), s'))))"

definition KubernetesGovernedWitnessStateStore :: "('s, 'p) configmap_api \<Rightarrow> 's governed_store" where
  "KubernetesGovernedWitnessStateStore api = \<lparr>gs_Load = K8s_Load api, gs_CompareAndSwap = K8s_CompareAndSwap api\<rparr>"

definition InitializeGovernedWitnessState ::
  "'s governed_store option \<Rightarrow> quorum_policy_state \<Rightarrow> 's \<Rightarrow> (state_error + governed_state) \<times> 's" where
  "InitializeGovernedWitnessState store initialPolicy s =
     (case store of
        None \<Rightarrow> (Inl (StateError (WError ''governed witness state store is required'')), s)
      | Some st \<Rightarrow>
        (case validateQuorumPolicyState initialPolicy of
           Some e \<Rightarrow> (Inl (StateError e), s)
         | None \<Rightarrow>
           (if qp_Phase initialPolicy \<noteq> QuorumPolicyPhaseActive
            then (Inl (StateError (WError ''initial governed witness policy must be ACTIVE'')), s)
            else case gs_Load st s of
              (Inr state, s') \<Rightarrow>
                (if gw_Policy state \<noteq> initialPolicy then (Inl (StateError ErrQuorumPolicyMismatch), s') else (Inr state, s'))
            | (Inl e, s') \<Rightarrow>
                (if e \<noteq> ErrGovernedWitnessStateNotFound then (Inl e, s')
                 else gs_CompareAndSwap st []
                   \<lparr>gw_Protocol = GovernedWitnessStateVersion, gw_Policy = initialPolicy, gw_Heads = [],
                    gw_StoreVersion = []\<rparr> s'))))"

section \<open>The HTTP handler\<close>

definition remoteWitnessProtocolV1 :: string where
  "remoteWitnessProtocolV1 = ''aegis-ege/external-witness/v1''"

record head_response =
  rh_Protocol :: string
  rh_Nonce :: string
  rh_WitnessKeyID :: string
  rh_Head :: external_head
  rh_Policy :: "quorum_policy_state option"
  rh_Signature :: string

record policy_response =
  rp_Protocol :: string
  rp_Nonce :: string
  rp_WitnessKeyID :: string
  rp_Policy :: quorum_policy_state
  rp_Signature :: string

text \<open>A response: a signed head or policy with status 200, or another status.\<close>

datatype witness_response = HeadResponse head_response | PolicyResponse policy_response | Status nat

record advance_request =
  rq_Protocol :: string
  rq_Expected :: external_head
  rq_Next :: external_head

record transition_request =
  tq_Protocol :: string
  tq_Expected :: quorum_policy_state
  tq_Next :: quorum_policy_state
  tq_JournalID :: string
  tq_ExpectedHead :: external_head

text \<open>Method and path of a request, with the journal of the path and the decoded body.\<close>

datatype witness_call =
    GetHead string
  | GetRotationHead string
  | PostAdvance string "advance_request option"
  | GetPolicy
  | PostTransition "transition_request option"
  | OtherCall

record witness_request =
  wr_Nonce :: string
  wr_Policy :: "quorum_policy_state option"
  wr_Call :: witness_call

text \<open>The handler with its store, its signer (kind, operation and payload) and the encodings it uses.\<close>

record 's witness_handler =
  wh_store :: "'s governed_store"
  wh_keyID :: string
  wh_sign :: "string \<Rightarrow> string \<Rightarrow> string \<Rightarrow> string option"
  wh_marshal :: "json \<Rightarrow> string option"
  wh_encode :: "string \<Rightarrow> string"

definition phase_name :: "policy_phase \<Rightarrow> string" where
  "phase_name p = (case p of QuorumPolicyPhaseActive \<Rightarrow> ''ACTIVE'' | QuorumPolicyPhaseJoint \<Rightarrow> ''JOINT_FROZEN''
     | QuorumPolicyPhaseOther s \<Rightarrow> s)"

definition policy_json :: "quorum_policy_state \<Rightarrow> json" where
  "policy_json p = JObj ([(''phase'', JStr (phase_name (qp_Phase p))), (''genesis_epoch'', JNum (uint (qp_GenesisEpoch p))),
      (''policy_hash'', JStr (qp_PolicyHash p))] @
     (if qp_FromPolicyHash p = [] then [] else [(''from_policy_hash'', JStr (qp_FromPolicyHash p))]) @
     (if qp_ToPolicyHash p = [] then [] else [(''to_policy_hash'', JStr (qp_ToPolicyHash p))]))"

definition remoteWitnessSigningPayload :: "(json \<Rightarrow> string option) \<Rightarrow> string \<Rightarrow> head_response \<Rightarrow> string option" where
  "remoteWitnessSigningPayload marshal operation response = marshal (JObj
     ([(''protocol'', JStr (rh_Protocol response)), (''operation'', JStr operation), (''nonce'', JStr (rh_Nonce response)),
       (''witness_key_id'', JStr (rh_WitnessKeyID response)), (''journal_id'', JStr (eh_JournalID (rh_Head response))),
       (''sequence'', JNum (uint (eh_Sequence (rh_Head response)))), (''head_hash'', JStr (eh_HeadHash (rh_Head response))),
       (''key_id'', JStr (eh_KeyID (rh_Head response))), (''store_version'', JStr (eh_StoreVersion (rh_Head response)))] @
      (case rh_Policy response of None \<Rightarrow> [] | Some p \<Rightarrow> [(''policy'', policy_json p)])))"

definition remotePolicySigningPayload :: "(json \<Rightarrow> string option) \<Rightarrow> string \<Rightarrow> policy_response \<Rightarrow> string option" where
  "remotePolicySigningPayload marshal operation response = marshal (JObj
     [(''protocol'', JStr (rp_Protocol response)), (''operation'', JStr operation), (''nonce'', JStr (rp_Nonce response)),
      (''witness_key_id'', JStr (rp_WitnessKeyID response)), (''policy'', policy_json (rp_Policy response))])"

definition writeSignedHead ::
  "'s witness_handler \<Rightarrow> string \<Rightarrow> string \<Rightarrow> external_head \<Rightarrow> quorum_policy_state option \<Rightarrow> witness_response" where
  "writeSignedHead h operation nonce head policy =
     (let result = \<lparr>rh_Protocol = remoteWitnessProtocolV1, rh_Nonce = nonce, rh_WitnessKeyID = wh_keyID h, rh_Head = head,
          rh_Policy = policy, rh_Signature = []\<rparr> in
      case remoteWitnessSigningPayload (wh_marshal h) operation result of
        None \<Rightarrow> Status 500
      | Some payload \<Rightarrow>
        (case wh_sign h ''head'' operation payload of
           None \<Rightarrow> Status 503
         | Some signature \<Rightarrow> HeadResponse (result\<lparr>rh_Signature := wh_encode h signature\<rparr>)))"

definition writeSignedPolicy ::
  "'s witness_handler \<Rightarrow> string \<Rightarrow> string \<Rightarrow> quorum_policy_state \<Rightarrow> witness_response" where
  "writeSignedPolicy h operation nonce policy =
     (let result = \<lparr>rp_Protocol = remoteWitnessProtocolV1, rp_Nonce = nonce, rp_WitnessKeyID = wh_keyID h,
          rp_Policy = policy, rp_Signature = []\<rparr> in
      case remotePolicySigningPayload (wh_marshal h) operation result of
        None \<Rightarrow> Status 500
      | Some payload \<Rightarrow>
        (case wh_sign h ''policy'' operation payload of
           None \<Rightarrow> Status 503
         | Some signature \<Rightarrow> PolicyResponse (result\<lparr>rp_Signature := wh_encode h signature\<rparr>)))"

definition writeStateError :: "state_error \<Rightarrow> witness_response" where
  "writeStateError e =
     (case e of
        ErrGovernedWitnessStateNotFound \<Rightarrow> Status 503
      | ErrGovernedWitnessStateConflict \<Rightarrow> Status 409
      | StateError (WHead ErrExternalHeadConflict) \<Rightarrow> Status 409
      | StateError _ \<Rightarrow> Status 500)"

definition requireRemoteQuorumPolicy :: "witness_request \<Rightarrow> quorum_policy_state option" where
  "requireRemoteQuorumPolicy r =
     (case wr_Policy r of
        None \<Rightarrow> None
      | Some policy \<Rightarrow> (case validateQuorumPolicyState policy of Some _ \<Rightarrow> None | None \<Rightarrow> Some policy))"

definition handleHeadLoad ::
  "'s witness_handler \<Rightarrow> witness_request \<Rightarrow> string \<Rightarrow> string \<Rightarrow> 's \<Rightarrow> witness_response \<times> 's" where
  "handleHeadLoad h r nonce journalID s =
     (case requireRemoteQuorumPolicy r of
        None \<Rightarrow> (Status 428, s)
      | Some policy \<Rightarrow>
        (case gs_Load (wh_store h) s of
           (Inl e, s') \<Rightarrow> (writeStateError e, s')
         | (Inr state, s') \<Rightarrow>
           (if gw_Policy state \<noteq> policy \<or> qp_Phase policy \<noteq> QuorumPolicyPhaseActive then (Status 412, s')
            else case map_of (gw_Heads state) journalID of
              None \<Rightarrow> (Status 404, s')
            | Some head \<Rightarrow>
              (writeSignedHead h ''load'' nonce (head\<lparr>eh_StoreVersion := gw_StoreVersion state\<rparr>) (Some (gw_Policy state)), s'))))"

definition handleRotationObserve ::
  "'s witness_handler \<Rightarrow> string \<Rightarrow> string \<Rightarrow> 's \<Rightarrow> witness_response \<times> 's" where
  "handleRotationObserve h nonce journalID s =
     (case gs_Load (wh_store h) s of
        (Inl e, s') \<Rightarrow> (writeStateError e, s')
      | (Inr state, s') \<Rightarrow>
        (case map_of (gw_Heads state) journalID of
           None \<Rightarrow> (Status 404, s')
         | Some head \<Rightarrow>
           (writeSignedHead h ''rotation-observe'' nonce (head\<lparr>eh_StoreVersion := gw_StoreVersion state\<rparr>)
              (Some (gw_Policy state)), s')))"

text \<open>The checks of an advance on the loaded state, and the state it writes.\<close>

definition advance_state ::
  "quorum_policy_state \<Rightarrow> string \<Rightarrow> advance_request \<Rightarrow> governed_state \<Rightarrow> nat + governed_state" where
  "advance_state policy journalID request state =
     (if gw_Policy state \<noteq> policy \<or> qp_Phase policy \<noteq> QuorumPolicyPhaseActive then Inl 412
      else let nxt = (rq_Next request)\<lparr>eh_StoreVersion := []\<rparr>;
               state' = state\<lparr>gw_Heads := AList.update journalID nxt (gw_Heads state)\<rparr> in
        case map_of (gw_Heads state) journalID of
          Some head \<Rightarrow>
            (let current = head\<lparr>eh_StoreVersion := gw_StoreVersion state\<rparr> in
             if eh_StoreVersion (rq_Expected request) \<noteq> gw_StoreVersion state \<or>
                \<not> sameSemanticHead (rq_Expected request) current then Inl 409
             else if eh_Sequence nxt < eh_Sequence current \<or>
                eh_Sequence nxt = eh_Sequence current \<and> \<not> sameSemanticHead nxt current then Inl 409
             else Inr state')
        | None \<Rightarrow>
            (if rq_Expected request \<noteq> zero_head then Inl 409
             else if eh_Sequence nxt \<noteq> 0 then Inl 409
             else Inr state'))"

definition handleHeadAdvance ::
  "'s witness_handler \<Rightarrow> witness_request \<Rightarrow> string \<Rightarrow> string \<Rightarrow> advance_request option \<Rightarrow> 's \<Rightarrow> witness_response \<times> 's" where
  "handleHeadAdvance h r nonce journalID body s =
     (case requireRemoteQuorumPolicy r of
        None \<Rightarrow> (Status 428, s)
      | Some policy \<Rightarrow>
        (case body of
           None \<Rightarrow> (Status 400, s)
         | Some request \<Rightarrow>
           (if rq_Protocol request \<noteq> remoteWitnessProtocolV1 then (Status 400, s)
            else if eh_JournalID (rq_Next request) \<noteq> journalID then (Status 400, s)
            else case gs_Load (wh_store h) s of
              (Inl e, s1) \<Rightarrow> (writeStateError e, s1)
            | (Inr state, s1) \<Rightarrow>
              (case advance_state policy journalID request state of
                 Inl status \<Rightarrow> (Status status, s1)
               | Inr state' \<Rightarrow>
                 (case gs_CompareAndSwap (wh_store h) (gw_StoreVersion state) state' s1 of
                    (Inl e, s2) \<Rightarrow> (writeStateError e, s2)
                  | (Inr saved, s2) \<Rightarrow>
                    (writeSignedHead h ''advance'' nonce
                       ((case map_of (gw_Heads saved) journalID of Some x \<Rightarrow> x | None \<Rightarrow> zero_head)
                          \<lparr>eh_StoreVersion := gw_StoreVersion saved\<rparr>) (Some (gw_Policy saved)), s2))))))"

definition handleCurrentPolicy :: "'s witness_handler \<Rightarrow> string \<Rightarrow> 's \<Rightarrow> witness_response \<times> 's" where
  "handleCurrentPolicy h nonce s =
     (case gs_Load (wh_store h) s of
        (Inl e, s') \<Rightarrow> (writeStateError e, s')
      | (Inr state, s') \<Rightarrow> (writeSignedPolicy h ''policy-current'' nonce (gw_Policy state), s'))"

text \<open>The checks of a policy transition on the loaded state, and the state it writes.\<close>

definition transition_state :: "string \<Rightarrow> transition_request \<Rightarrow> governed_state \<Rightarrow> nat + governed_state" where
  "transition_state journalID request state =
     (if gw_Policy state \<noteq> tq_Expected request then Inl 412
      else if ValidateQuorumPolicyTransition (tq_Expected request) (tq_Next request) \<noteq> None then Inl 412
      else case map_of (gw_Heads state) journalID of
        None \<Rightarrow> Inl 404
      | Some head \<Rightarrow>
        (if eh_StoreVersion (tq_ExpectedHead request) \<noteq> gw_StoreVersion state \<or>
            \<not> sameSemanticHead (tq_ExpectedHead request) head then Inl 409
         else Inr (state\<lparr>gw_Policy := tq_Next request\<rparr>)))"

definition handlePolicyTransition ::
  "'s witness_handler \<Rightarrow> string \<Rightarrow> transition_request option \<Rightarrow> 's \<Rightarrow> witness_response \<times> 's" where
  "handlePolicyTransition h nonce body s =
     (case body of
        None \<Rightarrow> (Status 400, s)
      | Some request \<Rightarrow>
        (if tq_Protocol request \<noteq> remoteWitnessProtocolV1 then (Status 400, s)
         else let journalID = trim_space (tq_JournalID request) in
           if journalID = [] \<or> eh_JournalID (tq_ExpectedHead request) \<noteq> journalID then (Status 400, s)
           else case gs_Load (wh_store h) s of
             (Inl e, s1) \<Rightarrow> (writeStateError e, s1)
           | (Inr state, s1) \<Rightarrow>
             (case transition_state journalID request state of
                Inl status \<Rightarrow> (Status status, s1)
              | Inr state' \<Rightarrow>
                (case gs_CompareAndSwap (wh_store h) (gw_StoreVersion state) state' s1 of
                   (Inl e, s2) \<Rightarrow> (writeStateError e, s2)
                 | (Inr saved, s2) \<Rightarrow> (writeSignedPolicy h ''policy-transition'' nonce (gw_Policy saved), s2)))))"

definition ServeHTTP :: "'s witness_handler \<Rightarrow> witness_request \<Rightarrow> 's \<Rightarrow> witness_response \<times> 's" where
  "ServeHTTP h r s =
     (let nonce = trim_space (wr_Nonce r) in
      if nonce = [] then (Status 400, s)
      else case wr_Call r of
        GetPolicy \<Rightarrow> handleCurrentPolicy h nonce s
      | PostTransition body \<Rightarrow> handlePolicyTransition h nonce body s
      | GetHead journalID \<Rightarrow> if blank journalID then (Status 404, s) else handleHeadLoad h r nonce journalID s
      | GetRotationHead journalID \<Rightarrow>
          if blank journalID then (Status 404, s) else handleRotationObserve h nonce journalID s
      | PostAdvance journalID body \<Rightarrow>
          if blank journalID then (Status 404, s) else handleHeadAdvance h r nonce journalID body s
      | OtherCall \<Rightarrow> (Status 404, s))"

section \<open>The client\<close>

text \<open>
  \<open>rs_nonce\<close> is the random source, \<open>rs_send\<close> the HTTP client (\<open>None\<close>: the request failed),
  \<open>rs_decode\<close> the decoding of a signature of the right length, \<open>rs_verify\<close> verification with the
  witness key.
\<close>

record 'w remote_store =
  rs_keyID :: string
  rs_trustManifestHash :: string
  rs_nonce :: "'w \<Rightarrow> string option"
  rs_send :: "witness_request \<Rightarrow> 'w \<Rightarrow> witness_response option \<times> 'w"
  rs_marshal :: "json \<Rightarrow> string option"
  rs_decode :: "string \<Rightarrow> string option"
  rs_verify :: "string \<Rightarrow> string \<Rightarrow> bool"

definition verifyResponseWithPolicy ::
  "'w remote_store \<Rightarrow> string \<Rightarrow> string \<Rightarrow> string \<Rightarrow> head_response \<Rightarrow> quorum_policy_state option \<Rightarrow> witness_error + external_head" where
  "verifyResponseWithPolicy rs operation journalID nonce result expectedPolicy =
     (if rh_Protocol result \<noteq> remoteWitnessProtocolV1 then Inl (WError ''remote witness protocol mismatch'')
      else if rh_Nonce result \<noteq> nonce then Inl (WError ''remote witness freshness nonce mismatch'')
      else if rh_WitnessKeyID result \<noteq> rs_keyID rs then Inl (WError ''remote witness key id mismatch'')
      else if eh_JournalID (rh_Head result) \<noteq> journalID then Inl (WError ''remote witness journal id mismatch'')
      else if blank (eh_StoreVersion (rh_Head result))
      then Inl (WError ''remote witness response is missing CAS store version'')
      else if expectedPolicy \<noteq> None \<and> rh_Policy result \<noteq> expectedPolicy then Inl ErrQuorumPolicyMismatch
      else case rs_decode rs (rh_Signature result) of
        None \<Rightarrow> Inl (WError ''decode remote witness signature'')
      | Some signature \<Rightarrow>
        (case remoteWitnessSigningPayload (rs_marshal rs) operation result of
           None \<Rightarrow> Inl (WError ''encode remote witness signing statement'')
         | Some payload \<Rightarrow>
           (if \<not> rs_verify rs payload signature then Inl (WError ''remote witness signature verification failed'')
            else Inr (rh_Head result))))"

definition verifyPolicyResponse ::
  "'w remote_store \<Rightarrow> string \<Rightarrow> string \<Rightarrow> policy_response \<Rightarrow> witness_error + quorum_policy_state" where
  "verifyPolicyResponse rs operation nonce result =
     (if rp_Protocol result \<noteq> remoteWitnessProtocolV1 then Inl (WError ''remote witness policy protocol mismatch'')
      else if rp_Nonce result \<noteq> nonce then Inl (WError ''remote witness policy freshness nonce mismatch'')
      else if rp_WitnessKeyID result \<noteq> rs_keyID rs then Inl (WError ''remote witness policy key id mismatch'')
      else case validateQuorumPolicyState (rp_Policy result) of
        Some e \<Rightarrow> Inl e
      | None \<Rightarrow>
        (case rs_decode rs (rp_Signature result) of
           None \<Rightarrow> Inl (WError ''invalid remote witness policy signature'')
         | Some signature \<Rightarrow>
           (case remotePolicySigningPayload (rs_marshal rs) operation result of
              None \<Rightarrow> Inl (WError ''encode remote witness policy statement'')
            | Some payload \<Rightarrow>
              (if \<not> rs_verify rs payload signature
               then Inl (WError ''remote witness policy signature verification failed'')
               else Inr (rp_Policy result)))))"

text \<open>What the client makes of a response to a load.\<close>

definition load_response ::
  "'w remote_store \<Rightarrow> string \<Rightarrow> string \<Rightarrow> string \<Rightarrow> quorum_policy_state option \<Rightarrow> witness_response \<Rightarrow> witness_error + external_head" where
  "load_response rs operation journalID nonce policy response =
     (case response of
        HeadResponse result \<Rightarrow> verifyResponseWithPolicy rs operation journalID nonce result policy
      | PolicyResponse _ \<Rightarrow> Inl (WError ''decode remote witness response'')
      | Status n \<Rightarrow>
          (if n = 404 then Inl (WHead ErrExternalHeadNotFound)
           else if (n = 412 \<or> n = 428) \<and> policy \<noteq> None then Inl ErrQuorumPolicyMismatch
           else Inl (WError ''remote witness returned an HTTP error'')))"

definition loadRemoteHead ::
  "'w remote_store \<Rightarrow> string \<Rightarrow> quorum_policy_state option \<Rightarrow> string \<Rightarrow> (string \<Rightarrow> witness_call) \<Rightarrow> 'w \<Rightarrow> 'w head_result" where
  "loadRemoteHead rs journalID policy operation call w =
     (let journalID = trim_space journalID in
      if journalID = [] then (Inl (WError ''journal id is required''), w)
      else case rs_nonce rs w of
        None \<Rightarrow> (Inl (WError ''generate remote witness nonce''), w)
      | Some nonce \<Rightarrow>
        (case (case policy of None \<Rightarrow> None | Some p \<Rightarrow> validateQuorumPolicyState p) of
           Some e \<Rightarrow> (Inl e, w)
         | None \<Rightarrow>
           (case rs_send rs \<lparr>wr_Nonce = nonce, wr_Policy = policy, wr_Call = call journalID\<rparr> w of
              (None, w') \<Rightarrow> (Inl (WError ''remote witness request''), w')
            | (Some response, w') \<Rightarrow> (load_response rs operation journalID nonce policy response, w'))))"

definition Remote_Load :: "'w remote_store \<Rightarrow> string \<Rightarrow> 'w \<Rightarrow> 'w head_result" where
  "Remote_Load rs journalID w = loadRemoteHead rs journalID None ''load'' GetHead w"

definition LoadForQuorum :: "'w remote_store \<Rightarrow> string \<Rightarrow> quorum_policy_state \<Rightarrow> 'w \<Rightarrow> 'w head_result" where
  "LoadForQuorum rs journalID policy w =
     (case validateQuorumPolicyState policy of
        Some e \<Rightarrow> (Inl e, w)
      | None \<Rightarrow> loadRemoteHead rs journalID (Some policy) ''load'' GetHead w)"

definition ObserveQuorumRotationHead :: "'w remote_store \<Rightarrow> string \<Rightarrow> 'w \<Rightarrow> 'w head_result" where
  "ObserveQuorumRotationHead rs journalID w = loadRemoteHead rs journalID None ''rotation-observe'' GetRotationHead w"

definition advance_response ::
  "'w remote_store \<Rightarrow> string \<Rightarrow> string \<Rightarrow> quorum_policy_state option \<Rightarrow> witness_response \<Rightarrow> witness_error + external_head" where
  "advance_response rs journalID nonce policy response =
     (case response of
        HeadResponse result \<Rightarrow> verifyResponseWithPolicy rs ''advance'' journalID nonce result policy
      | PolicyResponse _ \<Rightarrow> Inl (WError ''decode remote witness response'')
      | Status n \<Rightarrow>
          (if n = 412 \<or> n = 428
           then if policy \<noteq> None then Inl ErrQuorumPolicyMismatch else Inl (WHead ErrExternalHeadConflict)
           else if n = 409 then Inl (WHead ErrExternalHeadConflict)
           else Inl (WError ''remote witness returned an HTTP error'')))"

definition advanceRemoteHead ::
  "'w remote_store \<Rightarrow> external_head \<Rightarrow> external_head \<Rightarrow> quorum_policy_state option \<Rightarrow> 'w \<Rightarrow> 'w head_result" where
  "advanceRemoteHead rs previous nxt policy w =
     (if blank (eh_JournalID nxt) then (Inl (WError ''journal id is required''), w)
      else if eh_JournalID previous \<noteq> [] \<and> eh_JournalID previous \<noteq> eh_JournalID nxt
      then (Inl (WHead ErrExternalHeadConflict), w)
      else case rs_nonce rs w of
        None \<Rightarrow> (Inl (WError ''generate remote witness nonce''), w)
      | Some nonce \<Rightarrow>
        (case (case policy of None \<Rightarrow> None | Some p \<Rightarrow> validateQuorumPolicyState p) of
           Some e \<Rightarrow> (Inl e, w)
         | None \<Rightarrow>
           (case rs_send rs
                 \<lparr>wr_Nonce = nonce, wr_Policy = policy,
                  wr_Call = PostAdvance (eh_JournalID nxt)
                    (Some \<lparr>rq_Protocol = remoteWitnessProtocolV1, rq_Expected = previous, rq_Next = nxt\<rparr>)\<rparr> w of
              (None, w') \<Rightarrow> (Inl (WError ''remote witness advance request''), w')
            | (Some response, w') \<Rightarrow> (advance_response rs (eh_JournalID nxt) nonce policy response, w'))))"

definition Remote_CompareAndAdvance :: "'w remote_store \<Rightarrow> external_head \<Rightarrow> external_head \<Rightarrow> 'w \<Rightarrow> 'w head_result" where
  "Remote_CompareAndAdvance rs previous nxt w = advanceRemoteHead rs previous nxt None w"

definition CompareAndAdvanceForQuorum ::
  "'w remote_store \<Rightarrow> quorum_policy_state \<Rightarrow> external_head \<Rightarrow> external_head \<Rightarrow> 'w \<Rightarrow> 'w head_result" where
  "CompareAndAdvanceForQuorum rs policy previous nxt w =
     (case validateQuorumPolicyState policy of
        Some e \<Rightarrow> (Inl e, w)
      | None \<Rightarrow> advanceRemoteHead rs previous nxt (Some policy) w)"

definition CurrentQuorumPolicy :: "'w remote_store \<Rightarrow> 'w \<Rightarrow> (witness_error + quorum_policy_state) \<times> 'w" where
  "CurrentQuorumPolicy rs w =
     (case rs_nonce rs w of
        None \<Rightarrow> (Inl (WError ''generate remote witness nonce''), w)
      | Some nonce \<Rightarrow>
        (case rs_send rs \<lparr>wr_Nonce = nonce, wr_Policy = None, wr_Call = GetPolicy\<rparr> w of
           (None, w') \<Rightarrow> (Inl (WError ''remote witness current policy request''), w')
         | (Some (PolicyResponse result), w') \<Rightarrow> (verifyPolicyResponse rs ''policy-current'' nonce result, w')
         | (Some (HeadResponse _), w') \<Rightarrow> (Inl (WError ''decode remote witness policy response''), w')
         | (Some (Status _), w') \<Rightarrow> (Inl (WError ''remote witness returned an HTTP error''), w')))"

definition CompareAndTransitionQuorumPolicy ::
  "'w remote_store \<Rightarrow> quorum_policy_state \<Rightarrow> quorum_policy_state \<Rightarrow> string \<Rightarrow> external_head \<Rightarrow> 'w \<Rightarrow> witness_error option \<times> 'w" where
  "CompareAndTransitionQuorumPolicy rs expected nxt journalID expectedHead w =
     (case ValidateQuorumPolicyTransition expected nxt of
        Some e \<Rightarrow> (Some e, w)
      | None \<Rightarrow>
        (let journalID = trim_space journalID in
         if journalID = [] then (Some (WError ''journal id is required''), w)
         else case ObserveQuorumRotationHead rs journalID w of
           (Inl e, w1) \<Rightarrow> (Some e, w1)
         | (Inr observedHead, w1) \<Rightarrow>
           (if \<not> sameSemanticHead observedHead expectedHead then (Some ErrQuorumRotationContinuity, w1)
            else case rs_nonce rs w1 of
              None \<Rightarrow> (Some (WError ''generate remote witness nonce''), w1)
            | Some nonce \<Rightarrow>
              (case rs_send rs
                    \<lparr>wr_Nonce = nonce, wr_Policy = None,
                     wr_Call = PostTransition (Some \<lparr>tq_Protocol = remoteWitnessProtocolV1, tq_Expected = expected,
                       tq_Next = nxt, tq_JournalID = journalID, tq_ExpectedHead = observedHead\<rparr>)\<rparr> w1 of
                 (None, w2) \<Rightarrow> (Some (WError ''remote witness policy transition request''), w2)
               | (Some (HeadResponse _), w2) \<Rightarrow> (Some (WError ''decode remote witness policy response''), w2)
               | (Some (PolicyResponse result), w2) \<Rightarrow>
                 ((case verifyPolicyResponse rs ''policy-transition'' nonce result of
                     Inl e \<Rightarrow> Some e
                   | Inr verified \<Rightarrow> if verified \<noteq> nxt then Some ErrQuorumPolicyMismatch else None), w2)
               | (Some (Status n), w2) \<Rightarrow>
                 (Some (if n = 412 \<or> n = 428 then ErrQuorumPolicyMismatch
                        else if n = 409 then ErrQuorumRotationContinuity
                        else WError ''remote witness returned an HTTP error''), w2)))))"

text \<open>A remote witness as a member store of a quorum.\<close>

definition remote_fenced :: "'w remote_store \<Rightarrow> 'w fenced_store" where
  "remote_fenced rs =
     \<lparr>pf_LoadForQuorum = LoadForQuorum rs, pf_CompareAndAdvanceForQuorum = CompareAndAdvanceForQuorum rs,
      pf_CurrentQuorumPolicy = CurrentQuorumPolicy rs, pf_ObserveQuorumRotationHead = ObserveQuorumRotationHead rs,
      pf_CompareAndTransitionQuorumPolicy = CompareAndTransitionQuorumPolicy rs\<rparr>"

definition remote_member :: "'w remote_store \<Rightarrow> 'w member_store" where
  "remote_member rs =
     \<lparr>ms_Load = Remote_Load rs, ms_CompareAndAdvance = Remote_CompareAndAdvance rs,
      ms_Trust = Some (rs_trustManifestHash rs), ms_Fenced = Some (remote_fenced rs)\<rparr>"

section \<open>A single witness bound to a policy\<close>

record 's policy_bound_store =
  pb_store :: "'s fenced_store"
  pb_policy :: quorum_policy_state

definition NewPolicyBoundExternalHeadStore ::
  "'s fenced_store option \<Rightarrow> quorum_policy_state \<Rightarrow> witness_error + 's policy_bound_store" where
  "NewPolicyBoundExternalHeadStore store policy =
     (case store of
        None \<Rightarrow> Inl (WError ''policy-fenced external head store is required'')
      | Some st \<Rightarrow>
        (case validateQuorumPolicyState policy of
           Some e \<Rightarrow> Inl e
         | None \<Rightarrow>
           (if qp_Phase policy \<noteq> QuorumPolicyPhaseActive
            then Inl (WError ''policy-bound external head store requires ACTIVE policy'')
            else Inr \<lparr>pb_store = st, pb_policy = policy\<rparr>)))"

definition PolicyBound_Load :: "'s policy_bound_store \<Rightarrow> string \<Rightarrow> 's \<Rightarrow> 's head_result" where
  "PolicyBound_Load b journalID s = pf_LoadForQuorum (pb_store b) journalID (pb_policy b) s"

definition PolicyBound_CompareAndAdvance ::
  "'s policy_bound_store \<Rightarrow> external_head \<Rightarrow> external_head \<Rightarrow> 's \<Rightarrow> 's head_result" where
  "PolicyBound_CompareAndAdvance b previous nxt s =
     pf_CompareAndAdvanceForQuorum (pb_store b) (pb_policy b) previous nxt s"

end
