(* ===== verification/Witness_Safety.thy ===== *)
theory Witness_Safety
  imports Witness Quorum_Safety
begin

text \<open>
  What a governed witness guarantees on a store with versions that are never reused: under any
  interleaving of its handlers its heads only move forward, its policy only follows the policy state
  machine, and no head changes while the policy is frozen. Witnesses reached over a network that may
  lose messages then satisfy the contract of a quorum.
\<close>

section \<open>Steps of a witness\<close>

definition head_of :: "governed_state \<Rightarrow> string \<Rightarrow> quorum_semantic_head option" where
  "head_of g j = map_option semanticExternalHead (map_of (gw_Heads g) j)"

lemma with_version_simps [simp]:
  "gw_Policy (with_version v st) = gw_Policy st" "gw_StoreVersion (with_version v st) = v"
  "head_of (with_version v st) = head_of st" "with_version v (with_version w st) = with_version v st"
  "gw_Protocol (with_version v st) = gw_Protocol st"
proof -
  have "map_of (gw_Heads (with_version v st)) j = map_option (\<lambda>h. h\<lparr>eh_StoreVersion := v\<rparr>) (map_of (gw_Heads st) j)" for j
    unfolding with_version_def by (simp add: map_of_map [unfolded comp_def])
  moreover have "semanticExternalHead (h\<lparr>eh_StoreVersion := v\<rparr>) = semanticExternalHead h" for h
    by (simp add: semanticExternalHead_def)
  ultimately show "head_of (with_version v st) = head_of st"
    by (auto simp: head_of_def fun_eq_iff option.map_comp comp_def)
qed (simp_all add: with_version_def comp_def case_prod_beta)

text \<open>Heads move under an active policy, or the policy makes a transition and the heads stay.\<close>

definition witness_step :: "governed_state \<Rightarrow> governed_state \<Rightarrow> bool" where
  "witness_step g g' \<longleftrightarrow>
     gw_Policy g' = gw_Policy g \<and> qp_Phase (gw_Policy g) = QuorumPolicyPhaseActive \<and>
       (\<forall>j. head_le (head_of g j) (head_of g' j)) \<or>
     head_of g' = head_of g \<and> ValidateQuorumPolicyTransition (gw_Policy g) (gw_Policy g') = None"

lemma witness_step_head: "witness_step g g' \<Longrightarrow> head_le (head_of g j) (head_of g' j)"
  by (auto simp: witness_step_def)

lemma witness_step_rank: "witness_step g g' \<Longrightarrow> policy_rank (gw_Policy g) \<le> policy_rank (gw_Policy g')"
  using transition_rank [of "gw_Policy g" "gw_Policy g'"] by (auto simp: witness_step_def) (metis order.refl less_imp_le)

lemma advance_state_step:
  assumes "advance_state policy j request st = Inr st'"
  shows "witness_step st st' \<and> gw_Policy st = policy \<and> gw_StoreVersion st' = gw_StoreVersion st \<and>
    gw_Protocol st' = gw_Protocol st \<and> head_of st' j = Some (semanticExternalHead (rq_Next request))"
proof -
  let ?nxt = "(rq_Next request)\<lparr>eh_StoreVersion := []\<rparr>"
  from assms have st': "st' = st\<lparr>gw_Heads := AList.update j ?nxt (gw_Heads st)\<rparr>"
    and pol: "gw_Policy st = policy" "qp_Phase policy = QuorumPolicyPhaseActive"
    by (auto simp: advance_state_def Let_def split: if_splits option.splits)
  have sem: "semanticExternalHead ?nxt = semanticExternalHead (rq_Next request)" by (simp add: semanticExternalHead_def)
  have heads: "head_of st' k = (if k = j then Some (semanticExternalHead (rq_Next request)) else head_of st k)" for k
    by (simp add: head_of_def st' update_conv sem)
  have "head_le (head_of st j) (Some (semanticExternalHead (rq_Next request)))"
    using assms by (auto simp: advance_state_def head_of_def Let_def sameSemanticHead_def semanticExternalHead_def not_less
        split: if_splits option.splits)
  with heads have "\<forall>k. head_le (head_of st k) (head_of st' k)" by simp
  with pol heads show ?thesis by (simp add: witness_step_def st')
qed

lemma transition_state_step:
  assumes "transition_state j request st = Inr st'"
  shows "witness_step st st' \<and> gw_StoreVersion st' = gw_StoreVersion st \<and> gw_Protocol st' = gw_Protocol st \<and>
    gw_Policy st = tq_Expected request \<and> gw_Policy st' = tq_Next request \<and>
    head_of st j = Some (semanticExternalHead (tq_ExpectedHead request))"
  using assms
  by (auto simp: transition_state_def witness_step_def head_of_def fun_eq_iff sameSemanticHead_def
      split: if_splits option.splits)

section \<open>The versioned store\<close>

text \<open>
  \<open>cur\<close> is the version in force and \<open>hist\<close> what was stored under each version so far. A write that
  reports an error may nevertheless have taken effect.
\<close>

definition stored :: "governed_state \<Rightarrow> governed_state" where
  "stored st = with_version [] (st\<lparr>gw_Protocol := GovernedWitnessStateVersion\<rparr>)"

locale versioned_state =
  fixes store :: "'s governed_store" and cur :: "'s \<Rightarrow> string option" and hist :: "'s \<Rightarrow> string \<Rightarrow> governed_state option"
  assumes load_state: "gs_Load store s = (Inr st, s') \<Longrightarrow> cur s = Some (gw_StoreVersion st) \<and>
      hist s (gw_StoreVersion st) = Some (stored st) \<and> \<not> blank (gw_StoreVersion st)"
    and load_frame: "gs_Load store s = (r, s') \<Longrightarrow> cur s' = cur s \<and> hist s' = hist s"
    and cas_effect: "gs_CompareAndSwap store v n s = (r, s') \<Longrightarrow>
      isl r \<and> cur s' = cur s \<and> hist s' = hist s \<or>
      (\<exists>v'. cur s = (if blank v then None else Some v) \<and> hist s v' = None \<and> cur s' = Some v' \<and>
        hist s' = (hist s)(v' \<mapsto> stored n) \<and> (\<forall>st. r = Inr st \<longrightarrow> st = with_version v' (stored n)))"
    and cas_valid: "gs_CompareAndSwap store v n s = (Inr st, s') \<Longrightarrow> validateGovernedWitnessState (stored n) = None"
begin

definition governed :: "'s \<Rightarrow> governed_state option" where
  "governed s = Option.bind (cur s) (hist s)"

lemma load_governed: "gs_Load store s = (Inr st, s') \<Longrightarrow> governed s = Some (stored st) \<and> governed s' = Some (stored st)"
  using load_state [of s st s'] load_frame [of s "Inr st" s'] by (simp add: governed_def)

lemma load_keeps: "gs_Load store s = (r, s') \<Longrightarrow> governed s' = governed s"
  using load_frame [of s r s'] by (simp add: governed_def)

lemma stored_facts [simp]:
  "gw_Policy (stored st) = gw_Policy st" "head_of (stored st) = head_of st"
  by (simp_all add: stored_def) (simp add: head_of_def fun_eq_iff)

lemma stored_step [simp]: "witness_step (stored st) (stored st') = witness_step st st'"
  by (simp add: witness_step_def)

text \<open>
  A handler loads a state and writes later. If the write takes effect, the state loaded is still the
  state in force, whatever happened to the store in between.
\<close>

definition later :: "'s \<Rightarrow> 's \<Rightarrow> bool" where
  "later s s' \<longleftrightarrow> hist s \<subseteq>\<^sub>m hist s'"

lemma later_trans: "later s t \<Longrightarrow> later t u \<Longrightarrow> later s u"
  unfolding later_def by (rule map_le_trans)

lemma cas_later: "gs_CompareAndSwap store v n s = (r, s') \<Longrightarrow> later s s'"
  using cas_effect [of v n s r s'] by (auto simp: later_def map_le_def dom_def)

lemma load_later: "gs_Load store s = (r, s') \<Longrightarrow> later s s'"
  using load_frame [of s r s'] by (simp add: later_def)

end

subsection \<open>Interleaved handlers\<close>

text \<open>
  A handler that writes first loads the state and computes what to write; other handlers may run
  before it writes. \<open>prepare\<close> is a handler up to that point: the version and state it will write.
\<close>

definition prepare ::
  "'s witness_handler \<Rightarrow> witness_request \<Rightarrow> 's \<Rightarrow> (string \<times> governed_state) option \<times> 's" where
  "prepare h r s =
     (if trim_space (wr_Nonce r) = [] then (None, s)
      else case wr_Call r of
        PostAdvance journalID body \<Rightarrow>
          (case (requireRemoteQuorumPolicy r, body) of
             (Some policy, Some request) \<Rightarrow>
               (if blank journalID \<or> rq_Protocol request \<noteq> remoteWitnessProtocolV1 \<or>
                   eh_JournalID (rq_Next request) \<noteq> journalID then (None, s)
                else case gs_Load (wh_store h) s of
                  (Inl _, s1) \<Rightarrow> (None, s1)
                | (Inr state, s1) \<Rightarrow>
                  ((case advance_state policy journalID request state of
                      Inl _ \<Rightarrow> None | Inr state' \<Rightarrow> Some (gw_StoreVersion state, state')), s1))
           | _ \<Rightarrow> (None, s))
      | PostTransition (Some request) \<Rightarrow>
          (let journalID = trim_space (tq_JournalID request) in
           if tq_Protocol request \<noteq> remoteWitnessProtocolV1 \<or> journalID = [] \<or>
              eh_JournalID (tq_ExpectedHead request) \<noteq> journalID then (None, s)
           else case gs_Load (wh_store h) s of
             (Inl _, s1) \<Rightarrow> (None, s1)
           | (Inr state, s1) \<Rightarrow>
             ((case transition_state journalID request state of
                 Inl _ \<Rightarrow> None | Inr state' \<Rightarrow> Some (gw_StoreVersion state, state')), s1))
      | _ \<Rightarrow> (None, snd (ServeHTTP h r s)))"

definition commit :: "'s witness_handler \<Rightarrow> (string \<times> governed_state) option \<Rightarrow> 's \<Rightarrow> 's" where
  "commit h write s = (case write of None \<Rightarrow> s | Some (v, n) \<Rightarrow> snd (gs_CompareAndSwap (wh_store h) v n s))"

text \<open>Run without interruption, preparing and committing is the handler.\<close>

lemma ServeHTTP_prepare: "snd (ServeHTTP h r s) = (case prepare h r s of (write, s1) \<Rightarrow> commit h write s1)"
proof (cases "wr_Call r")
  case (PostAdvance j body)
  then show ?thesis
    by (auto simp: ServeHTTP_def prepare_def handleHeadAdvance_def commit_def Let_def
        split: option.split sum.split prod.split)
next
  case (PostTransition body)
  then show ?thesis
    by (auto simp: ServeHTTP_def prepare_def handlePolicyTransition_def commit_def Let_def
        split: option.split sum.split prod.split)
qed (auto simp: prepare_def commit_def ServeHTTP_def Let_def)

record 's witness_system =
  ws_state :: 's
  ws_pending :: "nat \<Rightarrow> (string \<times> governed_state) option"

datatype witness_action = Arrive nat witness_request | Write nat

fun witness_act :: "'s witness_handler \<Rightarrow> witness_action \<Rightarrow> 's witness_system \<Rightarrow> 's witness_system" where
  "witness_act h (Arrive k r) ws =
     (if ws_pending ws k \<noteq> None then ws
      else case prepare h r (ws_state ws) of
        (write, s) \<Rightarrow> \<lparr>ws_state = s, ws_pending = (ws_pending ws)(k := write)\<rparr>)"
| "witness_act h (Write k) ws =
     \<lparr>ws_state = commit h (ws_pending ws k) (ws_state ws), ws_pending = (ws_pending ws)(k := None)\<rparr>"

context versioned_state
begin

lemma read_only_calls:
  assumes "wh_store h = store"
  shows "(\<exists>r. gs_Load store s = (r, snd (handleHeadLoad h rq nonce j s))) \<or> snd (handleHeadLoad h rq nonce j s) = s"
    and "(\<exists>r. gs_Load store s = (r, snd (handleRotationObserve h nonce j s)))"
    and "(\<exists>r. gs_Load store s = (r, snd (handleCurrentPolicy h nonce s)))"
  using assms
  by (auto simp: handleHeadLoad_def handleRotationObserve_def handleCurrentPolicy_def split: option.splits sum.splits prod.splits)

lemma prepare_keeps:
  assumes "wh_store h = store" and "prepare h r s = (write, s1)"
  shows "cur s1 = cur s \<and> hist s1 = hist s"
proof -
  have frame: "\<exists>r. gs_Load store s = (r, t) \<Longrightarrow> cur t = cur s \<and> hist t = hist s" for t using load_frame by blast
  have load: "gs_Load (wh_store h) s = (x, t) \<Longrightarrow> cur t = cur s \<and> hist t = hist s" for x t
    using assms(1) load_frame by simp
  show ?thesis
  proof (cases "wr_Call r")
    case (PostAdvance j body)
    with assms(2) show ?thesis
      by (auto simp: prepare_def split: if_splits option.splits sum.splits prod.splits dest: load)
  next
    case (PostTransition body)
    with assms(2) show ?thesis
      by (auto simp: prepare_def ServeHTTP_def handlePolicyTransition_def Let_def
          split: if_splits option.splits sum.splits prod.splits dest: load)
  next
    case (GetHead j)
    with assms(2) frame read_only_calls(1) [OF assms(1), of s r "trim_space (wr_Nonce r)" j] show ?thesis
      by (auto simp: prepare_def ServeHTTP_def Let_def split: if_splits)
  next
    case (GetRotationHead j)
    with assms(2) frame read_only_calls(2) [OF assms(1), of s "trim_space (wr_Nonce r)" j] show ?thesis
      by (auto simp: prepare_def ServeHTTP_def Let_def split: if_splits)
  next
    case GetPolicy
    with assms(2) frame read_only_calls(3) [OF assms(1), of s "trim_space (wr_Nonce r)"] show ?thesis
      by (auto simp: prepare_def ServeHTTP_def Let_def split: if_splits)
  next
    case OtherCall
    with assms(2) show ?thesis by (auto simp: prepare_def ServeHTTP_def Let_def split: if_splits)
  qed
qed

text \<open>What is going to be written is one step from the state under the version it was computed from.\<close>

definition write_ok :: "'s \<Rightarrow> string \<times> governed_state \<Rightarrow> bool" where
  "write_ok s w \<longleftrightarrow> \<not> blank (fst w) \<and> (\<exists>g. hist s (fst w) = Some g \<and> witness_step g (stored (snd w)))"

lemma prepare_ok:
  assumes "wh_store h = store" and "prepare h r s = (Some w, s1)"
  shows "write_ok s1 w"
proof -
  obtain state state' j req where ld: "gs_Load store s = (Inr state, s1)" "w = (gw_StoreVersion state, state')"
    and st: "(\<exists>policy. advance_state policy j req state = Inr state') \<or> (\<exists>tr. transition_state j tr state = Inr state')"
    using assms
    by (fastforce simp: prepare_def Let_def split: if_splits option.splits sum.splits prod.splits witness_call.splits)
  from st have "witness_step state state'" using advance_state_step transition_state_step by metis
  with load_state [OF ld(1)] load_frame [OF ld(1)] ld(2) show ?thesis by (simp add: write_ok_def)
qed

lemma commit_step:
  assumes "wh_store h = store" and "write_ok s w"
  shows "governed (commit h (Some w) s) = governed s \<or>
    (\<exists>g g'. governed s = Some g \<and> governed (commit h (Some w) s) = Some g' \<and> witness_step g g')"
proof -
  obtain v n where w: "w = (v, n)" by (cases w)
  obtain r s' where cas: "gs_CompareAndSwap store v n s = (r, s')" by fastforce
  from cas_effect [OF cas] assms w cas show ?thesis by (auto simp: commit_def governed_def write_ok_def)
qed

definition pending_ok :: "'s witness_system \<Rightarrow> bool" where
  "pending_ok ws \<longleftrightarrow> (\<forall>k w. ws_pending ws k = Some w \<longrightarrow> write_ok (ws_state ws) w)"

definition governed_step :: "'s \<Rightarrow> 's \<Rightarrow> bool" where
  "governed_step s s' \<longleftrightarrow> governed s' = governed s \<or>
     (\<exists>g g'. governed s = Some g \<and> governed s' = Some g' \<and> witness_step g g')"

lemma write_ok_later: "write_ok s w \<Longrightarrow> later s s' \<Longrightarrow> write_ok s' w"
  by (auto simp: write_ok_def later_def map_le_def dom_def)

lemma commit_later: "wh_store h = store \<Longrightarrow> later s (commit h w s)"
  by (auto simp: commit_def later_def split: option.split intro: cas_later [unfolded later_def] prod.collapse [symmetric])

lemma witness_act_step:
  assumes "wh_store h = store" and "pending_ok ws"
  shows "pending_ok (witness_act h a ws) \<and> governed_step (ws_state ws) (ws_state (witness_act h a ws))"
proof (cases a)
  case (Arrive k r)
  obtain w s1 where p: "prepare h r (ws_state ws) = (w, s1)" by fastforce
  have keep: "later (ws_state ws) s1" "governed s1 = governed (ws_state ws)"
    using prepare_keeps [OF assms(1) p] by (simp_all add: later_def governed_def)
  from Arrive p keep assms show ?thesis
    by (auto simp: pending_ok_def governed_step_def intro: prepare_ok write_ok_later split: if_splits)
next
  case (Write k)
  have later: "later (ws_state ws) (commit h (ws_pending ws k) (ws_state ws))" by (rule commit_later [OF assms(1)])
  have "governed_step (ws_state ws) (commit h (ws_pending ws k) (ws_state ws))"
  proof (cases "ws_pending ws k")
    case (Some w)
    then have "write_ok (ws_state ws) w" using assms(2) unfolding pending_ok_def by blast
    from commit_step [OF assms(1) this] show ?thesis by (simp add: governed_step_def Some)
  qed (simp add: commit_def governed_step_def)
  with Write later assms(2) show ?thesis by (auto simp: pending_ok_def intro: write_ok_later)
qed

lemma witness_run_steps:
  assumes "wh_store h = store" and "pending_ok ws" and "governed (ws_state ws) = Some g"
  shows "\<exists>g'. governed (ws_state (fold (witness_act h) as ws)) = Some g' \<and> witness_step\<^sup>*\<^sup>* g g'"
  using assms(2,3)
proof (induction as arbitrary: ws g)
  case (Cons a as)
  note step = witness_act_step [OF assms(1) Cons.prems(1), of a]
  then obtain g1 where g1: "governed (ws_state (witness_act h a ws)) = Some g1" "witness_step\<^sup>*\<^sup>* g g1"
    using Cons.prems(2) by (auto simp: governed_step_def)
  from Cons.IH [OF _ g1(1)] step g1(2) show ?case by (auto intro: rtranclp_trans)
qed auto

lemma ServeHTTP_step: "wh_store h = store \<Longrightarrow> governed_step s (snd (ServeHTTP h r s))"
proof -
  assume h: "wh_store h = store"
  obtain w s1 where p: "prepare h r s = (w, s1)" by fastforce
  have "governed s1 = governed s" using prepare_keeps [OF h p] by (simp add: governed_def)
  moreover have "governed_step s1 (commit h w s1)"
  proof (cases w)
    case (Some x)
    from commit_step [OF h prepare_ok [OF h p [unfolded Some]]] show ?thesis by (simp add: governed_step_def Some)
  qed (simp add: commit_def governed_step_def)
  ultimately show ?thesis by (simp add: ServeHTTP_prepare p governed_step_def)
qed

end

text \<open>What a sequence of steps implies.\<close>

lemma steps_head: "witness_step\<^sup>*\<^sup>* g g' \<Longrightarrow> head_le (head_of g j) (head_of g' j)"
  by (induction rule: rtranclp_induct) (auto intro: head_le_trans witness_step_head)

lemma steps_rank: "witness_step\<^sup>*\<^sup>* g g' \<Longrightarrow> policy_rank (gw_Policy g) \<le> policy_rank (gw_Policy g')"
  by (induction rule: rtranclp_induct) (auto intro: order_trans witness_step_rank)

lemma witness_step_policy: "witness_step g g' \<Longrightarrow> gw_Policy g' = gw_Policy g \<or> policy_rank (gw_Policy g) < policy_rank (gw_Policy g')"
  using transition_rank [of "gw_Policy g" "gw_Policy g'"] unfolding witness_step_def by metis

text \<open>A policy that was left does not come back, and a frozen witness keeps its heads.\<close>

lemma steps_policy: "witness_step\<^sup>*\<^sup>* g g' \<Longrightarrow> gw_Policy g' = gw_Policy g \<or> policy_rank (gw_Policy g) < policy_rank (gw_Policy g')"
proof (induction rule: rtranclp_induct)
  case (step y z)
  with witness_step_policy [OF step(2)] show ?case by auto
qed simp

lemma steps_frozen:
  assumes "witness_step\<^sup>*\<^sup>* g g'" and "qp_Phase (gw_Policy g) \<noteq> QuorumPolicyPhaseActive" and "gw_Policy g' = gw_Policy g"
  shows "head_of g' = head_of g"
  using assms
proof (induction rule: rtranclp_induct)
  case (step y z)
  have "gw_Policy y = gw_Policy g"
    using steps_policy [OF step(1)] witness_step_rank [OF step(2)] step.prems(2) by auto
  with step show ?case by (simp add: witness_step_def)
qed simp

section \<open>The ConfigMap store is versioned\<close>

text \<open>
  The documented behaviour of the API: an update applies to the named resource version only, a create
  only where there is no object, each write gives the object a new resource version, and a write that
  fails may have been applied. JSON: decoding what was encoded gives the state back, and the fields
  excluded from JSON decode to their zero values.
\<close>

locale kube_configmap =
  fixes api :: "('s, 'p) configmap_api" and cur :: "'s \<Rightarrow> string option" and payloads :: "'s \<Rightarrow> string \<Rightarrow> 'p option"
  assumes get_frame: "cm_Get api s = (g, s') \<Longrightarrow> cur s' = cur s \<and> payloads s' = payloads s"
    and get_current: "cm_Get api s = (Inr (Some p, v), s') \<Longrightarrow> cur s = Some v \<and> payloads s v = Some p \<and> \<not> blank v"
    and create_effect: "cm_Create api p s = (r, s') \<Longrightarrow> isl r \<and> cur s' = cur s \<and> payloads s' = payloads s \<or>
      (\<exists>v'. cur s = None \<and> payloads s v' = None \<and> cur s' = Some v' \<and> payloads s' = (payloads s)(v' \<mapsto> p) \<and>
        (\<forall>x. r = Inr x \<longrightarrow> x = v'))"
    and update_effect: "cm_Update api v p s = (r, s') \<Longrightarrow> isl r \<and> cur s' = cur s \<and> payloads s' = payloads s \<or>
      (\<exists>v'. cur s = Some v \<and> payloads s v' = None \<and> cur s' = Some v' \<and> payloads s' = (payloads s)(v' \<mapsto> p) \<and>
        (\<forall>x. r = Inr x \<longrightarrow> x = v'))"
    and json_roundtrip: "with_version [] st = st \<Longrightarrow> cm_marshal api st = Some p \<Longrightarrow> cm_unmarshal api p = Some st"
    and json_excluded: "cm_unmarshal api p = Some st \<Longrightarrow> with_version [] st = st"
begin

definition states :: "'s \<Rightarrow> string \<Rightarrow> governed_state option" where
  "states s v = Option.bind (payloads s v) (cm_unmarshal api)"

lemma write_effect:
  assumes "K8s_write api v p s = (r, s')"
  shows "isl r \<and> cur s' = cur s \<and> payloads s' = payloads s \<or>
    (\<exists>v'. cur s = (if blank v then None else Some v) \<and> payloads s v' = None \<and> cur s' = Some v' \<and>
      payloads s' = (payloads s)(v' \<mapsto> p) \<and> (\<forall>x. r = Inr x \<longrightarrow> x = v'))"
proof (cases "blank v")
  case True
  obtain r0 where "cm_Create api p s = (r0, s')" "isl r = isl r0" "\<And>x. r = Inr x \<Longrightarrow> r0 = Inr x"
    using assms True by (auto simp: K8s_write_def split: prod.splits sum.splits api_error.splits)
  with create_effect [of p s r0 s'] True show ?thesis by metis
next
  case False
  obtain r0 where "cm_Update api v p s = (r0, s')" "isl r = isl r0" "\<And>x. r = Inr x \<Longrightarrow> r0 = Inr x"
    using assms False by (auto simp: K8s_write_def split: prod.splits sum.splits api_error.splits)
  with update_effect [of v p s r0 s'] False show ?thesis by metis
qed

lemma K8s_Load_state:
  assumes "K8s_Load api s = (Inr st, s')"
  shows "cur s = Some (gw_StoreVersion st) \<and> states s (gw_StoreVersion st) = Some (stored st) \<and> \<not> blank (gw_StoreVersion st)"
proof -
  obtain p v st0 where g: "cm_Get api s = (Inr (Some p, v), s')" "cm_unmarshal api p = Some st0"
    "validateGovernedWitnessState st0 = None" "st = with_version v st0"
    using assms by (auto simp: K8s_Load_def split: prod.splits sum.splits api_error.splits option.splits)
  have "gw_Protocol st0 = GovernedWitnessStateVersion" using g(3) by (auto simp: validateGovernedWitnessState_def split: if_splits)
  then have "stored st = with_version [] st0" unfolding g(4) stored_def by (simp add: with_version_def comp_def case_prod_beta)
  with json_excluded [OF g(2)] get_current [OF g(1)] g show ?thesis by (simp add: states_def)
qed

lemma K8s_Load_frame: "K8s_Load api s = (r, s') \<Longrightarrow> cur s' = cur s \<and> payloads s' = payloads s"
proof -
  assume "K8s_Load api s = (r, s')"
  then have "\<exists>r0. cm_Get api s = (r0, s')"
    by (auto simp: K8s_Load_def split: prod.splits sum.splits api_error.splits option.splits)
  then show ?thesis using get_frame by blast
qed

lemma K8s_CompareAndSwap_effect:
  assumes "K8s_CompareAndSwap api v n s = (r, s')"
  shows "isl r \<and> cur s' = cur s \<and> states s' = states s \<or>
    (\<exists>v'. cur s = (if blank v then None else Some v) \<and> states s v' = None \<and> cur s' = Some v' \<and>
      states s' = (states s)(v' \<mapsto> stored n) \<and> (\<forall>st. r = Inr st \<longrightarrow> st = with_version v' (stored n)))"
proof -
  consider (early) "isl r" "s' = s"
    | (wrote) p r0 where "cm_marshal api (stored n) = Some p" "K8s_write api v p s = (r0, s')"
        "isl r = isl r0" "\<And>st. r = Inr st \<Longrightarrow> \<exists>x. r0 = Inr x \<and> st = with_version x (stored n)"
    using assms unfolding K8s_CompareAndSwap_def Let_def stored_def [symmetric]
    by (auto split: option.splits prod.splits sum.splits)
  then show ?thesis
  proof cases
    case wrote
    have "cm_unmarshal api p = Some (stored n)" by (rule json_roundtrip [OF _ wrote(1)]) (simp add: stored_def)
    then have upd: "payloads s' = (payloads s)(v' \<mapsto> p) \<Longrightarrow> states s' = (states s)(v' \<mapsto> stored n)" for v'
      by (auto simp: states_def fun_eq_iff)
    from write_effect [OF wrote(2)] wrote(3,4) upd show ?thesis by (auto simp: states_def fun_eq_iff)
  qed simp
qed

end

sublocale kube_configmap \<subseteq> versioned_state "KubernetesGovernedWitnessStateStore api" cur states
proof
  fix s r s' st v n
  let ?store = "KubernetesGovernedWitnessStateStore api"
  show "gs_Load ?store s = (Inr st, s') \<Longrightarrow> cur s = Some (gw_StoreVersion st) \<and>
      states s (gw_StoreVersion st) = Some (stored st) \<and> \<not> blank (gw_StoreVersion st)"
    using K8s_Load_state by (simp add: KubernetesGovernedWitnessStateStore_def)
  show "gs_Load ?store s = (r, s') \<Longrightarrow> cur s' = cur s \<and> states s' = states s"
    using K8s_Load_frame by (simp add: KubernetesGovernedWitnessStateStore_def states_def fun_eq_iff)
  show "gs_CompareAndSwap ?store v n s = (r, s') \<Longrightarrow> isl r \<and> cur s' = cur s \<and> states s' = states s \<or>
      (\<exists>v'. cur s = (if blank v then None else Some v) \<and> states s v' = None \<and> cur s' = Some v' \<and>
        states s' = (states s)(v' \<mapsto> stored n) \<and> (\<forall>st. r = Inr st \<longrightarrow> st = with_version v' (stored n)))"
    using K8s_CompareAndSwap_effect by (simp add: KubernetesGovernedWitnessStateStore_def)
  show "gs_CompareAndSwap ?store v n s = (Inr st, s') \<Longrightarrow> validateGovernedWitnessState (stored n) = None"
    by (auto simp: KubernetesGovernedWitnessStateStore_def K8s_CompareAndSwap_def Let_def stored_def split: option.splits)
qed

context kube_configmap
begin

lemma versioned: "versioned_state (KubernetesGovernedWitnessStateStore api) cur states"
  by unfold_locales

end

end
