(* ===== verification/Witness_Quorum.thy ===== *)
theory Witness_Quorum
  imports Witness_Safety
begin

text \<open>
  Quorums of governed remote witnesses: the quorum head store of the journal, over clients, a network
  that may lose requests and responses, HTTP handlers and ConfigMaps. A minority of members may be
  faulty in any way.
\<close>

section \<open>The network\<close>

datatype net_fate = Delivered | RequestLost | ResponseLost

text \<open>
  The world of a quorum holds the world of each witness. \<open>fate\<close> decides about each message and gives
  the world in which it arrives, after whatever else happened meanwhile.
\<close>

definition deliver ::
  "((string \<Rightarrow> 's) \<Rightarrow> net_fate \<times> (string \<Rightarrow> 's)) \<Rightarrow> (string \<Rightarrow> 's witness_handler) \<Rightarrow> string \<Rightarrow> witness_request
    \<Rightarrow> (string \<Rightarrow> 's) \<Rightarrow> witness_response option \<times> (string \<Rightarrow> 's)" where
  "deliver fate hs i r w =
     (case fate w of
        (RequestLost, u) \<Rightarrow> (None, u)
      | (ResponseLost, u) \<Rightarrow> (None, u(i := snd (ServeHTTP (hs i) r (u i))))
      | (Delivered, u) \<Rightarrow> (case ServeHTTP (hs i) r (u i) of (response, s) \<Rightarrow> (Some response, u(i := s))))"

text \<open>Steps of the honest witnesses' handlers; \<open>gov\<close> reads the governed state of a witness.\<close>

definition witness_moves ::
  "('s \<Rightarrow> governed_state option) \<Rightarrow> string set \<Rightarrow> (string \<Rightarrow> 's) \<Rightarrow> (string \<Rightarrow> 's) \<Rightarrow> bool" where
  "witness_moves gov honest w w' \<longleftrightarrow>
     (\<forall>i g. i \<in> honest \<longrightarrow> gov (w i) = Some g \<longrightarrow> (\<exists>g'. gov (w' i) = Some g' \<and> witness_step\<^sup>*\<^sup>* g g'))"

lemma moves_refl: "witness_moves gov honest w w"
  by (auto simp: witness_moves_def)

lemma moves_trans: "witness_moves gov honest u v \<Longrightarrow> witness_moves gov honest v w \<Longrightarrow> witness_moves gov honest u w"
  unfolding witness_moves_def by (meson rtranclp_trans)

text \<open>
  A deployment: honest members have a handler on a store satisfying the contract and a client that
  reaches it, and only handlers change their state; a faulty member does what it likes but does not
  touch the honest ones' state.
\<close>

definition deployment ::
  "('s \<Rightarrow> governed_state option) \<Rightarrow> 's governed_store \<Rightarrow> ((string \<Rightarrow> 's) \<Rightarrow> net_fate \<times> (string \<Rightarrow> 's))
    \<Rightarrow> (string \<Rightarrow> 's witness_handler) \<Rightarrow> (string \<Rightarrow> (string \<Rightarrow> 's) remote_store) \<Rightarrow> string set \<Rightarrow> bool" where
  "deployment gov store fate hs rs honest \<longleftrightarrow>
     (\<forall>i \<in> honest. wh_store (hs i) = store \<and> rs_send (rs i) = deliver fate hs i) \<and>
     (\<forall>w. witness_moves gov honest w (snd (fate w))) \<and>
     (\<forall>i r w. i \<notin> honest \<longrightarrow> witness_moves gov honest w (snd (rs_send (rs i) r w)))"

section \<open>What a client learns\<close>

lemma writeSignedHead_head: "writeSignedHead h op nonce hd' pol = HeadResponse r \<Longrightarrow> rh_Head r = hd'"
  by (auto simp: writeSignedHead_def Let_def split: option.splits)

lemma writeSignedHead_status: "writeSignedHead h op nonce hd' pol = Status n \<Longrightarrow> n = 500 \<or> n = 503"
  by (auto simp: writeSignedHead_def Let_def split: option.splits)

lemma writeStateError_Status: "\<exists>n. writeStateError e = Status n \<and> n \<noteq> 404"
  by (auto simp: writeStateError_def split: state_error.splits witness_error.splits head_error.splits)

lemma writeStateError_HeadResponse: "writeStateError e \<noteq> HeadResponse x"
  using writeStateError_Status [of e] by auto

lemma verifyResponse_head: "verifyResponseWithPolicy rs op j nonce result pol = Inr h \<Longrightarrow> h = rh_Head result \<and> eh_JournalID h = j"
  by (auto simp: verifyResponseWithPolicy_def split: if_splits option.splits)

lemma verifyResponse_error: "verifyResponseWithPolicy rs op j nonce result pol \<noteq> Inl (WHead e)"
  by (auto simp: verifyResponseWithPolicy_def split: option.splits)

lemma semantic_version [simp]: "semanticExternalHead (h\<lparr>eh_StoreVersion := v\<rparr>) = semanticExternalHead h"
  by (simp add: semanticExternalHead_def)

context versioned_state
begin

lemma handleHeadLoad_cases:
  assumes "wh_store h = store" and "handleHeadLoad h r nonce j s = (resp, s')"
  shows "(\<forall>x. resp = HeadResponse x \<longrightarrow> (\<exists>g. governed s' = Some g \<and> head_of g j = Some (semanticExternalHead (rh_Head x)))) \<and>
    (resp = Status 404 \<longrightarrow> (\<exists>g. governed s' = Some g \<and> head_of g j = None))"
proof (cases "requireRemoteQuorumPolicy r")
  case (Some policy)
  obtain ld s1 where ld: "gs_Load store s = (ld, s1)" by fastforce
  show ?thesis
  proof (cases ld)
    case (Inl e)
    with assms Some ld writeStateError_Status [of e] show ?thesis by (auto simp: handleHeadLoad_def)
  next
    case (Inr st)
    have g: "governed s1 = Some (stored st)" using load_governed ld Inr by simp
    show ?thesis
    proof (cases "map_of (gw_Heads st) j")
      case None
      with assms Some ld Inr g show ?thesis by (auto simp: handleHeadLoad_def head_of_def [of st] split: if_splits)
    next
      case (Some x)
      with assms \<open>requireRemoteQuorumPolicy r = Some policy\<close> ld Inr g show ?thesis
        by (auto simp: handleHeadLoad_def head_of_def [of st] dest: writeSignedHead_head writeSignedHead_status split: if_splits)
    qed
  qed
qed (use assms in \<open>auto simp: handleHeadLoad_def\<close>)

lemma handleHeadAdvance_cases:
  assumes "wh_store h = store" and "handleHeadAdvance h r nonce j (Some request) s = (HeadResponse x, s')"
  shows "\<exists>g. governed s' = Some g \<and> head_of g j = Some (semanticExternalHead (rq_Next request)) \<and> trim_space j = j"
proof -
  obtain policy st s1 st' saved where p: "gs_Load store s = (Inr st, s1)" "advance_state policy j request st = Inr st'"
    "gs_CompareAndSwap store (gw_StoreVersion st) st' s1 = (Inr saved, s')" "eh_JournalID (rq_Next request) = j"
    using assms(2) writeStateError_HeadResponse unfolding handleHeadAdvance_def assms(1)
    by (auto split: option.splits if_splits prod.splits sum.splits)
  have "governed s' = Some (stored st')" using cas_effect [OF p(3)] by (auto simp: governed_def)
  moreover have "trim_space j = j"
  proof -
    have "head_of (stored st') j = Some (semanticExternalHead (rq_Next request))" using advance_state_step [OF p(2)] by simp
    then obtain x where x: "map_of (gw_Heads (stored st')) j = Some x" "eh_JournalID x = j"
      unfolding head_of_def by (auto simp: p(4) dest!: semantic_eq_journal)
    with cas_valid [OF p(3)] map_of_SomeD [OF x(1)] show ?thesis
      by (auto simp: validateGovernedWitnessState_def list_ex_iff split: if_splits option.splits)
  qed
  ultimately show ?thesis using advance_state_step [OF p(2)] by simp
qed

text \<open>Heads are served and moved only under the policy that the request names.\<close>

lemma handleHeadLoad_policy:
  assumes "wh_store h = store" and "handleHeadLoad h r nonce j s = (resp, s')" and "wr_Policy r = Some pol"
    and "resp = HeadResponse x \<or> resp = Status 404"
  shows "\<exists>g. governed s' = Some g \<and> gw_Policy g = pol"
proof -
  obtain st where st: "gs_Load store s = (Inr st, s')" "gw_Policy st = pol"
    using assms(2-4) writeStateError_Status writeStateError_HeadResponse unfolding handleHeadLoad_def assms(1)
    by (auto simp: requireRemoteQuorumPolicy_def split: option.splits if_splits prod.splits sum.splits)
      (metis witness_response.inject(3) writeStateError_Status)+
  with load_governed [OF st(1)] show ?thesis by simp
qed

lemma handleHeadAdvance_policy:
  assumes "wh_store h = store" and "handleHeadAdvance h r nonce j (Some request) s = (HeadResponse x, s')"
    and "wr_Policy r = Some pol"
  shows "\<exists>g. governed s' = Some g \<and> gw_Policy g = pol"
proof -
  obtain st s1 st' saved where p: "gs_Load store s = (Inr st, s1)" "advance_state pol j request st = Inr st'"
    "gs_CompareAndSwap store (gw_StoreVersion st) st' s1 = (Inr saved, s')"
    using assms(2,3) writeStateError_HeadResponse unfolding handleHeadAdvance_def assms(1)
    by (auto simp: requireRemoteQuorumPolicy_def split: option.splits if_splits prod.splits sum.splits)
  have "governed s' = Some (stored st')" using cas_effect [OF p(3)] by (auto simp: governed_def)
  moreover have "gw_Policy st' = pol"
    using advance_state_step [OF p(2)] p(2) by (auto simp: advance_state_def Let_def split: if_splits option.splits)
  ultimately show ?thesis by simp
qed

lemma handleCurrentPolicy_cases:
  assumes "wh_store h = store" and "handleCurrentPolicy h nonce s = (PolicyResponse x, s')"
  shows "\<exists>g. governed s' = Some g \<and> gw_Policy g = rp_Policy x"
proof -
  have no: "writeStateError e \<noteq> PolicyResponse x" for e using writeStateError_Status [of e] by auto
  obtain st where st: "gs_Load store s = (Inr st, s')" "writeSignedPolicy h ''policy-current'' nonce (gw_Policy st) = PolicyResponse x"
    using assms(2) no unfolding handleCurrentPolicy_def assms(1) by (auto split: prod.splits sum.splits)
  then have "rp_Policy x = gw_Policy st" by (auto simp: writeSignedPolicy_def Let_def split: option.splits)
  with load_governed [OF st(1)] show ?thesis by simp
qed

lemma handleRotationObserve_cases:
  assumes "wh_store h = store" and "handleRotationObserve h nonce j s = (HeadResponse x, s')"
  shows "\<exists>g. governed s' = Some g \<and> head_of g j = Some (semanticExternalHead (rh_Head x))"
proof -
  obtain st y where st: "gs_Load store s = (Inr st, s')" "map_of (gw_Heads st) j = Some y"
    "writeSignedHead h ''rotation-observe'' nonce (y\<lparr>eh_StoreVersion := gw_StoreVersion st\<rparr>) (Some (gw_Policy st)) = HeadResponse x"
    using assms(2) writeStateError_HeadResponse unfolding handleRotationObserve_def assms(1)
    by (auto split: prod.splits sum.splits option.splits)
  with load_governed [OF st(1)] writeSignedHead_head [OF st(3)] show ?thesis by (simp add: head_of_def [of st])
qed

end

section \<open>Members of a quorum\<close>

locale remote_witnesses = versioned_state store cur hist
  for store :: "'s governed_store" and cur hist +
  fixes fate :: "(string \<Rightarrow> 's) \<Rightarrow> net_fate \<times> (string \<Rightarrow> 's)" and hs :: "string \<Rightarrow> 's witness_handler"
    and rs :: "string \<Rightarrow> (string \<Rightarrow> 's) remote_store" and honest :: "string set"
  assumes deployed: "deployment governed store fate hs rs honest"
begin

definition whead :: "(string \<Rightarrow> 's) \<Rightarrow> string \<Rightarrow> string \<Rightarrow> quorum_semantic_head option" where
  "whead w i j = (case governed (w i) of None \<Rightarrow> None | Some g \<Rightarrow> head_of g j)"

abbreviation outside :: "(string \<Rightarrow> 's) \<Rightarrow> (string \<Rightarrow> 's) \<Rightarrow> bool" where
  "outside \<equiv> witness_moves governed honest"

lemma outside_whead: "outside w w' \<Longrightarrow> i \<in> honest \<Longrightarrow> head_le (whead w i j) (whead w' i j)"
  using steps_head unfolding witness_moves_def whead_def by (fastforce split: option.splits)

lemma serve_outside: "wh_store (hs i) = store \<Longrightarrow> outside u (u(i := snd (ServeHTTP (hs i) r (u i))))"
proof -
  assume "wh_store (hs i) = store"
  from ServeHTTP_step [OF this, of "u i" r] show ?thesis by (auto simp: witness_moves_def governed_step_def)
qed

lemma send_outside: "outside w (snd (rs_send (rs i) r w))"
proof (cases "i \<in> honest")
  case True
  then have h: "wh_store (hs i) = store" "rs_send (rs i) = deliver fate hs i" using deployed by (auto simp: deployment_def)
  have "outside w (snd (fate w))" using deployed by (simp add: deployment_def)
  with moves_trans serve_outside [OF h(1), of "snd (fate w)" r] show ?thesis
    by (auto simp: h(2) deliver_def split: net_fate.split prod.splits)
next
  case False
  with deployed show ?thesis by (simp add: deployment_def)
qed

lemma sent_outside: "rs_send (rs i) r w = (x, w') \<Longrightarrow> outside w w'"
  using send_outside [of w i r] by simp

lemma loadRemoteHead_outside: "loadRemoteHead (rs i) j pol op call w = (r, w') \<Longrightarrow> outside w w'"
  by (auto simp: loadRemoteHead_def Let_def moves_refl split: if_splits option.splits prod.splits dest: sent_outside)

lemma advanceRemoteHead_outside: "advanceRemoteHead (rs i) p n pol w = (r, w') \<Longrightarrow> outside w w'"
  by (auto simp: advanceRemoteHead_def moves_refl split: if_splits option.splits prod.splits dest: sent_outside)

lemma send_GetHead:
  assumes "i \<in> honest" and "rs_send (rs i) \<lparr>wr_Nonce = nonce, wr_Policy = pol, wr_Call = GetHead j\<rparr> w = (Some resp, w')"
  shows "(\<forall>x. resp = HeadResponse x \<longrightarrow> whead w' i j = Some (semanticExternalHead (rh_Head x))) \<and>
    (resp = Status 404 \<longrightarrow> \<not> blank j \<longrightarrow> whead w' i j = None)"
proof -
  let ?r = "\<lparr>wr_Nonce = nonce, wr_Policy = pol, wr_Call = GetHead j\<rparr>"
  have h: "wh_store (hs i) = store" "rs_send (rs i) = deliver fate hs i" using deployed assms(1) by (auto simp: deployment_def)
  then obtain u s' where s': "ServeHTTP (hs i) ?r (u i) = (resp, s')" "w' = u(i := s')"
    using assms(2) by (auto simp: deliver_def split: net_fate.splits prod.splits)
  show ?thesis
  proof (cases "trim_space nonce = [] \<or> blank j")
    case True
    with s' show ?thesis by (auto simp: ServeHTTP_def Let_def split: if_splits)
  next
    case False
    with s' have "handleHeadLoad (hs i) ?r (trim_space nonce) j (u i) = (resp, s')" by (simp add: ServeHTTP_def)
    from handleHeadLoad_cases [OF h(1) this] s'(2) show ?thesis by (auto simp: whead_def)
  qed
qed

lemma load_response_reports:
  assumes "i \<in> honest" and "rs_send (rs i) \<lparr>wr_Nonce = nonce, wr_Policy = pol, wr_Call = GetHead j\<rparr> w = (Some resp, w')"
    and "\<not> blank j"
  shows "(\<forall>h. load_response (rs i) op j nonce pol resp = Inr h \<longrightarrow> whead w' i j = Some (semanticExternalHead h)) \<and>
    (load_response (rs i) op j nonce pol resp = Inl (WHead ErrExternalHeadNotFound) \<longrightarrow> whead w' i j = None)"
  using send_GetHead [OF assms(1,2)] assms(3)
  by (cases resp) (auto simp: load_response_def verifyResponse_error dest!: verifyResponse_head split: if_splits)

lemma LoadForQuorum_reports:
  assumes "i \<in> honest" and "LoadForQuorum (rs i) j0 pol w = (r, w')"
  shows "(\<forall>h. r = Inr h \<longrightarrow> whead w' i (trim_space j0) = Some (semanticExternalHead h)) \<and>
    (r = Inl (WHead ErrExternalHeadNotFound) \<longrightarrow> whead w' i (trim_space j0) = None)"
proof -
  define j where "j = trim_space j0"
  have pol: "validateQuorumPolicyState pol \<noteq> Some (WHead e)" for e
    by (auto simp: validateQuorumPolicyState_def split: policy_phase.splits)
  from assms(2) consider (early) e where "r = Inl e" "e \<noteq> WHead ErrExternalHeadNotFound"
    | (sent) nonce resp where "rs_send (rs i) \<lparr>wr_Nonce = nonce, wr_Policy = Some pol, wr_Call = GetHead j\<rparr> w = (Some resp, w')"
        "r = load_response (rs i) ''load'' j nonce (Some pol) resp" "\<not> blank j"
    using pol unfolding LoadForQuorum_def loadRemoteHead_def j_def [symmetric] Let_def
    by (auto simp: j_def split: option.splits if_splits prod.splits)
  then show ?thesis
  proof cases
    case sent
    from load_response_reports [OF assms(1) sent(1,3), of "''load''"] sent(2) show ?thesis by (simp add: j_def)
  qed simp
qed

lemma CompareAndAdvanceForQuorum_reports:
  assumes i: "i \<in> honest" and "CompareAndAdvanceForQuorum (rs i) pol p n w = (Inr h, w')"
  shows "whead w' i (trim_space (eh_JournalID n)) = Some (semanticExternalHead n)"
proof -
  let ?call = "\<lambda>nonce. \<lparr>wr_Nonce = nonce, wr_Policy = Some pol,
    wr_Call = PostAdvance (eh_JournalID n) (Some \<lparr>rq_Protocol = remoteWitnessProtocolV1, rq_Expected = p, rq_Next = n\<rparr>)\<rparr>"
  obtain nonce resp where resp: "rs_send (rs i) (?call nonce) w = (Some resp, w')"
    "advance_response (rs i) (eh_JournalID n) nonce (Some pol) resp = Inr h"
    using assms(2) by (auto simp: CompareAndAdvanceForQuorum_def advanceRemoteHead_def split: option.splits if_splits prod.splits)
  then obtain x where x: "resp = HeadResponse x" by (cases resp) (auto simp: advance_response_def split: if_splits)
  have h: "wh_store (hs i) = store" "rs_send (rs i) = deliver fate hs i" using deployed i by (auto simp: deployment_def)
  then obtain u s' where s': "ServeHTTP (hs i) (?call nonce) (u i) = (HeadResponse x, s')" "w' = u(i := s')"
    using resp(1) x by (auto simp: deliver_def split: net_fate.splits prod.splits)
  then have "handleHeadAdvance (hs i) (?call nonce) (trim_space nonce) (eh_JournalID n)
      (Some \<lparr>rq_Protocol = remoteWitnessProtocolV1, rq_Expected = p, rq_Next = n\<rparr>) (u i) = (HeadResponse x, s')"
    by (auto simp: ServeHTTP_def Let_def split: if_splits)
  from handleHeadAdvance_cases [OF h(1) this] s'(2) show ?thesis by (auto simp: whead_def)
qed

text \<open>The policy of a witness when it answers.\<close>

definition wpolicy :: "(string \<Rightarrow> 's) \<Rightarrow> string \<Rightarrow> quorum_policy_state option" where
  "wpolicy w i = map_option gw_Policy (governed (w i))"

lemma outside_wpolicy:
  "outside w w' \<Longrightarrow> i \<in> honest \<Longrightarrow> wpolicy w i = Some p \<Longrightarrow>
     \<exists>p'. wpolicy w' i = Some p' \<and> (p' = p \<or> policy_rank p < policy_rank p')"
  using steps_policy unfolding witness_moves_def wpolicy_def by fastforce

lemma send_served:
  assumes "i \<in> honest" and "rs_send (rs i) r w = (Some resp, w')"
  obtains u s' where "ServeHTTP (hs i) r (u i) = (resp, s')" "w' = u(i := s')" "wh_store (hs i) = store"
  using assms deployed by (auto simp: deployment_def deliver_def split: net_fate.splits prod.splits)

lemma LoadForQuorum_policy:
  assumes "i \<in> honest" and "LoadForQuorum (rs i) j pol w = (r, w')"
    and "r = Inr h \<or> r = Inl (WHead ErrExternalHeadNotFound)"
  shows "wpolicy w' i = Some pol"
proof -
  have valid: "validateQuorumPolicyState pol \<noteq> Some (WHead e)" for e
    by (auto simp: validateQuorumPolicyState_def split: policy_phase.splits)
  let ?call = "\<lambda>nonce. \<lparr>wr_Nonce = nonce, wr_Policy = Some pol, wr_Call = GetHead (trim_space j)\<rparr>"
  obtain nonce resp where sent: "rs_send (rs i) (?call nonce) w = (Some resp, w')" "\<not> blank j"
    "r = load_response (rs i) ''load'' (trim_space j) nonce (Some pol) resp"
    using assms(2,3) valid unfolding LoadForQuorum_def loadRemoteHead_def Let_def
    by (auto split: option.splits if_splits prod.splits)
  have resp: "(\<exists>x. resp = HeadResponse x) \<or> resp = Status 404"
    using sent(3) assms(3) by (cases resp) (auto simp: load_response_def verifyResponse_error split: if_splits)
  from send_served [OF assms(1) sent(1)] obtain u s' where
    u: "ServeHTTP (hs i) (?call nonce) (u i) = (resp, s')" "w' = u(i := s')" "wh_store (hs i) = store" .
  have nonce: "trim_space nonce \<noteq> []" using u(1) resp by (auto simp: ServeHTTP_def)
  then have "handleHeadLoad (hs i) (?call nonce) (trim_space nonce) (trim_space j) (u i) = (resp, s')"
    using u(1) sent(2) by (simp add: ServeHTTP_def)
  from handleHeadLoad_policy [OF u(3) this, of pol] resp u(2) show ?thesis by (auto simp: wpolicy_def)
qed

lemma CompareAndAdvanceForQuorum_policy:
  assumes "i \<in> honest" and "CompareAndAdvanceForQuorum (rs i) pol p n w = (Inr h, w')"
  shows "wpolicy w' i = Some pol"
proof -
  let ?request = "\<lparr>rq_Protocol = remoteWitnessProtocolV1, rq_Expected = p, rq_Next = n\<rparr>"
  let ?call = "\<lambda>nonce. \<lparr>wr_Nonce = nonce, wr_Policy = Some pol, wr_Call = PostAdvance (eh_JournalID n) (Some ?request)\<rparr>"
  obtain nonce resp where resp: "rs_send (rs i) (?call nonce) w = (Some resp, w')"
    "advance_response (rs i) (eh_JournalID n) nonce (Some pol) resp = Inr h"
    using assms(2) by (auto simp: CompareAndAdvanceForQuorum_def advanceRemoteHead_def split: option.splits if_splits prod.splits)
  then obtain x where x: "resp = HeadResponse x" by (cases resp) (auto simp: advance_response_def split: if_splits)
  from send_served [OF assms(1) resp(1)] obtain u s' where
    u: "ServeHTTP (hs i) (?call nonce) (u i) = (resp, s')" "w' = u(i := s')" "wh_store (hs i) = store" .
  then have "handleHeadAdvance (hs i) (?call nonce) (trim_space nonce) (eh_JournalID n) (Some ?request) (u i) = (HeadResponse x, s')"
    by (auto simp: ServeHTTP_def Let_def x split: if_splits)
  from handleHeadAdvance_policy [OF u(3) this, of pol] u(2) show ?thesis by (auto simp: wpolicy_def)
qed

lemma CurrentQuorumPolicy_reports:
  assumes "i \<in> honest" and "CurrentQuorumPolicy (rs i) w = (Inr p, w')"
  shows "wpolicy w' i = Some p"
proof -
  obtain nonce x where sent: "rs_send (rs i) \<lparr>wr_Nonce = nonce, wr_Policy = None, wr_Call = GetPolicy\<rparr> w = (Some (PolicyResponse x), w')"
    "verifyPolicyResponse (rs i) ''policy-current'' nonce x = Inr p"
    using assms(2) by (auto simp: CurrentQuorumPolicy_def split: option.splits prod.splits witness_response.splits)
  from send_served [OF assms(1) sent(1)] obtain u s' where
    u: "ServeHTTP (hs i) \<lparr>wr_Nonce = nonce, wr_Policy = None, wr_Call = GetPolicy\<rparr> (u i) = (PolicyResponse x, s')"
      "w' = u(i := s')" "wh_store (hs i) = store" .
  then have "handleCurrentPolicy (hs i) (trim_space nonce) (u i) = (PolicyResponse x, s')"
    by (auto simp: ServeHTTP_def Let_def split: if_splits)
  moreover have "p = rp_Policy x" using sent(2) by (auto simp: verifyPolicyResponse_def split: if_splits option.splits)
  ultimately show ?thesis using handleCurrentPolicy_cases [OF u(3)] u(2) by (auto simp: wpolicy_def)
qed

lemma ObserveQuorumRotationHead_reports:
  assumes "i \<in> honest" and "ObserveQuorumRotationHead (rs i) j w = (Inr h, w')"
  shows "whead w' i (trim_space j) = Some (semanticExternalHead h)"
proof -
  let ?call = "\<lambda>nonce. \<lparr>wr_Nonce = nonce, wr_Policy = None, wr_Call = GetRotationHead (trim_space j)\<rparr>"
  obtain nonce resp where sent: "rs_send (rs i) (?call nonce) w = (Some resp, w')"
    "load_response (rs i) ''rotation-observe'' (trim_space j) nonce None resp = Inr h"
    using assms(2) by (auto simp: ObserveQuorumRotationHead_def loadRemoteHead_def Let_def split: option.splits if_splits prod.splits)
  then obtain x where x: "resp = HeadResponse x" "h = rh_Head x"
    by (cases resp) (auto simp: load_response_def dest: verifyResponse_head split: if_splits)
  from send_served [OF assms(1) sent(1)] obtain u s' where
    u: "ServeHTTP (hs i) (?call nonce) (u i) = (resp, s')" "w' = u(i := s')" "wh_store (hs i) = store" .
  then have "handleRotationObserve (hs i) (trim_space nonce) (trim_space j) (u i) = (HeadResponse x, s')"
    by (auto simp: ServeHTTP_def Let_def x split: if_splits)
  from handleRotationObserve_cases [OF u(3) this] u(2) x(2) show ?thesis by (auto simp: whead_def)
qed

lemma CurrentQuorumPolicy_outside: "CurrentQuorumPolicy (rs i) w = (r, w') \<Longrightarrow> outside w w'"
  by (auto simp: CurrentQuorumPolicy_def moves_refl split: option.splits prod.splits witness_response.splits dest: sent_outside)

lemma ObserveQuorumRotationHead_outside: "ObserveQuorumRotationHead (rs i) j w = (r, w') \<Longrightarrow> outside w w'"
  by (auto simp: ObserveQuorumRotationHead_def dest: loadRemoteHead_outside)

lemma CompareAndTransitionQuorumPolicy_outside:
  assumes "CompareAndTransitionQuorumPolicy (rs i) p n j h w = (r, w')"
  shows "outside w w'"
proof -
  consider "w' = w" | e where "ObserveQuorumRotationHead (rs i) (trim_space j) w = (e, w')"
    | e w1 rq x where "ObserveQuorumRotationHead (rs i) (trim_space j) w = (e, w1)" "rs_send (rs i) rq w1 = (x, w')"
    using assms unfolding CompareAndTransitionQuorumPolicy_def Let_def
    by (auto split: option.splits if_splits prod.splits sum.splits witness_response.splits)
  then show ?thesis
    by cases (auto simp: moves_refl dest: ObserveQuorumRotationHead_outside sent_outside intro: moves_trans)
qed

lemma member_ops:
  assumes "qs_governedPolicy q = Some pol" and "qm_Store m = remote_member (rs i)"
  shows "loadMember q m j w = LoadForQuorum (rs i) j pol w"
    and "compareAndAdvanceMember q m p n w = CompareAndAdvanceForQuorum (rs i) pol p n w"
  using assms by (simp_all add: loadMember_def compareAndAdvanceMember_def remote_member_def remote_fenced_def)

lemma LoadForQuorum_outside: "LoadForQuorum (rs i) j pol w = (r, w') \<Longrightarrow> outside w w'"
  by (auto simp: LoadForQuorum_def moves_refl split: option.splits dest: loadRemoteHead_outside)

lemma CompareAndAdvanceForQuorum_outside: "CompareAndAdvanceForQuorum (rs i) pol p n w = (r, w') \<Longrightarrow> outside w w'"
  by (auto simp: CompareAndAdvanceForQuorum_def moves_refl split: option.splits dest: advanceRemoteHead_outside)

text \<open>The contract of a quorum, for every quorum of such members with enough honest ones.\<close>

lemma quorum_contract:
  assumes gov: "qs_governedPolicy q = Some pol" and ids: "distinct (map qm_ID (qs_members q))"
    and members: "\<And>m. m \<in> set (qs_members q) \<Longrightarrow> qm_Store m = remote_member (rs (qm_ID m))"
    and maj: "int (length (qs_members q)) + int (card (qm_ID ` set (qs_members q) - honest)) < 2 * qs_threshold q"
  shows "witness_quorum q (\<lambda>w i j. whead w i (trim_space j)) honest outside"
proof
  show "distinct (map qm_ID (qs_members q))"
    "int (length (qs_members q)) + int (card (qm_ID ` set (qs_members q) - honest)) < 2 * qs_threshold q" by fact+
  fix m j w r w' h p n i k
  assume m: "m \<in> set (qs_members q)"
  note ops = member_ops [OF gov members [OF m]]
  show "qm_ID m \<in> honest \<Longrightarrow> loadMember q m j w = (Inr h, w') \<Longrightarrow>
      whead w' (qm_ID m) (trim_space j) = Some (semanticExternalHead h)"
    using LoadForQuorum_reports [of "qm_ID m" j pol w "Inr h" w'] unfolding ops by simp
  show "qm_ID m \<in> honest \<Longrightarrow> loadMember q m j w = (Inl (WHead ErrExternalHeadNotFound), w') \<Longrightarrow>
      whead w' (qm_ID m) (trim_space j) = None"
    using LoadForQuorum_reports [of "qm_ID m" j pol w "Inl (WHead ErrExternalHeadNotFound)" w'] unfolding ops by simp
  show "i \<in> honest \<Longrightarrow> loadMember q m j w = (r, w') \<Longrightarrow> head_le (whead w i (trim_space k)) (whead w' i (trim_space k))"
    unfolding ops by (blast intro: outside_whead LoadForQuorum_outside)
  show "qm_ID m \<in> honest \<Longrightarrow> compareAndAdvanceMember q m p n w = (Inr h, w') \<Longrightarrow>
      semanticExternalHead h = semanticExternalHead n \<Longrightarrow>
      whead w' (qm_ID m) (trim_space (eh_JournalID n)) = Some (semanticExternalHead n)"
    unfolding ops by (blast intro: CompareAndAdvanceForQuorum_reports)
  show "i \<in> honest \<Longrightarrow> compareAndAdvanceMember q m p n w = (r, w') \<Longrightarrow>
      head_le (whead w i (trim_space k)) (whead w' i (trim_space k))"
    unfolding ops by (blast intro: outside_whead CompareAndAdvanceForQuorum_outside)
next
  fix w w' i k
  show "outside w w' \<Longrightarrow> i \<in> honest \<Longrightarrow> head_le (whead w i (trim_space k)) (whead w' i (trim_space k))"
    by (rule outside_whead)
qed

end

section \<open>Governed quorums\<close>

lemma NewGovernedQuorumHeadStore_ok:
  assumes "NewGovernedQuorumHeadStore ms b epoch = Inr q"
  shows "distinct (map qm_ID (qs_members q)) \<and> length (qs_members q) = length ms \<and> qs_threshold q = gb_threshold b \<and>
    qs_governedPolicy q = Some (active_policy_state epoch (gb_policyHash b)) \<and>
    int (length ms) < 2 * gb_threshold b \<and>
    (\<forall>m \<in> set (qs_members q). \<exists>i. (i, Some (qm_Store m)) \<in> set ms \<and> qm_ID m = trim_space i)"
proof -
  obtain xs where xs: "validateGenesisQuorumBinding b = None" "length ms = length (gb_members b)"
    "check_members b {} ms = Inr xs" "qs_members q = sort_key qm_ID xs" "qs_threshold q = gb_threshold b"
    "qs_governedPolicy q = Some (active_policy_state epoch (gb_policyHash b))"
    using assms by (auto simp: NewGovernedQuorumHeadStore_def NewQuorumHeadStore_def Let_def split: if_splits option.splits sum.splits)
  from check_members_ok [OF xs(3)] xs validateGenesisQuorumBinding_None [of b] show ?thesis
    by (simp add: distinct_map)
qed

end
