(* ===== verification/Quorum_Progress.thy ===== *)
theory Quorum_Progress
  imports Quorum_Safety
begin

text \<open>
  The calls of a quorum end: a call takes a bounded number of steps under every schedule, and as long
  as it has not returned one of its own goroutines or its select loop can take a step.
\<close>

section \<open>Steps of one call\<close>

fun own_action :: "nat \<Rightarrow> 's quorum_action \<Rightarrow> bool" where
  "own_action c (PerformLoad k i) = (k = c)"
| "own_action c (ReceiveLoad k i) = (k = c)"
| "own_action c (PerformAdvance k i) = (k = c)"
| "own_action c (ReceiveAdvance k i) = (k = c)"
| "own_action c _ = False"

lemma quorum_act_client:
  assumes "quorum_act env enc q a sy = Some sy'" and "sy_clients sy' c = Some cl'"
  obtains (other) "sy_clients sy c = Some cl'" "\<not> own_action c a"
    | (start) call where "a = Start c call" "cl' = start_call q call" "sy_clients sy c = None"
    | (pload) i cl s where "a = PerformLoad c i" "sy_clients sy c = Some cl" "i < length (cl_outstanding cl)"
        "perform_load q i cl (sy_world sy) = (cl', s)"
    | (rload) i cl where "a = ReceiveLoad c i" "sy_clients sy c = Some cl" "i < length (cl_loads cl)" "cl_result cl = None"
        "cl' = receive_load enc q i cl"
    | (padvance) i cl s where "a = PerformAdvance c i" "sy_clients sy c = Some cl" "i < length (cl_jobs cl)"
        "perform_advance q i cl (sy_world sy) = (cl', s)"
    | (radvance) i cl where "a = ReceiveAdvance c i" "sy_clients sy c = Some cl" "i < length (cl_advances cl)"
        "cl_result cl = None" "cl' = receive_advance enc q i cl"
    | (cancel) cl where "a = Cancel c" "sy_clients sy c = Some cl" "cl_result cl = None"
        "cl' = cl\<lparr>cl_result := Some (Inl ErrExternalHeadQuorum)\<rparr>"
proof (cases a)
  case (Start k call)
  with assms show thesis by (cases "k = c") (auto simp: set_client_def split: option.splits intro: that(1,2))
next
  case (PerformLoad k i)
  with assms show thesis
    by (cases "k = c") (auto simp: set_client_def split: option.splits if_splits prod.splits intro: that(1,3))
next
  case (ReceiveLoad k i)
  with assms show thesis by (cases "k = c") (auto simp: set_client_def split: option.splits if_splits intro: that(1,4))
next
  case (PerformAdvance k i)
  with assms show thesis
    by (cases "k = c") (auto simp: set_client_def split: option.splits if_splits prod.splits intro: that(1,5))
next
  case (ReceiveAdvance k i)
  with assms show thesis by (cases "k = c") (auto simp: set_client_def split: option.splits if_splits intro: that(1,6))
next
  case (Cancel k)
  with assms show thesis by (cases "k = c") (auto simp: set_client_def split: option.splits if_splits intro: that(1,7))
next
  case (Environment s)
  with assms show thesis by (auto split: if_splits intro: that(1))
qed

lemma quorum_act_ok:
  assumes act: "quorum_act env enc q a sy = Some sy'" and "proper_action a" and "distinct (map qm_ID (qs_members q))"
    and ok: "clients_ok q sy"
  shows "clients_ok q sy'"
proof -
  have old: "sy_clients sy c = Some cl \<Longrightarrow> client_ok q cl" for c cl using ok by (simp add: clients_ok_def)
  have "client_ok q cl'" if cl': "sy_clients sy' c = Some cl'" for c cl'
    using act cl'
  proof (cases rule: quorum_act_client)
    case start
    with assms(2,3) show ?thesis by (simp add: start_call_ok)
  next
    case (pload i cl s)
    from perform_load_ok [OF pload(4,3) old [OF pload(2)]] show ?thesis by simp
  next
    case (rload i cl)
    from receive_load_ok [OF rload(3) old [OF rload(2)] rload(4)] rload(5) show ?thesis by simp
  next
    case (padvance i cl s)
    from perform_advance_ok [OF padvance(4,3) old [OF padvance(2)]] show ?thesis by simp
  next
    case (radvance i cl)
    from receive_advance_ok [OF radvance(3) old [OF radvance(2)] radvance(4)] radvance(5) show ?thesis by simp
  next
    case (cancel cl)
    from cancel_ok [OF old [OF cancel(2)] cancel(4)] show ?thesis by simp
  qed (rule old)
  then show ?thesis by (simp add: clients_ok_def)
qed

section \<open>Bounded work\<close>

text \<open>
  The steps a call may still take: each load goroutine and each launched advance performs its
  operation and has its result received, and every member is advanced at most once.
\<close>

definition work :: "'s quorum_head_store \<Rightarrow> 's client \<Rightarrow> nat" where
  "work q cl = 2 * length (cl_outstanding cl) + length (cl_loads cl) + 2 * length (cl_jobs cl) + length (cl_advances cl) +
     2 * (length (qs_members q) - length (adv_members cl))"

lemma length_remove_nth [simp]: "i < length xs \<Longrightarrow> length (remove_nth i xs) = length xs - 1"
  by (simp add: remove_nth_def)

lemma adv_members_le: "client_ok q cl \<Longrightarrow> length (adv_members cl) \<le> length (qs_members q)"
proof -
  assume "client_ok q cl"
  then have "distinct (map qm_ID (adv_members cl))" "set (adv_members cl) \<subseteq> set (qs_members q)"
    by (simp_all add: client_ok_def well_membered_def)
  then have "length (adv_members cl) = card (set (adv_members cl))" "card (set (adv_members cl)) \<le> card (set (qs_members q))"
    using distinct_card [of "adv_members cl"] card_mono [of "set (qs_members q)" "set (adv_members cl)"]
    by (auto simp: distinct_map)
  then show ?thesis using card_length [of "qs_members q"] by linarith
qed

lemma start_work: "work q (start_call q call) \<le> 4 * length (qs_members q)"
  by (cases call) (auto simp: work_def started_def rejected_def adv_members_def Let_def split: sum.split prod.split)

lemma perform_load_work:
  assumes "perform_load q i cl s = (cl', s')" and "i < length (cl_outstanding cl)"
  shows "work q cl' < work q cl"
  using assms by (auto simp: perform_load_def work_def adv_members_def split: prod.splits)

lemma perform_advance_work:
  assumes "perform_advance q i cl s = (cl', s')" and "i < length (cl_jobs cl)"
  shows "work q cl' < work q cl"
  using assms by (auto simp: perform_advance_def work_def adv_members_def split: prod.splits)

lemma receive_advance_work:
  assumes "i < length (cl_advances cl)"
  shows "work q (receive_advance enc q i cl) < work q cl"
  using assms by (auto simp: receive_advance_def work_def adv_members_def split: prod.splits)

lemma receive_load_work:
  assumes "i < length (cl_loads cl)" and "client_ok q (receive_load enc q i cl)"
  shows "work q (receive_load enc q i cl) < work q cl"
  using adv_members_le [OF assms(2)] assms(1)
  by (auto simp: receive_load_def work_def adv_members_def split: prod.splits)

lemma quorum_act_work:
  assumes act: "quorum_act env enc q a sy = Some sy'" and "clients_ok q sy'" and cl': "sy_clients sy' c = Some cl'"
  shows "(if own_action c a then 1 else 0) + work q cl' \<le>
    (case sy_clients sy c of None \<Rightarrow> 4 * length (qs_members q) | Some cl \<Rightarrow> work q cl)"
  using act cl'
proof (cases rule: quorum_act_client)
  case (pload i cl s)
  with perform_load_work [OF pload(4,3)] show ?thesis by simp
next
  case (rload i cl)
  with receive_load_work [of i cl q enc] assms(2) cl' show ?thesis by (simp add: clients_ok_def)
next
  case (padvance i cl s)
  with perform_advance_work [OF padvance(4,3)] show ?thesis by simp
next
  case (radvance i cl)
  with receive_advance_work [of i cl q enc] show ?thesis by simp
next
  case (cancel cl)
  then show ?thesis by (simp add: work_def adv_members_def)
qed (simp_all add: start_work)

lemma quorum_act_persist:
  "quorum_act env enc q a sy = Some sy' \<Longrightarrow> sy_clients sy c = Some cl \<Longrightarrow> \<exists>cl'. sy_clients sy' c = Some cl'"
  by (cases a) (auto simp: set_client_def split: option.splits if_splits prod.splits)

lemma quorum_act_absent:
  "quorum_act env enc q a sy = Some sy' \<Longrightarrow> sy_clients sy' c = None \<Longrightarrow> sy_clients sy c = None \<and> \<not> own_action c a"
  by (cases a) (auto simp: set_client_def split: option.splits if_splits prod.splits)

lemma quorum_run_work:
  assumes "quorum_run env enc q as sy = Some sy'" and "list_all proper_action as"
    and "distinct (map qm_ID (qs_members q))" and "clients_ok q sy" and "sy_clients sy' c = Some cl'"
  shows "length (filter (own_action c) as) + work q cl' \<le>
    (case sy_clients sy c of None \<Rightarrow> 4 * length (qs_members q) | Some cl \<Rightarrow> work q cl)"
  using assms(1,2,4)
proof (induction as arbitrary: sy)
  case Nil
  then show ?case using assms(5) by simp
next
  case (Cons a as)
  then obtain sy1 where sy1: "quorum_act env enc q a sy = Some sy1" "quorum_run env enc q as sy1 = Some sy'"
    by (auto split: option.splits)
  have ok: "clients_ok q sy1" using quorum_act_ok [OF sy1(1) _ assms(3)] Cons.prems by simp
  note IH = Cons.IH [OF sy1(2) _ ok]
  show ?case
  proof (cases "sy_clients sy1 c")
    case None
    with IH Cons.prems quorum_act_absent [OF sy1(1) None] show ?thesis by simp
  next
    case (Some cl1)
    with IH Cons.prems quorum_act_work [OF sy1(1) ok Some] show ?thesis by (auto split: if_splits)
  qed
qed

section \<open>A call is never stuck\<close>

text \<open>What the local counters of a select loop count, and that a loop that has not returned still waits for something.\<close>

definition loop_counts :: "'s quorum_head_store \<Rightarrow> nat \<Rightarrow> nat \<Rightarrow> 's select_loop \<Rightarrow> bool" where
  "loop_counts q loads advances l \<longleftrightarrow>
     (case l of
        LoadLoop j st \<Rightarrow> ls_remaining st = loads \<and> loads \<noteq> 0 \<and> advances = 0
      | AdvanceLoop p n st \<Rightarrow> cs_loadReturned st + loads = length (qs_members q) \<and> cs_advancePending st = advances \<and>
          (loads \<noteq> 0 \<or> advances \<noteq> 0)
      | ConvergeLoop a b t st \<Rightarrow> cv_remaining st = loads \<and>
          (if loads = 0 then cv_pending st = advances \<and> advances \<noteq> 0 else advances = 0))"

definition waiting_loads :: "'s client \<Rightarrow> nat" where
  "waiting_loads cl = length (cl_outstanding cl) + length (cl_loads cl)"

definition waiting_advances :: "'s client \<Rightarrow> nat" where
  "waiting_advances cl = length (cl_jobs cl) + length (cl_advances cl)"

definition call_counts :: "'s quorum_head_store \<Rightarrow> 's client \<Rightarrow> bool" where
  "call_counts q cl \<longleftrightarrow> (cl_result cl = None \<longrightarrow> loop_counts q (waiting_loads cl) (waiting_advances cl) (cl_loop cl))"

lemmas counts_simps = call_counts_def loop_counts_def waiting_loads_def waiting_advances_def

lemma start_counts: "call_counts q (start_call q call)"
  by (cases call) (auto simp: counts_simps started_def rejected_def Let_def split: sum.split prod.split)

lemma launch_counts:
  "launch n ob (jobs, st) = (jobs', st') \<Longrightarrow> cs_loadReturned st' = cs_loadReturned st \<and>
     cs_advancePending st' + length jobs = cs_advancePending st + length jobs'"
  by (auto simp: launch_def split: if_splits)

lemma launch_all_counts:
  "fold (launch n) obs (jobs, st) = (jobs', st') \<Longrightarrow> cs_loadReturned st' = cs_loadReturned st \<and>
     cs_advancePending st' + length jobs = cs_advancePending st + length jobs'"
proof (induction obs arbitrary: jobs st)
  case (Cons ob obs)
  obtain jobs1 st1 where l: "launch n ob (jobs, st) = (jobs1, st1)" by fastforce
  with Cons.prems have "fold (launch n) obs (jobs1, st1) = (jobs', st')" by simp
  from Cons.IH [OF this] launch_counts [OF l] show ?case by simp
qed simp

lemma cas_candidate_counts:
  "cas_candidate q p n ob st = (jobs, st') \<Longrightarrow> cs_loadReturned st' = cs_loadReturned st \<and>
     cs_advancePending st' = cs_advancePending st + length jobs"
  by (auto simp: cas_candidate_def Let_def simp del: fold_append split: if_splits dest!: launch_counts launch_all_counts)

lemma cas_check_None: "cas_check enc q n st = None \<Longrightarrow> cs_loadReturned st \<noteq> length (qs_members q) \<or> cs_advancePending st \<noteq> 0"
  by (auto simp: cas_check_def split: if_splits)

lemma loop_on_load_counts:
  assumes "loop_on_load enc q ob l = (jobs, l', None)" and "loop_counts q (Suc k) a l"
  shows "loop_counts q k (a + length jobs) l'"
proof (cases l)
  case (LoadLoop j st)
  with assms show ?thesis by (auto simp: loop_counts_def load_receive_def Let_def split: if_splits prod.splits)
next
  case (AdvanceLoop p n st)
  then obtain st' where st': "cas_on_load enc q p n ob st = (jobs, st', None)" "l' = AdvanceLoop p n st'"
    using assms(1) by (auto split: prod.splits)
  then obtain c: "cas_candidate q p n ob (st\<lparr>cs_loadReturned := cs_loadReturned st + 1\<rparr>) = (jobs, st')"
    and n: "cas_check enc q n st' = None"
    by (auto simp: cas_on_load_def split: prod.splits if_splits)
  from cas_candidate_counts [OF c] cas_check_None [OF n] assms(2) AdvanceLoop st'(2) show ?thesis
    by (auto simp: loop_counts_def)
next
  case (ConvergeLoop al b t st)
  with assms show ?thesis
    by (auto simp: loop_counts_def converge_on_load_def converge_finish_def converge_record_def Let_def split: if_splits prod.splits)
qed

lemma loop_on_advance_counts:
  assumes "loop_on_advance enc q res l = (l', None)" and "loop_counts q k (Suc a) l"
  shows "loop_counts q k a l'"
proof (cases l)
  case (AdvanceLoop p n st)
  then obtain st' where st': "cas_on_advance enc q n res st = (st', None)" "l' = AdvanceLoop p n st'"
    using assms(1) by (auto split: prod.splits)
  then have "cas_check enc q n st' = None" "cs_loadReturned st' = cs_loadReturned st"
    "cs_advancePending st' = cs_advancePending st - 1"
    by (auto simp: cas_on_advance_def Let_def)
  with cas_check_None [of enc q n st'] assms(2) AdvanceLoop st'(2) show ?thesis by (auto simp: loop_counts_def)
next
  case (ConvergeLoop al b t st)
  with assms show ?thesis
    by (auto simp: loop_counts_def converge_on_advance_def converge_finish_def Let_def split: if_splits prod.splits)
qed (use assms in \<open>auto simp: loop_counts_def\<close>)

lemma receive_load_counts:
  assumes "call_counts q cl" and "i < length (cl_loads cl)" and "cl_result cl = None"
  shows "call_counts q (receive_load enc q i cl)"
proof -
  obtain jobs l r where step: "loop_on_load enc q (cl_loads cl ! i) (cl_loop cl) = (jobs, l, r)" by (metis prod_cases3)
  let ?cl = "receive_load enc q i cl"
  have "waiting_loads cl = Suc (waiting_loads ?cl)" "waiting_advances ?cl = waiting_advances cl + length jobs"
    "cl_loop ?cl = l" "cl_result ?cl = r"
    using assms(2) step by (auto simp: receive_load_def waiting_loads_def waiting_advances_def)
  with loop_on_load_counts [of enc q "cl_loads cl ! i" "cl_loop cl" jobs l "waiting_loads ?cl" "waiting_advances cl"] step assms
  show ?thesis by (auto simp: call_counts_def)
qed

lemma receive_advance_counts:
  assumes "call_counts q cl" and "i < length (cl_advances cl)" and "cl_result cl = None"
  shows "call_counts q (receive_advance enc q i cl)"
proof -
  obtain l r where step: "loop_on_advance enc q (cl_advances cl ! i) (cl_loop cl) = (l, r)" by fastforce
  let ?cl = "receive_advance enc q i cl"
  have "waiting_loads ?cl = waiting_loads cl" "waiting_advances cl = Suc (waiting_advances ?cl)" "cl_loop ?cl = l" "cl_result ?cl = r"
    using assms(2) step by (auto simp: receive_advance_def waiting_loads_def waiting_advances_def)
  with loop_on_advance_counts [of enc q "cl_advances cl ! i" "cl_loop cl" l "waiting_loads cl" "waiting_advances ?cl"] step assms
  show ?thesis by (auto simp: call_counts_def)
qed

lemma perform_load_counts:
  assumes "perform_load q i cl s = (cl', s')" and "i < length (cl_outstanding cl)" and "call_counts q cl"
  shows "call_counts q cl'"
proof -
  have "waiting_loads cl' = waiting_loads cl \<and> waiting_advances cl' = waiting_advances cl \<and> cl_loop cl' = cl_loop cl \<and>
      cl_result cl' = cl_result cl"
    using assms(1,2) by (auto simp: perform_load_def waiting_loads_def waiting_advances_def split: prod.splits)
  with assms(3) show ?thesis by (simp add: call_counts_def)
qed

lemma perform_advance_counts:
  assumes "perform_advance q i cl s = (cl', s')" and "i < length (cl_jobs cl)" and "call_counts q cl"
  shows "call_counts q cl'"
proof -
  have "waiting_loads cl' = waiting_loads cl \<and> waiting_advances cl' = waiting_advances cl \<and> cl_loop cl' = cl_loop cl \<and>
      cl_result cl' = cl_result cl"
    using assms(1,2) by (auto simp: perform_advance_def waiting_loads_def waiting_advances_def split: prod.splits)
  with assms(3) show ?thesis by (simp add: call_counts_def)
qed

lemma quorum_run_counts:
  assumes "quorum_run env enc q as sy = Some sy'" and "\<And>c cl. sy_clients sy c = Some cl \<Longrightarrow> call_counts q cl"
    and "sy_clients sy' c = Some cl"
  shows "call_counts q cl"
  using assms
proof (induction as arbitrary: sy)
  case (Cons a as)
  then obtain sy1 where sy1: "quorum_act env enc q a sy = Some sy1" "quorum_run env enc q as sy1 = Some sy'"
    by (auto split: option.splits)
  note old = Cons.prems(2)
  have "call_counts q cl1" if cl1: "sy_clients sy1 c = Some cl1" for c cl1
    using sy1(1) cl1
  proof (cases rule: quorum_act_client)
    case start
    then show ?thesis by (simp add: start_counts)
  next
    case (pload i cl s)
    from perform_load_counts [OF pload(4,3) old [OF pload(2)]] show ?thesis .
  next
    case (rload i cl)
    from receive_load_counts [OF old [OF rload(2)] rload(3,4)] rload(5) show ?thesis by simp
  next
    case (padvance i cl s)
    from perform_advance_counts [OF padvance(4,3) old [OF padvance(2)]] show ?thesis .
  next
    case (radvance i cl)
    from receive_advance_counts [OF old [OF radvance(2)] radvance(3,4)] radvance(5) show ?thesis by simp
  next
    case (cancel cl)
    then show ?thesis by (simp add: call_counts_def)
  qed (rule old)
  from Cons.IH [OF sy1(2) this Cons.prems(3)] show ?case .
qed simp

lemma call_enabled:
  assumes "sy_clients sy c = Some cl" and "cl_result cl = None" and "call_counts q cl"
  shows "\<exists>a. own_action c a \<and> quorum_act env enc q a sy \<noteq> None"
proof -
  have "waiting_loads cl \<noteq> 0 \<or> waiting_advances cl \<noteq> 0"
    using assms(2,3) by (auto simp: call_counts_def loop_counts_def split: select_loop.splits if_splits)
  then consider "0 < length (cl_outstanding cl)" | "0 < length (cl_loads cl)" | "0 < length (cl_jobs cl)" | "0 < length (cl_advances cl)"
    by (auto simp: waiting_loads_def waiting_advances_def)
  then show ?thesis
  proof cases
    case 1
    with assms(1) show ?thesis by (intro exI [of _ "PerformLoad c 0"]) (simp split: prod.split)
  next
    case 2
    with assms show ?thesis by (intro exI [of _ "ReceiveLoad c 0"]) simp
  next
    case 3
    with assms(1) show ?thesis by (intro exI [of _ "PerformAdvance c 0"]) (simp split: prod.split)
  next
    case 4
    with assms show ?thesis by (intro exI [of _ "ReceiveAdvance c 0"]) simp
  qed
qed

lemma NewQuorumHeadStore_distinct: "NewQuorumHeadStore ms b = Inr q \<Longrightarrow> distinct (map qm_ID (qs_members q))"
  by (auto simp: NewQuorumHeadStore_def distinct_map split: if_splits option.splits sum.splits dest!: check_members_ok)

text \<open>C6. Every call of a quorum terminates: in every schedule its goroutines and its select loop take at
  most four steps per member, and as long as the call has not returned one of these steps is
  possible, whatever the members answered.\<close>

theorem quorum_call_terminates:
  assumes "NewQuorumHeadStore ms b = Inr q" and "list_all proper_action as"
    and run: "quorum_run env enc q as \<lparr>sy_world = w, sy_clients = (\<lambda>_. None)\<rparr> = Some sy" and cl: "sy_clients sy c = Some cl"
  shows "length (filter (own_action c) as) \<le> 4 * length (qs_members q) \<and>
    (cl_result cl = None \<longrightarrow> (\<exists>a. own_action c a \<and> quorum_act env enc q a sy \<noteq> None))"
proof -
  have "clients_ok q \<lparr>sy_world = w, sy_clients = (\<lambda>_. None)\<rparr>" by (simp add: clients_ok_def)
  from quorum_run_work [OF run assms(2) NewQuorumHeadStore_distinct [OF assms(1)] this cl]
  have "length (filter (own_action c) as) \<le> 4 * length (qs_members q)" by simp
  moreover have "call_counts q cl" using quorum_run_counts [OF run _ cl] by simp
  ultimately show ?thesis using call_enabled [OF cl] by blast
qed

subsection \<open>An example\<close>

definition ex_digest :: string where
  "ex_digest = ''sha256:'' @ replicate 64 CHR ''0''"

lemma ex_digest_facts: "validSHA256Digest ex_digest" "trim_space ex_digest = ex_digest"
  by code_simp+

definition ex_single :: "unit quorum_head_store" where
  "ex_single = \<lparr>qs_members = [\<lparr>qm_ID = ''a'', qm_Store =
       \<lparr>ms_Load = \<lambda>_ s. (Inl (WHead ErrExternalHeadNotFound), s), ms_CompareAndAdvance = \<lambda>_ n s. (Inr n, s),
        ms_Trust = Some ex_digest, ms_Fenced = None\<rparr>\<rparr>], qs_threshold = 1, qs_policyHash = ex_digest,
     qs_capabilityEnvelopeHash = ex_digest, qs_governedPolicy = None\<rparr>"

lemma ex_single:
  "NewQuorumHeadStore [(''a'', Some (qm_Store (hd (qs_members ex_single))))]
     \<lparr>gb_capabilityEnvelopeHash = ex_digest, gb_policyHash = ex_digest, gb_threshold = 1, gb_members = [(''a'', ex_digest)]\<rparr> =
   Inr ex_single"
  by (simp add: NewQuorumHeadStore_def validateGenesisQuorumBinding_def ex_single_def ex_digest_facts plain_simps Let_def)

theorem quorum_call_terminates_witness:
  "\<exists>sy cl a. quorum_run (=) (\<lambda>_. None) ex_single [Start 0 (QLoad ''j''), PerformLoad 0 0] \<lparr>sy_world = (), sy_clients = (\<lambda>_. None)\<rparr> = Some sy \<and>
     sy_clients sy 0 = Some cl \<and> cl_result cl = None \<and> own_action 0 a \<and> quorum_act (=) (\<lambda>_. None) ex_single a sy \<noteq> None"
proof -
  let ?as = "[Start 0 (QLoad ''j''), PerformLoad 0 0] :: unit quorum_action list"
  let ?sy = "quorum_run (=) (\<lambda>_. None) ex_single ?as \<lparr>sy_world = (), sy_clients = (\<lambda>_. None)\<rparr>"
  obtain sy cl where sy: "?sy = Some sy" "sy_clients sy 0 = Some cl" "cl_result cl = None"
    by (simp add: ex_single_def started_def set_client_def perform_load_def load_goroutine_def loadMember_def plain_simps)
  from quorum_call_terminates [OF ex_single _ sy(1,2)] sy show ?thesis by auto
qed

end
