(* ===== verification/Quorum_Deployment.thy ===== *)
theory Quorum_Deployment
  imports Witness_Quorum Quorum_Progress
begin

text \<open>
  The guarantees of the deployed journal witnesses, from the ConfigMap API up to the callers of the
  quorum: what one witness keeps under any interleaving of its handlers, and that a governed quorum
  neither rolls a journal head back nor forks it. A simulated API server is the concrete instance
  on which the assumptions about Kubernetes are discharged.
\<close>

section \<open>A simulated API server\<close>

text \<open>The object's payloads, oldest first; the resource version counts them.\<close>

definition sim_version :: "'p list \<Rightarrow> string" where
  "sim_version s = replicate (length s) CHR ''v''"

definition sim_cur :: "'p list \<Rightarrow> string option" where
  "sim_cur s = (if s = [] then None else Some (sim_version s))"

definition sim_payloads :: "'p list \<Rightarrow> string \<Rightarrow> 'p option" where
  "sim_payloads s v =
     (if 0 < length v \<and> length v \<le> length s \<and> v = replicate (length v) CHR ''v'' then Some (s ! (length v - 1)) else None)"

definition sim_api :: "(governed_state list, governed_state) configmap_api" where
  "sim_api = \<lparr>
     cm_Get = (\<lambda>s. (if s = [] then Inl APINotFound else Inr (Some (last s), sim_version s), s)),
     cm_Create = (\<lambda>p s. if s = [] then (Inr (sim_version [p]), [p]) else (Inl APIAlreadyExists, s)),
     cm_Update = (\<lambda>v p s. if s \<noteq> [] \<and> v = sim_version s then (Inr (sim_version (s @ [p])), s @ [p]) else (Inl APIConflict, s)),
     cm_marshal = Some,
     cm_unmarshal = (\<lambda>p. if with_version [] p = p then Some p else None)\<rparr>"

lemma sim_payloads_append:
  "sim_payloads (s @ [p]) = (sim_payloads s)(sim_version (s @ [p]) \<mapsto> p) \<and> sim_payloads s (sim_version (s @ [p])) = None"
proof -
  have "sim_payloads (s @ [p]) v = ((sim_payloads s)(sim_version (s @ [p]) \<mapsto> p)) v" for v
  proof (cases "v = replicate (length v) CHR ''v''")
    case True
    have "s ! (length v - 1) = (s @ [p]) ! (length v - 1)" if "v \<noteq> []" "length v \<le> length s"
      using that by (cases v) (simp_all add: nth_append)
    with True show ?thesis
      by (cases "length v = Suc (length s)") (auto simp: sim_payloads_def sim_version_def le_Suc_eq)
  next
    case False
    then have "v \<noteq> sim_version (s @ [p])" by (metis length_replicate sim_version_def)
    with False show ?thesis by (simp add: sim_payloads_def)
  qed
  then show ?thesis by (auto simp: sim_payloads_def sim_version_def)
qed

lemma sim_version_plain: "s \<noteq> [] \<Longrightarrow> \<not> blank (sim_version s)"
  by (rule not_blank_plain) (simp_all add: sim_version_def plain_char_def less_eq_char_def)

lemma sim_current: "s \<noteq> [] \<Longrightarrow> sim_payloads s (sim_version s) = Some (last s)"
  by (cases s rule: rev_cases) (auto simp: sim_payloads_def sim_version_def nth_append)

interpretation sim: kube_configmap sim_api sim_cur sim_payloads
proof
  fix p :: governed_state and s s' :: "governed_state list" and v and r :: "api_error + string"
  show "cm_Create sim_api p s = (r, s') \<Longrightarrow> isl r \<and> sim_cur s' = sim_cur s \<and> sim_payloads s' = sim_payloads s \<or>
      (\<exists>v'. sim_cur s = None \<and> sim_payloads s v' = None \<and> sim_cur s' = Some v' \<and> sim_payloads s' = (sim_payloads s)(v' \<mapsto> p) \<and>
        (\<forall>x. r = Inr x \<longrightarrow> x = v'))"
    using sim_payloads_append [of "[]" p] by (auto simp: sim_api_def sim_cur_def split: if_splits)
  show "cm_Update sim_api v p s = (r, s') \<Longrightarrow> isl r \<and> sim_cur s' = sim_cur s \<and> sim_payloads s' = sim_payloads s \<or>
      (\<exists>v'. sim_cur s = Some v \<and> sim_payloads s v' = None \<and> sim_cur s' = Some v' \<and> sim_payloads s' = (sim_payloads s)(v' \<mapsto> p) \<and>
        (\<forall>x. r = Inr x \<longrightarrow> x = v'))"
    using sim_payloads_append [of s p] by (auto simp: sim_api_def sim_cur_def split: if_splits)
qed (use sim_current sim_version_plain in \<open>auto simp: sim_api_def sim_cur_def split: if_splits\<close>)

section \<open>One witness\<close>

text \<open>The state that the ConfigMap holds.\<close>

definition witness_state ::
  "('s, 'p) configmap_api \<Rightarrow> ('s \<Rightarrow> string option) \<Rightarrow> ('s \<Rightarrow> string \<Rightarrow> 'p option) \<Rightarrow> 's \<Rightarrow> governed_state option" where
  "witness_state api cur payloads s =
     Option.bind (cur s) (\<lambda>v. Option.bind (payloads s v) (cm_unmarshal api))"

lemma witness_state_governed:
  "kube_configmap api cur payloads \<Longrightarrow>
     witness_state api cur payloads s = versioned_state.governed cur (kube_configmap.states api payloads) s"
  by (cases "cur s")
    (simp_all add: witness_state_def versioned_state.governed_def [OF kube_configmap.versioned] kube_configmap.states_def)

lemma witness_state_fun:
  "kube_configmap api cur payloads \<Longrightarrow>
     witness_state api cur payloads = versioned_state.governed cur (kube_configmap.states api payloads)"
  by (rule ext) (rule witness_state_governed)


section \<open>Governed quorums\<close>

text \<open>What may happen outside a quorum's calls: steps of the honest witnesses' own handlers.\<close>

abbreviation witness_activity ::
  "('s, 'p) configmap_api \<Rightarrow> ('s \<Rightarrow> string option) \<Rightarrow> ('s \<Rightarrow> string \<Rightarrow> 'p option) \<Rightarrow> string set
    \<Rightarrow> (string \<Rightarrow> 's) \<Rightarrow> (string \<Rightarrow> 's) \<Rightarrow> bool" where
  "witness_activity api cur payloads \<equiv> witness_moves (witness_state api cur payloads)"

text \<open>
  A governed quorum in operation: the API behaves as documented, honest members run the handler on a
  ConfigMap store behind a lossy network, the store was constructed from the Genesis binding, and the
  members that are not honest are fewer than the threshold exceeds half of the members.
\<close>

definition governed_quorum ::
  "('s, 'p) configmap_api \<Rightarrow> ('s \<Rightarrow> string option) \<Rightarrow> ('s \<Rightarrow> string \<Rightarrow> 'p option) \<Rightarrow> ((string \<Rightarrow> 's) \<Rightarrow> net_fate \<times> (string \<Rightarrow> 's))
    \<Rightarrow> (string \<Rightarrow> 's witness_handler) \<Rightarrow> (string \<Rightarrow> (string \<Rightarrow> 's) remote_store) \<Rightarrow> string set \<Rightarrow> string list
    \<Rightarrow> genesis_quorum_binding \<Rightarrow> u64 \<Rightarrow> (string \<Rightarrow> 's) quorum_head_store \<Rightarrow> bool" where
  "governed_quorum api cur payloads fate hs rs honest ids b epoch q \<longleftrightarrow>
     kube_configmap api cur payloads \<and>
     deployment (witness_state api cur payloads) (KubernetesGovernedWitnessStateStore api) fate hs rs honest \<and>
     NewGovernedQuorumHeadStore (map (\<lambda>i. (i, Some (remote_member (rs i)))) ids) b epoch = Inr q \<and>
     (\<forall>i \<in> set ids. trim_space i = i) \<and> int (length ids) + int (card (set ids - honest)) < 2 * gb_threshold b"

lemma governed_quorum_remote:
  assumes "governed_quorum api cur payloads fate hs rs honest ids b epoch q"
  shows "remote_witnesses (KubernetesGovernedWitnessStateStore api) cur (kube_configmap.states api payloads) fate hs rs honest"
proof -
  from assms have kube: "kube_configmap api cur payloads"
    and dep: "deployment (witness_state api cur payloads) (KubernetesGovernedWitnessStateStore api) fate hs rs honest"
    by (simp_all add: governed_quorum_def)
  with witness_state_fun [OF kube] kube_configmap.versioned [OF kube] dep show ?thesis
    by (simp add: remote_witnesses_def remote_witnesses_axioms_def)
qed

lemma governed_quorum_members:
  assumes "governed_quorum api cur payloads fate hs rs honest ids b epoch q" and "m \<in> set (qs_members q)"
  shows "qm_Store m = remote_member (rs (qm_ID m)) \<and> qm_ID m \<in> set ids"
proof -
  from assms(1) have q: "NewGovernedQuorumHeadStore (map (\<lambda>i. (i, Some (remote_member (rs i)))) ids) b epoch = Inr q"
    and trimmed: "\<forall>i \<in> set ids. trim_space i = i" by (simp_all add: governed_quorum_def)
  from NewGovernedQuorumHeadStore_ok [OF q] trimmed assms(2) show ?thesis by fastforce
qed

lemma governed_quorum_witnesses:
  assumes gq: "governed_quorum api cur payloads fate hs rs honest ids b epoch q"
  shows "witness_quorum q (\<lambda>w i j. remote_witnesses.whead cur (kube_configmap.states api payloads) w i (trim_space j)) honest
    (witness_activity api cur payloads honest)"
proof -
  from gq have kube: "kube_configmap api cur payloads"
    and q: "NewGovernedQuorumHeadStore (map (\<lambda>i. (i, Some (remote_member (rs i)))) ids) b epoch = Inr q"
    and maj: "int (length ids) + int (card (set ids - honest)) < 2 * gb_threshold b" by (simp_all add: governed_quorum_def)
  note gov = witness_state_fun [OF kube]
  note ok = NewGovernedQuorumHeadStore_ok [OF q] and members = governed_quorum_members [OF gq]
  have "qm_ID ` set (qs_members q) - honest \<subseteq> set ids - honest" using members by auto
  then have "card (qm_ID ` set (qs_members q) - honest) \<le> card (set ids - honest)" by (rule card_mono [rotated]) simp
  with maj ok have "int (length (qs_members q)) + int (card (qm_ID ` set (qs_members q) - honest)) < 2 * qs_threshold q" by simp
  with remote_witnesses.quorum_contract [OF governed_quorum_remote [OF gq], of q] ok members show ?thesis
    unfolding gov by blast
qed



section \<open>An example\<close>

text \<open>
  Three members with threshold two, of which the third is not needed. The signature of a payload is
  the payload.
\<close>

definition ex_ids :: "string list" where
  "ex_ids = [''a'', ''b'', ''c'']"

definition ex_binding :: genesis_quorum_binding where
  "ex_binding = \<lparr>gb_capabilityEnvelopeHash = ex_digest, gb_policyHash = ex_digest, gb_threshold = 2,
     gb_members = map (\<lambda>i. (i, ex_digest)) ex_ids\<rparr>"

definition ex_handler :: "governed_state list witness_handler" where
  "ex_handler = \<lparr>wh_store = KubernetesGovernedWitnessStateStore sim_api, wh_keyID = ''k'', wh_sign = (\<lambda>_ _ p. Some p),
     wh_marshal = (\<lambda>_. Some ''p''), wh_encode = id\<rparr>"

definition ex_remote :: "string \<Rightarrow> (string \<Rightarrow> governed_state list) remote_store" where
  "ex_remote i = \<lparr>rs_keyID = ''k'', rs_trustManifestHash = ex_digest, rs_nonce = (\<lambda>_. Some ''n''),
     rs_send = deliver (\<lambda>w. (Delivered, w)) (\<lambda>_. ex_handler) i,
     rs_marshal = (\<lambda>_. Some ''p''), rs_decode = Some, rs_verify = (=)\<rparr>"

definition ex_policy :: quorum_policy_state where
  "ex_policy = active_policy_state 1 ex_digest"

definition ex_state :: governed_state where
  "ex_state = \<lparr>gw_Protocol = GovernedWitnessStateVersion, gw_Policy = ex_policy, gw_Heads = [], gw_StoreVersion = []\<rparr>"

definition ex_store :: "(string \<Rightarrow> governed_state list) quorum_head_store" where
  "ex_store = \<lparr>qs_members = map (\<lambda>i. \<lparr>qm_ID = i, qm_Store = remote_member (ex_remote i)\<rparr>) ex_ids, qs_threshold = 2,
     qs_policyHash = ex_digest, qs_capabilityEnvelopeHash = ex_digest, qs_governedPolicy = Some ex_policy\<rparr>"

definition ex_head :: "u64 \<Rightarrow> external_head" where
  "ex_head n = zero_head\<lparr>eh_JournalID := ''j'', eh_Sequence := n, eh_HeadHash := ''h''\<rparr>"

definition ex_advance :: "nat \<Rightarrow> 's quorum_action list" where
  "ex_advance c = [Start c (QAdvance zero_head (ex_head 0)), PerformLoad c 0, PerformLoad c 0, ReceiveLoad c 0, ReceiveLoad c 0,
     PerformAdvance c 0, PerformAdvance c 0, ReceiveAdvance c 0, ReceiveAdvance c 0]"

definition ex_load :: "nat \<Rightarrow> 's quorum_action list" where
  "ex_load c = [Start c (QLoad ''j''), PerformLoad c 0, PerformLoad c 0, ReceiveLoad c 0, ReceiveLoad c 0]"

definition ex_system :: "(string \<Rightarrow> governed_state list) quorum_system" where
  "ex_system = \<lparr>sy_world = (\<lambda>_. [ex_state]), sy_clients = (\<lambda>_. None)\<rparr>"

lemma ex_quorum:
  "governed_quorum sim_api sim_cur sim_payloads (\<lambda>w. (Delivered, w)) (\<lambda>_. ex_handler) ex_remote {''a'', ''b'', ''c''} ex_ids ex_binding 1
     ex_store"
proof -
  have trust: "ms_Trust (remote_member (ex_remote i)) = Some ex_digest" "ms_Fenced (remote_member (ex_remote i)) \<noteq> None" for i
    by (simp_all add: remote_member_def ex_remote_def)
  have policy: "validateQuorumPolicyState ex_policy = None" by code_simp
  have "NewGovernedQuorumHeadStore (map (\<lambda>i. (i, Some (remote_member (ex_remote i)))) ex_ids) ex_binding 1 = Inr ex_store"
    using trust policy
    by (simp add: NewGovernedQuorumHeadStore_def NewQuorumHeadStore_def validateGenesisQuorumBinding_def ex_binding_def ex_ids_def
        ex_digest_facts plain_simps Let_def ex_store_def ex_policy_def [symmetric] split: option.splits)
  moreover have "deployment (witness_state sim_api sim_cur sim_payloads) (KubernetesGovernedWitnessStateStore sim_api)
      (\<lambda>w. (Delivered, w)) (\<lambda>_. ex_handler) ex_remote {''a'', ''b'', ''c''}"
    by (auto simp: deployment_def ex_remote_def ex_handler_def deliver_def witness_moves_def split: prod.split)
  ultimately show ?thesis
    using sim.kube_configmap_axioms unfolding governed_quorum_def by (simp add: ex_ids_def ex_binding_def plain_simps)
qed

interpretation ex_members: remote_witnesses "KubernetesGovernedWitnessStateStore sim_api" sim_cur
  "kube_configmap.states sim_api sim_payloads" "\<lambda>w. (Delivered, w)" "\<lambda>_. ex_handler" ex_remote "{''a'', ''b'', ''c''}"
  by (rule governed_quorum_remote [OF ex_quorum])

interpretation ex: witness_quorum ex_store
  "\<lambda>w i j. remote_witnesses.whead sim_cur (kube_configmap.states sim_api sim_payloads) w i (trim_space j)" "{''a'', ''b'', ''c''}"
  "witness_activity sim_api sim_cur sim_payloads {''a'', ''b'', ''c''}"
  by (rule governed_quorum_witnesses [OF ex_quorum])

definition ex_reported :: external_head where
  "ex_reported = (ex_head 0)\<lparr>eh_StoreVersion := ''aegis-ege/quorum-head-store/v1:v''\<rparr>"

abbreviation ex_env :: "(string \<Rightarrow> governed_state list) \<Rightarrow> (string \<Rightarrow> governed_state list) \<Rightarrow> bool" where
  "ex_env \<equiv> witness_activity sim_api sim_cur sim_payloads {''a'', ''b'', ''c''}"

lemma ex_eval:
  "map_option (\<lambda>sy1. (map_option cl_result (sy_clients sy1 0), Option.is_none (sy_clients sy1 1),
      map_option (\<lambda>sy2. (map_option cl_result (sy_clients sy2 0),
          map_option (\<lambda>cl. (loop_journal (cl_loop cl), cl_result cl)) (sy_clients sy2 1)))
        (quorum_run env (\<lambda>_. Some ''v'') ex_store (ex_load 1) sy1)))
     (quorum_run env (\<lambda>_. Some ''v'') ex_store (ex_advance 0) ex_system) =
   Some (Some (Some (Inr ex_reported)), True,
     Some (Some (Some (Inr ex_reported)), Some (''j'', Some (Inr ex_reported))))"
  by code_simp

lemma ex_run:
  obtains sy1 sy2 cl0 cl0' cl1 where
    "quorum_run env (\<lambda>_. Some ''v'') ex_store (ex_advance 0) ex_system = Some sy1"
    "sy_clients sy1 0 = Some cl0" "cl_result cl0 = Some (Inr ex_reported)" "sy_clients sy1 1 = None"
    "quorum_run env (\<lambda>_. Some ''v'') ex_store (ex_load 1) sy1 = Some sy2"
    "sy_clients sy2 0 = Some cl0'" "cl_result cl0' = Some (Inr ex_reported)"
    "sy_clients sy2 1 = Some cl1" "loop_journal (cl_loop cl1) = ''j''" "cl_result cl1 = Some (Inr ex_reported)"
  using ex_eval [of env] that by (auto simp: Option.is_none_def)

lemma quorum_run_append:
  "quorum_run env enc q (as @ bs) sy = (case quorum_run env enc q as sy of None \<Rightarrow> None | Some sy' \<Rightarrow> quorum_run env enc q bs sy')"
  by (induction as arbitrary: sy) (auto split: option.split)

lemma ex_proper: "list_all proper_action (ex_advance 0 @ ex_load 1)"
  by (simp add: ex_advance_def ex_load_def)



text \<open>A witness that freezes its policy while an advance that was prepared before is still to be written.\<close>

definition ex_joint :: quorum_policy_state where
  "ex_joint = \<lparr>qp_Phase = QuorumPolicyPhaseJoint, qp_GenesisEpoch = 2, qp_PolicyHash = ex_digest,
     qp_FromPolicyHash = ex_digest, qp_ToPolicyHash = ex_digest\<rparr>"

definition ex_seeded :: governed_state where
  "ex_seeded = ex_state\<lparr>gw_Heads := [(''j'', ex_head 0)]\<rparr>"

definition ex_requests :: "witness_action list" where
  "ex_requests =
     [Arrive 0 \<lparr>wr_Nonce = ''n'', wr_Policy = Some ex_policy, wr_Call = PostAdvance ''j'' (Some
        \<lparr>rq_Protocol = remoteWitnessProtocolV1, rq_Expected = (ex_head 0)\<lparr>eh_StoreVersion := ''v''\<rparr>, rq_Next = ex_head 1\<rparr>)\<rparr>,
      Arrive 1 \<lparr>wr_Nonce = ''n'', wr_Policy = None, wr_Call = PostTransition (Some
        \<lparr>tq_Protocol = remoteWitnessProtocolV1, tq_Expected = ex_policy, tq_Next = ex_joint, tq_JournalID = ''j'',
         tq_ExpectedHead = (ex_head 0)\<lparr>eh_StoreVersion := ''v''\<rparr>\<rparr>)\<rparr>,
      Write 1, Write 0]"

lemma ex_requests_eval:
  "ws_state (fold (witness_act ex_handler) ex_requests \<lparr>ws_state = [ex_seeded], ws_pending = (\<lambda>_. None)\<rparr>) =
     [ex_seeded, ex_seeded\<lparr>gw_Policy := ex_joint\<rparr>]"
  by code_simp


end
