(* ===== verification/Rotation.thy ===== *)
theory Rotation
  imports Quorum
begin

text \<open>
  Rotation of the witness quorum between two Genesis epochs
  (\<open>internal/journal/quorum_rotation.go\<close>): the plan, the joint policy that commits to the head, and
  the protocol that freezes every shared witness before it activates any of them. The stores are
  operated one call after another; other clients may act between calls.
\<close>

section \<open>Calls in sequence\<close>

type_synonym ('s, 'a) call = "'s \<Rightarrow> (witness_error + 'a) \<times> 's"

definition give :: "'a \<Rightarrow> ('s, 'a) call" where
  "give x s = (Inr x, s)"

definition raise :: "witness_error \<Rightarrow> ('s, 'a) call" where
  "raise e s = (Inl e, s)"

definition and_then :: "('s, 'a) call \<Rightarrow> ('a \<Rightarrow> ('s, 'b) call) \<Rightarrow> ('s, 'b) call" where
  "and_then m f s = (case m s of (Inl e, s') \<Rightarrow> (Inl e, s') | (Inr x, s') \<Rightarrow> f x s')"

definition attempt :: "('s \<Rightarrow> witness_error option \<times> 's) \<Rightarrow> ('s, unit) call" where
  "attempt m s = (case m s of (None, s') \<Rightarrow> (Inr (), s') | (Some e, s') \<Rightarrow> (Inl e, s'))"

text \<open>
  A quorum load as one call: \<open>sched\<close> is the interleaving of its goroutines with the rest of the world. A
  schedule that ends before the call returns is a call whose context is done.
\<close>

definition Quorum_Load ::
  "('s \<Rightarrow> 's \<Rightarrow> bool) \<Rightarrow> (json \<Rightarrow> string option) \<Rightarrow> ('s \<Rightarrow> 's quorum_action list) \<Rightarrow> 's quorum_head_store \<Rightarrow> string
    \<Rightarrow> ('s, external_head) call" where
  "Quorum_Load env enc sched q journalID s =
     (case quorum_run env enc q (Start 0 (QLoad journalID) # sched s) \<lparr>sy_world = s, sy_clients = (\<lambda>_. None)\<rparr> of
        None \<Rightarrow> (Inl ErrExternalHeadQuorum, s)
      | Some sy \<Rightarrow>
        (case sy_clients sy 0 of
           Some cl \<Rightarrow> (case cl_result cl of Some r \<Rightarrow> (r, sy_world sy) | None \<Rightarrow> (Inl ErrExternalHeadQuorum, sy_world sy))
         | None \<Rightarrow> (Inl ErrExternalHeadQuorum, sy_world sy)))"

section \<open>Epochs and plans\<close>

definition QuorumRotationVersion :: string where
  "QuorumRotationVersion = ''aegis-ege/quorum-rotation/v1''"

record governed_epoch =
  ge_genesisEpoch :: u64
  ge_genesisManifestHash :: string
  ge_binding :: genesis_quorum_binding

definition NewGovernedQuorumEpoch :: "genesis_quorum_binding \<Rightarrow> u64 \<Rightarrow> string \<Rightarrow> witness_error + governed_epoch" where
  "NewGovernedQuorumEpoch binding genesisEpoch genesisManifestHash =
     (if genesisEpoch = 0 then Inl (WError ''Genesis epoch must be positive'')
      else if \<not> validSHA256Digest genesisManifestHash then Inl (WError ''Genesis manifest hash must be sha256'')
      else case validateGenesisQuorumBinding binding of
        Some e \<Rightarrow> Inl e
      | None \<Rightarrow> Inr \<lparr>ge_genesisEpoch = genesisEpoch, ge_genesisManifestHash = genesisManifestHash, ge_binding = binding\<rparr>)"

definition activePolicy :: "governed_epoch \<Rightarrow> quorum_policy_state" where
  "activePolicy e = active_policy_state (ge_genesisEpoch e) (gb_policyHash (ge_binding e))"

record rotation_plan =
  pl_oldEpoch :: governed_epoch
  pl_newEpoch :: governed_epoch
  pl_sharedWitnesses :: "string list"
  pl_oldBlockingCount :: int
  pl_newBlockingCount :: int

text \<open>The members with the same trust manifest in both bindings.\<close>

definition shared_witnesses :: "genesis_quorum_binding \<Rightarrow> genesis_quorum_binding \<Rightarrow> string list" where
  "shared_witnesses old new =
     sort (map fst (filter (\<lambda>(i, oldTrustHash). map_of (gb_members new) i = Some oldTrustHash) (gb_members old)))"

definition blocking_count :: "genesis_quorum_binding \<Rightarrow> int" where
  "blocking_count b = int (length (gb_members b)) - gb_threshold b + 1"

definition NewQuorumRotationPlan :: "governed_epoch \<Rightarrow> governed_epoch \<Rightarrow> witness_error + rotation_plan" where
  "NewQuorumRotationPlan old new =
     (case validateGenesisQuorumBinding (ge_binding old) of
        Some e \<Rightarrow> Inl e
      | None \<Rightarrow>
        (case validateGenesisQuorumBinding (ge_binding new) of
           Some e \<Rightarrow> Inl e
         | None \<Rightarrow>
           (if ge_genesisEpoch old = 0 \<or> ge_genesisEpoch new = 0
            then Inl (WError ''both governed Genesis epochs are required'')
            else if ge_genesisEpoch new \<le> ge_genesisEpoch old then Inl ErrQuorumRotationUnsafe
            else let shared = shared_witnesses (ge_binding old) (ge_binding new);
                     oldBlocking = blocking_count (ge_binding old);
                     newBlocking = blocking_count (ge_binding new) in
              if int (length shared) < oldBlocking \<or> int (length shared) < newBlocking \<or>
                 int (length shared) < gb_threshold (ge_binding new)
              then Inl ErrQuorumRotationUnsafe
              else Inr \<lparr>pl_oldEpoch = old, pl_newEpoch = new, pl_sharedWitnesses = shared,
                        pl_oldBlockingCount = oldBlocking, pl_newBlockingCount = newBlocking\<rparr>)))"

definition rotation_commitment :: "rotation_plan \<Rightarrow> string \<Rightarrow> external_head \<Rightarrow> json" where
  "rotation_commitment p journalID head = JObj
     [(''version'', JStr QuorumRotationVersion), (''journal_id'', JStr journalID),
      (''sequence'', JNum (uint (eh_Sequence head))), (''head_hash'', JStr (eh_HeadHash head)), (''key_id'', JStr (eh_KeyID head)),
      (''old_genesis_epoch'', JNum (uint (ge_genesisEpoch (pl_oldEpoch p)))),
      (''old_genesis_manifest_hash'', JStr (ge_genesisManifestHash (pl_oldEpoch p))),
      (''old_policy_hash'', JStr (gb_policyHash (ge_binding (pl_oldEpoch p)))),
      (''new_genesis_epoch'', JNum (uint (ge_genesisEpoch (pl_newEpoch p)))),
      (''new_genesis_manifest_hash'', JStr (ge_genesisManifestHash (pl_newEpoch p))),
      (''new_policy_hash'', JStr (gb_policyHash (ge_binding (pl_newEpoch p)))),
      (''shared_witnesses'', JArr (map JStr (pl_sharedWitnesses p)))]"

definition jointPolicy ::
  "policy_codec \<Rightarrow> rotation_plan \<Rightarrow> string \<Rightarrow> external_head \<Rightarrow> witness_error + (quorum_policy_state \<times> string)" where
  "jointPolicy pc p journalID head =
     (case pc_canonical pc (rotation_commitment p journalID head) of
        None \<Rightarrow> Inl (WError ''canonicalize quorum rotation commitment'')
      | Some canonical \<Rightarrow>
        (let transitionHash = sha256_tag (pc_sha pc) canonical in
         Inr (\<lparr>qp_Phase = QuorumPolicyPhaseJoint, qp_GenesisEpoch = ge_genesisEpoch (pl_newEpoch p),
               qp_PolicyHash = transitionHash, qp_FromPolicyHash = gb_policyHash (ge_binding (pl_oldEpoch p)),
               qp_ToPolicyHash = gb_policyHash (ge_binding (pl_newEpoch p))\<rparr>, transitionHash)))"

section \<open>Handles of the shared witnesses\<close>

record 's shared_handles =
  sp_old :: "'s fenced_store"
  sp_new :: "'s fenced_store"

definition members_by_id :: "'s quorum_head_store \<Rightarrow> string \<Rightarrow> 's member_store option" where
  "members_by_id q = map_of (rev (map (\<lambda>m. (qm_ID m, qm_Store m)) (qs_members q)))"

definition shared_handles_of :: "'s quorum_head_store \<Rightarrow> 's quorum_head_store \<Rightarrow> string \<Rightarrow> witness_error + 's shared_handles" where
  "shared_handles_of oldStore newStore i =
     (case members_by_id oldStore i of
        None \<Rightarrow> Inl (WError ''old quorum store is missing shared witness'')
      | Some oldMember \<Rightarrow>
        (case members_by_id newStore i of
           None \<Rightarrow> Inl (WError ''new quorum store is missing shared witness'')
         | Some newMember \<Rightarrow>
           (case ms_Fenced oldMember of
              None \<Rightarrow> Inl (WError ''old shared witness is not policy fenced'')
            | Some oldPolicyStore \<Rightarrow>
              (case ms_Fenced newMember of
                 None \<Rightarrow> Inl (WError ''new shared witness is not policy fenced'')
               | Some newPolicyStore \<Rightarrow>
                 (if ms_Trust oldMember \<noteq> ms_Trust newMember
                  then Inl (WError ''shared witness resolves to different trust identities'')
                  else Inr \<lparr>sp_old = oldPolicyStore, sp_new = newPolicyStore\<rparr>)))))"

fun sharedPolicyStores ::
  "'s quorum_head_store \<Rightarrow> 's quorum_head_store \<Rightarrow> string list \<Rightarrow> witness_error + (string \<times> 's shared_handles) list" where
  "sharedPolicyStores oldStore newStore [] = Inr []"
| "sharedPolicyStores oldStore newStore (i # is) =
     (case shared_handles_of oldStore newStore i of
        Inl e \<Rightarrow> Inl e
      | Inr pair \<Rightarrow>
        (case sharedPolicyStores oldStore newStore is of
           Inl e \<Rightarrow> Inl e
         | Inr rest \<Rightarrow> Inr ((i, pair) # rest)))"

definition sharedPolicyState :: "'s shared_handles \<Rightarrow> ('s, quorum_policy_state) call" where
  "sharedPolicyState pair =
     and_then (pf_CurrentQuorumPolicy (sp_old pair)) (\<lambda>oldState.
     and_then (pf_CurrentQuorumPolicy (sp_new pair)) (\<lambda>newState.
     if oldState \<noteq> newState then raise ErrQuorumRotationAmbiguous else give oldState))"

definition observeSharedHandleHead :: "'s shared_handles \<Rightarrow> string \<Rightarrow> ('s, external_head) call" where
  "observeSharedHandleHead pair journalID =
     and_then (pf_ObserveQuorumRotationHead (sp_old pair) journalID) (\<lambda>oldHead.
     and_then (pf_ObserveQuorumRotationHead (sp_new pair) journalID) (\<lambda>newHead.
     if \<not> sameSemanticHead oldHead newHead then raise ErrQuorumRotationContinuity else give oldHead))"

definition requireSharedHandleConvergence ::
  "'s shared_handles \<Rightarrow> quorum_policy_state \<Rightarrow> string \<Rightarrow> external_head \<Rightarrow> ('s, unit) call" where
  "requireSharedHandleConvergence pair expectedPolicy journalID expectedHead =
     and_then (sharedPolicyState pair) (\<lambda>state.
     if state \<noteq> expectedPolicy then raise ErrQuorumRotationAmbiguous
     else and_then (observeSharedHandleHead pair journalID) (\<lambda>head.
       if \<not> sameSemanticHead head expectedHead then raise ErrQuorumRotationContinuity else give ()))"

text \<open>The loop over the sorted witnesses; \<open>frozen\<close> is the first head observed.\<close>

fun observe_loop :: "string \<Rightarrow> external_head option \<Rightarrow> (string \<times> 's shared_handles) list \<Rightarrow> ('s, external_head) call" where
  "observe_loop journalID frozen [] =
     (case frozen of None \<Rightarrow> raise ErrQuorumRotationContinuity | Some head \<Rightarrow> give head)"
| "observe_loop journalID frozen ((i, pair) # rest) =
     and_then (observeSharedHandleHead pair journalID) (\<lambda>head.
     case frozen of
       None \<Rightarrow> observe_loop journalID (Some head) rest
     | Some first \<Rightarrow>
       if \<not> sameSemanticHead first head then raise ErrQuorumRotationContinuity
       else observe_loop journalID frozen rest)"

definition observeSharedRotationHead :: "(string \<times> 's shared_handles) list \<Rightarrow> string \<Rightarrow> ('s, external_head) call" where
  "observeSharedRotationHead stores journalID = observe_loop journalID None (sort_key fst stores)"

record policy_counts =
  pc_old :: nat
  pc_joint :: nat
  pc_new :: nat

fun classify_loop ::
  "quorum_policy_state \<Rightarrow> quorum_policy_state \<Rightarrow> quorum_policy_state \<Rightarrow> policy_counts \<Rightarrow> (string \<times> 's shared_handles) list
    \<Rightarrow> ('s, policy_counts) call" where
  "classify_loop oldPolicy joint newPolicy counts [] = give counts"
| "classify_loop oldPolicy joint newPolicy counts ((i, pair) # rest) =
     and_then (sharedPolicyState pair) (\<lambda>current.
     if current = oldPolicy then classify_loop oldPolicy joint newPolicy (counts\<lparr>pc_old := pc_old counts + 1\<rparr>) rest
     else if current = joint then classify_loop oldPolicy joint newPolicy (counts\<lparr>pc_joint := pc_joint counts + 1\<rparr>) rest
     else if current = newPolicy then classify_loop oldPolicy joint newPolicy (counts\<lparr>pc_new := pc_new counts + 1\<rparr>) rest
     else raise ErrQuorumRotationAmbiguous)"

definition classifyRotationPolicies ::
  "(string \<times> 's shared_handles) list \<Rightarrow> quorum_policy_state \<Rightarrow> quorum_policy_state \<Rightarrow> quorum_policy_state
    \<Rightarrow> ('s, policy_counts) call" where
  "classifyRotationPolicies stores oldPolicy joint newPolicy =
     classify_loop oldPolicy joint newPolicy \<lparr>pc_old = 0, pc_joint = 0, pc_new = 0\<rparr> (sort_key fst stores)"

section \<open>The rotation\<close>

text \<open>
  One witness of a phase: a witness at the phase's first policy makes the transition, a witness at
  its second policy is only checked, and any other policy stops the rotation.
\<close>

definition move_witness ::
  "quorum_policy_state \<Rightarrow> quorum_policy_state \<Rightarrow> string \<Rightarrow> external_head \<Rightarrow> 's shared_handles \<Rightarrow> ('s, unit) call" where
  "move_witness source target journalID head pair =
     and_then (sharedPolicyState pair) (\<lambda>current.
     if current = source
     then and_then (attempt (pf_CompareAndTransitionQuorumPolicy (sp_old pair) source target journalID head)) (\<lambda>_.
       requireSharedHandleConvergence pair target journalID head)
     else if current = target then requireSharedHandleConvergence pair target journalID head
     else raise ErrQuorumRotationAmbiguous)"

fun move_loop ::
  "quorum_policy_state \<Rightarrow> quorum_policy_state \<Rightarrow> string \<Rightarrow> external_head \<Rightarrow> (string \<times> 's shared_handles) list \<Rightarrow> ('s, unit) call" where
  "move_loop source target journalID head [] = give ()"
| "move_loop source target journalID head ((i, pair) # rest) =
     and_then (move_witness source target journalID head pair) (\<lambda>_. move_loop source target journalID head rest)"

text \<open>A fresh rotation compares the shared head with what the old quorum reads.\<close>

definition fresh_truth ::
  "('s quorum_head_store \<Rightarrow> string \<Rightarrow> ('s, external_head) call) \<Rightarrow> 's quorum_head_store \<Rightarrow> string \<Rightarrow> external_head \<Rightarrow> ('s, unit) call" where
  "fresh_truth load oldStore journalID head =
     and_then (load oldStore journalID) (\<lambda>oldHead.
     if \<not> sameSemanticHead oldHead head then raise ErrQuorumRotationContinuity else give ())"

text \<open>Phase 1, from OLD to JOINT_FROZEN, and the classification after it.\<close>

definition freeze_phase ::
  "quorum_policy_state \<Rightarrow> quorum_policy_state \<Rightarrow> quorum_policy_state \<Rightarrow> string \<Rightarrow> external_head \<Rightarrow> (string \<times> 's shared_handles) list
    \<Rightarrow> policy_counts \<Rightarrow> ('s, policy_counts) call" where
  "freeze_phase oldPolicy joint newPolicy journalID head stores counts =
     (if pc_old counts > 0
      then and_then (move_loop oldPolicy joint journalID head stores) (\<lambda>_.
        classifyRotationPolicies stores oldPolicy joint newPolicy)
      else give counts)"

record rotation_result =
  rr_Head :: external_head
  rr_TransitionHash :: string
  rr_SharedWitnesses :: "string list"

text \<open>The new quorum must read the frozen head, and the old one nothing.\<close>

definition finish_rotation ::
  "('s quorum_head_store \<Rightarrow> string \<Rightarrow> ('s, external_head) call) \<Rightarrow> rotation_plan \<Rightarrow> 's quorum_head_store \<Rightarrow> 's quorum_head_store
    \<Rightarrow> string \<Rightarrow> external_head \<Rightarrow> string \<Rightarrow> ('s, rotation_result) call" where
  "finish_rotation load plan oldStore newStore journalID head transitionHash s =
     (case load newStore journalID s of
        (Inl e, s') \<Rightarrow> (Inl ErrQuorumRotationContinuity, s')
      | (Inr newHead, s') \<Rightarrow>
        (if \<not> sameSemanticHead newHead head then (Inl ErrQuorumRotationContinuity, s')
         else case load oldStore journalID s' of
           (Inr _, s'') \<Rightarrow> (Inl ErrQuorumRotationUnsafe, s'')
         | (Inl _, s'') \<Rightarrow> (Inr \<lparr>rr_Head = newHead, rr_TransitionHash = transitionHash,
             rr_SharedWitnesses = pl_sharedWitnesses plan\<rparr>, s'')))"

definition rotate_shared ::
  "('s quorum_head_store \<Rightarrow> string \<Rightarrow> ('s, external_head) call) \<Rightarrow> rotation_plan \<Rightarrow> 's quorum_head_store \<Rightarrow> 's quorum_head_store
    \<Rightarrow> quorum_policy_state \<Rightarrow> quorum_policy_state \<Rightarrow> (string \<times> 's shared_handles) list \<Rightarrow> string \<Rightarrow> external_head
    \<Rightarrow> quorum_policy_state \<Rightarrow> string \<Rightarrow> ('s, rotation_result) call" where
  "rotate_shared load plan oldStore newStore oldPolicy newPolicy stores journalID head joint transitionHash =
     and_then (classifyRotationPolicies stores oldPolicy joint newPolicy) (\<lambda>counts.
     if pc_old counts > 0 \<and> pc_new counts > 0 then raise ErrQuorumRotationAmbiguous
     else and_then (if pc_old counts = length (pl_sharedWitnesses plan) then fresh_truth load oldStore journalID head else give ()) (\<lambda>_.
     and_then (freeze_phase oldPolicy joint newPolicy journalID head stores counts) (\<lambda>counts.
     if pc_old counts \<noteq> 0 then raise ErrQuorumRotationUnsafe
     else if pc_joint counts + pc_new counts \<noteq> length (pl_sharedWitnesses plan) then raise ErrQuorumRotationAmbiguous
     else and_then (move_loop joint newPolicy journalID head stores) (\<lambda>_.
       finish_rotation load plan oldStore newStore journalID head transitionHash))))"

definition ExecuteQuorumRotation ::
  "policy_codec \<Rightarrow> ('s quorum_head_store \<Rightarrow> string \<Rightarrow> ('s, external_head) call) \<Rightarrow> bool \<Rightarrow> rotation_plan
    \<Rightarrow> 's quorum_head_store option \<Rightarrow> 's quorum_head_store option \<Rightarrow> string \<Rightarrow> ('s, rotation_result) call" where
  "ExecuteQuorumRotation pc load cancelled plan oldStore newStore journalID =
     (if cancelled then raise (WError ''context done'')
      else let journalID = trim_space journalID in
      if journalID = [] then raise (WError ''journal id is required'')
      else case (oldStore, newStore) of
        (Some old, Some new) \<Rightarrow>
          (if qs_governedPolicy old \<noteq> Some (activePolicy (pl_oldEpoch plan)) then raise ErrQuorumPolicyMismatch
           else if qs_governedPolicy new \<noteq> Some (activePolicy (pl_newEpoch plan)) then raise ErrQuorumPolicyMismatch
           else case sharedPolicyStores old new (pl_sharedWitnesses plan) of
             Inl e \<Rightarrow> raise e
           | Inr stores \<Rightarrow>
             and_then (observeSharedRotationHead stores journalID) (\<lambda>head.
             case jointPolicy pc plan journalID head of
               Inl e \<Rightarrow> raise e
             | Inr (joint, transitionHash) \<Rightarrow>
               rotate_shared load plan old new (activePolicy (pl_oldEpoch plan)) (activePolicy (pl_newEpoch plan)) stores
                 journalID head joint transitionHash))
      | _ \<Rightarrow> raise (WError ''old and new quorum stores are required''))"

end
