(* ===== verification/Rotation_Safety.thy ===== *)
theory Rotation_Safety
  imports Rotation Quorum_Deployment
begin

text \<open>
  What a quorum rotation guarantees: a plan exists exactly if the shared witnesses meet every quorum of
  both epochs and are a quorum of the new one; a rotation that succeeds hands over a head that is not
  behind anything the old quorum ever reported, and the old quorum never answers again.
\<close>

section \<open>Plans\<close>

definition quorum_of :: "genesis_quorum_binding \<Rightarrow> string set \<Rightarrow> bool" where
  "quorum_of b A \<longleftrightarrow> A \<subseteq> fst ` set (gb_members b) \<and> gb_threshold b \<le> int (card A)"

lemma shared_witnesses_set:
  "set (shared_witnesses old new) \<subseteq> fst ` set (gb_members old) \<inter> fst ` set (gb_members new)"
  by (auto simp: shared_witnesses_def dest: map_of_SomeD)

lemma shared_witnesses_distinct: "distinct (map fst (gb_members old)) \<Longrightarrow> distinct (shared_witnesses old new)"
  by (simp add: shared_witnesses_def distinct_map_filter)

lemma meets_every_quorum:
  assumes "distinct (map fst (gb_members b))" and "set S \<subseteq> fst ` set (gb_members b)" and "distinct S"
  shows "blocking_count b \<le> int (length S) \<longleftrightarrow> (\<forall>A. quorum_of b A \<longrightarrow> A \<inter> set S \<noteq> {})"
proof -
  let ?M = "fst ` set (gb_members b)"
  have M: "card ?M = length (gb_members b)" using distinct_card [OF assms(1)] by simp
  have S: "card (set S) = length S" by (rule distinct_card [OF assms(3)])
  show ?thesis
  proof
    assume blocking: "blocking_count b \<le> int (length S)"
    show "\<forall>A. quorum_of b A \<longrightarrow> A \<inter> set S \<noteq> {}"
    proof (intro allI impI notI)
      fix A assume A: "quorum_of b A" and disjoint: "A \<inter> set S = {}"
      then have "card A + card (set S) \<le> card ?M"
        using assms(2) by (subst card_Un_disjoint [symmetric]) (auto simp: quorum_of_def intro: finite_subset card_mono)
      with A blocking M S show False by (auto simp: quorum_of_def blocking_count_def)
    qed
  next
    assume meets: "\<forall>A. quorum_of b A \<longrightarrow> A \<inter> set S \<noteq> {}"
    have "card (?M - set S) = card ?M - card (set S)" by (rule card_Diff_subset) (simp_all add: assms(2))
    moreover have "\<not> quorum_of b (?M - set S)" using meets by blast
    moreover have "card (set S) \<le> card ?M" by (rule card_mono) (simp_all add: assms(2))
    ultimately show "blocking_count b \<le> int (length S)"
      using M S by (auto simp: quorum_of_def blocking_count_def not_le)
  qed
qed

text \<open>C7. A rotation plan is accepted exactly if both epochs have valid bindings and the Genesis epoch
  advances, and the witnesses that keep their trust identity meet every quorum of the old policy (so
  freezing them retires it), meet every quorum of the new policy (so it cannot form early) and are
  enough for a quorum of the new policy by themselves.\<close>

theorem rotation_plan_iff:
  assumes "distinct (map fst (gb_members (ge_binding old)))" and "distinct (map fst (gb_members (ge_binding new)))"
  shows "(\<exists>plan. NewQuorumRotationPlan old new = Inr plan) \<longleftrightarrow>
    validateGenesisQuorumBinding (ge_binding old) = None \<and> validateGenesisQuorumBinding (ge_binding new) = None \<and>
    0 < ge_genesisEpoch old \<and> ge_genesisEpoch old < ge_genesisEpoch new \<and>
    (let shared = set (shared_witnesses (ge_binding old) (ge_binding new)) in
      (\<forall>A. quorum_of (ge_binding old) A \<longrightarrow> A \<inter> shared \<noteq> {}) \<and>
      (\<forall>A. quorum_of (ge_binding new) A \<longrightarrow> A \<inter> shared \<noteq> {}) \<and> quorum_of (ge_binding new) shared)"
proof -
  let ?shared = "shared_witnesses (ge_binding old) (ge_binding new)"
  note sub = shared_witnesses_set [of "ge_binding old" "ge_binding new"] and dist = shared_witnesses_distinct [OF assms(1), of "ge_binding new"]
  have "blocking_count (ge_binding old) \<le> int (length ?shared) \<longleftrightarrow> (\<forall>A. quorum_of (ge_binding old) A \<longrightarrow> A \<inter> set ?shared \<noteq> {})"
    "blocking_count (ge_binding new) \<le> int (length ?shared) \<longleftrightarrow> (\<forall>A. quorum_of (ge_binding new) A \<longrightarrow> A \<inter> set ?shared \<noteq> {})"
    using sub by (intro meets_every_quorum assms dist; auto)+
  moreover have "gb_threshold (ge_binding new) \<le> int (length ?shared) \<longleftrightarrow> quorum_of (ge_binding new) (set ?shared)"
    using sub distinct_card [OF dist] by (auto simp: quorum_of_def)
  moreover have "(0::u64) < ge_genesisEpoch old \<longleftrightarrow> ge_genesisEpoch old \<noteq> 0" by (simp add: word_neq_0_conv)
  moreover have "ge_genesisEpoch old < ge_genesisEpoch new \<Longrightarrow> ge_genesisEpoch new \<noteq> 0" by auto
  ultimately show ?thesis
    unfolding NewQuorumRotationPlan_def Let_def by (auto split: option.splits simp: not_less not_le)
qed

lemma NewQuorumRotationPlan_facts:
  "NewQuorumRotationPlan old new = Inr plan \<Longrightarrow> pl_oldEpoch plan = old \<and> pl_newEpoch plan = new \<and>
     pl_sharedWitnesses plan = shared_witnesses (ge_binding old) (ge_binding new) \<and> ge_genesisEpoch old < ge_genesisEpoch new \<and>
     blocking_count (ge_binding old) \<le> int (length (pl_sharedWitnesses plan))"
  by (auto simp: NewQuorumRotationPlan_def Let_def split: option.splits if_splits)

section \<open>Sequences of calls\<close>

lemma and_then_Inr:
  assumes "and_then m f w = (Inr y, w')"
  obtains x u where "m w = (Inr x, u)" "f x u = (Inr y, w')"
  using assms by (auto simp: and_then_def split: prod.splits sum.splits)

lemma give_Inr [simp]: "give x w = (Inr y, w') \<longleftrightarrow> x = y \<and> w = w'"
  by (auto simp: give_def)

lemma raise_Inr [simp]: "raise e w \<noteq> (Inr y, w')"
  by (simp add: raise_def)

lemma members_by_id_Some: "members_by_id q i = Some st \<Longrightarrow> \<exists>m \<in> set (qs_members q). qm_ID m = i \<and> qm_Store m = st"
  by (auto simp: members_by_id_def dest!: map_of_SomeD)

lemma sharedPolicyStores_ok:
  "sharedPolicyStores old new is = Inr stores \<Longrightarrow> map fst stores = is \<and>
     (\<forall>i pair. (i, pair) \<in> set stores \<longrightarrow>
       (\<exists>m \<in> set (qs_members old). qm_ID m = i \<and> ms_Fenced (qm_Store m) = Some (sp_old pair)) \<and>
       (\<exists>m \<in> set (qs_members new). qm_ID m = i \<and> ms_Fenced (qm_Store m) = Some (sp_new pair)))"
proof (induction "is" arbitrary: stores)
  case (Cons i js)
  then obtain pair rest where ok: "shared_handles_of old new i = Inr pair" "sharedPolicyStores old new js = Inr rest"
    "stores = (i, pair) # rest" by (auto split: sum.splits)
  have "(\<exists>m \<in> set (qs_members old). qm_ID m = i \<and> ms_Fenced (qm_Store m) = Some (sp_old pair)) \<and>
      (\<exists>m \<in> set (qs_members new). qm_ID m = i \<and> ms_Fenced (qm_Store m) = Some (sp_new pair))"
    using ok(1) by (auto simp: shared_handles_of_def split: option.splits if_splits dest!: members_by_id_Some)
  with Cons.IH [OF ok(2)] ok(3) show ?case by auto
qed simp

text \<open>
  The contract of the witnesses under rotation: \<open>handle i st\<close> says that \<open>st\<close> is a client of witness \<open>i\<close>.
  Every operation leaves the honest witnesses where they were or moves them forward, and what an
  honest witness reports is its state when it answers.
\<close>

locale rotating_witnesses =
  fixes policy_of :: "'w \<Rightarrow> string \<Rightarrow> quorum_policy_state option"
    and head_at :: "'w \<Rightarrow> string \<Rightarrow> string \<Rightarrow> quorum_semantic_head option"
    and moves :: "'w \<Rightarrow> 'w \<Rightarrow> bool" and honest :: "string set" and handle :: "string \<Rightarrow> 'w fenced_store \<Rightarrow> bool"
  assumes moves_same: "moves w w" and moves_seq: "moves u v \<Longrightarrow> moves v w \<Longrightarrow> moves u w"
    and moves_head: "moves w w' \<Longrightarrow> i \<in> honest \<Longrightarrow> head_le (head_at w i j) (head_at w' i j)"
    and moves_policy: "moves w w' \<Longrightarrow> i \<in> honest \<Longrightarrow> policy_of w i = Some p \<Longrightarrow>
      \<exists>p'. policy_of w' i = Some p' \<and> (p' = p \<or> policy_rank p < policy_rank p')"
    and current_moves: "handle i st \<Longrightarrow> pf_CurrentQuorumPolicy st w = (r, w') \<Longrightarrow> moves w w'"
    and current_reports: "i \<in> honest \<Longrightarrow> handle i st \<Longrightarrow> pf_CurrentQuorumPolicy st w = (Inr p, w') \<Longrightarrow> policy_of w' i = Some p"
    and observe_moves: "handle i st \<Longrightarrow> pf_ObserveQuorumRotationHead st j w = (r', w') \<Longrightarrow> moves w w'"
    and observe_reports: "i \<in> honest \<Longrightarrow> handle i st \<Longrightarrow> pf_ObserveQuorumRotationHead st j w = (Inr h, w') \<Longrightarrow>
      head_at w' i (trim_space j) = Some (semanticExternalHead h)"
    and transition_moves: "handle i st \<Longrightarrow> pf_CompareAndTransitionQuorumPolicy st p n j h w = (e, w') \<Longrightarrow> moves w w'"
begin

definition moving :: "('w, 'a) call \<Rightarrow> bool" where
  "moving m \<longleftrightarrow> (\<forall>w r w'. m w = (r, w') \<longrightarrow> moves w w')"

lemma moving_and_then: "moving m \<Longrightarrow> (\<And>x. moving (f x)) \<Longrightarrow> moving (and_then m f)"
  unfolding moving_def and_then_def by (fastforce split: prod.splits sum.splits intro: moves_seq)

lemma moving_give: "moving (give x)" and moving_raise: "moving (raise e)"
  by (auto simp: moving_def give_def raise_def moves_same)

lemma moving_current: "handle i st \<Longrightarrow> moving (pf_CurrentQuorumPolicy st)"
  and moving_observe: "handle i st \<Longrightarrow> moving (pf_ObserveQuorumRotationHead st j)"
  by (auto simp: moving_def intro: current_moves observe_moves)

lemma moving_transition: "handle i st \<Longrightarrow> moving (attempt (pf_CompareAndTransitionQuorumPolicy st p n j h))"
  unfolding moving_def attempt_def by (auto split: prod.splits option.splits intro: transition_moves)

lemmas moving_intros = moving_and_then moving_give moving_raise moving_current moving_observe moving_transition

lemma moving_if: "moving a \<Longrightarrow> moving b \<Longrightarrow> moving (if c then a else b)"
  by simp

definition handles :: "string \<Rightarrow> 'w shared_handles \<Rightarrow> bool" where
  "handles i pair \<longleftrightarrow> handle i (sp_old pair) \<and> handle i (sp_new pair)"

lemma sharedPolicyState_moving: "handles i pair \<Longrightarrow> moving (sharedPolicyState pair)"
  unfolding sharedPolicyState_def handles_def by (intro moving_intros moving_if) auto

lemma observeSharedHandleHead_moving: "handles i pair \<Longrightarrow> moving (observeSharedHandleHead pair j)"
  unfolding observeSharedHandleHead_def handles_def by (intro moving_intros moving_if) auto

lemma requireSharedHandleConvergence_moving: "handles i pair \<Longrightarrow> moving (requireSharedHandleConvergence pair p j h)"
  unfolding requireSharedHandleConvergence_def
  by (intro moving_intros moving_if sharedPolicyState_moving observeSharedHandleHead_moving)

lemma move_witness_moving: "handles i pair \<Longrightarrow> moving (move_witness p n j h pair)"
  unfolding move_witness_def
  by (intro moving_and_then moving_if moving_raise sharedPolicyState_moving requireSharedHandleConvergence_moving
      moving_transition [of i]) (auto simp: handles_def)

abbreviation handles_all :: "(string \<times> 'w shared_handles) list \<Rightarrow> bool" where
  "handles_all stores \<equiv> list_all (\<lambda>(i, pair). handles i pair) stores"

lemma move_loop_moving: "handles_all stores \<Longrightarrow> moving (move_loop p n j h stores)"
  by (induction stores) (auto intro!: moving_and_then moving_give intro: move_witness_moving)

lemma classify_loop_moving: "handles_all stores \<Longrightarrow> moving (classify_loop p q r counts stores)"
  by (induction stores arbitrary: counts) (auto intro!: moving_and_then moving_give moving_raise intro: sharedPolicyState_moving)

lemma observe_loop_moving: "handles_all stores \<Longrightarrow> moving (observe_loop j frozen stores)"
  by (induction stores arbitrary: frozen)
    (auto intro!: moving_and_then moving_give moving_raise intro: observeSharedHandleHead_moving split: option.split)

text \<open>What successful calls say of an honest witness.\<close>

lemma sharedPolicyState_reports:
  assumes "handles i pair" and "i \<in> honest" and "sharedPolicyState pair w = (Inr p, w')"
  shows "policy_of w' i = Some p"
  using assms current_reports unfolding sharedPolicyState_def handles_def
  by (auto elim!: and_then_Inr split: if_splits)

lemma observeSharedHandleHead_reports:
  assumes "handles i pair" and "i \<in> honest" and "observeSharedHandleHead pair j w = (Inr h, w')"
  shows "head_at w' i (trim_space j) = Some (semanticExternalHead h)"
  using assms observe_reports unfolding observeSharedHandleHead_def handles_def
  by (auto simp: sameSemanticHead_def elim!: and_then_Inr split: if_splits)

text \<open>At some moment between \<open>w\<close> and \<open>w'\<close> witness \<open>i\<close> was in a state satisfying \<open>P\<close>.\<close>

definition passed :: "'w \<Rightarrow> 'w \<Rightarrow> ('w \<Rightarrow> bool) \<Rightarrow> bool" where
  "passed w w' P \<longleftrightarrow> (\<exists>u. moves w u \<and> moves u w' \<and> P u)"

lemma passed_wider: "moves w u \<Longrightarrow> passed u v P \<Longrightarrow> moves v w' \<Longrightarrow> passed w w' P"
  unfolding passed_def by (blast intro: moves_seq)

lemma passed_end: "moves w w' \<Longrightarrow> P w' \<Longrightarrow> passed w w' P"
  unfolding passed_def using moves_same by blast

lemma movingD: "moving m \<Longrightarrow> m w = (r, w') \<Longrightarrow> moves w w'"
  by (simp add: moving_def)

lemma convergence_reports:
  assumes "handles i pair" and "i \<in> honest" and "requireSharedHandleConvergence pair p j h w = (Inr x, w')"
  shows "passed w w' (\<lambda>u. policy_of u i = Some p) \<and> passed w w' (\<lambda>u. head_at u i (trim_space j) = Some (semanticExternalHead h))"
proof -
  obtain u h' where u: "sharedPolicyState pair w = (Inr p, u)" "observeSharedHandleHead pair j u = (Inr h', w')" "sameSemanticHead h' h"
    using assms(3) unfolding requireSharedHandleConvergence_def by (auto elim!: and_then_Inr split: if_splits)
  note m = movingD [OF sharedPolicyState_moving [OF assms(1)] u(1)] movingD [OF observeSharedHandleHead_moving [OF assms(1)] u(2)]
  have "policy_of u i = Some p" by (rule sharedPolicyState_reports [OF assms(1,2) u(1)])
  moreover have "head_at w' i (trim_space j) = Some (semanticExternalHead h)"
    using observeSharedHandleHead_reports [OF assms(1,2) u(2)] u(3) by (simp add: sameSemanticHead_def)
  moreover have "passed w w' (\<lambda>u. policy_of u i = Some p)" using calculation(1) m unfolding passed_def by blast
  ultimately show ?thesis using passed_end [OF moves_seq [OF m], of "\<lambda>u. head_at u i (trim_space j) = Some (semanticExternalHead h)"]
    by simp
qed

lemma move_witness_reports:
  assumes "handles i pair" and "i \<in> honest" and "move_witness p n j h pair w = (Inr x, w')"
  shows "passed w w' (\<lambda>u. policy_of u i = Some n) \<and> passed w w' (\<lambda>u. head_at u i (trim_space j) = Some (semanticExternalHead h))"
proof -
  obtain v y where v: "moves w v" "requireSharedHandleConvergence pair n j h v = (Inr y, w')"
  proof -
    from assms(3) obtain c u where u: "sharedPolicyState pair w = (Inr c, u)" and rest:
      "(if c = p then and_then (attempt (pf_CompareAndTransitionQuorumPolicy (sp_old pair) p n j h)) (\<lambda>_.
          requireSharedHandleConvergence pair n j h)
        else if c = n then requireSharedHandleConvergence pair n j h else raise ErrQuorumRotationAmbiguous) u = (Inr x, w')"
      unfolding move_witness_def by (elim and_then_Inr)
    note m = movingD [OF sharedPolicyState_moving [OF assms(1)] u]
    show thesis
    proof (cases "c = p")
      case True
      with rest obtain y v where y: "attempt (pf_CompareAndTransitionQuorumPolicy (sp_old pair) p n j h) u = (Inr y, v)"
        "requireSharedHandleConvergence pair n j h v = (Inr x, w')" by (auto elim: and_then_Inr)
      have "moves u v" using movingD [OF moving_transition [of i] y(1)] assms(1) by (simp add: handles_def)
      from that [OF moves_seq [OF m this] y(2)] show thesis .
    next
      case False
      with rest that [OF m] show thesis by (auto split: if_splits)
    qed
  qed
  from convergence_reports [OF assms(1,2) v(2)] passed_wider [OF v(1) _ moves_same] show ?thesis by blast
qed

lemma move_loop_reports:
  assumes "handles_all stores" and "move_loop p n j h stores w = (Inr x, w')" and "(i, pair) \<in> set stores" and "i \<in> honest"
  shows "passed w w' (\<lambda>u. policy_of u i = Some n) \<and> passed w w' (\<lambda>u. head_at u i (trim_space j) = Some (semanticExternalHead h))"
  using assms(1-3)
proof (induction stores arbitrary: w)
  case (Cons s stores)
  obtain k pr where s: "s = (k, pr)" by (cases s)
  with Cons.prems(2) obtain y u where u: "move_witness p n j h pr w = (Inr y, u)" "move_loop p n j h stores u = (Inr x, w')"
    by (auto elim: and_then_Inr)
  have hs: "handles k pr" "handles_all stores" using Cons.prems(1) s by auto
  note m = movingD [OF move_witness_moving [OF hs(1)] u(1)] movingD [OF move_loop_moving [OF hs(2)] u(2)]
  show ?case
  proof (cases "(i, pair) = s")
    case True
    with s hs(1) have "passed w u (\<lambda>u. policy_of u i = Some n) \<and> passed w u (\<lambda>u. head_at u i (trim_space j) = Some (semanticExternalHead h))"
      using move_witness_reports [of i pr p n j h w y u] assms(4) u(1) by simp
    then show ?thesis using passed_wider [OF moves_same _ m(2)] by blast
  next
    case False
    with Cons.IH [OF hs(2) u(2)] Cons.prems(3) passed_wider [OF m(1) _ moves_same] show ?thesis by auto
  qed
qed simp

lemma observe_loop_reports:
  assumes "handles_all stores" and "observe_loop j frozen stores w = (Inr h, w')"
  shows "(\<forall>x. frozen = Some x \<longrightarrow> sameSemanticHead x h) \<and>
    (\<forall>i pair. (i, pair) \<in> set stores \<longrightarrow> i \<in> honest \<longrightarrow>
      passed w w' (\<lambda>u. head_at u i (trim_space j) = Some (semanticExternalHead h)))"
  using assms
proof (induction stores arbitrary: frozen w)
  case Nil
  then show ?case by (auto simp: sameSemanticHead_def split: option.splits)
next
  case (Cons s stores)
  obtain k pr where s: "s = (k, pr)" by (cases s)
  obtain x u where x: "observeSharedHandleHead pr j w = (Inr x, u)" and rest:
    "(case frozen of None \<Rightarrow> observe_loop j (Some x) stores
      | Some first \<Rightarrow> if \<not> sameSemanticHead first x then raise ErrQuorumRotationContinuity else observe_loop j frozen stores) u = (Inr h, w')"
    using Cons.prems(2) s by (auto elim: and_then_Inr)
  have hs: "handles k pr" "handles_all stores" using Cons.prems(1) s by auto
  obtain f where f: "observe_loop j (Some f) stores u = (Inr h, w')" "sameSemanticHead f x" "frozen \<noteq> None \<Longrightarrow> frozen = Some f"
    using rest by (auto simp: sameSemanticHead_def split: option.splits if_splits)
  note m = movingD [OF observeSharedHandleHead_moving [OF hs(1)] x] movingD [OF observe_loop_moving [OF hs(2)] f(1)]
  note IH = Cons.IH [OF hs(2) f(1)]
  have same: "sameSemanticHead f h" using IH by blast
  have "passed w w' (\<lambda>u. head_at u k (trim_space j) = Some (semanticExternalHead h))" if "k \<in> honest"
    using observeSharedHandleHead_reports [OF hs(1) that x] same f(2) m unfolding passed_def by (auto simp: sameSemanticHead_def)
  moreover have "passed w w' (\<lambda>u. head_at u i (trim_space j) = Some (semanticExternalHead h))" if "(i, pair) \<in> set stores" "i \<in> honest" for i pair
    using IH that passed_wider [OF m(1) _ moves_same] by blast
  ultimately show ?case using same f(3) s by auto
qed

lemma rotate_shared_reports:
  assumes hs: "handles_all stores" and load: "\<And>j. moving (load old j)" "\<And>j. moving (load new j)"
    and rot: "rotate_shared load plan old new p n stores j h joint th w = (Inr res, w')"
  shows "moves w w' \<and> sameSemanticHead (rr_Head res) h \<and> (\<forall>i pair. (i, pair) \<in> set stores \<longrightarrow> i \<in> honest \<longrightarrow>
    passed w w' (\<lambda>u. policy_of u i = Some n) \<and> passed w w' (\<lambda>u. head_at u i (trim_space j) = Some (semanticExternalHead h)))"
proof -
  have sorted: "handles_all (sort_key fst stores)" using hs by (simp add: list_all_iff)
  have classify: "moving (classifyRotationPolicies stores p joint n)"
    unfolding classifyRotationPolicies_def by (rule classify_loop_moving [OF sorted])
  have truth: "moving (fresh_truth load old j h)"
    unfolding fresh_truth_def by (intro moving_and_then moving_if moving_raise moving_give load(1))
  have freeze: "moving (freeze_phase p joint n j h stores c)" for c
    unfolding freeze_phase_def by (intro moving_if moving_and_then moving_give move_loop_moving hs classify)
  from rot obtain c1 u1 y u2 c2 u3 z u4 where
    u: "classifyRotationPolicies stores p joint n w = (Inr c1, u1)"
      "(if pc_old c1 = length (pl_sharedWitnesses plan) then fresh_truth load old j h else give ()) u1 = (Inr y, u2)"
      "freeze_phase p joint n j h stores c1 u2 = (Inr c2, u3)" "move_loop joint n j h stores u3 = (Inr z, u4)"
      "finish_rotation load plan old new j h th u4 = (Inr res, w')"
    unfolding rotate_shared_def by (elim and_then_Inr) (auto elim!: and_then_Inr split: if_splits)
  have "moves u1 u2" using u(2) movingD [OF truth] moves_same by (auto split: if_splits)
  with movingD [OF classify u(1)] movingD [OF freeze u(3)] have m: "moves w u3" by (blast intro: moves_seq)
  have m4: "moves u3 u4" by (rule movingD [OF move_loop_moving [OF hs] u(4)])
  have m5: "moves u4 w' \<and> sameSemanticHead (rr_Head res) h"
    using u(5) unfolding finish_rotation_def
    by (auto split: prod.splits sum.splits if_splits intro: moves_seq movingD [OF load(1)] movingD [OF load(2)])
  show ?thesis
    using moves_seq [OF m moves_seq [OF m4]] m5 move_loop_reports [OF hs u(4)] passed_wider [OF m _ conjunct1 [OF m5]] by blast
qed

theorem rotation_outcome:
  assumes rot: "ExecuteQuorumRotation pc load c plan (Some old) (Some new) j w = (Inr res, w')"
    and load: "\<And>j. moving (load old j)" "\<And>j. moving (load new j)"
    and handles: "\<And>m st. m \<in> set (qs_members old) \<union> set (qs_members new) \<Longrightarrow> ms_Fenced (qm_Store m) = Some st \<Longrightarrow> handle (qm_ID m) st"
    and i: "i \<in> set (pl_sharedWitnesses plan)" "i \<in> honest"
  shows "moves w w' \<and> head_le (head_at w i (trim_space j)) (Some (semanticExternalHead (rr_Head res))) \<and>
    head_le (Some (semanticExternalHead (rr_Head res))) (head_at w' i (trim_space j)) \<and>
    (\<exists>p. policy_of w' i = Some p \<and> policy_rank (activePolicy (pl_newEpoch plan)) \<le> policy_rank p)"
proof -
  let ?j = "trim_space j" and ?n = "activePolicy (pl_newEpoch plan)"
  obtain stores h joint th u where st: "sharedPolicyStores old new (pl_sharedWitnesses plan) = Inr stores"
    "observeSharedRotationHead stores ?j w = (Inr h, u)"
    "rotate_shared load plan old new (activePolicy (pl_oldEpoch plan)) ?n stores ?j h joint th u = (Inr res, w')"
    using rot unfolding ExecuteQuorumRotation_def Let_def
    by (auto split: if_splits sum.splits elim!: and_then_Inr)
  have "handles k pair" if k: "(k, pair) \<in> set stores" for k pair
  proof -
    obtain mo mn where "mo \<in> set (qs_members old)" "qm_ID mo = k" "ms_Fenced (qm_Store mo) = Some (sp_old pair)"
      "mn \<in> set (qs_members new)" "qm_ID mn = k" "ms_Fenced (qm_Store mn) = Some (sp_new pair)"
      using sharedPolicyStores_ok [OF st(1)] k by blast
    with handles [of mo "sp_old pair"] handles [of mn "sp_new pair"] show ?thesis by (simp add: handles_def)
  qed
  then have hs: "handles_all stores" by (auto simp: list_all_iff)
  then have sorted: "handles_all (sort_key fst stores)" by (simp add: list_all_iff)
  obtain pair where pair: "(i, pair) \<in> set stores" using conjunct1 [OF sharedPolicyStores_ok [OF st(1)], symmetric] i(1) by auto
  note loop = st(2) [unfolded observeSharedRotationHead_def]
  have m1: "moves w u" by (rule movingD [OF observe_loop_moving [OF sorted] loop])
  note rs = rotate_shared_reports [OF hs load st(3)]
  let ?h = "Some (semanticExternalHead h)"
  have h: "semanticExternalHead (rr_Head res) = semanticExternalHead h" using rs by (simp add: sameSemanticHead_def)
  from observe_loop_reports [OF sorted loop] pair i(2) obtain v where v: "moves w v" "head_at v i ?j = ?h"
    by (auto simp: passed_def)
  from rs pair i(2) obtain x y where x: "moves u x" "moves x w'" "policy_of x i = Some ?n" and y: "moves y w'" "head_at y i ?j = ?h"
    by (auto simp: passed_def)
  have "moves w w'" using moves_seq [OF m1] rs by blast
  moreover have "head_le (head_at w i ?j) ?h" using moves_head [OF v(1) i(2), of ?j] v(2) by simp
  moreover have "head_le ?h (head_at w' i ?j)" using moves_head [OF y(1) i(2), of ?j] y(2) by simp
  moreover obtain p where "policy_of w' i = Some p" "p = ?n \<or> policy_rank ?n < policy_rank p"
    using moves_policy [OF x(2) i(2) x(3)] by blast
  ultimately show ?thesis using h by auto
qed

end

section \<open>Retired quorums\<close>

text \<open>No answer from the members in \<open>F\<close>.\<close>

definition silent :: "string set \<Rightarrow> 's client \<Rightarrow> bool" where
  "silent F cl \<longleftrightarrow>
     (\<forall>ob \<in> set (cl_loads cl @ cl_received cl). qm_ID (mo_member ob) \<in> F \<longrightarrow> \<not> informative ob) \<and>
     (\<forall>r \<in> set (cl_advances cl @ cl_advanced cl). qm_ID (ar_member r) \<in> F \<longrightarrow> ar_err r \<noteq> None)"

lemma silent_evidence: "silent F cl \<Longrightarrow> (i, j, x) \<in> evidence cl \<Longrightarrow> i \<notin> F"
  by (auto simp: silent_def evidence_def advanced_to_def)

lemma set_remove_nth: "set (remove_nth i xs) \<subseteq> set xs"
  by (auto simp: remove_nth_def dest: in_set_takeD in_set_dropD)

lemma receive_silent:
  "i < length (cl_loads cl) \<Longrightarrow> silent F cl \<Longrightarrow> silent F (receive_load enc q i cl)"
  "i < length (cl_advances cl) \<Longrightarrow> silent F cl \<Longrightarrow> silent F (receive_advance enc q i cl)"
  using set_remove_nth [of i "cl_loads cl"] set_remove_nth [of i "cl_advances cl"]
  by (auto simp: silent_def receive_load_def receive_advance_def split: prod.splits)

lemma start_silent: "silent F (start_call q call)"
  by (cases call) (auto simp: silent_def started_def rejected_def Let_def split: sum.split prod.split)

text \<open>A property of the world that every step of a quorum keeps.\<close>

locale stable_world =
  fixes q :: "'s quorum_head_store" and stable :: "'s \<Rightarrow> bool" and env :: "'s \<Rightarrow> 's \<Rightarrow> bool"
  assumes member_ids: "distinct (map qm_ID (qs_members q))"
    and env_keeps: "env w w' \<Longrightarrow> stable w \<Longrightarrow> stable w'"
    and load_keeps: "m \<in> set (qs_members q) \<Longrightarrow> loadMember q m j w = (r, w') \<Longrightarrow> stable w \<Longrightarrow> stable w'"
    and advance_keeps: "m \<in> set (qs_members q) \<Longrightarrow> compareAndAdvanceMember q m p n w = (r, w') \<Longrightarrow> stable w \<Longrightarrow> stable w'"
begin

lemma outstanding_member: "client_ok q cl \<Longrightarrow> i < length (cl_outstanding cl) \<Longrightarrow> cl_outstanding cl ! i \<in> set (qs_members q)"
  using nth_mem by (fastforce simp: client_ok_def well_membered_def load_members_def)

lemma job_member: "client_ok q cl \<Longrightarrow> i < length (cl_jobs cl) \<Longrightarrow> cl_jobs cl ! i = (m, p, n) \<Longrightarrow> m \<in> set (qs_members q)"
proof -
  assume ok: "client_ok q cl" and "i < length (cl_jobs cl)" "cl_jobs cl ! i = (m, p, n)"
  then have "m \<in> fst ` set (cl_jobs cl)" using nth_mem by force
  then show ?thesis using ok by (auto simp: client_ok_def well_membered_def adv_members_def)
qed

lemma perform_load_stable:
  assumes "perform_load q i cl w = (cl', w')" and "i < length (cl_outstanding cl)" and "client_ok q cl" and "stable w"
  shows "stable w'"
  using assms load_keeps [OF outstanding_member [OF assms(3,2)]]
  by (auto simp: perform_load_def load_goroutine_def split: prod.splits sum.splits)

lemma perform_advance_stable:
  assumes "perform_advance q i cl w = (cl', w')" and "i < length (cl_jobs cl)" and "client_ok q cl" and "stable w"
  shows "stable w'"
  using assms advance_keeps [OF job_member [OF assms(3,2)]]
  by (auto simp: perform_advance_def advance_goroutine_def split: prod.splits sum.splits)

lemma act_stable:
  assumes "quorum_act env enc q a sy = Some sy'" and ok: "clients_ok q sy" and "stable (sy_world sy)"
  shows "stable (sy_world sy')"
proof (cases a)
  case (PerformLoad c i)
  then obtain cl cl' where cl: "sy_clients sy c = Some cl" "i < length (cl_outstanding cl)"
    "perform_load q i cl (sy_world sy) = (cl', sy_world sy')"
    using assms(1) by (auto simp: set_client_def split: option.splits if_splits prod.splits)
  from perform_load_stable [OF cl(3,2)] cl(1) ok assms(3) show ?thesis by (simp add: clients_ok_def)
next
  case (PerformAdvance c i)
  then obtain cl cl' where cl: "sy_clients sy c = Some cl" "i < length (cl_jobs cl)"
    "perform_advance q i cl (sy_world sy) = (cl', sy_world sy')"
    using assms(1) by (auto simp: set_client_def split: option.splits if_splits prod.splits)
  from perform_advance_stable [OF cl(3,2)] cl(1) ok assms(3) show ?thesis by (simp add: clients_ok_def)
next
  case (Environment w)
  with assms env_keeps show ?thesis by (auto split: if_splits)
qed (use assms in \<open>auto simp: set_client_def split: option.splits if_splits\<close>)

lemma run_stable:
  "quorum_run env enc q as sy0 = Some sy \<Longrightarrow> clients_ok q sy0 \<Longrightarrow> stable (sy_world sy0) \<Longrightarrow> list_all proper_action as \<Longrightarrow>
     stable (sy_world sy)"
proof (induction as arbitrary: sy0)
  case (Cons a as)
  then obtain sy1 where sy1: "quorum_act env enc q a sy0 = Some sy1" "quorum_run env enc q as sy1 = Some sy"
    by (auto split: option.splits)
  from Cons.IH [OF sy1(2)] quorum_act_ok [OF sy1(1) _ member_ids] act_stable [OF sy1(1)] Cons.prems show ?case by simp
qed simp

end

text \<open>
  Members that do not answer any more: \<open>retired\<close> holds of the world from some moment on, whatever happens,
  and while it holds the members in \<open>F\<close>, without which there is no quorum, answer nothing.
\<close>

locale retired_members = stable_world q retired env
  for q :: "'s quorum_head_store" and retired and env +
  fixes F :: "string set"
  assumes blocked: "int (card (qm_ID ` set (qs_members q) - F)) < qs_threshold q"
    and load_silent: "m \<in> set (qs_members q) \<Longrightarrow> qm_ID m \<in> F \<Longrightarrow> retired w \<Longrightarrow> loadMember q m j w = (r, w') \<Longrightarrow>
      \<exists>e. r = Inl e \<and> e \<noteq> WHead ErrExternalHeadNotFound"
    and advance_silent: "m \<in> set (qs_members q) \<Longrightarrow> qm_ID m \<in> F \<Longrightarrow> retired w \<Longrightarrow> compareAndAdvanceMember q m p n w = (r, w') \<Longrightarrow> isl r"
begin

lemma perform_load_silent:
  assumes "perform_load q i cl w = (cl', w')" and "i < length (cl_outstanding cl)" and "client_ok q cl" and "retired w" and "silent F cl"
  shows "silent F cl'"
proof -
  let ?m = "cl_outstanding cl ! i"
  obtain r where r: "loadMember q ?m (loop_journal (cl_loop cl)) w = (r, w')"
    using assms(1) by (auto simp: perform_load_def load_goroutine_def split: prod.splits sum.splits)
  then have cl': "cl' = cl\<lparr>cl_outstanding := remove_nth i (cl_outstanding cl), cl_loads := cl_loads cl @
      [case r of Inl e \<Rightarrow> \<lparr>mo_member = ?m, mo_head = zero_head, mo_err = Some e, mo_notFound = (e = WHead ErrExternalHeadNotFound)\<rparr>
       | Inr h \<Rightarrow> \<lparr>mo_member = ?m, mo_head = h, mo_err = None, mo_notFound = False\<rparr>]\<rparr>"
    using assms(1) by (auto simp: perform_load_def load_goroutine_def split: sum.splits)
  show ?thesis
    using load_silent [OF outstanding_member [OF assms(3,2)] _ assms(4) r] assms(5) unfolding cl'
    by (auto simp: silent_def informative_def split: sum.splits)
qed

lemma perform_advance_silent:
  assumes "perform_advance q i cl w = (cl', w')" and "i < length (cl_jobs cl)" and "client_ok q cl" and "retired w" and "silent F cl"
  shows "silent F cl'"
proof -
  obtain m p n where job: "cl_jobs cl ! i = (m, p, n)" by (metis prod_cases3)
  obtain r where r: "compareAndAdvanceMember q m p n w = (r, w')"
    using assms(1) job by (auto simp: perform_advance_def advance_goroutine_def split: prod.splits sum.splits)
  then have cl': "cl' = cl\<lparr>cl_jobs := remove_nth i (cl_jobs cl), cl_advances := cl_advances cl @
      [case r of Inl e \<Rightarrow> \<lparr>ar_member = m, ar_head = zero_head, ar_err = Some e\<rparr>
       | Inr h \<Rightarrow> \<lparr>ar_member = m, ar_head = h, ar_err = None\<rparr>]\<rparr>"
    using assms(1) job by (auto simp: perform_advance_def advance_goroutine_def split: sum.splits)
  show ?thesis
    using advance_silent [OF job_member [OF assms(3,2) job] _ assms(4) r] assms(5) unfolding cl'
    by (auto simp: silent_def split: sum.splits)
qed

definition quiet :: "'s quorum_system \<Rightarrow> bool" where
  "quiet sy \<longleftrightarrow> clients_ok q sy \<and> retired (sy_world sy) \<and> (\<forall>c cl. sy_clients sy c = Some cl \<longrightarrow> silent F cl)"

lemma quiet_client: "quiet sy \<Longrightarrow> sy_clients sy c = Some cl \<Longrightarrow> client_ok q cl \<and> retired (sy_world sy) \<and> silent F cl"
  by (simp add: quiet_def clients_ok_def)

lemma act_quiet:
  assumes act: "quorum_act env enc q a sy = Some sy'" and q: "quiet sy" and "proper_action a"
  shows "quiet sy'"
proof -
  have "silent F cl'" if cl': "sy_clients sy' c = Some cl'" for c cl'
    using act cl'
  proof (cases rule: quorum_act_client)
    case start
    then show ?thesis by (simp add: start_silent)
  next
    case (pload i cl s)
    from perform_load_silent [OF pload(4,3)] quiet_client [OF q pload(2)] show ?thesis by simp
  next
    case (rload i cl)
    from receive_silent(1) [OF rload(3)] quiet_client [OF q rload(2)] rload(5) show ?thesis by simp
  next
    case (padvance i cl s)
    from perform_advance_silent [OF padvance(4,3)] quiet_client [OF q padvance(2)] show ?thesis by simp
  next
    case (radvance i cl)
    from receive_silent(2) [OF radvance(3)] quiet_client [OF q radvance(2)] radvance(5) show ?thesis by simp
  next
    case (cancel cl)
    from quiet_client [OF q cancel(2)] cancel(4) show ?thesis by (simp add: silent_def)
  next
    case other
    with quiet_client [OF q] show ?thesis by simp
  qed
  moreover have "clients_ok q sy'" using quorum_act_ok [OF act assms(3) member_ids] q by (simp add: quiet_def)
  ultimately show ?thesis using act_stable [OF act] q by (simp add: quiet_def)
qed

lemma run_quiet: "quorum_run env enc q as sy0 = Some sy \<Longrightarrow> quiet sy0 \<Longrightarrow> list_all proper_action as \<Longrightarrow> quiet sy"
proof (induction as arbitrary: sy0)
  case (Cons a as)
  then obtain sy1 where "quorum_act env enc q a sy0 = Some sy1" "quorum_run env enc q as sy1 = Some sy"
    by (auto split: option.splits)
  with Cons.IH [of sy1] Cons.prems act_quiet show ?case by simp
qed simp

theorem retired_quorum:
  assumes run: "quorum_run env enc q as \<lparr>sy_world = w, sy_clients = (\<lambda>_. None)\<rparr> = Some sy" and "list_all proper_action as"
    and "retired w" and cl: "sy_clients sy c = Some cl"
  shows "cl_result cl \<noteq> Some (Inr h) \<and> cl_result cl \<noteq> Some (Inl (WHead ErrExternalHeadNotFound))"
proof -
  have "quiet sy" by (rule run_quiet [OF run _ assms(2)]) (simp add: quiet_def clients_ok_def assms(3))
  from quiet_client [OF this cl] have ok: "client_ok q cl" "silent F cl" by auto
  have "\<not> certified q cl x" for x
  proof
    let ?M = "qm_ID ` set (qs_members q)"
    assume "certified q cl x"
    then obtain I where I: "I \<subseteq> ?M" "qs_threshold q \<le> int (card I)" "\<forall>i \<in> I. (i, loop_journal (cl_loop cl), x) \<in> evidence cl"
      by (auto simp: certified_def)
    then have "I \<subseteq> ?M - F" using silent_evidence [OF ok(2)] by blast
    then have "card I \<le> card (?M - F)" by (rule card_mono [rotated]) simp
    with I(2) blocked show False by linarith
  qed
  with ok(1) show ?thesis by (auto simp: client_ok_def answer_ok_def)
qed

end

section \<open>Governed rotations\<close>

text \<open>Both quorums of a rotation reach the same witnesses, through clients of their own.\<close>

lemma governed_rotation_witnesses:
  assumes old: "governed_quorum api cur payloads fate hs rsO honest idsO bO epochO qO"
    and new: "governed_quorum api cur payloads fate hs rsN honest idsN bN epochN qN"
  shows "rotating_witnesses (remote_witnesses.wpolicy cur (kube_configmap.states api payloads))
    (remote_witnesses.whead cur (kube_configmap.states api payloads)) (witness_activity api cur payloads honest) honest
    (\<lambda>i st. st = remote_fenced (rsO i) \<or> st = remote_fenced (rsN i))"
proof -
  note ro = governed_quorum_remote [OF old] and rn = governed_quorum_remote [OF new]
  from old have kube: "kube_configmap api cur payloads" by (simp add: governed_quorum_def)
  note gov = witness_state_fun [OF kube]
  note moves = remote_witnesses.CurrentQuorumPolicy_outside remote_witnesses.ObserveQuorumRotationHead_outside
    remote_witnesses.CompareAndTransitionQuorumPolicy_outside
  note reports = remote_witnesses.CurrentQuorumPolicy_reports remote_witnesses.ObserveQuorumRotationHead_reports
  show ?thesis
    unfolding gov
  proof
    fix i st w r w'
    assume "st = remote_fenced (rsO i) \<or> st = remote_fenced (rsN i)" "pf_CurrentQuorumPolicy st w = (r, w')"
    then show "witness_moves (versioned_state.governed cur (kube_configmap.states api payloads)) honest w w'"
      using moves(1) [OF ro, of i w r w'] moves(1) [OF rn, of i w r w'] by (auto simp: remote_fenced_def)
  next
    fix i st w p w'
    assume "i \<in> honest" "st = remote_fenced (rsO i) \<or> st = remote_fenced (rsN i)" "pf_CurrentQuorumPolicy st w = (Inr p, w')"
    then show "remote_witnesses.wpolicy cur (kube_configmap.states api payloads) w' i = Some p"
      using reports(1) [OF ro, of i w p w'] reports(1) [OF rn, of i w p w'] by (auto simp: remote_fenced_def)
  next
    fix i st j w r w'
    assume "st = remote_fenced (rsO i) \<or> st = remote_fenced (rsN i)" "pf_ObserveQuorumRotationHead st j w = (r, w')"
    then show "witness_moves (versioned_state.governed cur (kube_configmap.states api payloads)) honest w w'"
      using moves(2) [OF ro, of i j w r w'] moves(2) [OF rn, of i j w r w'] by (auto simp: remote_fenced_def)
  next
    fix i st j w h w'
    assume "i \<in> honest" "st = remote_fenced (rsO i) \<or> st = remote_fenced (rsN i)" "pf_ObserveQuorumRotationHead st j w = (Inr h, w')"
    then show "remote_witnesses.whead cur (kube_configmap.states api payloads) w' i (trim_space j) = Some (semanticExternalHead h)"
      using reports(2) [OF ro, of i j w h w'] reports(2) [OF rn, of i j w h w'] by (auto simp: remote_fenced_def)
  next
    fix i st p n j h w e w'
    assume "st = remote_fenced (rsO i) \<or> st = remote_fenced (rsN i)" "pf_CompareAndTransitionQuorumPolicy st p n j h w = (e, w')"
    then show "witness_moves (versioned_state.governed cur (kube_configmap.states api payloads)) honest w w'"
      using moves(3) [OF ro, of i p n j h w e w'] moves(3) [OF rn, of i p n j h w e w'] by (auto simp: remote_fenced_def)
  qed (use moves_refl moves_trans remote_witnesses.outside_whead [OF ro] remote_witnesses.outside_wpolicy [OF ro] in blast)+
qed

text \<open>A quorum load moves the witnesses forward only.\<close>

definition proper_schedule :: "('s quorum_head_store \<Rightarrow> 's \<Rightarrow> 's quorum_action list) \<Rightarrow> bool" where
  "proper_schedule sched \<longleftrightarrow> (\<forall>q w. list_all proper_action (sched q w))"

lemma governed_quorum_ops:
  assumes gq: "governed_quorum api cur payloads fate hs rs honest ids b epoch q" and m: "m \<in> set (qs_members q)"
  shows "loadMember q m j w = LoadForQuorum (rs (qm_ID m)) j (active_policy_state epoch (gb_policyHash b)) w"
    and "compareAndAdvanceMember q m p n w = CompareAndAdvanceForQuorum (rs (qm_ID m)) (active_policy_state epoch (gb_policyHash b)) p n w"
proof -
  have "qs_governedPolicy q = Some (active_policy_state epoch (gb_policyHash b))"
    using NewGovernedQuorumHeadStore_ok gq unfolding governed_quorum_def by blast
  from remote_witnesses.member_ops [OF governed_quorum_remote [OF gq] this] governed_quorum_members [OF gq m]
  show "loadMember q m j w = LoadForQuorum (rs (qm_ID m)) j (active_policy_state epoch (gb_policyHash b)) w"
    "compareAndAdvanceMember q m p n w = CompareAndAdvanceForQuorum (rs (qm_ID m)) (active_policy_state epoch (gb_policyHash b)) p n w"
    by blast+
qed

lemma governed_quorum_stable:
  assumes gq: "governed_quorum api cur payloads fate hs rs honest ids b epoch q"
    and P: "\<And>w w'. witness_activity api cur payloads honest w w' \<Longrightarrow> P w \<Longrightarrow> P w'"
  shows "stable_world q P (witness_activity api cur payloads honest)"
proof -
  note rw = governed_quorum_remote [OF gq]
  from gq have kube: "kube_configmap api cur payloads"
    and q: "NewGovernedQuorumHeadStore (map (\<lambda>i. (i, Some (remote_member (rs i)))) ids) b epoch = Inr q" by (simp_all add: governed_quorum_def)
  note gov = witness_state_fun [OF kube]
  show ?thesis
    using NewGovernedQuorumHeadStore_ok [OF q] P [unfolded gov] governed_quorum_ops [OF gq]
      remote_witnesses.LoadForQuorum_outside [OF rw] remote_witnesses.CompareAndAdvanceForQuorum_outside [OF rw]
    unfolding gov by unfold_locales metis+
qed

lemma Quorum_Load_moves:
  assumes gq: "governed_quorum api cur payloads fate hs rs honest ids b epoch q" and "proper_schedule sched"
    and load: "Quorum_Load (witness_activity api cur payloads honest) enc (sched q) q j w = (r, w')"
  shows "witness_activity api cur payloads honest w w'"
proof -
  let ?act = "witness_activity api cur payloads honest" and ?sy = "\<lparr>sy_world = w, sy_clients = (\<lambda>_. None)\<rparr>"
  have st: "stable_world q (?act w) ?act" by (rule governed_quorum_stable [OF gq]) (rule moves_trans)
  show ?thesis
  proof (cases "quorum_run ?act enc q (Start 0 (QLoad j) # sched q w) ?sy")
    case None
    with load show ?thesis by (simp add: Quorum_Load_def moves_refl)
  next
    case (Some sy)
    have "?act w (sy_world sy)"
      using stable_world.run_stable [OF st Some] assms(2) by (simp add: clients_ok_def moves_refl proper_schedule_def)
    with load Some show ?thesis by (auto simp: Quorum_Load_def split: option.splits)
  qed
qed

text \<open>
  Two governed quorums of the same witnesses, a plan for the rotation between them, and enough honest
  shared witnesses that the old quorum cannot do without them.
\<close>

definition governed_rotation ::
  "('s, 'p) configmap_api \<Rightarrow> ('s \<Rightarrow> string option) \<Rightarrow> ('s \<Rightarrow> string \<Rightarrow> 'p option) \<Rightarrow> ((string \<Rightarrow> 's) \<Rightarrow> net_fate \<times> (string \<Rightarrow> 's))
    \<Rightarrow> (string \<Rightarrow> 's witness_handler) \<Rightarrow> (string \<Rightarrow> (string \<Rightarrow> 's) remote_store) \<Rightarrow> (string \<Rightarrow> (string \<Rightarrow> 's) remote_store)
    \<Rightarrow> string set \<Rightarrow> string list \<Rightarrow> string list \<Rightarrow> rotation_plan \<Rightarrow> (string \<Rightarrow> 's) quorum_head_store
    \<Rightarrow> (string \<Rightarrow> 's) quorum_head_store \<Rightarrow> bool" where
  "governed_rotation api cur payloads fate hs rsO rsN honest idsO idsN plan qO qN \<longleftrightarrow>
     governed_quorum api cur payloads fate hs rsO honest idsO (ge_binding (pl_oldEpoch plan)) (ge_genesisEpoch (pl_oldEpoch plan)) qO \<and>
     governed_quorum api cur payloads fate hs rsN honest idsN (ge_binding (pl_newEpoch plan)) (ge_genesisEpoch (pl_newEpoch plan)) qN \<and>
     NewQuorumRotationPlan (pl_oldEpoch plan) (pl_newEpoch plan) = Inr plan \<and>
     blocking_count (ge_binding (pl_oldEpoch plan)) \<le> int (card (set (pl_sharedWitnesses plan) \<inter> honest))"

lemma rotation_members:
  assumes "governed_quorum api cur payloads fate hs rs honest ids b epoch q"
    and "m \<in> set (qs_members q)" and "ms_Fenced (qm_Store m) = Some st"
  shows "st = remote_fenced (rs (qm_ID m))"
  using governed_quorum_members [OF assms(1,2)] assms(3) by (auto simp: remote_member_def)

lemma governed_rotation_outcome:
  assumes gr: "governed_rotation api cur payloads fate hs rsO rsN honest idsO idsN plan qO qN" and sched: "proper_schedule sched"
    and rot: "ExecuteQuorumRotation pc (\<lambda>q. Quorum_Load (witness_activity api cur payloads honest) enc (sched q) q) False plan
      (Some qO) (Some qN) j w = (Inr res, w')"
    and i: "i \<in> set (pl_sharedWitnesses plan)" "i \<in> honest"
  shows "head_le (remote_witnesses.whead cur (kube_configmap.states api payloads) w i (trim_space j)) (Some (semanticExternalHead (rr_Head res))) \<and>
    (\<exists>p. remote_witnesses.wpolicy cur (kube_configmap.states api payloads) w' i = Some p \<and>
      policy_rank (activePolicy (pl_newEpoch plan)) \<le> policy_rank p)"
proof -
  from gr have gq: "governed_quorum api cur payloads fate hs rsO honest idsO (ge_binding (pl_oldEpoch plan)) (ge_genesisEpoch (pl_oldEpoch plan)) qO"
    "governed_quorum api cur payloads fate hs rsN honest idsN (ge_binding (pl_newEpoch plan)) (ge_genesisEpoch (pl_newEpoch plan)) qN"
    by (simp_all add: governed_rotation_def)
  note rw = governed_rotation_witnesses [OF gq]
  have load: "rotating_witnesses.moving (witness_activity api cur payloads honest)
      (Quorum_Load (witness_activity api cur payloads honest) enc (sched q) q k)" if "q = qO \<or> q = qN" for q k
    using that Quorum_Load_moves [OF gq(1) sched] Quorum_Load_moves [OF gq(2) sched]
    by (auto simp: rotating_witnesses.moving_def [OF rw])
  from rotating_witnesses.rotation_outcome [OF rw rot _ _ _ i] load rotation_members [OF gq(1)] rotation_members [OF gq(2)]
  show ?thesis by blast
qed

lemma rotation_blocks:
  assumes "governed_rotation api cur payloads fate hs rsO rsN honest idsO idsN plan qO qN"
  shows "int (card (qm_ID ` set (qs_members qO) - set (pl_sharedWitnesses plan) \<inter> honest)) < qs_threshold qO"
proof -
  let ?b = "ge_binding (pl_oldEpoch plan)" and ?S = "set (pl_sharedWitnesses plan) \<inter> honest"
  obtain ms where q: "NewGovernedQuorumHeadStore ms ?b (ge_genesisEpoch (pl_oldEpoch plan)) = Inr qO"
    and plan: "NewQuorumRotationPlan (pl_oldEpoch plan) (pl_newEpoch plan) = Inr plan"
    and enough: "blocking_count ?b \<le> int (card ?S)"
    using assms by (auto simp: governed_rotation_def governed_quorum_def)
  obtain q0 where "NewQuorumHeadStore ms ?b = Inr q0" "qs_members qO = qs_members q0"
    using q by (auto simp: NewGovernedQuorumHeadStore_def Let_def split: sum.splits option.splits if_splits)
  with NewQuorumHeadStore_members [of ms ?b q0]
  have M: "qm_ID ` set (qs_members qO) = fst ` set (gb_members ?b)" "card (fst ` set (gb_members ?b)) = length (gb_members ?b)" by auto
  have S: "?S \<subseteq> fst ` set (gb_members ?b)"
    using NewQuorumRotationPlan_facts [OF plan] shared_witnesses_set [of ?b "ge_binding (pl_newEpoch plan)"] by auto
  then have "card (fst ` set (gb_members ?b) - ?S) = card (fst ` set (gb_members ?b)) - card ?S"
    by (intro card_Diff_subset) auto
  moreover have "card ?S \<le> card (fst ` set (gb_members ?b))" using S by (intro card_mono) auto
  moreover have "qs_threshold qO = gb_threshold ?b" using NewGovernedQuorumHeadStore_ok [OF q] by simp
  ultimately show ?thesis using M enough by (simp add: blocking_count_def)
qed


text \<open>The honest shared witnesses have left the old policy.\<close>

definition left_old ::
  "('s, 'p) configmap_api \<Rightarrow> ('s \<Rightarrow> string option) \<Rightarrow> ('s \<Rightarrow> string \<Rightarrow> 'p option) \<Rightarrow> string set \<Rightarrow> rotation_plan \<Rightarrow> (string \<Rightarrow> 's) \<Rightarrow> bool" where
  "left_old api cur payloads honest plan w \<longleftrightarrow>
     (\<forall>i \<in> set (pl_sharedWitnesses plan) \<inter> honest. \<exists>p. remote_witnesses.wpolicy cur (kube_configmap.states api payloads) w i = Some p \<and>
       policy_rank (activePolicy (pl_oldEpoch plan)) < policy_rank p)"

lemma governed_rotation_retired:
  assumes gr: "governed_rotation api cur payloads fate hs rsO rsN honest idsO idsN plan qO qN"
  shows "retired_members qO (left_old api cur payloads honest plan) (witness_activity api cur payloads honest)
    (set (pl_sharedWitnesses plan) \<inter> honest)"
proof -
  let ?F = "set (pl_sharedWitnesses plan) \<inter> honest" and ?left = "left_old api cur payloads honest plan"
  let ?pol = "remote_witnesses.wpolicy cur (kube_configmap.states api payloads)" and ?old = "activePolicy (pl_oldEpoch plan)"
  from gr have gq: "governed_quorum api cur payloads fate hs rsO honest idsO (ge_binding (pl_oldEpoch plan)) (ge_genesisEpoch (pl_oldEpoch plan)) qO"
    by (simp add: governed_rotation_def)
  note rw = governed_quorum_remote [OF gq] and ops = governed_quorum_ops [OF gq, folded activePolicy_def]
  from gq have kube: "kube_configmap api cur payloads" by (simp add: governed_quorum_def)
  note gov = witness_state_fun [OF kube]
  have keep: "?left v" if "witness_activity api cur payloads honest u v" "?left u" for u v
    using that remote_witnesses.outside_wpolicy [OF rw that(1) [unfolded gov]] unfolding left_old_def by (metis Int_iff order.strict_trans)
  then have st: "stable_world qO ?left (witness_activity api cur payloads honest)" by (rule governed_quorum_stable [OF gq])
  have no: "?pol v i \<noteq> Some ?old" if "?left v" "i \<in> ?F" for v i using that by (force simp: left_old_def)
  show ?thesis
  proof (rule retired_members.intro [OF st], rule retired_members_axioms.intro)
    show "int (card (qm_ID ` set (qs_members qO) - ?F)) < qs_threshold qO" by (rule rotation_blocks [OF gr])
  next
    fix m j u r v
    assume m: "m \<in> set (qs_members qO)" "qm_ID m \<in> ?F" "?left u" and l: "loadMember qO m j u = (r, v)"
    from no [OF stable_world.load_keeps [OF st, OF m(1) l m(3)] m(2)]
      remote_witnesses.LoadForQuorum_policy [OF rw, of "qm_ID m" j ?old u r v] m(2) l ops(1) [OF m(1)]
    show "\<exists>e. r = Inl e \<and> e \<noteq> WHead ErrExternalHeadNotFound" by (cases r) auto
  next
    fix m p n u r v
    assume m: "m \<in> set (qs_members qO)" "qm_ID m \<in> ?F" "?left u" and l: "compareAndAdvanceMember qO m p n u = (r, v)"
    from no [OF stable_world.advance_keeps [OF st, OF m(1) l m(3)] m(2)]
      remote_witnesses.CompareAndAdvanceForQuorum_policy [OF rw, of "qm_ID m" ?old p n u _ v] m(2) l ops(2) [OF m(1)]
    show "isl r" by (cases r) auto
  qed
qed

text \<open>C5. A rotation that succeeds retires the old quorum for good: in every schedule after it, no call of the
  old quorum returns a head or reports that the journal has none, whatever the faulty members answer.\<close>

theorem rotation_retires_old:
  assumes gr: "governed_rotation api cur payloads fate hs rsO rsN honest idsO idsN plan qO qN" and "proper_schedule sched"
    and rot: "ExecuteQuorumRotation pc (\<lambda>q. Quorum_Load (witness_activity api cur payloads honest) enc (sched q) q) False plan
      (Some qO) (Some qN) j w = (Inr res, w')"
    and run: "quorum_run (witness_activity api cur payloads honest) enc qO as \<lparr>sy_world = w', sy_clients = (\<lambda>_. None)\<rparr> = Some sy"
    and "list_all proper_action as" and "sy_clients sy x = Some cl"
  shows "cl_result cl \<noteq> Some (Inr h) \<and> cl_result cl \<noteq> Some (Inl (WHead ErrExternalHeadNotFound))"
proof -
  from gr have "NewQuorumRotationPlan (pl_oldEpoch plan) (pl_newEpoch plan) = Inr plan" by (simp add: governed_rotation_def)
  from NewQuorumRotationPlan_facts [OF this]
  have "policy_rank (activePolicy (pl_oldEpoch plan)) < policy_rank (activePolicy (pl_newEpoch plan))"
    by (simp add: policy_rank_def activePolicy_def active_policy_state_def word_less_nat_alt)
  then have "left_old api cur payloads honest plan w'"
    using governed_rotation_outcome [OF gr assms(2) rot] unfolding left_old_def by (metis Int_iff order.strict_trans2)
  from retired_members.retired_quorum [OF governed_rotation_retired [OF gr] run assms(5) this assms(6)] show ?thesis .
qed

section \<open>An example\<close>

text \<open>One witness that both policies trust, holding a head of journal \<open>j\<close>.\<close>

definition ex_epoch :: "u64 \<Rightarrow> governed_epoch" where
  "ex_epoch n = \<lparr>ge_genesisEpoch = n, ge_genesisManifestHash = ex_digest,
     ge_binding = \<lparr>gb_capabilityEnvelopeHash = ex_digest, gb_policyHash = ex_digest, gb_threshold = 1,
       gb_members = [(''a'', ex_digest)]\<rparr>\<rparr>"

definition ex_plan :: rotation_plan where
  "ex_plan = \<lparr>pl_oldEpoch = ex_epoch 1, pl_newEpoch = ex_epoch 2, pl_sharedWitnesses = [''a''], pl_oldBlockingCount = 1,
     pl_newBlockingCount = 1\<rparr>"

definition ex_quorum_at :: "u64 \<Rightarrow> (string \<Rightarrow> governed_state list) quorum_head_store" where
  "ex_quorum_at n = \<lparr>qs_members = [\<lparr>qm_ID = ''a'', qm_Store = remote_member (ex_remote ''a'')\<rparr>], qs_threshold = 1,
     qs_policyHash = ex_digest, qs_capabilityEnvelopeHash = ex_digest, qs_governedPolicy = Some (activePolicy (ex_epoch n))\<rparr>"

definition ex_codec :: policy_codec where
  "ex_codec = \<lparr>pc_sha = \<lambda>_. replicate 32 (CHR 0x00), pc_canonical = \<lambda>_. Some ''c'', pc_envelope = \<lambda>_. None, pc_policy = \<lambda>_. None\<rparr>"

definition ex_sched :: "(string \<Rightarrow> governed_state list) quorum_head_store \<Rightarrow> (string \<Rightarrow> governed_state list)
    \<Rightarrow> (string \<Rightarrow> governed_state list) quorum_action list" where
  "ex_sched q w = [PerformLoad 0 0, ReceiveLoad 0 0]"

lemma ex_rotation_eval:
  "map_option (\<lambda>sy. (map_option cl_result (sy_clients sy 0),
     case ExecuteQuorumRotation ex_codec (\<lambda>q. Quorum_Load env (\<lambda>_. Some ''v'') (ex_sched q) q) False ex_plan
         (Some (ex_quorum_at 1)) (Some (ex_quorum_at 2)) ''j'' (sy_world sy) of
       (r, w) \<Rightarrow> (map_sum id rr_Head r, map_option (\<lambda>sy2. map_option cl_result (sy_clients sy2 0))
         (quorum_run env (\<lambda>_. Some ''v'') (ex_quorum_at 1) (Start 0 (QLoad ''j'') # ex_sched (ex_quorum_at 1) w)
            \<lparr>sy_world = w, sy_clients = (\<lambda>_. None)\<rparr>))))
     (quorum_run env (\<lambda>_. Some ''v'') (ex_quorum_at 1) (Start 0 (QLoad ''j'') # ex_sched (ex_quorum_at 1) (\<lambda>_. [ex_seeded]))
       \<lparr>sy_world = (\<lambda>_. [ex_seeded]), sy_clients = (\<lambda>_. None)\<rparr>) =
   Some (Some (Some (Inr ex_reported)), Inr ex_reported, Some (Some (Some (Inl ErrExternalHeadQuorum))))"
  by code_simp

lemma ex_plan: "NewQuorumRotationPlan (ex_epoch 1) (ex_epoch 2) = Inr ex_plan"
  by code_simp

theorem rotation_plan_iff_witness:
  "quorum_of (ge_binding (ex_epoch 2)) (set (shared_witnesses (ge_binding (ex_epoch 1)) (ge_binding (ex_epoch 2))))"
  using rotation_plan_iff [of "ex_epoch 1" "ex_epoch 2"] ex_plan by (simp add: ex_epoch_def Let_def)

lemma ex_quorum_at:
  assumes "n = 1 \<or> n = 2"
  shows "governed_quorum sim_api sim_cur sim_payloads (\<lambda>w. (Delivered, w)) (\<lambda>_. ex_handler) ex_remote {''a''} [''a'']
    (ge_binding (ex_epoch n)) n (ex_quorum_at n)"
proof -
  have member: "ms_Trust (remote_member (ex_remote ''a'')) = Some ex_digest" "ms_Fenced (remote_member (ex_remote ''a'')) \<noteq> None"
    by (simp_all add: remote_member_def ex_remote_def)
  have "validateQuorumPolicyState (active_policy_state n ex_digest) = None"
    using assms by (auto simp: validateQuorumPolicyState_def active_policy_state_def ex_digest_facts)
  with member have "NewGovernedQuorumHeadStore (map (\<lambda>i. (i, Some (remote_member (ex_remote i)))) [''a'']) (ge_binding (ex_epoch n)) n =
      Inr (ex_quorum_at n)"
    by (simp add: NewGovernedQuorumHeadStore_def NewQuorumHeadStore_def validateGenesisQuorumBinding_def ex_epoch_def ex_digest_facts
        plain_simps Let_def ex_quorum_at_def activePolicy_def split: option.splits)
  moreover have "deployment (witness_state sim_api sim_cur sim_payloads) (KubernetesGovernedWitnessStateStore sim_api)
      (\<lambda>w. (Delivered, w)) (\<lambda>_. ex_handler) ex_remote {''a''}"
    by (auto simp: deployment_def ex_remote_def ex_handler_def deliver_def witness_moves_def split: prod.split)
  ultimately show ?thesis
    using sim.kube_configmap_axioms unfolding governed_quorum_def by (simp add: ex_epoch_def plain_simps)
qed

lemma ex_rotation:
  "governed_rotation sim_api sim_cur sim_payloads (\<lambda>w. (Delivered, w)) (\<lambda>_. ex_handler) ex_remote ex_remote {''a''} [''a''] [''a'']
     ex_plan (ex_quorum_at 1) (ex_quorum_at 2)"
  using ex_plan ex_quorum_at [of 1] ex_quorum_at [of 2]
  by (simp add: governed_rotation_def ex_plan_def) (simp add: blocking_count_def ex_epoch_def)

interpretation ex_rotation: rotating_witnesses "remote_witnesses.wpolicy sim_cur (kube_configmap.states sim_api sim_payloads)"
  "remote_witnesses.whead sim_cur (kube_configmap.states sim_api sim_payloads)" "witness_activity sim_api sim_cur sim_payloads {''a''}"
  "{''a''}" "\<lambda>i st. st = remote_fenced (ex_remote i) \<or> st = remote_fenced (ex_remote i)"
  using governed_rotation_witnesses [OF ex_quorum_at ex_quorum_at] by blast

interpretation ex_retired: retired_members "ex_quorum_at 1" "left_old sim_api sim_cur sim_payloads {''a''} ex_plan"
  "witness_activity sim_api sim_cur sim_payloads {''a''}" "set (pl_sharedWitnesses ex_plan) \<inter> {''a''}"
  by (rule governed_rotation_retired [OF ex_rotation])

abbreviation ex_activity :: "(string \<Rightarrow> governed_state list) \<Rightarrow> (string \<Rightarrow> governed_state list) \<Rightarrow> bool" where
  "ex_activity \<equiv> witness_activity sim_api sim_cur sim_payloads {''a''}"

abbreviation ex_load_run :: "(string \<Rightarrow> governed_state list) \<Rightarrow> (string \<Rightarrow> governed_state list) quorum_system option" where
  "ex_load_run w \<equiv> quorum_run ex_activity (\<lambda>_. Some ''v'') (ex_quorum_at 1) (Start 0 (QLoad ''j'') # ex_sched (ex_quorum_at 1) w)
     \<lparr>sy_world = w, sy_clients = (\<lambda>_. None)\<rparr>"

abbreviation ex_rotate :: "(string \<Rightarrow> governed_state list) \<Rightarrow> (witness_error + rotation_result) \<times> (string \<Rightarrow> governed_state list)" where
  "ex_rotate \<equiv> ExecuteQuorumRotation ex_codec (\<lambda>q. Quorum_Load ex_activity (\<lambda>_. Some ''v'') (ex_sched q) q) False ex_plan
     (Some (ex_quorum_at 1)) (Some (ex_quorum_at 2)) ''j''"

lemma ex_rotation_run:
  obtains sy cl res w sy2 cl2 where "ex_load_run (\<lambda>_. [ex_seeded]) = Some sy" "sy_clients sy 0 = Some cl"
    "cl_result cl = Some (Inr ex_reported)" "ex_rotate (sy_world sy) = (Inr res, w)" "rr_Head res = ex_reported"
    "ex_load_run w = Some sy2" "sy_clients sy2 0 = Some cl2"
proof -
  note e = ex_rotation_eval [of ex_activity]
  from e obtain sy where sy: "ex_load_run (\<lambda>_. [ex_seeded]) = Some sy" by (auto simp del: quorum_run.simps)
  obtain r w where r: "ex_rotate (sy_world sy) = (r, w)" by fastforce
  from e [unfolded sy option.map r prod.case] obtain cl sy2 cl2 where "sy_clients sy 0 = Some cl" "cl_result cl = Some (Inr ex_reported)"
    "ex_load_run w = Some sy2" "sy_clients sy2 0 = Some cl2" "map_sum id rr_Head r = Inr ex_reported"
    by (auto simp del: quorum_run.simps)
  moreover from this(5) obtain res where "r = Inr res" "rr_Head res = ex_reported" by (cases r) auto
  ultimately show thesis using that sy r by blast
qed

lemma ex_sched_proper: "proper_schedule ex_sched" "list_all proper_action (Start 0 (QLoad ''j'') # ex_sched q w)"
  by (simp_all add: proper_schedule_def ex_sched_def)


theorem rotation_retires_old_witness:
  "\<exists>sy res w sy2 cl. ex_load_run (\<lambda>_. [ex_seeded]) = Some sy \<and> ex_rotate (sy_world sy) = (Inr res, w) \<and>
     ex_load_run w = Some sy2 \<and> sy_clients sy2 0 = Some cl \<and> cl_result cl \<noteq> Some (Inr ex_reported)"
proof -
  obtain sy cl res w sy2 cl2 where run: "ex_load_run (\<lambda>_. [ex_seeded]) = Some sy" "sy_clients sy 0 = Some cl"
    "cl_result cl = Some (Inr ex_reported)" "ex_rotate (sy_world sy) = (Inr res, w)" "rr_Head res = ex_reported"
    "ex_load_run w = Some sy2" "sy_clients sy2 0 = Some cl2" by (rule ex_rotation_run)
  from rotation_retires_old [OF ex_rotation ex_sched_proper(1) run(4,6) ex_sched_proper(2) run(7), of ex_reported] run(1,4,6,7)
  show ?thesis by blast
qed

end
