(* ===== verification/Permit.thy ===== *)
theory Permit
  imports Journal
begin

text \<open>
  Execution permits (\<open>internal/ege/permit.go\<close>): the claims an authority signs, the payload it signs
  them under, signing and verification; and the capability fence that a permit may carry
  (\<open>internal/ege/capability.go\<close>). \<open>encoding/json\<close>, SHA-256, base64 and the signature scheme are
  parameters, gathered in \<open>library\<close> where an operation needs several of them.
\<close>

section \<open>Errors and library functions\<close>

text \<open>
  A Go error is its text: \<open>errors.New s\<close>, or a text around a wrapped error, as \<open>fmt.Errorf\<close> with
  \<open>%w\<close> builds it. The texts of the sentinel errors are distinct, so \<open>errors.Is\<close> compares them along
  the chain.
\<close>

datatype go_error =
    NewError string
  | Wrapf string go_error string

fun Error :: "go_error \<Rightarrow> string" where
  "Error (NewError s) = s"
| "Error (Wrapf pre e post) = pre @ Error e @ post"

fun errors_Is :: "go_error \<Rightarrow> go_error \<Rightarrow> bool" where
  "errors_Is (NewError s) t \<longleftrightarrow> NewError s = t"
| "errors_Is (Wrapf pre e post) t \<longleftrightarrow> Wrapf pre e post = t \<or> errors_Is e t"

abbreviation wrap :: "string \<Rightarrow> go_error \<Rightarrow> go_error" where
  "wrap pre e \<equiv> Wrapf (pre @ '': '') e []"

record library =
  lb_marshal :: "json \<Rightarrow> string option"
  lb_sha :: "string \<Rightarrow> string"
  lb_encode64 :: "string \<Rightarrow> string"
  lb_decode64 :: "string \<Rightarrow> string option"

abbreviation marshal_error :: go_error where
  "marshal_error \<equiv> NewError ''json: unsupported value''"

definition DigestPayload :: "library \<Rightarrow> json \<Rightarrow> go_error + string" where
  "DigestPayload lb doc =
     (case lb_marshal lb doc of
        None \<Rightarrow> Inl (wrap ''marshal payload'' marshal_error)
      | Some payload \<Rightarrow> Inr (sha256_tag (lb_sha lb) payload))"

lemma DigestPayload_Inr:
  "DigestPayload lb doc = Inr d \<longleftrightarrow>
     (\<exists>payload. lb_marshal lb doc = Some payload \<and> d = sha256_tag (lb_sha lb) payload)"
  by (auto simp: DigestPayload_def split: option.splits)

lemma DigestPayload_not_blank: "DigestPayload lb doc = Inr d \<Longrightarrow> \<not> blank d"
  by (auto simp: DigestPayload_Inr)

section \<open>Claims and permits\<close>

record permit_target =
  tg_Type :: string
  tg_Name :: string

record execution_binding =
  eb_DestinationID :: string
  eb_AccountID :: string
  eb_Endpoint :: string
  eb_AdapterProfile :: string
  eb_ExpectedResourceVersion :: string

record capability_fence =
  cf_Version :: string
  cf_AuthorityDomain :: string
  cf_AuthorityTerm :: u64
  cf_DecisionEpoch :: u64
  cf_RevocationEpoch :: u64
  cf_TargetIdentity :: string
  cf_StateBindingDigest :: string

record permit_claims =
  pc_IntentID :: string
  pc_Kind :: string
  pc_Target :: permit_target
  pc_Action :: string
  pc_ResourceVersion :: string
  pc_EvidenceDigest :: string
  pc_EvidenceManifestDigest :: string
  pc_EvidencePacketDigest :: string
  pc_PlanDigest :: string
  pc_ApprovalRefs :: "string list"
  pc_ExecutionBinding :: "execution_binding option"
  pc_EBAContextProfile :: string
  pc_EBATraceID :: string
  pc_EBAAudience :: string
  pc_EBANamespace :: string
  pc_EBAAssumptionRefs :: "string list"
  pc_EBAAuthorityRef :: string
  pc_CapabilityFence :: "capability_fence option"
  pc_ValidUntil :: time

record permit =
  pm_APIVersion :: string
  pm_KeyID :: string
  pm_Claims :: permit_claims
  pm_Signature :: string

abbreviation PermitVersion :: string where
  "PermitVersion \<equiv> ''aegis.ege/permit/v0alpha1''"

subsection \<open>Documents\<close>

definition omit_empty_list :: "string \<Rightarrow> string list \<Rightarrow> (string \<times> json) list" where
  "omit_empty_list k vs = (if vs = [] then [] else [(k, JArr (map JStr vs))])"

definition omit_nil :: "('a \<Rightarrow> json) \<Rightarrow> string \<Rightarrow> 'a option \<Rightarrow> (string \<times> json) list" where
  "omit_nil doc k v = (case v of None \<Rightarrow> [] | Some x \<Rightarrow> [(k, doc x)])"

definition target_json :: "permit_target \<Rightarrow> json" where
  "target_json t = JObj [(''type'', JStr (tg_Type t)), (''name'', JStr (tg_Name t))]"

definition binding_json :: "execution_binding \<Rightarrow> json" where
  "binding_json b = JObj
     [(''destination_id'', JStr (eb_DestinationID b)), (''account_id'', JStr (eb_AccountID b)),
      (''endpoint'', JStr (eb_Endpoint b)), (''adapter_profile'', JStr (eb_AdapterProfile b)),
      (''expected_resource_version'', JStr (eb_ExpectedResourceVersion b))]"

definition fence_json :: "capability_fence \<Rightarrow> json" where
  "fence_json f = JObj
     [(''version'', JStr (cf_Version f)), (''authority_domain'', JStr (cf_AuthorityDomain f)),
      (''authority_term'', JNum (uint (cf_AuthorityTerm f))),
      (''decision_epoch'', JNum (uint (cf_DecisionEpoch f))),
      (''revocation_epoch'', JNum (uint (cf_RevocationEpoch f))),
      (''target_identity'', JStr (cf_TargetIdentity f)),
      (''state_binding_digest'', JStr (cf_StateBindingDigest f))]"

definition claims_json :: "permit_claims \<Rightarrow> json" where
  "claims_json c = JObj
     ([(''intent_id'', JStr (pc_IntentID c)), (''kind'', JStr (pc_Kind c)),
       (''target'', target_json (pc_Target c)), (''action'', JStr (pc_Action c)),
       (''resource_version'', JStr (pc_ResourceVersion c)),
       (''evidence_digest'', JStr (pc_EvidenceDigest c)),
       (''evidence_manifest_digest'', JStr (pc_EvidenceManifestDigest c))] @
      omit_empty ''evidence_packet_digest'' (pc_EvidencePacketDigest c) @
      [(''plan_digest'', JStr (pc_PlanDigest c))] @
      omit_empty_list ''approval_refs'' (pc_ApprovalRefs c) @
      omit_nil binding_json ''execution_binding'' (pc_ExecutionBinding c) @
      omit_empty ''eba_context_profile'' (pc_EBAContextProfile c) @
      omit_empty ''eba_trace_id'' (pc_EBATraceID c) @
      omit_empty ''eba_audience'' (pc_EBAAudience c) @
      omit_empty ''eba_namespace'' (pc_EBANamespace c) @
      omit_empty_list ''eba_assumption_refs'' (pc_EBAAssumptionRefs c) @
      omit_empty ''eba_authority_ref'' (pc_EBAAuthorityRef c) @
      omit_nil fence_json ''capability_fence'' (pc_CapabilityFence c) @
      [(''valid_until'', JTime (pc_ValidUntil c))])"

definition permit_json :: "permit \<Rightarrow> json" where
  "permit_json p = JObj
     [(''api_version'', JStr (pm_APIVersion p)), (''key_id'', JStr (pm_KeyID p)),
      (''claims'', claims_json (pm_Claims p)), (''signature'', JStr (pm_Signature p))]"

subsection \<open>Signing and verification\<close>

definition canonicalPermitPayload :: "library \<Rightarrow> permit_claims \<Rightarrow> go_error + string" where
  "canonicalPermitPayload lb claims =
     (let claims = claims\<lparr>pc_ApprovalRefs := sort (pc_ApprovalRefs claims),
                          pc_EBAAssumptionRefs := sort (pc_EBAAssumptionRefs claims)\<rparr> in
      case lb_marshal lb (claims_json claims) of
        None \<Rightarrow> Inl (wrap ''marshal EGE permit claims'' marshal_error)
      | Some body \<Rightarrow> Inr (''aegis-ege/execution-permit/v0alpha1'' @ [CHR 0x00] @ body))"

text \<open>
  An authority signs a payload under its current key; a verifier checks a signature under a key.
  Both take a context and may fail on it, so what they return is theirs to choose. A \<open>nil\<close> authority
  is \<open>None\<close>.
\<close>

type_synonym signer = "string \<Rightarrow> go_error + string \<times> string"
type_synonym signature_verifier = "string \<Rightarrow> string \<Rightarrow> string \<Rightarrow> go_error option"

definition SignPermit :: "library \<Rightarrow> signer option \<Rightarrow> permit_claims \<Rightarrow> go_error + permit" where
  "SignPermit lb authority claims =
     (case authority of
        None \<Rightarrow> Inl (NewError ''EGE permit authority is required'')
      | Some sign \<Rightarrow>
        (case canonicalPermitPayload lb claims of
           Inl e \<Rightarrow> Inl e
         | Inr payload \<Rightarrow>
           (case sign payload of
              Inl e \<Rightarrow> Inl (wrap ''sign EGE permit'' e)
            | Inr (keyID, signature) \<Rightarrow>
                Inr \<lparr>pm_APIVersion = PermitVersion, pm_KeyID = keyID, pm_Claims = claims,
                     pm_Signature = lb_encode64 lb signature\<rparr>)))"

text \<open>What \<open>VerifyPermit\<close> hands to the verifier: the key, the payload and the signature bytes.\<close>

definition permit_query :: "library \<Rightarrow> permit \<Rightarrow> go_error + string \<times> string \<times> string" where
  "permit_query lb p =
     (if pm_APIVersion p \<noteq> PermitVersion then Inl (NewError ''unsupported EGE permit version'')
      else if pm_KeyID p = [] \<or> pm_Signature p = []
      then Inl (NewError ''EGE permit key_id and signature are required'')
      else case lb_decode64 lb (pm_Signature p) of
          None \<Rightarrow> Inl (NewError ''decode EGE permit signature'')
        | Some signature \<Rightarrow>
          (case canonicalPermitPayload lb (pm_Claims p) of
             Inl e \<Rightarrow> Inl e
           | Inr payload \<Rightarrow> Inr (pm_KeyID p, payload, signature)))"

definition VerifyPermit :: "library \<Rightarrow> signature_verifier option \<Rightarrow> permit \<Rightarrow> go_error option" where
  "VerifyPermit lb authority p =
     (case authority of
        None \<Rightarrow> Some (NewError ''EGE permit authority is required'')
      | Some verify \<Rightarrow>
        (case permit_query lb p of
           Inl e \<Rightarrow> Some e
         | Inr (keyID, payload, signature) \<Rightarrow> verify keyID payload signature))"

section \<open>Capability fences\<close>

abbreviation CapabilityFenceVersion :: string where
  "CapabilityFenceVersion \<equiv> ''aegis.ege/capability-fence/v0alpha1''"

record authority_snapshot =
  as_AuthorityDomain :: string
  as_AuthorityTerm :: u64
  as_DecisionEpoch :: u64
  as_RevocationEpoch :: u64

record state_binding =
  sb_Target :: permit_target
  sb_TargetIdentity :: string
  sb_ResourceVersion :: string
  sb_PlanDigest :: string

datatype capability_error =
    ErrCapabilityFenceInvalid
  | ErrCapabilityAuthorityChanged
  | ErrCapabilityDecisionSuperseded
  | ErrCapabilityRevoked
  | ErrCapabilityTargetChanged
  | ErrCapabilityStateChanged
  | ErrCapabilityMarshal

definition trim_state_binding :: "state_binding \<Rightarrow> state_binding" where
  "trim_state_binding b =
     \<lparr>sb_Target = \<lparr>tg_Type = trim_space (tg_Type (sb_Target b)), tg_Name = trim_space (tg_Name (sb_Target b))\<rparr>,
      sb_TargetIdentity = trim_space (sb_TargetIdentity b),
      sb_ResourceVersion = trim_space (sb_ResourceVersion b),
      sb_PlanDigest = trim_space (sb_PlanDigest b)\<rparr>"

definition state_binding_json :: "state_binding \<Rightarrow> json" where
  "state_binding_json b = JObj
     [(''target'', target_json (sb_Target b)), (''target_identity'', JStr (sb_TargetIdentity b)),
      (''resource_version'', JStr (sb_ResourceVersion b)), (''plan_digest'', JStr (sb_PlanDigest b))]"

definition DigestCapabilityStateBinding :: "library \<Rightarrow> state_binding \<Rightarrow> capability_error + string" where
  "DigestCapabilityStateBinding lb binding =
     (let b = trim_state_binding binding in
      if tg_Type (sb_Target b) = [] \<or> tg_Name (sb_Target b) = [] then Inl ErrCapabilityFenceInvalid
      else if sb_TargetIdentity b = [] then Inl ErrCapabilityFenceInvalid
      else if sb_ResourceVersion b = [] then Inl ErrCapabilityFenceInvalid
      else if sb_PlanDigest b = [] then Inl ErrCapabilityFenceInvalid
      else case lb_marshal lb (state_binding_json b) of
          None \<Rightarrow> Inl ErrCapabilityMarshal
        | Some payload \<Rightarrow> Inr (sha256_tag (lb_sha lb) payload))"

definition ValidateCapabilityFenceClaims :: "capability_fence \<Rightarrow> capability_error option" where
  "ValidateCapabilityFenceClaims c =
     (if cf_Version c \<noteq> CapabilityFenceVersion then Some ErrCapabilityFenceInvalid
      else if blank (cf_AuthorityDomain c) then Some ErrCapabilityFenceInvalid
      else if cf_AuthorityTerm c = 0 then Some ErrCapabilityFenceInvalid
      else if cf_DecisionEpoch c = 0 then Some ErrCapabilityFenceInvalid
      else if cf_TargetIdentity c = [] then Some ErrCapabilityFenceInvalid
      else if cf_StateBindingDigest c = [] then Some ErrCapabilityFenceInvalid
      else None)"

definition ValidateCapabilityFence ::
  "library \<Rightarrow> capability_fence \<Rightarrow> authority_snapshot \<Rightarrow> state_binding \<Rightarrow> capability_error option" where
  "ValidateCapabilityFence lb c current st =
     (case ValidateCapabilityFenceClaims c of
        Some e \<Rightarrow> Some e
      | None \<Rightarrow>
        if blank (as_AuthorityDomain current) \<or> as_AuthorityTerm current = 0 \<or> as_DecisionEpoch current = 0
        then Some ErrCapabilityFenceInvalid
        else if cf_AuthorityDomain c \<noteq> as_AuthorityDomain current \<or> cf_AuthorityTerm c \<noteq> as_AuthorityTerm current
        then Some ErrCapabilityAuthorityChanged
        else if cf_DecisionEpoch c \<noteq> as_DecisionEpoch current then Some ErrCapabilityDecisionSuperseded
        else if cf_RevocationEpoch c \<noteq> as_RevocationEpoch current then Some ErrCapabilityRevoked
        else if cf_TargetIdentity c \<noteq> trim_space (sb_TargetIdentity st) then Some ErrCapabilityTargetChanged
        else case DigestCapabilityStateBinding lb st of
            Inl e \<Rightarrow> Some e
          | Inr digest \<Rightarrow> if cf_StateBindingDigest c \<noteq> digest then Some ErrCapabilityStateChanged else None)"

section \<open>Properties\<close>

text \<open>A permit that an authority signed verifies under its own verifier.\<close>

lemma sign_verify:
  assumes signed: "SignPermit lb (Some sign) claims = Inr p"
    and laws: "\<And>payload k s. sign payload = Inr (k, s) \<Longrightarrow> k \<noteq> [] \<and> verify k payload s = None"
    and codec: "\<And>s. lb_decode64 lb (lb_encode64 lb s) = Some s \<and> lb_encode64 lb s \<noteq> []"
  shows "VerifyPermit lb (Some verify) p = None"
proof -
  from signed obtain payload k s where pay: "canonicalPermitPayload lb claims = Inr payload"
    and sg: "sign payload = Inr (k, s)"
    and p: "p = \<lparr>pm_APIVersion = PermitVersion, pm_KeyID = k, pm_Claims = claims,
                 pm_Signature = lb_encode64 lb s\<rparr>"
    by (auto simp: SignPermit_def split: sum.splits)
  show ?thesis
    using laws [OF sg] codec [of s] pay by (simp add: VerifyPermit_def permit_query_def p)
qed

text \<open>
  The signed payload sorts the reference lists, so reordering them leaves the signature valid.
\<close>

lemma canonicalPermitPayload_reorder:
  assumes "mset refs = mset (pc_ApprovalRefs claims)"
  shows "canonicalPermitPayload lb (claims\<lparr>pc_ApprovalRefs := refs\<rparr>) = canonicalPermitPayload lb claims"
  using sort_cong_mset [OF assms] by (simp add: canonicalPermitPayload_def)

lemma permit_query_reorder:
  assumes "mset refs = mset (pc_ApprovalRefs (pm_Claims p))"
  shows "permit_query lb (p\<lparr>pm_Claims := (pm_Claims p)\<lparr>pc_ApprovalRefs := refs\<rparr>\<rparr>) = permit_query lb p"
  by (simp add: permit_query_def canonicalPermitPayload_reorder [OF assms] split: option.split sum.split)

text \<open>
  A capability fence holds exactly when authority, epochs, target and the trimmed state are the
  ones it was issued for.
\<close>

lemma capability_fence_iff:
  "ValidateCapabilityFence lb c current st = None \<longleftrightarrow>
     ValidateCapabilityFenceClaims c = None \<and>
     cf_AuthorityDomain c = as_AuthorityDomain current \<and> cf_AuthorityTerm c = as_AuthorityTerm current \<and>
     cf_DecisionEpoch c = as_DecisionEpoch current \<and> cf_RevocationEpoch c = as_RevocationEpoch current \<and>
     cf_TargetIdentity c = trim_space (sb_TargetIdentity st) \<and>
     DigestCapabilityStateBinding lb st = Inr (cf_StateBindingDigest c)"
  unfolding ValidateCapabilityFence_def guard_simps
  by (auto simp: ValidateCapabilityFenceClaims_def guard_simps split: sum.splits if_splits)

end
