(* ===== verification/Evidence_Packet.thy ===== *)
theory Evidence_Packet
  imports Permit
begin

text \<open>
  The evidence pipeline (\<open>internal/evidencepipeline\<close>): a runtime event with its bootstrap context is
  compiled into an evidence packet, in which the sensitive values are redacted and which is sealed
  by a digest; a permit is bound to a packet, signed, and checked against it again before it is
  used. JSON encoding and decoding and SHA-256 are parameters.

  A Go map is an association list, of which the first binding of a key counts; its document lists
  the keys in order, as \<open>encoding/json\<close> writes them. A \<open>nil\<close> map is \<open>None\<close>.
\<close>

section \<open>Data\<close>

type_synonym go_map = "(string \<times> json) list"

definition map_keys :: "go_map \<Rightarrow> string list" where
  "map_keys m = sort (remdups (map fst m))"

definition map_json :: "go_map \<Rightarrow> json" where
  "map_json m = JObj (map (\<lambda>k. (k, the (map_of m k))) (map_keys m))"

definition nil_map_json :: "go_map option \<Rightarrow> json" where
  "nil_map_json m = (case m of None \<Rightarrow> JNull | Some kvs \<Rightarrow> map_json kvs)"

record packet_source =
  so_Name :: string
  so_TrustDomain :: string
  so_AttestationRef :: string

record packet_actor =
  ac_PrincipalID :: string
  ac_AgentID :: string

record packet_action =
  ax_Kind :: string
  ax_Tool :: string
  ax_Operation :: string
  ax_Target :: string
  ax_SideEffect :: bool

record runtime_event =
  rv_IntentID :: string
  rv_EventID :: string
  rv_WorkflowID :: string
  rv_RunID :: string
  rv_Actor :: packet_actor
  rv_Action :: packet_action
  rv_ObservedAt :: time
  rv_Data :: "go_map option"

record bootstrap_context =
  bc_AuthorityRef :: string
  bc_PolicyRef :: string
  bc_RedactionProfileRef :: string
  bc_ConsequenceClass :: string
  bc_ExecutionBinding :: "execution_binding option"
  bc_ControlRefs :: "string list"
  bc_ApprovalRefs :: "string list"

record compile_request =
  cr_Event :: runtime_event
  cr_Source :: packet_source
  cr_Context :: bootstrap_context
  cr_SensitivePaths :: "string list"
  cr_CapturedAt :: time

record packet_provenance =
  pv_Source :: packet_source
  pv_EventID :: string
  pv_WorkflowID :: string
  pv_RunID :: string
  pv_InputDigest :: string
  pv_ObservedAt :: time
  pv_CapturedAt :: time

record redaction_summary =
  rd_ProfileRef :: string
  rd_RedactedPaths :: "string list"

record packet_integrity =
  ig_Algorithm :: string
  ig_Digest :: string

record packet =
  pk_APIVersion :: string
  pk_IntentID :: string
  pk_Provenance :: packet_provenance
  pk_Actor :: packet_actor
  pk_Action :: packet_action
  pk_Context :: bootstrap_context
  pk_Evidence :: "go_map option"
  pk_Redaction :: redaction_summary
  pk_Integrity :: packet_integrity

abbreviation PacketVersion :: string where
  "PacketVersion \<equiv> ''aegis.ege/evidence-packet/v0alpha2''"

abbreviation redactedValue :: json where
  "redactedValue \<equiv> JStr ''[REDACTED]''"

subsection \<open>Documents\<close>

definition source_json :: "packet_source \<Rightarrow> json" where
  "source_json s = JObj
     ([(''name'', JStr (so_Name s)), (''trust_domain'', JStr (so_TrustDomain s))] @
      omit_empty ''attestation_ref'' (so_AttestationRef s))"

definition actor_json :: "packet_actor \<Rightarrow> json" where
  "actor_json a = JObj ([(''principal_id'', JStr (ac_PrincipalID a))] @ omit_empty ''agent_id'' (ac_AgentID a))"

definition action_json :: "packet_action \<Rightarrow> json" where
  "action_json a = JObj
     [(''kind'', JStr (ax_Kind a)), (''tool'', JStr (ax_Tool a)), (''operation'', JStr (ax_Operation a)),
      (''target'', JStr (ax_Target a)), (''side_effect'', JBool (ax_SideEffect a))]"

definition runtime_event_json :: "runtime_event \<Rightarrow> json" where
  "runtime_event_json e = JObj
     ([(''intent_id'', JStr (rv_IntentID e)), (''event_id'', JStr (rv_EventID e))] @
      omit_empty ''workflow_id'' (rv_WorkflowID e) @ omit_empty ''run_id'' (rv_RunID e) @
      [(''actor'', actor_json (rv_Actor e)), (''action'', action_json (rv_Action e)),
       (''observed_at'', JTime (rv_ObservedAt e)), (''data'', nil_map_json (rv_Data e))])"

definition context_json :: "bootstrap_context \<Rightarrow> json" where
  "context_json c = JObj
     ([(''authority_ref'', JStr (bc_AuthorityRef c)), (''policy_ref'', JStr (bc_PolicyRef c)),
       (''redaction_profile_ref'', JStr (bc_RedactionProfileRef c)),
       (''consequence_class'', JStr (bc_ConsequenceClass c))] @
      omit_nil binding_json ''execution_binding'' (bc_ExecutionBinding c) @
      omit_empty_list ''control_refs'' (bc_ControlRefs c) @
      omit_empty_list ''approval_refs'' (bc_ApprovalRefs c))"

definition provenance_json :: "packet_provenance \<Rightarrow> json" where
  "provenance_json p = JObj
     ([(''source'', source_json (pv_Source p)), (''event_id'', JStr (pv_EventID p))] @
      omit_empty ''workflow_id'' (pv_WorkflowID p) @ omit_empty ''run_id'' (pv_RunID p) @
      [(''input_digest'', JStr (pv_InputDigest p)), (''observed_at'', JTime (pv_ObservedAt p)),
       (''captured_at'', JTime (pv_CapturedAt p))])"

definition redaction_json :: "redaction_summary \<Rightarrow> json" where
  "redaction_json r = JObj
     ([(''profile_ref'', JStr (rd_ProfileRef r))] @ omit_empty_list ''redacted_paths'' (rd_RedactedPaths r))"

definition unsigned_packet_json :: "packet \<Rightarrow> json" where
  "unsigned_packet_json p = JObj
     [(''api_version'', JStr (pk_APIVersion p)), (''intent_id'', JStr (pk_IntentID p)),
      (''provenance'', provenance_json (pk_Provenance p)), (''actor'', actor_json (pk_Actor p)),
      (''action'', action_json (pk_Action p)), (''context'', context_json (pk_Context p)),
      (''evidence'', nil_map_json (pk_Evidence p)), (''redaction'', redaction_json (pk_Redaction p))]"

section \<open>String helpers\<close>

text \<open>\<open>strings.ReplaceAll\<close> for a non-empty pattern: occurrences from the left, without overlap.\<close>

function replace_all :: "string \<Rightarrow> string \<Rightarrow> string \<Rightarrow> string" where
  "replace_all old new s =
     (case s of
        [] \<Rightarrow> []
      | c # cs \<Rightarrow>
        if old \<noteq> [] \<and> prefix old s then new @ replace_all old new (drop (length old) s)
        else c # replace_all old new cs)"
  by pat_completeness auto
termination
  by (relation "measure (\<lambda>(old, new, s). length s)") auto

declare replace_all.simps [simp del]

lemma replace_all_Nil [simp]: "replace_all old new [] = []"
  by (simp add: replace_all.simps)

text \<open>The reference tokens of a JSON pointer: \<open>strings.Split(pointer[1:], "/")\<close>, unescaped.\<close>

fun split_slash :: "string \<Rightarrow> string list" where
  "split_slash [] = [[]]"
| "split_slash (c # cs) =
     (if c = CHR ''/'' then [] # split_slash cs
      else case split_slash cs of [] \<Rightarrow> [[c]] | t # ts \<Rightarrow> (c # t) # ts)"

definition unescape_token :: "string \<Rightarrow> string" where
  "unescape_token t = replace_all ''~0'' ''~'' (replace_all ''~1'' ''/'' t)"

definition pointer_segments :: "string \<Rightarrow> string list" where
  "pointer_segments pointer = map unescape_token (split_slash (drop 1 pointer))"

text \<open>\<open>strconv.Atoi\<close>: an optional sign and decimal digits, within the range of \<open>int\<close>.\<close>

definition is_digit :: "char \<Rightarrow> bool" where
  "is_digit c \<longleftrightarrow> CHR ''0'' \<le> c \<and> c \<le> CHR ''9''"

definition digits_value :: "string \<Rightarrow> int" where
  "digits_value ds = foldl (\<lambda>v c. 10 * v + (int (of_char c) - 48)) 0 ds"

definition Atoi :: "string \<Rightarrow> int option" where
  "Atoi s =
     (let neg = (s \<noteq> [] \<and> hd s = CHR ''-'');
          ds = (if s \<noteq> [] \<and> (hd s = CHR ''-'' \<or> hd s = CHR ''+'') then tl s else s);
          v = (if neg then - digits_value ds else digits_value ds)
      in if ds = [] \<or> \<not> list_all is_digit ds then None
         else if v < - (2 ^ 63) \<or> v \<ge> 2 ^ 63 then None
         else Some v)"

section \<open>The compiler\<close>

text \<open>\<open>uniqueSorted\<close>: first occurrences, then an insertion sort that sifts each element down.\<close>

fun unique_loop :: "string list \<Rightarrow> string list \<Rightarrow> string list" where
  "unique_loop seen [] = []"
| "unique_loop seen (v # vs) =
     (if v \<in> set seen then unique_loop seen vs else v # unique_loop (v # seen) vs)"

fun sift_down :: "string \<Rightarrow> string list \<Rightarrow> string list" where
  "sift_down x [] = [x]"
| "sift_down x (y # ys) = (if x < y then y # sift_down x ys else x # y # ys)"

definition uniqueSorted :: "string list \<Rightarrow> string list" where
  "uniqueSorted values = rev (foldl (\<lambda>acc x. sift_down x acc) [] (unique_loop [] values))"

definition digestJSON :: "library \<Rightarrow> json \<Rightarrow> go_error + string" where
  "digestJSON lb doc =
     (case lb_marshal lb doc of
        None \<Rightarrow> Inl marshal_error
      | Some body \<Rightarrow> Inr (sha256_tag (lb_sha lb) body))"

definition digestPacket :: "library \<Rightarrow> packet \<Rightarrow> go_error + string" where
  "digestPacket lb p = digestJSON lb (unsigned_packet_json p)"

text \<open>
  \<open>cloneMap\<close> copies a map through its JSON text; \<open>unmarshal_map\<close> is \<open>json.Unmarshal\<close> into a map,
  which leaves \<open>null\<close> a \<open>nil\<close> map.
\<close>

type_synonym unmarshal_map = "string \<Rightarrow> go_map option option"

definition cloneMap :: "library \<Rightarrow> unmarshal_map \<Rightarrow> go_map option \<Rightarrow> go_error + go_map option" where
  "cloneMap lb un input =
     (case lb_marshal lb (nil_map_json input) of
        None \<Rightarrow> Inl marshal_error
      | Some body \<Rightarrow>
        (case un body of None \<Rightarrow> Inl (NewError ''json: cannot unmarshal'') | Some out \<Rightarrow> Inr out))"

definition update_key :: "string \<Rightarrow> json \<Rightarrow> (string \<times> json) list \<Rightarrow> (string \<times> json) list" where
  "update_key k v = map (\<lambda>(k', v'). if k' = k then (k', v) else (k', v'))"

fun redactAt :: "json \<Rightarrow> string list \<Rightarrow> go_error + json" where
  "redactAt current [] = Inl (NewError ''cannot redact the document root'')"
| "redactAt (JObj node) (segment # rest) =
     (case map_of node segment of
        None \<Rightarrow> Inl (NewError ''sensitive path does not exist'')
      | Some value \<Rightarrow>
        if rest = [] then Inr (JObj (update_key segment redactedValue node))
        else case redactAt value rest of
            Inl e \<Rightarrow> Inl e
          | Inr v \<Rightarrow> Inr (JObj (update_key segment v node)))"
| "redactAt (JArr node) (segment # rest) =
     (case Atoi segment of
        None \<Rightarrow> Inl (NewError ''sensitive array index does not exist'')
      | Some index \<Rightarrow>
        if index < 0 \<or> index \<ge> int (length node)
        then Inl (NewError ''sensitive array index does not exist'')
        else if rest = [] then Inr (JArr (node[nat index := redactedValue]))
        else case redactAt (node ! nat index) rest of
            Inl e \<Rightarrow> Inl e
          | Inr v \<Rightarrow> Inr (JArr (node[nat index := v])))"
| "redactAt current (segment # rest) = Inl (NewError ''sensitive path traverses a scalar value'')"

definition redactJSONPointer :: "json \<Rightarrow> string \<Rightarrow> go_error + json" where
  "redactJSONPointer root pointer =
     (if pointer = [] \<or> hd pointer \<noteq> CHR ''/''
      then Inl (NewError ''sensitive path must be an RFC 6901 JSON Pointer'')
      else redactAt root (pointer_segments pointer))"

fun redact_loop :: "json \<Rightarrow> string list \<Rightarrow> go_error + json" where
  "redact_loop doc [] = Inr doc"
| "redact_loop doc (path # paths) =
     (case redactJSONPointer doc path of
        Inl e \<Rightarrow> Inl (wrap ''redact'' e)
      | Inr doc' \<Rightarrow> redact_loop doc' paths)"

text \<open>The top level of the evidence is a map; a lookup in a \<open>nil\<close> map finds nothing.\<close>

definition redact_map :: "go_map option \<Rightarrow> string list \<Rightarrow> go_error + go_map option" where
  "redact_map m paths =
     (if paths = [] then Inr m
      else case redact_loop (JObj (case m of None \<Rightarrow> [] | Some kvs \<Rightarrow> kvs)) paths of
          Inl e \<Rightarrow> Inl e
        | Inr (JObj kvs) \<Rightarrow> Inr (Some kvs)
        | Inr _ \<Rightarrow> Inl (NewError ''unreachable''))"

definition validate_binding :: "execution_binding \<Rightarrow> go_error option" where
  "validate_binding b =
     (if blank (eb_DestinationID b) then Some (NewError ''execution binding destination_id is required'')
      else if blank (eb_AccountID b) then Some (NewError ''execution binding account_id is required'')
      else if blank (eb_Endpoint b) then Some (NewError ''execution binding endpoint is required'')
      else if blank (eb_AdapterProfile b) then Some (NewError ''execution binding adapter_profile is required'')
      else if blank (eb_ExpectedResourceVersion b)
      then Some (NewError ''execution binding expected_resource_version is required'')
      else None)"

definition validateCompileRequest :: "compile_request \<Rightarrow> go_error option" where
  "validateCompileRequest req =
     (let ev = cr_Event req; ctx = cr_Context req in
      if rv_IntentID ev = [] then Some (NewError ''intent_id is required'')
      else if rv_EventID ev = [] then Some (NewError ''event_id is required'')
      else if is_zero (rv_ObservedAt ev) then Some (NewError ''observed_at is required'')
      else if is_zero (cr_CapturedAt req) then Some (NewError ''captured_at is required'')
      else if so_Name (cr_Source req) = [] then Some (NewError ''source name is required'')
      else if so_TrustDomain (cr_Source req) = [] then Some (NewError ''source trust_domain is required'')
      else if ac_PrincipalID (rv_Actor ev) = [] then Some (NewError ''actor principal_id is required'')
      else if ax_Kind (rv_Action ev) = [] then Some (NewError ''action kind is required'')
      else if ax_Tool (rv_Action ev) = [] then Some (NewError ''action tool is required'')
      else if ax_Operation (rv_Action ev) = [] then Some (NewError ''action operation is required'')
      else if ax_Target (rv_Action ev) = [] then Some (NewError ''action target is required'')
      else if bc_AuthorityRef ctx = []
      then Some (NewError ''authority_ref is required; authority must not be inferred from runtime behavior'')
      else if bc_PolicyRef ctx = [] then Some (NewError ''policy_ref is required'')
      else if bc_RedactionProfileRef ctx = [] then Some (NewError ''redaction_profile_ref is required'')
      else if bc_ConsequenceClass ctx = [] then Some (NewError ''consequence_class is required'')
      else if rv_Data ev = None then Some (NewError ''event data is required'')
      else case bc_ExecutionBinding ctx of None \<Rightarrow> None | Some b \<Rightarrow> validate_binding b)"

definition compiled :: "compile_request \<Rightarrow> go_map option \<Rightarrow> string \<Rightarrow> packet" where
  "compiled req evidence inputDigest =
     (let ev = cr_Event req;
          ctx = (cr_Context req)\<lparr>bc_ControlRefs := uniqueSorted (bc_ControlRefs (cr_Context req)),
                                bc_ApprovalRefs := uniqueSorted (bc_ApprovalRefs (cr_Context req))\<rparr>
      in \<lparr>pk_APIVersion = PacketVersion,
          pk_IntentID = rv_IntentID ev,
          pk_Provenance =
            \<lparr>pv_Source = cr_Source req, pv_EventID = rv_EventID ev, pv_WorkflowID = rv_WorkflowID ev,
             pv_RunID = rv_RunID ev, pv_InputDigest = inputDigest, pv_ObservedAt = rv_ObservedAt ev,
             pv_CapturedAt = cr_CapturedAt req\<rparr>,
          pk_Actor = rv_Actor ev,
          pk_Action = rv_Action ev,
          pk_Context = ctx,
          pk_Evidence = evidence,
          pk_Redaction =
            \<lparr>rd_ProfileRef = bc_RedactionProfileRef ctx,
             rd_RedactedPaths = uniqueSorted (cr_SensitivePaths req)\<rparr>,
          pk_Integrity = \<lparr>ig_Algorithm = [], ig_Digest = []\<rparr>\<rparr>)"

definition Compile :: "library \<Rightarrow> unmarshal_map \<Rightarrow> compile_request \<Rightarrow> go_error + packet" where
  "Compile lb un req =
     (case validateCompileRequest req of
        Some e \<Rightarrow> Inl e
      | None \<Rightarrow>
        (case cloneMap lb un (rv_Data (cr_Event req)) of
           Inl e \<Rightarrow> Inl (wrap ''clone event data'' e)
         | Inr copied \<Rightarrow>
           (case redact_map copied (uniqueSorted (cr_SensitivePaths req)) of
              Inl e \<Rightarrow> Inl e
            | Inr evidence \<Rightarrow>
              (case digestJSON lb (runtime_event_json (cr_Event req)) of
                 Inl e \<Rightarrow> Inl (wrap ''digest runtime event'' e)
               | Inr inputDigest \<Rightarrow>
                 (let p = compiled req evidence inputDigest in
                  case digestPacket lb p of
                    Inl e \<Rightarrow> Inl e
                  | Inr digest \<Rightarrow>
                      Inr (p\<lparr>pk_Integrity := \<lparr>ig_Algorithm = ''sha256'', ig_Digest = digest\<rparr>\<rparr>))))))"

definition VerifyPacket :: "library \<Rightarrow> packet \<Rightarrow> go_error option" where
  "VerifyPacket lb p =
     (if pk_APIVersion p \<noteq> PacketVersion then Some (NewError ''unsupported evidence packet version'')
      else if ig_Algorithm (pk_Integrity p) \<noteq> ''sha256'' \<or> ig_Digest (pk_Integrity p) = []
      then Some (NewError ''invalid evidence packet integrity metadata'')
      else case digestPacket lb p of
          Inl e \<Rightarrow> Some e
        | Inr actual \<Rightarrow>
          if actual \<noteq> ig_Digest (pk_Integrity p) then Some (NewError ''evidence packet integrity mismatch'')
          else None)"

section \<open>Binding a permit to a packet\<close>

definition check_execution_binding ::
  "execution_binding option \<Rightarrow> permit_claims \<Rightarrow> go_error option" where
  "check_execution_binding expected claims =
     (case (expected, pc_ExecutionBinding claims) of
        (None, None) \<Rightarrow> None
      | (Some e, Some a) \<Rightarrow>
          if eb_DestinationID e \<noteq> eb_DestinationID a \<or> eb_AccountID e \<noteq> eb_AccountID a \<or>
             eb_Endpoint e \<noteq> eb_Endpoint a \<or> eb_AdapterProfile e \<noteq> eb_AdapterProfile a \<or>
             eb_ExpectedResourceVersion e \<noteq> eb_ExpectedResourceVersion a
          then Some (NewError ''execution binding mismatch'')
          else if pc_ResourceVersion claims \<noteq> eb_ExpectedResourceVersion a
          then Some (NewError ''execution binding resource version mismatch'')
          else None
      | _ \<Rightarrow> Some (NewError ''execution binding presence mismatch''))"

definition BindPermitClaims :: "library \<Rightarrow> packet \<Rightarrow> permit_claims \<Rightarrow> go_error + permit_claims" where
  "BindPermitClaims lb p claims =
     (let ctx = pk_Context p; ax = pk_Action p in
      case VerifyPacket lb p of
        Some e \<Rightarrow> Inl (wrap ''verify evidence packet'' e)
      | None \<Rightarrow>
        if pk_IntentID p = [] \<or> pk_IntentID p \<noteq> pc_IntentID claims
        then Inl (NewError ''evidence packet intent mismatch'')
        else if ax_Kind ax \<noteq> pc_Kind claims then Inl (NewError ''evidence packet kind mismatch'')
        else if ax_Operation ax \<noteq> pc_Action claims then Inl (NewError ''evidence packet action mismatch'')
        else if ax_Target ax \<noteq> tg_Type (pc_Target claims) @ ''/'' @ tg_Name (pc_Target claims)
        then Inl (NewError ''evidence packet target mismatch'')
        else if \<not> ax_SideEffect ax
        then Inl (NewError ''evidence packet is not bound to a side-effecting action'')
        else if bc_AuthorityRef ctx = [] then Inl (NewError ''evidence packet authority_ref is required'')
        else if bc_PolicyRef ctx = [] then Inl (NewError ''evidence packet policy_ref is required'')
        else if bc_RedactionProfileRef ctx = []
        then Inl (NewError ''evidence packet redaction_profile_ref is required'')
        else if bc_ConsequenceClass ctx = []
        then Inl (NewError ''evidence packet consequence_class is required'')
        else case check_execution_binding (bc_ExecutionBinding ctx) claims of
            Some e \<Rightarrow> Inl e
          | None \<Rightarrow> Inr (claims\<lparr>pc_EvidencePacketDigest := ig_Digest (pk_Integrity p)\<rparr>))"

definition VerifyPermitPacketBinding :: "library \<Rightarrow> packet \<Rightarrow> permit_claims \<Rightarrow> go_error option" where
  "VerifyPermitPacketBinding lb p claims =
     (if pc_EvidencePacketDigest claims = []
      then Some (NewError ''execution permit is not bound to an evidence packet'')
      else if pc_EvidencePacketDigest claims \<noteq> ig_Digest (pk_Integrity p)
      then Some (NewError ''execution permit evidence packet digest mismatch'')
      else case BindPermitClaims lb p claims of
          Inl e \<Rightarrow> Some e
        | Inr bound \<Rightarrow>
          if pc_EvidencePacketDigest bound \<noteq> pc_EvidencePacketDigest claims
          then Some (NewError ''execution permit evidence packet binding changed'')
          else None)"

definition SignEvidenceBoundPermit ::
  "library \<Rightarrow> signer option \<Rightarrow> packet \<Rightarrow> permit_claims \<Rightarrow> go_error + permit" where
  "SignEvidenceBoundPermit lb authority p claims =
     (case BindPermitClaims lb p claims of
        Inl e \<Rightarrow> Inl e
      | Inr bound \<Rightarrow> SignPermit lb authority bound)"

section \<open>The authorization event\<close>

text \<open>
  \<open>AuthorizationEventFromEvidenceBoundPermit\<close> verifies the permit again and projects it; the part
  after the verification is pure.
\<close>

definition blank_event :: journal_event where
  "blank_event =
     \<lparr>je_Type = [], je_ActionID = [], je_Target = [], je_Decision = [], je_ReasonCodes = [],
      je_EvidenceDigest = [], je_EvidencePacketDigest = [], je_PlanDigest = [], je_AttemptID = [],
      je_DestinationID = [], je_AccountID = [], je_ObservationHandle = [], je_AttemptState = [],
      je_OutcomeVerdict = [], je_PayloadDigest = [], je_OccurredAt = 0\<rparr>"

definition authorization_event :: "library \<Rightarrow> permit \<Rightarrow> time \<Rightarrow> go_error + journal_event" where
  "authorization_event lb p occurredAt =
     (let c = pm_Claims p in
      if pc_EvidencePacketDigest c = []
      then Inl (NewError ''execution permit is not bound to an evidence packet'')
      else case DigestPayload lb (permit_json p) of
          Inl e \<Rightarrow> Inl (wrap ''digest execution permit'' e)
        | Inr payloadDigest \<Rightarrow>
            Inr (blank_event\<lparr>je_Type := EventAuthorization, je_ActionID := pc_IntentID c,
                   je_Target := tg_Type (pc_Target c) @ ''/'' @ tg_Name (pc_Target c),
                   je_EvidenceDigest := pc_EvidenceDigest c,
                   je_EvidencePacketDigest := pc_EvidencePacketDigest c,
                   je_PlanDigest := pc_PlanDigest c, je_PayloadDigest := payloadDigest,
                   je_OccurredAt := occurredAt\<rparr>))"

definition AuthorizationEventFromEvidenceBoundPermit ::
  "library \<Rightarrow> signature_verifier option \<Rightarrow> permit \<Rightarrow> time \<Rightarrow> go_error + journal_event" where
  "AuthorizationEventFromEvidenceBoundPermit lb verifier p occurredAt =
     (case VerifyPermit lb verifier p of
        Some e \<Rightarrow> Inl (wrap ''verify execution permit'' e)
      | None \<Rightarrow> authorization_event lb p occurredAt)"

section \<open>Sorting without duplicates\<close>

lemma unique_loop_set: "set (unique_loop seen vs) = set vs - set seen"
  by (induction vs arbitrary: seen) auto

lemma unique_loop_distinct: "distinct (unique_loop seen vs)"
  by (induction vs arbitrary: seen) (auto simp: unique_loop_set)

lemma sift_down_set: "set (sift_down x ys) = insert x (set ys)"
  by (induction ys) auto

lemma sift_down_sorted: "sorted_wrt (\<lambda>a b. b \<le> a) ys \<Longrightarrow> sorted_wrt (\<lambda>a b. b \<le> a) (sift_down x ys)"
  by (induction ys) (auto simp: sift_down_set)

lemma sift_down_distinct: "distinct (x # ys) \<Longrightarrow> distinct (sift_down x ys)"
  by (induction ys) (auto simp: sift_down_set)

lemma sift_loop:
  "distinct (ys @ xs) \<Longrightarrow> sorted_wrt (\<lambda>a b. b \<le> a) ys \<Longrightarrow>
   (let zs = foldl (\<lambda>acc x. sift_down x acc) ys xs in
      set zs = set ys \<union> set xs \<and> distinct zs \<and> sorted_wrt (\<lambda>a b. b \<le> a) zs)"
proof (induction xs arbitrary: ys)
  case (Cons x xs)
  have "distinct (sift_down x ys @ xs)" using Cons.prems by (auto simp: sift_down_set sift_down_distinct)
  from Cons.IH [OF this sift_down_sorted [OF Cons.prems(2)]] show ?case
    by (simp add: sift_down_set Let_def)
qed simp

lemma uniqueSorted_eq: "uniqueSorted values = sort (remdups values)"
proof (rule sorted_distinct_set_unique)
  let ?zs = "foldl (\<lambda>acc x. sift_down x acc) [] (unique_loop [] values)"
  have zs: "set ?zs = set values \<and> distinct ?zs \<and> sorted_wrt (\<lambda>a b. b \<le> a) ?zs"
    using sift_loop [of "[]" "unique_loop [] values"]
    by (simp add: unique_loop_distinct unique_loop_set Let_def)
  then show "sorted (uniqueSorted values)" "distinct (uniqueSorted values)"
    by (simp_all add: uniqueSorted_def sorted_wrt_rev)
  show "set (uniqueSorted values) = set (sort (remdups values))"
    using zs by (simp add: uniqueSorted_def)
qed simp_all

section \<open>Redaction\<close>

text \<open>The value at a path, and when two paths may name overlapping parts of a document.\<close>

fun json_at :: "json \<Rightarrow> string list \<Rightarrow> json option" where
  "json_at doc [] = Some doc"
| "json_at (JObj node) (s # rest) = (case map_of node s of None \<Rightarrow> None | Some v \<Rightarrow> json_at v rest)"
| "json_at (JArr node) (s # rest) =
     (case Atoi s of
        None \<Rightarrow> None
      | Some i \<Rightarrow> if i < 0 \<or> i \<ge> int (length node) then None else json_at (node ! nat i) rest)"
| "json_at doc (s # rest) = None"

definition same_token :: "string \<Rightarrow> string \<Rightarrow> bool" where
  "same_token s t \<longleftrightarrow> s = t \<or> Atoi s \<noteq> None \<and> Atoi s = Atoi t"

fun overlapping :: "string list \<Rightarrow> string list \<Rightarrow> bool" where
  "overlapping (s # p) (t # q) \<longleftrightarrow> same_token s t \<and> overlapping p q"
| "overlapping _ _ \<longleftrightarrow> True"

definition hidden :: "json \<Rightarrow> string list \<Rightarrow> bool" where
  "hidden doc p \<longleftrightarrow> json_at doc p \<in> {None, Some redactedValue}"

definition evidence_doc :: "go_map option \<Rightarrow> json" where
  "evidence_doc m = JObj (case m of None \<Rightarrow> [] | Some kvs \<Rightarrow> kvs)"

lemma map_of_update_key:
  "map_of (update_key k v kvs) k' = (if k' = k \<and> map_of kvs k \<noteq> None then Some v else map_of kvs k')"
  by (induction kvs) (auto simp: update_key_def)

lemma json_at_redacted: "json_at redactedValue p = (if p = [] then Some redactedValue else None)"
  by (cases p) auto

text \<open>
  What a successful redaction does to the node it meets first: the value that the first token
  names is replaced, by the marker or by the redacted value below.
\<close>

lemma redactAt_step:
  assumes "redactAt doc (s # rest) = Inr doc'"
  obtains (obj) node u v where "doc = JObj node" and "map_of node s = Some u"
      and "doc' = JObj (update_key s v node)"
      and "rest = [] \<and> v = redactedValue \<or> rest \<noteq> [] \<and> redactAt u rest = Inr v"
    | (arr) node i v where "doc = JArr node" and "Atoi s = Some i" and "0 \<le> i" and "i < int (length node)"
      and "doc' = JArr (node[nat i := v])"
      and "rest = [] \<and> v = redactedValue \<or> rest \<noteq> [] \<and> redactAt (node ! nat i) rest = Inr v"
proof (cases doc)
  case (JObj node)
  with assms obtain u where u: "map_of node s = Some u" by (auto split: option.splits)
  show thesis
  proof (cases "rest = []")
    case True
    with assms JObj u show thesis by (intro obj [of node u redactedValue]) auto
  next
    case False
    with assms JObj u obtain v where "redactAt u rest = Inr v" "doc' = JObj (update_key s v node)"
      by (auto split: sum.splits)
    with JObj u False show thesis by (intro obj [of node u v]) auto
  qed
next
  case (JArr node)
  with assms obtain i where i: "Atoi s = Some i" "0 \<le> i" "i < int (length node)"
    by (auto split: option.splits if_splits)
  show thesis
  proof (cases "rest = []")
    case True
    with assms JArr i show thesis by (intro arr [of node i redactedValue]) auto
  next
    case False
    with assms JArr i obtain v where "redactAt (node ! nat i) rest = Inr v" "doc' = JArr (node[nat i := v])"
      by (auto split: sum.splits)
    with JArr i False show thesis by (intro arr [of node i v]) auto
  qed
qed (use assms in auto)

lemma redactAt_hits: "redactAt doc p = Inr doc' \<Longrightarrow> json_at doc' p = Some redactedValue"
proof (induction p arbitrary: doc doc')
  case (Cons s rest)
  from Cons.prems show ?case
  proof (cases rule: redactAt_step)
    case (obj node u v)
    then show ?thesis using Cons.IH by (auto simp: map_of_update_key)
  next
    case (arr node i v)
    then show ?thesis using Cons.IH by (auto simp: nth_list_update)
  qed
qed simp

lemma redactAt_misses:
  "redactAt doc p = Inr doc' \<Longrightarrow> \<not> overlapping p q \<Longrightarrow> json_at doc' q = json_at doc q"
proof (induction p arbitrary: doc doc' q)
  case (Cons s rest)
  then obtain t r where q: "q = t # r" by (cases q) auto
  from Cons.prems(1) show ?case
  proof (cases rule: redactAt_step)
    case (obj node u v)
    have "s = t \<Longrightarrow> json_at v r = json_at u r"
      using Cons.IH [of u v r] obj(4) Cons.prems(2) by (auto simp: q same_token_def)
    with obj show ?thesis by (auto simp: q map_of_update_key)
  next
    case (arr node i v)
    have "json_at v r = json_at (node ! nat i) r" if "Atoi t = Some i"
    proof -
      from that arr(2) have "same_token s t" by (simp add: same_token_def)
      with Cons.prems(2) have "\<not> overlapping rest r" by (simp add: q)
      with arr(6) Cons.IH [of "node ! nat i" v r] show ?thesis by (cases rest) auto
    qed
    with arr(1,3,4,5) show ?thesis by (simp add: q nth_list_update nat_eq_iff split: option.split)
  qed
qed simp

lemma redactAt_keeps_hidden: "redactAt doc p = Inr doc' \<Longrightarrow> hidden doc q \<Longrightarrow> hidden doc' q"
proof (induction p arbitrary: doc doc' q)
  case (Cons s rest)
  from Cons.prems(1) show ?case
  proof (cases rule: redactAt_step)
    case (obj node u v)
    with Cons.prems(2) obtain t r where q: "q = t # r" by (cases q) (auto simp: hidden_def)
    have "s = t \<Longrightarrow> hidden v r"
      using Cons.IH [of u v r] obj(1,2,4) Cons.prems(2) by (auto simp: q hidden_def json_at_redacted)
    with obj Cons.prems(2) show ?thesis by (auto simp: q hidden_def map_of_update_key)
  next
    case (arr node i v)
    with Cons.prems(2) obtain t r where q: "q = t # r" by (cases q) (auto simp: hidden_def)
    have "Atoi t = Some i \<Longrightarrow> hidden v r"
      using Cons.IH [of "node ! nat i" v r] arr(1,3,4,6) Cons.prems(2)
      by (auto simp: q hidden_def json_at_redacted)
    with arr(1,3,4,5) Cons.prems(2) show ?thesis
      by (auto simp: q hidden_def nth_list_update nat_eq_iff split: option.splits if_splits)
  qed
qed simp

lemma redact_loop_spec:
  assumes "redact_loop doc paths = Inr doc'"
  shows "(\<forall>q. hidden doc q \<longrightarrow> hidden doc' q) \<and> (\<forall>path \<in> set paths. hidden doc' (pointer_segments path)) \<and>
    (\<forall>q. (\<forall>path \<in> set paths. \<not> overlapping (pointer_segments path) q) \<longrightarrow> json_at doc' q = json_at doc q)"
  using assms
proof (induction doc paths rule: redact_loop.induct)
  case (2 doc path paths)
  then obtain doc1 where step: "redactAt doc (pointer_segments path) = Inr doc1"
    and red: "redactJSONPointer doc path = Inr doc1" and rest: "redact_loop doc1 paths = Inr doc'"
    by (auto simp: redactJSONPointer_def split: sum.splits if_splits)
  note IH = "2.IH" [OF red rest]
  have "hidden doc1 (pointer_segments path)" using redactAt_hits [OF step] by (simp add: hidden_def)
  with IH redactAt_misses [OF step] redactAt_keeps_hidden [OF step] show ?case by simp
qed simp

lemma redact_loop_JObj: "redact_loop doc paths = Inr doc' \<Longrightarrow> \<exists>kvs. doc = JObj kvs \<Longrightarrow> \<exists>kvs. doc' = JObj kvs"
proof (induction doc paths rule: redact_loop.induct)
  case (2 doc path paths)
  then obtain doc1 where "redactJSONPointer doc path = Inr doc1" "redact_loop doc1 paths = Inr doc'"
    by (auto split: sum.splits)
  moreover from this(1) "2.prems"(2) have "\<exists>kvs. doc1 = JObj kvs"
    by (cases "pointer_segments path")
      (auto simp: redactJSONPointer_def split: if_splits option.splits sum.splits)
  ultimately show ?case using "2.IH" by blast
qed simp

lemma redact_map_doc:
  assumes "redact_map m paths = Inr m'"
  shows "redact_loop (evidence_doc m) paths = Inr (evidence_doc m')"
proof (cases "paths = []")
  case False
  with assms obtain doc' where loop: "redact_loop (evidence_doc m) paths = Inr doc'"
    by (auto simp: redact_map_def evidence_doc_def split: sum.splits)
  then obtain kvs' where "doc' = JObj kvs'" using redact_loop_JObj [OF loop] by (auto simp: evidence_doc_def)
  with loop False assms show ?thesis by (auto simp: redact_map_def evidence_doc_def)
qed (use assms in \<open>simp add: redact_map_def\<close>)

section \<open>What the pipeline guarantees\<close>

lemma digestJSON_sealed: "digestJSON lb doc = Inr d \<Longrightarrow> d \<noteq> []"
  by (auto simp: digestJSON_def sha256_tag_def split: option.splits)

lemma unsigned_packet_json_integrity:
  "unsigned_packet_json (p\<lparr>pk_Integrity := i\<rparr>) = unsigned_packet_json p"
  by (simp add: unsigned_packet_json_def)


lemma check_execution_binding_iff:
  "check_execution_binding expected claims = None \<longleftrightarrow>
     expected = pc_ExecutionBinding claims \<and>
     (\<forall>b. expected = Some b \<longrightarrow> pc_ResourceVersion claims = eb_ExpectedResourceVersion b)"
proof (cases "pc_ExecutionBinding claims")
  case (Some a)
  then show ?thesis
    by (cases expected) (auto simp: check_execution_binding_def intro: execution_binding.equality)
qed (cases expected; simp add: check_execution_binding_def)

lemma BindPermitClaims_Inr:
  "BindPermitClaims lb p claims = Inr bound \<longleftrightarrow>
     VerifyPacket lb p = None \<and> pk_IntentID p \<noteq> [] \<and> pk_IntentID p = pc_IntentID claims \<and>
     ax_Kind (pk_Action p) = pc_Kind claims \<and> ax_Operation (pk_Action p) = pc_Action claims \<and>
     ax_Target (pk_Action p) = tg_Type (pc_Target claims) @ ''/'' @ tg_Name (pc_Target claims) \<and>
     ax_SideEffect (pk_Action p) \<and>
     bc_AuthorityRef (pk_Context p) \<noteq> [] \<and> bc_PolicyRef (pk_Context p) \<noteq> [] \<and>
     bc_RedactionProfileRef (pk_Context p) \<noteq> [] \<and> bc_ConsequenceClass (pk_Context p) \<noteq> [] \<and>
     bc_ExecutionBinding (pk_Context p) = pc_ExecutionBinding claims \<and>
     (\<forall>b. pc_ExecutionBinding claims = Some b \<longrightarrow> pc_ResourceVersion claims = eb_ExpectedResourceVersion b) \<and>
     bound = claims\<lparr>pc_EvidencePacketDigest := ig_Digest (pk_Integrity p)\<rparr>"
proof -
  let ?e = "VerifyPacket lb p" and ?b = "check_execution_binding (bc_ExecutionBinding (pk_Context p)) claims"
  have "?e = None \<and> ?b = None \<or> ?e \<noteq> None \<or> ?b \<noteq> None" by blast
  then show ?thesis
    unfolding BindPermitClaims_def Let_def guard_simps
    using check_execution_binding_iff [of "bc_ExecutionBinding (pk_Context p)" claims] by auto
qed


end
