(* ===== verification/Canonical_JSON.thy ===== *)
theory Canonical_JSON
  imports Evidence_Packet
begin

text \<open>
  The canonical JSON of \<open>internal/ege/conformance.go\<close> (profile \<open>eba.canonical-json/v1\<close>): UTF-8 and
  escape validation of the raw bytes, and the reading of the token tree, which admits unique keys and
  integers in the exact range of a \<open>float64\<close>. The tokenizer of \<open>encoding/json\<close> is a parameter that
  yields the token tree of a text, or the error that \<open>Token\<close> reports.
\<close>

section \<open>Bytes\<close>

abbreviation byte_of :: "char \<Rightarrow> nat" where
  "byte_of c \<equiv> of_char c"

text \<open>The length of the well-formed UTF-8 sequence that a text starts with, 0 if there is none.\<close>

definition utf8_length :: "string \<Rightarrow> nat" where
  "utf8_length s =
     (case map byte_of (take 4 s) of
        [] \<Rightarrow> 0
      | a # t \<Rightarrow>
        (let within = (\<lambda>n l h. n < length t \<and> l \<le> t ! n \<and> t ! n \<le> h) in
         if a < 0x80 then 1
         else if 0xC2 \<le> a \<and> a \<le> 0xDF then (if within 0 0x80 0xBF then 2 else 0)
         else if 0xE0 \<le> a \<and> a \<le> 0xEF
         then (if within 0 (if a = 0xE0 then 0xA0 else 0x80) (if a = 0xED then 0x9F else 0xBF) \<and>
                  within 1 0x80 0xBF then 3 else 0)
         else if 0xF0 \<le> a \<and> a \<le> 0xF4
         then (if within 0 (if a = 0xF0 then 0x90 else 0x80) (if a = 0xF4 then 0x8F else 0xBF) \<and>
                  within 1 0x80 0xBF \<and> within 2 0x80 0xBF then 4 else 0)
         else 0))"

function utf8_valid :: "string \<Rightarrow> bool" where
  "utf8_valid s =
     (if s = [] then True
      else if utf8_length s = 0 then False
      else utf8_valid (drop (utf8_length s) s))"
  by pat_completeness auto
termination
  by (relation "measure length") auto

declare utf8_valid.simps [simp del]

definition parseHex4 :: "string \<Rightarrow> nat option" where
  "parseHex4 raw =
     (if length raw \<noteq> 4 then None
      else foldl (\<lambda>acc c. case (acc, from_hex c) of (Some v, Some d) \<Rightarrow> Some (16 * v + d) | _ \<Rightarrow> None) (Some 0) raw)"

abbreviation canonical_invalid :: go_error where
  "canonical_invalid \<equiv> NewError ''CANONICAL_JSON_INVALID''"

abbreviation string_invalid :: go_error where
  "string_invalid \<equiv> NewError ''CANONICAL_STRING_INVALID''"

text \<open>
  \<open>validateJSONStringEscapes\<close>; the flag says whether the scan is inside a string. After a backslash
  and a \<open>u\<close>, four hexadecimal digits follow, and a high surrogate must be followed by an escaped low one.
\<close>

function scan_escapes :: "bool \<Rightarrow> string \<Rightarrow> go_error option" where
  "scan_escapes inside raw =
     (case raw of
        [] \<Rightarrow> if inside then Some canonical_invalid else None
      | c # cs \<Rightarrow>
        if \<not> inside then scan_escapes (c = CHR 0x22) cs
        else if c = CHR 0x22 then scan_escapes False cs
        else if c = CHR 0x5C
        then (case cs of
                [] \<Rightarrow> Some canonical_invalid
              | d # ds \<Rightarrow>
                if d \<noteq> CHR ''u'' then scan_escapes True ds
                else if length ds < 4 then Some canonical_invalid
                else case parseHex4 (take 4 ds) of
                    None \<Rightarrow> Some canonical_invalid
                  | Some code \<Rightarrow>
                    if 0xD800 \<le> code \<and> code \<le> 0xDBFF
                    then (if length ds < 10 \<or> ds ! 4 \<noteq> CHR 0x5C \<or> ds ! 5 \<noteq> CHR ''u'' then Some string_invalid
                          else case parseHex4 (take 4 (drop 6 ds)) of
                              None \<Rightarrow> Some string_invalid
                            | Some low \<Rightarrow>
                              if low < 0xDC00 \<or> low > 0xDFFF then Some string_invalid
                              else scan_escapes True (drop 10 ds))
                    else if 0xDC00 \<le> code \<and> code \<le> 0xDFFF then Some string_invalid
                    else scan_escapes True (drop 4 ds))
        else if byte_of c < 0x20 then Some string_invalid
        else scan_escapes True cs)"
  by pat_completeness auto
termination
  by (relation "measure (\<lambda>(inside, raw). length raw)") auto

declare scan_escapes.simps [simp del]

definition validateJSONStringEscapes :: "string \<Rightarrow> go_error option" where
  "validateJSONStringEscapes raw = scan_escapes False raw"

section \<open>Values\<close>

datatype raw_json =
    RNull
  | RBool bool
  | RNumber string
  | RString string
  | RArr "raw_json list"
  | RObj "(string \<times> raw_json) list"

abbreviation maxCanonicalSafeInteger :: int where
  "maxCanonicalSafeInteger \<equiv> 9007199254740991"

definition read_number :: "string \<Rightarrow> go_error + json" where
  "read_number raw =
     (if raw = ''-0'' then Inl (NewError ''CANONICAL_NEGATIVE_ZERO'')
      else if list_ex (\<lambda>c. c \<in> set ''.eE'') raw
      then Inl (NewError (''CANONICAL_NON_INTEGER_NUMBER:'' @ raw))
      else case Atoi raw of
          None \<Rightarrow> Inl (NewError (''CANONICAL_INTEGER_OUT_OF_RANGE:'' @ raw))
        | Some parsed \<Rightarrow>
          if parsed < - maxCanonicalSafeInteger \<or> parsed > maxCanonicalSafeInteger
          then Inl (NewError (''CANONICAL_INTEGER_OUT_OF_RANGE:'' @ raw))
          else Inr (JNum parsed))"

fun readCanonicalValue :: "raw_json \<Rightarrow> go_error + json"
  and read_items :: "raw_json list \<Rightarrow> go_error + json list"
  and read_members :: "go_map \<Rightarrow> (string \<times> raw_json) list \<Rightarrow> go_error + go_map" where
  "readCanonicalValue RNull = Inr JNull"
| "readCanonicalValue (RBool b) = Inr (JBool b)"
| "readCanonicalValue (RString s) = Inr (JStr s)"
| "readCanonicalValue (RNumber s) = read_number s"
| "readCanonicalValue (RArr xs) = (case read_items xs of Inl e \<Rightarrow> Inl e | Inr vs \<Rightarrow> Inr (JArr vs))"
| "readCanonicalValue (RObj ms) = (case read_members [] ms of Inl e \<Rightarrow> Inl e | Inr kvs \<Rightarrow> Inr (map_json kvs))"
| "read_items [] = Inr []"
| "read_items (x # xs) =
     (case readCanonicalValue x of
        Inl e \<Rightarrow> Inl e
      | Inr v \<Rightarrow> (case read_items xs of Inl e \<Rightarrow> Inl e | Inr vs \<Rightarrow> Inr (v # vs)))"
| "read_members object [] = Inr object"
| "read_members object ((key, raw) # ms) =
     (if map_of object key \<noteq> None then Inl (NewError (''CANONICAL_DUPLICATE_KEY:'' @ key))
      else case readCanonicalValue raw of
          Inl e \<Rightarrow> Inl e
        | Inr item \<Rightarrow> read_members ((key, item) # object) ms)"

type_synonym tokenizer = "string \<Rightarrow> go_error + raw_json"

definition decodeCanonicalJSON :: "tokenizer \<Rightarrow> string \<Rightarrow> go_error + json" where
  "decodeCanonicalJSON tokens raw =
     (if \<not> utf8_valid raw then Inl (NewError ''CANONICAL_UTF8_INVALID'')
      else case validateJSONStringEscapes raw of
          Some e \<Rightarrow> Inl e
        | None \<Rightarrow> (case tokens raw of Inl e \<Rightarrow> Inl e | Inr tree \<Rightarrow> readCanonicalValue tree))"

definition CanonicalJSON :: "library \<Rightarrow> tokenizer \<Rightarrow> string \<Rightarrow> go_error + string" where
  "CanonicalJSON lb tokens raw =
     (case decodeCanonicalJSON tokens raw of
        Inl e \<Rightarrow> Inl e
      | Inr value \<Rightarrow> (case lb_marshal lb value of None \<Rightarrow> Inl marshal_error | Some out \<Rightarrow> Inr out))"

end
