(* ===== verification/Crm_Attempt.thy ===== *)
theory Crm_Attempt
  imports Permit
begin

text \<open>
  The durable store of CRM mutation attempts (\<open>internal/eepcrm/attempt_store.go\<close>): one file per
  attempt, created exclusively by \<open>Claim\<close> and replaced atomically by \<open>Transition\<close>. The store is the
  map from file names in its directory to contents. What the file system does to an operation is an
  argument of it, so every failure of the source is a branch: a failure before the file changes, a
  torn write, and a failure that is reported after the change took effect. The store's mutex makes
  each operation atomic with respect to the others.
\<close>

section \<open>Data\<close>

datatype attempt_state =
    AttemptClaimed
  | AttemptPossibleEffect
  | AttemptAccepted
  | AttemptBlocked
  | AttemptCompleted
  | AttemptRetiredUnknown
  | AttemptOther string

fun attempt_state_text :: "attempt_state \<Rightarrow> string" where
  "attempt_state_text AttemptClaimed = ''CLAIMED''"
| "attempt_state_text AttemptPossibleEffect = ''POSSIBLE_EFFECT''"
| "attempt_state_text AttemptAccepted = ''ACCEPTED''"
| "attempt_state_text AttemptBlocked = ''BLOCKED''"
| "attempt_state_text AttemptCompleted = ''COMPLETED''"
| "attempt_state_text AttemptRetiredUnknown = ''RETIRED_UNKNOWN''"
| "attempt_state_text (AttemptOther s) = s"

record attempt_record =
  ar_Version :: string
  ar_AttemptID :: string
  ar_State :: attempt_state
  ar_IntentID :: string
  ar_PermitDigest :: string
  ar_PlanDigest :: string
  ar_DestinationID :: string
  ar_AccountID :: string
  ar_Endpoint :: string
  ar_AdapterProfile :: string
  ar_CustomerID :: string
  ar_Operation :: string
  ar_ExpectedResourceVersion :: string
  ar_ObservationHandle :: string
  ar_ClaimedAt :: time
  ar_UpdatedAt :: time
  ar_HTTPStatus :: int
  ar_Detail :: string

abbreviation AttemptRecordVersion :: string where
  "AttemptRecordVersion \<equiv> ''aegis.eep/crm-attempt/v1''"

abbreviation ErrAttemptAlreadyClaimed :: go_error where
  "ErrAttemptAlreadyClaimed \<equiv> NewError ''CRM mutation attempt already claimed''"

abbreviation ErrAttemptNotFound :: go_error where
  "ErrAttemptNotFound \<equiv> NewError ''CRM mutation attempt not found''"

abbreviation ErrAttemptTransition :: go_error where
  "ErrAttemptTransition \<equiv> NewError ''CRM mutation attempt transition invalid''"

definition omit_zero :: "string \<Rightarrow> int \<Rightarrow> (string \<times> json) list" where
  "omit_zero k v = (if v = 0 then [] else [(k, JNum v)])"

definition attempt_json :: "attempt_record \<Rightarrow> json" where
  "attempt_json r = JObj
     ([(''version'', JStr (ar_Version r)), (''attempt_id'', JStr (ar_AttemptID r)),
       (''state'', JStr (attempt_state_text (ar_State r))), (''intent_id'', JStr (ar_IntentID r)),
       (''permit_digest'', JStr (ar_PermitDigest r)), (''plan_digest'', JStr (ar_PlanDigest r)),
       (''destination_id'', JStr (ar_DestinationID r)), (''account_id'', JStr (ar_AccountID r)),
       (''endpoint'', JStr (ar_Endpoint r)), (''adapter_profile'', JStr (ar_AdapterProfile r)),
       (''customer_id'', JStr (ar_CustomerID r)), (''operation'', JStr (ar_Operation r)),
       (''expected_resource_version'', JStr (ar_ExpectedResourceVersion r)),
       (''observation_handle'', JStr (ar_ObservationHandle r)),
       (''claimed_at'', JTime (ar_ClaimedAt r)), (''updated_at'', JTime (ar_UpdatedAt r))] @
      omit_zero ''http_status'' (ar_HTTPStatus r) @ omit_empty ''detail'' (ar_Detail r))"

text \<open>The library of the store: that of the permits, and the decoder of attempt records.\<close>

record attempt_codec =
  at_library :: library
  at_unmarshal :: "string \<Rightarrow> attempt_record option"

type_synonym attempt_files = "string \<rightharpoonup> string"

datatype file_fault =
    NoFault
  | FailBefore go_error
  | TornWrite string go_error
  | FailAfter go_error

section \<open>Operations\<close>

definition MutationAttemptID :: "library \<Rightarrow> string \<Rightarrow> string \<Rightarrow> go_error + string" where
  "MutationAttemptID lb permitDigest planDigest =
     (let permitDigest = trim_space permitDigest; planDigest = trim_space planDigest in
      if permitDigest = [] \<or> planDigest = []
      then Inl (NewError ''permit and plan digests are required for attempt identity'')
      else Inr (sha256_tag (lb_sha lb) (permitDigest @ [CHR 0x00] @ planDigest)))"

definition NewFileAttemptStore :: "string \<Rightarrow> go_error option \<Rightarrow> go_error option \<Rightarrow> go_error + string" where
  "NewFileAttemptStore dir mkdir chmod =
     (let dir = trim_space dir in
      if dir = [] then Inl (NewError ''CRM attempt store directory is required'')
      else case mkdir of
          Some e \<Rightarrow> Inl (wrap ''create CRM attempt store'' e)
        | None \<Rightarrow> (case chmod of Some e \<Rightarrow> Inl (wrap ''secure CRM attempt store'' e) | None \<Rightarrow> Inr dir))"

definition validateAttemptRecord :: "attempt_record \<Rightarrow> go_error option" where
  "validateAttemptRecord r =
     (if ar_Version r \<noteq> AttemptRecordVersion then Some (NewError ''unsupported CRM attempt record version'')
      else if blank (ar_AttemptID r) then Some (NewError ''CRM attempt id is required'')
      else if blank (ar_IntentID r) then Some (NewError ''CRM attempt intent id is required'')
      else if blank (ar_PermitDigest r) then Some (NewError ''CRM attempt permit digest is required'')
      else if blank (ar_PlanDigest r) then Some (NewError ''CRM attempt plan digest is required'')
      else if blank (ar_DestinationID r) then Some (NewError ''CRM attempt destination id is required'')
      else if blank (ar_AccountID r) then Some (NewError ''CRM attempt account id is required'')
      else if blank (ar_Endpoint r) then Some (NewError ''CRM attempt endpoint is required'')
      else if blank (ar_AdapterProfile r) then Some (NewError ''CRM attempt adapter profile is required'')
      else if blank (ar_CustomerID r) then Some (NewError ''CRM attempt customer id is required'')
      else if blank (ar_Operation r) then Some (NewError ''CRM attempt operation is required'')
      else if blank (ar_ExpectedResourceVersion r)
      then Some (NewError ''CRM attempt expected resource version is required'')
      else if blank (ar_ObservationHandle r)
      then Some (NewError ''CRM attempt observation handle is required'')
      else if is_zero (ar_ClaimedAt r) \<or> is_zero (ar_UpdatedAt r)
      then Some (NewError ''CRM attempt timestamps are required'')
      else None)"

fun allowedAttemptTransition :: "attempt_state \<Rightarrow> attempt_state \<Rightarrow> bool" where
  "allowedAttemptTransition AttemptClaimed to \<longleftrightarrow>
     to = AttemptBlocked \<or> to = AttemptPossibleEffect \<or> to = AttemptCompleted"
| "allowedAttemptTransition AttemptPossibleEffect to \<longleftrightarrow>
     to = AttemptBlocked \<or> to = AttemptAccepted \<or> to = AttemptCompleted \<or> to = AttemptRetiredUnknown"
| "allowedAttemptTransition AttemptAccepted to \<longleftrightarrow> to = AttemptCompleted \<or> to = AttemptRetiredUnknown"
| "allowedAttemptTransition _ to \<longleftrightarrow> False"

text \<open>The file of an attempt, by its name in the store's directory.\<close>

definition attempt_path :: "string \<Rightarrow> go_error + string" where
  "attempt_path attemptID =
     (if \<not> prefix ''sha256:'' attemptID then Inl (NewError ''CRM attempt id must be sha256'')
      else let hexPart = drop 7 attemptID in
        if length hexPart \<noteq> 64 then Inl (NewError ''CRM attempt id has invalid length'')
        else if hex_decode hexPart = None then Inl (NewError ''CRM attempt id has invalid hex'')
        else Inr (hexPart @ ''.json''))"

lemma attempt_path_code [code]:
  "attempt_path attemptID =
     (if \<not> prefix ''sha256:'' attemptID then Inl (NewError ''CRM attempt id must be sha256'')
      else let hexPart = drop 7 attemptID in
        if length hexPart \<noteq> 64 then Inl (NewError ''CRM attempt id has invalid length'')
        else if \<not> list_all (\<lambda>c. c \<in> set ''0123456789abcdefABCDEF'') hexPart
        then Inl (NewError ''CRM attempt id has invalid hex'')
        else Inr (hexPart @ ''.json''))"
proof -
  let ?hex = "drop 7 attemptID"
  have "length ?hex = 64 \<Longrightarrow> even (length ?hex)" by simp
  from hex_decode_Some [OF this, unfolded from_hex_Some]
  have "length ?hex = 64 \<Longrightarrow> hex_decode ?hex = None \<longleftrightarrow> \<not> list_all (\<lambda>c. c \<in> set ''0123456789abcdefABCDEF'') ?hex"
    by blast
  then show ?thesis unfolding attempt_path_def Let_def by auto
qed

text \<open>
  \<open>Claim\<close>: the error of the caller's context comes first; the file is created exclusively, and after
  that every failure leaves a file behind.
\<close>

definition claim_file :: "attempt_codec \<Rightarrow> go_error option \<Rightarrow> attempt_record \<Rightarrow> go_error + string \<times> string" where
  "claim_file cd ctx r =
     (case ctx of
        Some e \<Rightarrow> Inl e
      | None \<Rightarrow>
        (case validateAttemptRecord r of
           Some e \<Rightarrow> Inl e
         | None \<Rightarrow>
           if ar_State r \<noteq> AttemptClaimed
           then Inl (Wrapf [] ErrAttemptTransition '': new attempt must start CLAIMED'')
           else case attempt_path (ar_AttemptID r) of
               Inl e \<Rightarrow> Inl e
             | Inr path \<Rightarrow>
               (case lb_marshal (at_library cd) (attempt_json r) of
                  None \<Rightarrow> Inl (wrap ''encode CRM attempt'' marshal_error)
                | Some payload \<Rightarrow> Inr (path, payload @ [CHR 0x0A]))))"

definition FileAttemptStore_Claim ::
  "attempt_codec \<Rightarrow> go_error option \<Rightarrow> file_fault \<Rightarrow> attempt_record \<Rightarrow> attempt_files
    \<Rightarrow> go_error option \<times> attempt_files" where
  "FileAttemptStore_Claim cd ctx fault r fs =
     (case claim_file cd ctx r of
        Inl e \<Rightarrow> (Some e, fs)
      | Inr (path, content) \<Rightarrow>
        if fs path \<noteq> None then (Some ErrAttemptAlreadyClaimed, fs)
        else (case fault of
                FailBefore e \<Rightarrow> (Some (wrap ''claim CRM mutation attempt'' e), fs)
              | TornWrite bytes e \<Rightarrow> (Some (wrap ''write CRM mutation attempt'' e), fs(path \<mapsto> bytes))
              | FailAfter e \<Rightarrow> (Some (wrap ''sync CRM mutation attempt'' e), fs(path \<mapsto> content))
              | NoFault \<Rightarrow> (None, fs(path \<mapsto> content))))"

definition loadUnlocked ::
  "attempt_codec \<Rightarrow> file_fault \<Rightarrow> string \<Rightarrow> attempt_files \<Rightarrow> go_error + attempt_record" where
  "loadUnlocked cd fault attemptID fs =
     (case attempt_path attemptID of
        Inl e \<Rightarrow> Inl e
      | Inr path \<Rightarrow>
        (case fs path of
           None \<Rightarrow> Inl ErrAttemptNotFound
         | Some payload \<Rightarrow>
           (case fault of
              FailBefore e \<Rightarrow> Inl (wrap ''read CRM mutation attempt'' e)
            | _ \<Rightarrow>
              (case at_unmarshal cd payload of
                 None \<Rightarrow> Inl (NewError ''decode CRM mutation attempt'')
               | Some r \<Rightarrow>
                 (case validateAttemptRecord r of
                    Some e \<Rightarrow> Inl e
                  | None \<Rightarrow>
                    if ar_AttemptID r \<noteq> attemptID
                    then Inl (Wrapf [] ErrAttemptTransition '': attempt identity mismatch'')
                    else Inr r)))))"

definition FileAttemptStore_Load ::
  "attempt_codec \<Rightarrow> go_error option \<Rightarrow> file_fault \<Rightarrow> string \<Rightarrow> attempt_files \<Rightarrow> go_error + attempt_record" where
  "FileAttemptStore_Load cd ctx fault attemptID fs =
     (case ctx of Some e \<Rightarrow> Inl e | None \<Rightarrow> loadUnlocked cd fault attemptID fs)"

text \<open>
  \<open>writeAtomic\<close>: the temporary file is written, synced and renamed over the record; only a failure
  of the final directory sync is reported after the change.
\<close>

definition writeAtomic ::
  "attempt_codec \<Rightarrow> file_fault \<Rightarrow> attempt_record \<Rightarrow> attempt_files \<Rightarrow> go_error option \<times> attempt_files" where
  "writeAtomic cd fault r fs =
     (case attempt_path (ar_AttemptID r) of
        Inl e \<Rightarrow> (Some e, fs)
      | Inr path \<Rightarrow>
        (case lb_marshal (at_library cd) (attempt_json r) of
           None \<Rightarrow> (Some (wrap ''encode CRM mutation attempt'' marshal_error), fs)
         | Some payload \<Rightarrow>
           (case fault of
              FailBefore e \<Rightarrow> (Some e, fs)
            | TornWrite bytes e \<Rightarrow> (Some e, fs)
            | FailAfter e \<Rightarrow> (Some e, fs(path \<mapsto> payload @ [CHR 0x0A]))
            | NoFault \<Rightarrow> (None, fs(path \<mapsto> payload @ [CHR 0x0A])))))"

definition moved_record :: "attempt_record \<Rightarrow> attempt_state \<Rightarrow> int \<Rightarrow> string \<Rightarrow> time \<Rightarrow> attempt_record" where
  "moved_record r to status detail at =
     r\<lparr>ar_State := to, ar_HTTPStatus := status, ar_Detail := trim_space detail, ar_UpdatedAt := at\<rparr>"

definition load_for_transition ::
  "attempt_codec \<Rightarrow> go_error option \<Rightarrow> file_fault \<Rightarrow> string \<Rightarrow> attempt_state \<Rightarrow> attempt_state \<Rightarrow> attempt_files
    \<Rightarrow> go_error + attempt_record" where
  "load_for_transition cd ctx readFault attemptID from to fs =
     (case ctx of
        Some e \<Rightarrow> Inl e
      | None \<Rightarrow>
        if \<not> allowedAttemptTransition from to then Inl ErrAttemptTransition
        else case loadUnlocked cd readFault attemptID fs of
            Inl e \<Rightarrow> Inl e
          | Inr r \<Rightarrow>
            if ar_State r \<noteq> from
            then Inl (Wrapf [] ErrAttemptTransition
                   ('': state='' @ attempt_state_text (ar_State r) @ '' want='' @ attempt_state_text from))
            else Inr r)"

definition FileAttemptStore_Transition ::
  "attempt_codec \<Rightarrow> go_error option \<Rightarrow> file_fault \<Rightarrow> file_fault \<Rightarrow> string \<Rightarrow> attempt_state \<Rightarrow> attempt_state
    \<Rightarrow> int \<Rightarrow> string \<Rightarrow> time \<Rightarrow> attempt_files \<Rightarrow> (go_error + attempt_record) \<times> attempt_files" where
  "FileAttemptStore_Transition cd ctx readFault writeFault attemptID from to status detail at fs =
     (case load_for_transition cd ctx readFault attemptID from to fs of
        Inl e \<Rightarrow> (Inl e, fs)
      | Inr r \<Rightarrow>
        let r' = moved_record r to status detail at in
        case writeAtomic cd writeFault r' fs of
          (Some e, fs') \<Rightarrow> (Inl e, fs')
        | (None, fs') \<Rightarrow> (Inr r', fs'))"

section \<open>Paths and identities\<close>

lemma attempt_path_inj: "attempt_path a = Inr p \<Longrightarrow> attempt_path b = Inr p \<Longrightarrow> a = b"
  by (auto simp: attempt_path_def Let_def prefix_def split: if_splits)

lemma MutationAttemptID_path:
  assumes "MutationAttemptID lb permitDigest planDigest = Inr i" and "\<And>x. length (lb_sha lb x) = 32"
  shows "\<exists>p. attempt_path i = Inr p"
  using assms
  by (auto simp: MutationAttemptID_def Let_def attempt_path_def sha256_tag_def hex_encode_length
      hex_decode_encode split: if_splits)

section \<open>Claims are exclusive\<close>

text \<open>
  What the executor needs of its store: a successful claim is the first one for its attempt, and
  nothing ever gives a claimed attempt up.
\<close>

locale exclusive_claims =
  fixes claim :: "'x \<Rightarrow> attempt_record \<Rightarrow> 's \<Rightarrow> go_error option \<times> 's"
    and other :: "'y \<Rightarrow> 's \<Rightarrow> 's"
    and held :: "'s \<Rightarrow> string \<Rightarrow> bool"
  assumes claim_won: "claim x r s = (None, s') \<Longrightarrow> \<not> held s (ar_AttemptID r) \<and> held s' (ar_AttemptID r)"
    and claim_keeps: "claim x r s = (e, s') \<Longrightarrow> held s i \<Longrightarrow> held s' i"
    and other_keeps: "held s i \<Longrightarrow> held (other y s) i"
begin

lemma claim_extends_custody:
  assumes "distinct won" and "\<forall>i \<in> set won. held s i" and "claim x r s = (e, s')"
  shows "distinct (if e = None then ar_AttemptID r # won else won) \<and>
    (\<forall>i \<in> set (if e = None then ar_AttemptID r # won else won). held s' i)"
proof (cases e)
  case None
  with assms(3) have "\<not> held s (ar_AttemptID r)" "held s' (ar_AttemptID r)" using claim_won by blast+
  with assms claim_keeps [OF assms(3)] None show ?thesis by auto
next
  case (Some err)
  with assms claim_keeps [OF assms(3)] show ?thesis by simp
qed

lemma other_keeps_custody: "\<forall>i \<in> set won. held s i \<Longrightarrow> \<forall>i \<in> set won. held (other y s) i"
  using other_keeps by blast

end

definition attempt_held :: "attempt_files \<Rightarrow> string \<Rightarrow> bool" where
  "attempt_held fs i \<longleftrightarrow> (case attempt_path i of Inl _ \<Rightarrow> False | Inr p \<Rightarrow> fs p \<noteq> None)"

lemma claim_file_Inr:
  assumes "claim_file cd ctx r = Inr (p, content)"
  shows "attempt_path (ar_AttemptID r) = Inr p \<and> ctx = None \<and> validateAttemptRecord r = None \<and>
    ar_State r = AttemptClaimed \<and>
    (\<exists>payload. lb_marshal (at_library cd) (attempt_json r) = Some payload \<and> content = payload @ [CHR 0x0A])"
  using assms by (auto simp: claim_file_def guard_simps split: option.splits)

lemma Claim_cases:
  assumes "FileAttemptStore_Claim cd ctx fault r fs = (e, fs')"
  obtains (refused) err where "e = Some err" and "fs' = fs"
    | (created) p content bytes where "claim_file cd ctx r = Inr (p, content)" and "fs p = None"
      and "fs' = fs(p \<mapsto> bytes)" and "e = None \<longrightarrow> bytes = content"
proof (cases "claim_file cd ctx r")
  case (Inr pc)
  obtain p content where pc: "pc = (p, content)" by (cases pc)
  show thesis
  proof (cases "fs p = None")
    case True
    have "e \<noteq> None \<and> fs' = fs \<or> (\<exists>bytes. fs' = fs(p \<mapsto> bytes) \<and> (e = None \<longrightarrow> bytes = content))"
      using assms Inr pc True by (cases fault) (auto simp: FileAttemptStore_Claim_def)
    then show thesis using refused created Inr pc True by blast
  next
    case False
    with assms Inr pc have "e \<noteq> None \<and> fs' = fs" by (auto simp: FileAttemptStore_Claim_def)
    then show thesis using refused by blast
  qed
next
  case (Inl err)
  with assms have "e = Some err \<and> fs' = fs" by (simp add: FileAttemptStore_Claim_def)
  then show thesis using refused by blast
qed

lemma Claim_held:
  assumes "FileAttemptStore_Claim cd ctx fault r fs = (e, fs')"
  shows "attempt_held fs i \<Longrightarrow> attempt_held fs' i"
    and "e = None \<Longrightarrow> \<not> attempt_held fs (ar_AttemptID r) \<and> attempt_held fs' (ar_AttemptID r)"
  using assms
  by (cases rule: Claim_cases; auto simp: attempt_held_def dest: claim_file_Inr split: sum.splits)+

lemma loadUnlocked_path:
  assumes "loadUnlocked cd rf i fs = Inr r"
  shows "(\<exists>p. attempt_path i = Inr p \<and> fs p \<noteq> None) \<and> ar_AttemptID r = i"
  using assms by (auto simp: loadUnlocked_def split: sum.splits option.splits file_fault.splits if_splits)

lemma load_for_transition_Inr:
  "load_for_transition cd ctx rf i from to fs = Inr r \<longleftrightarrow>
     ctx = None \<and> allowedAttemptTransition from to \<and> loadUnlocked cd rf i fs = Inr r \<and> ar_State r = from"
  by (auto simp: load_for_transition_def split: option.splits sum.splits)

text \<open>A transition changes nothing, or replaces the record it loaded by the moved one.\<close>

lemma Transition_cases:
  assumes "FileAttemptStore_Transition cd ctx rf wrf i from to st d t fs = (res, fs')"
  obtains (refused) err where "res = Inl err" and "fs' = fs"
    | (moved) r p payload where "load_for_transition cd ctx rf i from to fs = Inr r"
      and "attempt_path i = Inr p" and "fs p \<noteq> None"
      and "lb_marshal (at_library cd) (attempt_json (moved_record r to st d t)) = Some payload"
      and "fs' = fs(p \<mapsto> payload @ [CHR 0x0A])"
      and "\<And>v. res = Inr v \<Longrightarrow> v = moved_record r to st d t"
proof (cases "load_for_transition cd ctx rf i from to fs")
  case (Inr r)
  let ?r' = "moved_record r to st d t"
  from Inr have load: "loadUnlocked cd rf i fs = Inr r" by (simp add: load_for_transition_Inr)
  then obtain p where p: "attempt_path i = Inr p" "fs p \<noteq> None" "ar_AttemptID r = i"
    using loadUnlocked_path by blast
  then have path: "attempt_path (ar_AttemptID ?r') = Inr p" by (simp add: moved_record_def)
  show thesis
  proof (cases "lb_marshal (at_library cd) (attempt_json ?r')")
    case None
    with assms Inr path have "(\<exists>err. res = Inl err) \<and> fs' = fs"
      by (simp add: FileAttemptStore_Transition_def writeAtomic_def Let_def) blast
    then show thesis using refused by blast
  next
    case (Some payload)
    with assms Inr path have "(\<exists>err. res = Inl err) \<and> fs' = fs \<or>
        fs' = fs(p \<mapsto> payload @ [CHR 0x0A]) \<and> (\<forall>v. res = Inr v \<longrightarrow> v = ?r')"
      by (cases wrf) (auto simp: FileAttemptStore_Transition_def writeAtomic_def Let_def)
    then show thesis using refused moved [OF Inr p(1,2) Some] by blast
  qed
next
  case (Inl err)
  with assms have "res = Inl err \<and> fs' = fs" by (simp add: FileAttemptStore_Transition_def)
  then show thesis using refused by blast
qed

lemma Transition_held:
  assumes "FileAttemptStore_Transition cd ctx rf wrf j from to st d t fs = (res, fs')" and "attempt_held fs i"
  shows "attempt_held fs' i"
  using assms(1)
  by (cases rule: Transition_cases) (use assms(2) in \<open>auto simp: attempt_held_def split: sum.splits\<close>)

text \<open>The files implement exclusive claims, whatever the file system does.\<close>

interpretation file_claims: exclusive_claims
  "\<lambda>(ctx, fault) r fs. FileAttemptStore_Claim cd ctx fault r fs"
  "\<lambda>(ctx, rf, wrf, i, from, to, st, d, t) fs. snd (FileAttemptStore_Transition cd ctx rf wrf i from to st d t fs)"
  attempt_held for cd
proof (unfold_locales, goal_cases)
  case (1 x r s s')
  then show ?case using Claim_held(2) [of cd "fst x" "snd x" r s None s'] by (simp add: case_prod_unfold)
next
  case (2 x r s e s' i)
  then show ?case using Claim_held(1) [of cd "fst x" "snd x" r s e s' i] by (simp add: case_prod_unfold)
next
  case (3 s i y)
  then show ?case by (auto simp: case_prod_unfold intro: Transition_held [OF prod.collapse [symmetric]])
qed

section \<open>Attempts move forward\<close>

text \<open>
  The record of an attempt as a reader finds it, and what is needed of \<open>encoding/json\<close> for the record
  that an operation writes: it reads back as itself.
\<close>

definition stored :: "attempt_codec \<Rightarrow> attempt_files \<Rightarrow> string \<Rightarrow> attempt_record option" where
  "stored cd fs i = (case loadUnlocked cd NoFault i fs of Inl _ \<Rightarrow> None | Inr r \<Rightarrow> Some r)"

definition reads_back :: "attempt_codec \<Rightarrow> attempt_record \<Rightarrow> bool" where
  "reads_back cd r \<longleftrightarrow>
     validateAttemptRecord r = None \<and>
     (case lb_marshal (at_library cd) (attempt_json r) of
        None \<Rightarrow> True
      | Some payload \<Rightarrow> at_unmarshal cd (payload @ [CHR 0x0A]) = Some r)"

datatype store_op =
    OpClaim "go_error option" file_fault attempt_record
  | OpTransition "go_error option" file_fault file_fault string attempt_state attempt_state int string time

definition apply_op :: "attempt_codec \<Rightarrow> store_op \<Rightarrow> attempt_files \<Rightarrow> attempt_files" where
  "apply_op cd op fs =
     (case op of
        OpClaim ctx fault r \<Rightarrow> snd (FileAttemptStore_Claim cd ctx fault r fs)
      | OpTransition ctx rf wrf i from to st d t \<Rightarrow>
          snd (FileAttemptStore_Transition cd ctx rf wrf i from to st d t fs))"

text \<open>The record that a transition is about to write.\<close>

definition writes :: "attempt_codec \<Rightarrow> store_op \<Rightarrow> attempt_files \<Rightarrow> attempt_record option" where
  "writes cd op fs =
     (case op of
        OpClaim ctx fault r \<Rightarrow> None
      | OpTransition ctx rf wrf i from to st d t \<Rightarrow>
          (case loadUnlocked cd rf i fs of Inl _ \<Rightarrow> None | Inr r \<Rightarrow> Some (moved_record r to st d t)))"

fun store_run :: "attempt_codec \<Rightarrow> store_op list \<Rightarrow> attempt_files \<Rightarrow> attempt_files" where
  "store_run cd [] fs = fs"
| "store_run cd (op # ops) fs = store_run cd ops (apply_op cd op fs)"

fun writes_read_back :: "attempt_codec \<Rightarrow> store_op list \<Rightarrow> attempt_files \<Rightarrow> bool" where
  "writes_read_back cd [] fs \<longleftrightarrow> True"
| "writes_read_back cd (op # ops) fs \<longleftrightarrow>
     (case writes cd op fs of None \<Rightarrow> True | Some r \<Rightarrow> reads_back cd r) \<and> writes_read_back cd ops (apply_op cd op fs)"

definition same_attempt :: "attempt_record \<Rightarrow> attempt_record \<Rightarrow> bool" where
  "same_attempt r r' \<longleftrightarrow>
     r'\<lparr>ar_State := ar_State r, ar_HTTPStatus := ar_HTTPStatus r, ar_Detail := ar_Detail r,
        ar_UpdatedAt := ar_UpdatedAt r\<rparr> = r"

lemma same_attempt_refl: "same_attempt r r"
  by (simp add: same_attempt_def)

lemma same_attempt_moved: "same_attempt r (moved_record r to st d t)"
  by (simp add: same_attempt_def moved_record_def)

lemma moved_record_state [simp]: "ar_State (moved_record r to st d t) = to"
  by (simp add: moved_record_def)

lemma same_attempt_trans: "same_attempt r s \<Longrightarrow> same_attempt s t \<Longrightarrow> same_attempt r t"
  by (cases r; cases s; cases t) (auto simp: same_attempt_def)

lemma stored_Some:
  "stored cd fs i = Some r \<longleftrightarrow>
     (\<exists>p payload. attempt_path i = Inr p \<and> fs p = Some payload \<and> at_unmarshal cd payload = Some r \<and>
        validateAttemptRecord r = None \<and> ar_AttemptID r = i)"
  by (auto simp: stored_def loadUnlocked_def split: sum.splits option.splits if_splits)

lemma loadUnlocked_stored: "loadUnlocked cd rf i fs = Inr r \<Longrightarrow> stored cd fs i = Some r"
  by (auto simp: stored_Some loadUnlocked_def split: sum.splits option.splits if_splits file_fault.splits)

lemma apply_op_forward:
  assumes held: "stored cd fs i = Some r" and rb: "case writes cd op fs of None \<Rightarrow> True | Some r \<Rightarrow> reads_back cd r"
  obtains r' where "stored cd (apply_op cd op fs) i = Some r'" and "same_attempt r r'"
    and "ar_State r' = ar_State r \<or> allowedAttemptTransition (ar_State r) (ar_State r')"
proof (cases op)
  case (OpClaim ctx fault rc)
  obtain e fs' where eq: "FileAttemptStore_Claim cd ctx fault rc fs = (e, fs')"
    by (cases "FileAttemptStore_Claim cd ctx fault rc fs")
  then have "stored cd fs' i = Some r"
  proof (cases rule: Claim_cases)
    case (created p content bytes)
    then have "attempt_path i \<noteq> Inr p" using held by (auto simp: stored_Some)
    with created held show ?thesis by (auto simp: stored_Some)
  qed (use held in simp)
  with eq show thesis
    by (intro that [of r]) (simp_all add: OpClaim apply_op_def same_attempt_refl)
next
  case (OpTransition ctx rf wrf j a b st d t)
  obtain res fs' where eq: "FileAttemptStore_Transition cd ctx rf wrf j a b st d t fs = (res, fs')"
    by (cases "FileAttemptStore_Transition cd ctx rf wrf j a b st d t fs")
  then have result: "apply_op cd op fs = fs'" by (simp add: OpTransition apply_op_def)
  from eq show thesis
  proof (cases rule: Transition_cases)
    case refused
    with held result show thesis by (intro that [of r]) (simp_all add: same_attempt_refl)
  next
    case (moved r0 p payload)
    show thesis
    proof (cases "j = i")
      case True
      have load: "loadUnlocked cd rf j fs = Inr r0" "allowedAttemptTransition a b" "ar_State r0 = a"
        using moved(1) by (simp_all add: load_for_transition_Inr)
      have "r0 = r" using loadUnlocked_stored [OF load(1)] held True by simp
      have "reads_back cd (moved_record r0 b st d t)" using rb load(1) by (simp add: OpTransition writes_def)
      moreover have "ar_AttemptID r = i" using held by (auto simp: stored_Some)
      ultimately have "stored cd fs' i = Some (moved_record r b st d t)"
        using moved True \<open>r0 = r\<close> by (simp add: stored_Some reads_back_def) (simp add: moved_record_def)
      with result load \<open>r0 = r\<close> show thesis
        by (intro that [of "moved_record r b st d t"]) (simp_all add: same_attempt_moved)
    next
      case False
      with moved(2) have "attempt_path i \<noteq> Inr p" using attempt_path_inj by blast
      with held moved(5) have "stored cd fs' i = Some r" by (auto simp: stored_Some)
      with result show thesis by (intro that [of r]) (simp_all add: same_attempt_refl)
    qed
  qed
qed

lemma store_run_forward:
  assumes "stored cd fs i = Some r" and "writes_read_back cd ops fs"
  shows "\<exists>r'. stored cd (store_run cd ops fs) i = Some r' \<and> same_attempt r r' \<and>
    allowedAttemptTransition\<^sup>*\<^sup>* (ar_State r) (ar_State r')"
  using assms
proof (induction ops arbitrary: fs r)
  case Nil
  then show ?case by (auto simp: same_attempt_refl)
next
  case (Cons op ops)
  then obtain r1 where r1: "stored cd (apply_op cd op fs) i = Some r1" "same_attempt r r1"
    "ar_State r1 = ar_State r \<or> allowedAttemptTransition (ar_State r) (ar_State r1)"
    using apply_op_forward [of cd fs i r op] by auto
  from Cons.IH [OF r1(1)] Cons.prems obtain r' where
    r': "stored cd (store_run cd ops (apply_op cd op fs)) i = Some r'" "same_attempt r1 r'"
      "allowedAttemptTransition\<^sup>*\<^sup>* (ar_State r1) (ar_State r')" by auto
  have "allowedAttemptTransition\<^sup>*\<^sup>* (ar_State r) (ar_State r')"
    using r1(3) r'(3) by (metis converse_rtranclp_into_rtranclp)
  with r1(2) r'(1,2) show ?case using same_attempt_trans by auto
qed

definition final_state :: "attempt_state \<Rightarrow> bool" where
  "final_state st \<longleftrightarrow> (\<forall>to. \<not> allowedAttemptTransition st to)"

lemma final_states: "final_state st \<longleftrightarrow> st \<notin> {AttemptClaimed, AttemptPossibleEffect, AttemptAccepted}"
  by (cases st) (auto simp: final_state_def)

lemma claimed_unreachable: "allowedAttemptTransition\<^sup>*\<^sup>* st AttemptClaimed \<Longrightarrow> st = AttemptClaimed"
  by (erule rtranclp.cases) (auto elim: allowedAttemptTransition.elims)

lemma final_state_stays: "allowedAttemptTransition\<^sup>*\<^sup>* st st' \<Longrightarrow> final_state st \<Longrightarrow> st' = st"
  by (induction rule: rtranclp_induct) (auto simp: final_state_def)


end
