(* ===== verification/Crm_Outcome.thy ===== *)
theory Crm_Outcome
  imports Canonical_JSON Crm_Attempt
begin

text \<open>
  What the CRM executor says about an attempt: the evaluation of the intended postcondition on an
  observed customer (\<open>internal/eepcrm/postcondition.go\<close>), the outcome evidence
  (\<open>internal/eepcrm/executor.go\<close>) and the closure evidence (\<open>internal/eepcrm/recovery.go\<close>), with
  the checks that a reader of the evidence makes.
\<close>

section \<open>Plans and postconditions\<close>

record customer_update_plan =
  cp_CustomerID :: string
  cp_Patch :: go_map

definition plan_json :: "customer_update_plan \<Rightarrow> json" where
  "plan_json plan = JObj [(''customer_id'', JStr (cp_CustomerID plan)), (''patch'', map_json (cp_Patch plan))]"

definition DigestCustomerUpdatePlan ::
  "library \<Rightarrow> tokenizer \<Rightarrow> customer_update_plan \<Rightarrow> go_error + string" where
  "DigestCustomerUpdatePlan lb tokens plan =
     (if blank (cp_CustomerID plan) then Inl (NewError ''customer_id is required'')
      else if cp_Patch plan = [] then Inl (NewError ''customer patch is required'')
      else case lb_marshal lb (plan_json plan) of
          None \<Rightarrow> Inl (wrap ''marshal customer update plan'' marshal_error)
        | Some raw \<Rightarrow>
          (case CanonicalJSON lb tokens raw of
             Inl e \<Rightarrow> Inl (wrap ''canonicalize customer update plan'' e)
           | Inr body \<Rightarrow> Inr (sha256_tag (lb_sha lb) body)))"

datatype postcondition_result =
    PostconditionVerified
  | PostconditionPartial
  | PostconditionUnsatisfied
  | PostconditionUnknown
  | PostconditionAlreadySatisfied
  | PostconditionOther string

fun result_text :: "postcondition_result \<Rightarrow> string" where
  "result_text PostconditionVerified = ''VERIFIED''"
| "result_text PostconditionPartial = ''PARTIAL''"
| "result_text PostconditionUnsatisfied = ''UNSATISFIED''"
| "result_text PostconditionUnknown = ''UNKNOWN''"
| "result_text PostconditionAlreadySatisfied = ''ALREADY_SATISFIED''"
| "result_text (PostconditionOther s) = s"

datatype request_acceptance =
    RequestNotDispatched
  | RequestAccepted
  | RequestAcceptanceUnknown
  | RequestOther string

fun acceptance_text :: "request_acceptance \<Rightarrow> string" where
  "acceptance_text RequestNotDispatched = ''NOT_DISPATCHED''"
| "acceptance_text RequestAccepted = ''ACCEPTED''"
| "acceptance_text RequestAcceptanceUnknown = ''UNKNOWN''"
| "acceptance_text (RequestOther s) = s"

datatype observation_status =
    ObservationPreMutation
  | ObservationStable
  | ObservationUnavailable
  | ObservationContradictory
  | ObservationWrongTarget
  | ObservationOther string

fun observation_text :: "observation_status \<Rightarrow> string" where
  "observation_text ObservationPreMutation = ''PRE_MUTATION''"
| "observation_text ObservationStable = ''OBSERVED_STABLE''"
| "observation_text ObservationUnavailable = ''UNAVAILABLE''"
| "observation_text ObservationContradictory = ''CONTRADICTORY''"
| "observation_text ObservationWrongTarget = ''WRONG_TARGET''"
| "observation_text (ObservationOther s) = s"

record field_postcondition =
  fp_Path :: string
  fp_ExpectedDigest :: string
  fp_ObservedDigest :: string
  fp_Present :: bool
  fp_Satisfied :: bool

record postcondition_evaluation =
  pe_ProfileVersion :: string
  pe_Result :: postcondition_result
  pe_MatchedFields :: int
  pe_TotalFields :: int
  pe_Fields :: "field_postcondition list"

abbreviation PostconditionProfileVersion :: string where
  "PostconditionProfileVersion \<equiv> ''aegis.eep/crm-postcondition/v1''"

definition escapeJSONPointerToken :: "string \<Rightarrow> string" where
  "escapeJSONPointerToken value = replace_all ''/'' ''~1'' (replace_all ''~'' ''~0'' value)"

definition canonicalComparableValue :: "library \<Rightarrow> json \<Rightarrow> go_error + string" where
  "canonicalComparableValue lb v =
     (case lb_marshal lb v of None \<Rightarrow> Inl marshal_error | Some bytes \<Rightarrow> Inr bytes)"

text \<open>The body of the loop over the sorted keys of the patch.\<close>

definition evaluate_field ::
  "library \<Rightarrow> string \<Rightarrow> json \<Rightarrow> json option \<Rightarrow> go_error + field_postcondition" where
  "evaluate_field lb key expected observed =
     (case canonicalComparableValue lb expected of
        Inl e \<Rightarrow> Inl (wrap ''canonicalize expected field'' e)
      | Inr expectedBytes \<Rightarrow>
        (case DigestPayload lb (JObj [(''value'', expected)]) of
           Inl e \<Rightarrow> Inl e
         | Inr expectedDigest \<Rightarrow>
           (let field = \<lparr>fp_Path = ''/'' @ escapeJSONPointerToken key, fp_ExpectedDigest = expectedDigest,
                         fp_ObservedDigest = [], fp_Present = False, fp_Satisfied = False\<rparr> in
            case observed of
              None \<Rightarrow> Inr field
            | Some value \<Rightarrow>
              (case canonicalComparableValue lb value of
                 Inl e \<Rightarrow> Inl (wrap ''canonicalize observed field'' e)
               | Inr observedBytes \<Rightarrow>
                 (case DigestPayload lb (JObj [(''value'', value)]) of
                    Inl e \<Rightarrow> Inl e
                  | Inr observedDigest \<Rightarrow>
                      Inr (field\<lparr>fp_Present := True, fp_ObservedDigest := observedDigest,
                                 fp_Satisfied := (expectedBytes = observedBytes)\<rparr>))))))"

fun evaluate_fields :: "library \<Rightarrow> go_map \<Rightarrow> go_map \<Rightarrow> string list \<Rightarrow> go_error + field_postcondition list" where
  "evaluate_fields lb patch state [] = Inr []"
| "evaluate_fields lb patch state (key # keys) =
     (case evaluate_field lb key (the (map_of patch key)) (map_of state key) of
        Inl e \<Rightarrow> Inl e
      | Inr field \<Rightarrow>
        (case evaluate_fields lb patch state keys of Inl e \<Rightarrow> Inl e | Inr fs \<Rightarrow> Inr (field # fs)))"

definition matched_count :: "field_postcondition list \<Rightarrow> int" where
  "matched_count fs = int (length (filter fp_Satisfied fs))"

definition EvaluateCustomerUpdatePostcondition ::
  "library \<Rightarrow> customer_update_plan \<Rightarrow> go_map option \<Rightarrow> go_error + postcondition_evaluation" where
  "EvaluateCustomerUpdatePostcondition lb plan state =
     (if blank (cp_CustomerID plan) then Inl (NewError ''customer_id is required'')
      else if cp_Patch plan = [] then Inl (NewError ''customer patch is required'')
      else case state of
          None \<Rightarrow> Inl (NewError ''customer observation is required'')
        | Some st \<Rightarrow>
          (let keys = map_keys (cp_Patch plan) in
           case evaluate_fields lb (cp_Patch plan) st keys of
             Inl e \<Rightarrow> Inl e
           | Inr fs \<Rightarrow>
               Inr \<lparr>pe_ProfileVersion = PostconditionProfileVersion,
                    pe_Result =
                      (if matched_count fs = int (length keys) then PostconditionVerified
                       else if matched_count fs = 0 then PostconditionUnsatisfied
                       else PostconditionPartial),
                    pe_MatchedFields = matched_count fs,
                    pe_TotalFields = int (length keys),
                    pe_Fields = fs\<rparr>))"

definition EquivalentPostconditionObservation ::
  "postcondition_evaluation \<Rightarrow> postcondition_evaluation \<Rightarrow> bool" where
  "EquivalentPostconditionObservation a b \<longleftrightarrow>
     pe_ProfileVersion a = pe_ProfileVersion b \<and> pe_MatchedFields a = pe_MatchedFields b \<and>
     pe_TotalFields a = pe_TotalFields b \<and> pe_Fields a = pe_Fields b"

fun validate_fields :: "string \<Rightarrow> int \<Rightarrow> field_postcondition list \<Rightarrow> go_error + int" where
  "validate_fields previousPath matched [] = Inr matched"
| "validate_fields previousPath matched (f # fs) =
     (if fp_Path f = [] \<or> fp_ExpectedDigest f = []
      then Inl (NewError ''postcondition field identity/digest missing'')
      else if previousPath \<noteq> [] \<and> fp_Path f \<le> previousPath
      then Inl (NewError ''postcondition fields must be uniquely sorted'')
      else if fp_Satisfied f
      then (if \<not> fp_Present f \<or> fp_ObservedDigest f = [] \<or> fp_ObservedDigest f \<noteq> fp_ExpectedDigest f
            then Inl (NewError ''satisfied field lacks matching observed evidence'')
            else validate_fields (fp_Path f) (matched + 1) fs)
      else validate_fields (fp_Path f) matched fs)"

definition ValidatePostconditionEvaluation :: "postcondition_evaluation \<Rightarrow> go_error option" where
  "ValidatePostconditionEvaluation ev =
     (if pe_ProfileVersion ev \<noteq> PostconditionProfileVersion
      then Some (NewError ''unsupported postcondition profile'')
      else if pe_TotalFields ev \<le> 0 \<or> int (length (pe_Fields ev)) \<noteq> pe_TotalFields ev
      then Some (NewError ''postcondition field cardinality invalid'')
      else case validate_fields [] 0 (pe_Fields ev) of
          Inl e \<Rightarrow> Some e
        | Inr matched \<Rightarrow>
          if matched \<noteq> pe_MatchedFields ev then Some (NewError ''postcondition matched field count invalid'')
          else (case pe_Result ev of
                  PostconditionVerified \<Rightarrow>
                    if matched \<noteq> pe_TotalFields ev
                    then Some (NewError ''VERIFIED requires every intended field'') else None
                | PostconditionPartial \<Rightarrow>
                    if matched \<le> 0 \<or> matched \<ge> pe_TotalFields ev
                    then Some (NewError ''PARTIAL requires some but not all intended fields'') else None
                | PostconditionUnsatisfied \<Rightarrow>
                    if matched \<noteq> 0 then Some (NewError ''UNSATISFIED requires zero intended fields'') else None
                | PostconditionUnknown \<Rightarrow>
                    Some (NewError ''UNKNOWN is an outcome disposition, not a state evaluation'')
                | _ \<Rightarrow> Some (NewError ''unsupported postcondition result'')))"

definition field_json :: "field_postcondition \<Rightarrow> json" where
  "field_json f = JObj
     ([(''path'', JStr (fp_Path f)), (''expected_digest'', JStr (fp_ExpectedDigest f))] @
      omit_empty ''observed_digest'' (fp_ObservedDigest f) @
      [(''present'', JBool (fp_Present f)), (''satisfied'', JBool (fp_Satisfied f))])"

definition evaluation_json :: "postcondition_evaluation \<Rightarrow> json" where
  "evaluation_json ev = JObj
     [(''profile_version'', JStr (pe_ProfileVersion ev)), (''result'', JStr (result_text (pe_Result ev))),
      (''matched_fields'', JNum (pe_MatchedFields ev)), (''total_fields'', JNum (pe_TotalFields ev)),
      (''fields'', JArr (map field_json (pe_Fields ev)))]"

section \<open>Outcome evidence\<close>

record outcome_evidence =
  oe_APIVersion :: string
  oe_PostconditionProfile :: string
  oe_IntentID :: string
  oe_Target :: string
  oe_EvidencePacketDigest :: string
  oe_PermitDigest :: string
  oe_PlanDigest :: string
  oe_BeforeDigest :: string
  oe_AfterDigest :: string
  oe_Result :: postcondition_result
  oe_RequestAcceptance :: request_acceptance
  oe_ObservationStatus :: observation_status
  oe_ObservationCount :: int
  oe_Postcondition :: "postcondition_evaluation option"
  oe_HTTPStatus :: int
  oe_ObservedAt :: time
  oe_IntegrityDigest :: string

abbreviation OutcomeVersion :: string where
  "OutcomeVersion \<equiv> ''aegis.eep/crm-outcome/v0alpha2''"

definition outcome_json :: "outcome_evidence \<Rightarrow> json" where
  "outcome_json oc = JObj
     ([(''api_version'', JStr (oe_APIVersion oc)), (''postcondition_profile'', JStr (oe_PostconditionProfile oc)),
       (''intent_id'', JStr (oe_IntentID oc)), (''target'', JStr (oe_Target oc)),
       (''evidence_packet_digest'', JStr (oe_EvidencePacketDigest oc)),
       (''permit_digest'', JStr (oe_PermitDigest oc)), (''plan_digest'', JStr (oe_PlanDigest oc)),
       (''before_digest'', JStr (oe_BeforeDigest oc))] @
      omit_empty ''after_digest'' (oe_AfterDigest oc) @
      [(''result'', JStr (result_text (oe_Result oc))),
       (''request_acceptance'', JStr (acceptance_text (oe_RequestAcceptance oc))),
       (''observation_status'', JStr (observation_text (oe_ObservationStatus oc))),
       (''observation_count'', JNum (oe_ObservationCount oc))] @
      omit_nil evaluation_json ''postcondition'' (oe_Postcondition oc) @
      omit_zero ''http_status'' (oe_HTTPStatus oc) @
      [(''observed_at'', JTime (oe_ObservedAt oc)), (''integrity_digest'', JStr (oe_IntegrityDigest oc))])"

definition digestOutcome :: "library \<Rightarrow> outcome_evidence \<Rightarrow> go_error + string" where
  "digestOutcome lb oc = DigestPayload lb (outcome_json (oc\<lparr>oe_IntegrityDigest := []\<rparr>))"

definition check_acceptance :: "outcome_evidence \<Rightarrow> go_error option" where
  "check_acceptance oc =
     (case oe_RequestAcceptance oc of
        RequestNotDispatched \<Rightarrow>
          if oe_HTTPStatus oc \<noteq> 0
          then Some (NewError ''NOT_DISPATCHED outcome cannot carry an HTTP mutation status'') else None
      | RequestAccepted \<Rightarrow>
          if oe_HTTPStatus oc < 200 \<or> oe_HTTPStatus oc \<ge> 300
          then Some (NewError ''ACCEPTED outcome requires a 2xx mutation response'') else None
      | RequestAcceptanceUnknown \<Rightarrow>
          if oe_HTTPStatus oc \<ge> 200 \<and> oe_HTTPStatus oc < 300
          then Some (NewError ''UNKNOWN request acceptance cannot carry a successful mutation response'') else None
      | _ \<Rightarrow> Some (NewError ''unsupported request acceptance''))"

text \<open>The three results that rest on a stable observation of the evaluated state.\<close>

definition check_stable :: "outcome_evidence \<Rightarrow> postcondition_result \<Rightarrow> go_error option" where
  "check_stable oc result =
     (if oe_RequestAcceptance oc \<noteq> RequestAccepted \<and> oe_RequestAcceptance oc \<noteq> RequestAcceptanceUnknown
      then Some (NewError (result_text result @ '' outcome has invalid request acceptance''))
      else if oe_ObservationStatus oc \<noteq> ObservationStable \<or> oe_ObservationCount oc \<noteq> 3 \<or>
              oe_AfterDigest oc = [] \<or> map_option pe_Result (oe_Postcondition oc) \<noteq> Some result
      then Some (NewError (if result = PostconditionVerified
                           then ''VERIFIED outcome lacks stable intended-postcondition evidence''
                           else result_text result @ '' outcome is inconsistent''))
      else None)"

definition check_result :: "outcome_evidence \<Rightarrow> go_error option" where
  "check_result oc =
     (case oe_Result oc of
        PostconditionAlreadySatisfied \<Rightarrow>
          if oe_RequestAcceptance oc \<noteq> RequestNotDispatched \<or> oe_ObservationStatus oc \<noteq> ObservationPreMutation \<or>
             oe_ObservationCount oc \<noteq> 1 \<or> oe_HTTPStatus oc \<noteq> 0 \<or> oe_AfterDigest oc = [] \<or>
             oe_AfterDigest oc \<noteq> oe_BeforeDigest oc \<or>
             map_option pe_Result (oe_Postcondition oc) \<noteq> Some PostconditionVerified
          then Some (NewError ''ALREADY_SATISFIED outcome is inconsistent'') else None
      | PostconditionVerified \<Rightarrow> check_stable oc PostconditionVerified
      | PostconditionPartial \<Rightarrow> check_stable oc PostconditionPartial
      | PostconditionUnsatisfied \<Rightarrow> check_stable oc PostconditionUnsatisfied
      | PostconditionUnknown \<Rightarrow>
          if oe_RequestAcceptance oc \<noteq> RequestAccepted \<and> oe_RequestAcceptance oc \<noteq> RequestAcceptanceUnknown
          then Some (NewError ''UNKNOWN outcome has invalid request acceptance'')
          else if oe_ObservationStatus oc \<in> {ObservationUnavailable, ObservationContradictory, ObservationWrongTarget}
          then None
          else Some (NewError ''UNKNOWN outcome requires unavailable, contradictory, or wrong-target observation'')
      | _ \<Rightarrow> Some (NewError ''unsupported outcome result''))"

definition validateOutcomeSemantics :: "outcome_evidence \<Rightarrow> go_error option" where
  "validateOutcomeSemantics oc =
     (if oe_PostconditionProfile oc \<noteq> PostconditionProfileVersion
      then Some (NewError ''unsupported postcondition profile'')
      else if blank (oe_IntentID oc) \<or> blank (oe_Target oc) \<or> blank (oe_EvidencePacketDigest oc) \<or>
              blank (oe_PermitDigest oc) \<or> blank (oe_PlanDigest oc) \<or> blank (oe_BeforeDigest oc)
      then Some (NewError ''outcome identity/evidence binding is incomplete'')
      else if oe_ObservationCount oc < 0 then Some (NewError ''outcome observation count is invalid'')
      else case (case oe_Postcondition oc of None \<Rightarrow> None | Some ev \<Rightarrow> ValidatePostconditionEvaluation ev) of
          Some e \<Rightarrow> Some (wrap ''postcondition evidence invalid'' e)
        | None \<Rightarrow>
          (case check_acceptance oc of
             Some e \<Rightarrow> Some e
           | None \<Rightarrow> check_result oc))"

definition VerifyOutcome :: "library \<Rightarrow> outcome_evidence \<Rightarrow> go_error option" where
  "VerifyOutcome lb oc =
     (if oe_APIVersion oc \<noteq> OutcomeVersion then Some (NewError ''unsupported outcome version'')
      else case validateOutcomeSemantics oc of
          Some e \<Rightarrow> Some e
        | None \<Rightarrow>
          if oe_IntegrityDigest oc = [] then Some (NewError ''outcome integrity digest is required'')
          else case digestOutcome lb oc of
              Inl e \<Rightarrow> Some e
            | Inr actual \<Rightarrow>
              if actual \<noteq> oe_IntegrityDigest oc then Some (NewError ''outcome integrity mismatch'') else None)"

text \<open>The end of \<open>newOutcomeEvidence\<close>: the draft is checked and sealed with its digest.\<close>

definition seal_outcome :: "library \<Rightarrow> outcome_evidence \<Rightarrow> go_error + outcome_evidence" where
  "seal_outcome lb oc =
     (case validateOutcomeSemantics oc of
        Some e \<Rightarrow> Inl e
      | None \<Rightarrow>
        (case digestOutcome lb oc of
           Inl e \<Rightarrow> Inl e
         | Inr digest \<Rightarrow> Inr (oc\<lparr>oe_IntegrityDigest := digest\<rparr>)))"

definition newOutcomeEvidence ::
  "library \<Rightarrow> string \<Rightarrow> permit_target \<Rightarrow> string \<Rightarrow> string \<Rightarrow> string \<Rightarrow> string \<Rightarrow> string \<Rightarrow> postcondition_result
    \<Rightarrow> request_acceptance \<Rightarrow> observation_status \<Rightarrow> int \<Rightarrow> postcondition_evaluation option \<Rightarrow> int \<Rightarrow> time
    \<Rightarrow> go_error + outcome_evidence" where
  "newOutcomeEvidence lb intentID target packetDigest permitDigest planDigest beforeDigest afterDigest
     result acceptance status seen evaluation httpStatus observedAt =
     seal_outcome lb
               \<lparr>oe_APIVersion = OutcomeVersion, oe_PostconditionProfile = PostconditionProfileVersion,
                oe_IntentID = intentID, oe_Target = tg_Type target @ ''/'' @ tg_Name target,
                oe_EvidencePacketDigest = packetDigest, oe_PermitDigest = permitDigest,
                oe_PlanDigest = planDigest, oe_BeforeDigest = beforeDigest, oe_AfterDigest = afterDigest,
                oe_Result = result, oe_RequestAcceptance = acceptance, oe_ObservationStatus = status,
                oe_ObservationCount = seen, oe_Postcondition = evaluation, oe_HTTPStatus = httpStatus,
                oe_ObservedAt = observedAt, oe_IntegrityDigest = []\<rparr>"

section \<open>Closure evidence\<close>

datatype closure_disposition =
    ClosureObservationPending
  | ClosureObservedCompleted
  | ClosureRetiredUnknown
  | ClosureOther string

fun disposition_text :: "closure_disposition \<Rightarrow> string" where
  "disposition_text ClosureObservationPending = ''OBSERVATION_PENDING''"
| "disposition_text ClosureObservedCompleted = ''OBSERVED_COMPLETED''"
| "disposition_text ClosureRetiredUnknown = ''RETIRED_UNKNOWN''"
| "disposition_text (ClosureOther s) = s"

record closure_evidence =
  ce_APIVersion :: string
  ce_AttemptID :: string
  ce_IntentID :: string
  ce_Target :: string
  ce_PermitDigest :: string
  ce_PlanDigest :: string
  ce_DestinationID :: string
  ce_AccountID :: string
  ce_ObservationHandle :: string
  ce_StateBefore :: attempt_state
  ce_StateAfter :: attempt_state
  ce_Disposition :: closure_disposition
  ce_Result :: postcondition_result
  ce_RequestAcceptance :: request_acceptance
  ce_ObservationStatus :: observation_status
  ce_ObservationCount :: int
  ce_Postcondition :: "postcondition_evaluation option"
  ce_ResidualCustody :: bool
  ce_NewMutationDispatched :: bool
  ce_Detail :: string
  ce_ObservedAt :: time
  ce_IntegrityDigest :: string

abbreviation ClosureEvidenceVersion :: string where
  "ClosureEvidenceVersion \<equiv> ''aegis.eep/crm-closure/v1''"

definition closure_json :: "closure_evidence \<Rightarrow> json" where
  "closure_json c = JObj
     ([(''api_version'', JStr (ce_APIVersion c)), (''attempt_id'', JStr (ce_AttemptID c)),
       (''intent_id'', JStr (ce_IntentID c)), (''target'', JStr (ce_Target c)),
       (''permit_digest'', JStr (ce_PermitDigest c)), (''plan_digest'', JStr (ce_PlanDigest c)),
       (''destination_id'', JStr (ce_DestinationID c)), (''account_id'', JStr (ce_AccountID c)),
       (''observation_handle'', JStr (ce_ObservationHandle c)),
       (''state_before'', JStr (attempt_state_text (ce_StateBefore c))),
       (''state_after'', JStr (attempt_state_text (ce_StateAfter c))),
       (''disposition'', JStr (disposition_text (ce_Disposition c))),
       (''result'', JStr (result_text (ce_Result c))),
       (''request_acceptance'', JStr (acceptance_text (ce_RequestAcceptance c))),
       (''observation_status'', JStr (observation_text (ce_ObservationStatus c))),
       (''observation_count'', JNum (ce_ObservationCount c))] @
      omit_nil evaluation_json ''postcondition'' (ce_Postcondition c) @
      [(''residual_custody'', JBool (ce_ResidualCustody c)),
       (''new_mutation_dispatched'', JBool (ce_NewMutationDispatched c))] @
      omit_empty ''detail'' (ce_Detail c) @
      [(''observed_at'', JTime (ce_ObservedAt c)), (''integrity_digest'', JStr (ce_IntegrityDigest c))])"

definition digestClosureEvidence :: "library \<Rightarrow> closure_evidence \<Rightarrow> go_error + string" where
  "digestClosureEvidence lb c = DigestPayload lb (closure_json (c\<lparr>ce_IntegrityDigest := []\<rparr>))"

definition check_disposition :: "closure_evidence \<Rightarrow> go_error option" where
  "check_disposition c =
     (case ce_Disposition c of
        ClosureObservedCompleted \<Rightarrow>
          if ce_StateAfter c \<noteq> AttemptCompleted \<or> ce_ResidualCustody c
          then Some (NewError ''observed completion must discharge residual custody'')
          else if ce_ObservationStatus c \<noteq> ObservationStable \<or> ce_ObservationCount c \<noteq> 3 \<or>
                  ce_Postcondition c = None \<or> ce_Result c = PostconditionUnknown
          then Some (NewError ''observed completion requires stable typed postcondition evidence'')
          else None
      | ClosureObservationPending \<Rightarrow>
          if ce_StateAfter c \<noteq> ce_StateBefore c \<or> \<not> ce_ResidualCustody c
          then Some (NewError ''pending observation must retain the unresolved attempt state and custody'')
          else None
      | ClosureRetiredUnknown \<Rightarrow>
          if ce_StateAfter c \<noteq> AttemptRetiredUnknown \<or> ce_Result c \<noteq> PostconditionUnknown \<or>
             \<not> ce_ResidualCustody c \<or> ce_ObservationStatus c \<noteq> ObservationUnavailable
          then Some (NewError ''UNKNOWN retirement must preserve durable residual custody'')
          else None
      | _ \<Rightarrow> Some (NewError ''unsupported CRM closure disposition''))"

definition validateClosureEvidence :: "closure_evidence \<Rightarrow> go_error option" where
  "validateClosureEvidence c =
     (if ce_APIVersion c \<noteq> ClosureEvidenceVersion
      then Some (NewError ''unsupported CRM closure evidence version'')
      else if blank (ce_AttemptID c) \<or> blank (ce_IntentID c) \<or> blank (ce_Target c) \<or>
              blank (ce_PermitDigest c) \<or> blank (ce_PlanDigest c) \<or> blank (ce_DestinationID c) \<or>
              blank (ce_AccountID c) \<or> blank (ce_ObservationHandle c) \<or> is_zero (ce_ObservedAt c)
      then Some (NewError ''CRM closure evidence identity/custody binding is incomplete'')
      else if ce_NewMutationDispatched c
      then Some (NewError ''CRM recovery closure evidence cannot report a new mutation'')
      else if ce_ObservationCount c < 0
      then Some (NewError ''CRM closure evidence observation count is invalid'')
      else case (case ce_Postcondition c of None \<Rightarrow> None | Some ev \<Rightarrow> ValidatePostconditionEvaluation ev) of
          Some e \<Rightarrow> Some (wrap ''CRM closure postcondition invalid'' e)
        | None \<Rightarrow> check_disposition c)"

definition VerifyClosureEvidence :: "library \<Rightarrow> closure_evidence \<Rightarrow> go_error option" where
  "VerifyClosureEvidence lb c =
     (if ce_APIVersion c \<noteq> ClosureEvidenceVersion
      then Some (NewError ''unsupported CRM closure evidence version'')
      else case validateClosureEvidence c of
          Some e \<Rightarrow> Some e
        | None \<Rightarrow>
          if blank (ce_IntegrityDigest c)
          then Some (NewError ''CRM closure evidence integrity digest is required'')
          else case digestClosureEvidence lb c of
              Inl e \<Rightarrow> Some e
            | Inr actual \<Rightarrow>
              if actual \<noteq> ce_IntegrityDigest c
              then Some (NewError ''CRM closure evidence integrity mismatch'') else None)"

definition seal_closure :: "library \<Rightarrow> closure_evidence \<Rightarrow> go_error + closure_evidence" where
  "seal_closure lb c =
     (case validateClosureEvidence c of
        Some e \<Rightarrow> Inl e
      | None \<Rightarrow>
        (case digestClosureEvidence lb c of
           Inl e \<Rightarrow> Inl e
         | Inr digest \<Rightarrow> Inr (c\<lparr>ce_IntegrityDigest := digest\<rparr>)))"

definition newClosureEvidence ::
  "library \<Rightarrow> attempt_record \<Rightarrow> attempt_state \<Rightarrow> closure_disposition \<Rightarrow> postcondition_result
    \<Rightarrow> request_acceptance \<Rightarrow> observation_status \<Rightarrow> int \<Rightarrow> postcondition_evaluation option \<Rightarrow> bool \<Rightarrow> string
    \<Rightarrow> time \<Rightarrow> go_error + closure_evidence" where
  "newClosureEvidence lb r stateAfter disposition result acceptance status seen evaluation residual detail at =
     seal_closure lb
              \<lparr>ce_APIVersion = ClosureEvidenceVersion, ce_AttemptID = ar_AttemptID r,
               ce_IntentID = ar_IntentID r, ce_Target = ''customer/'' @ ar_CustomerID r,
               ce_PermitDigest = ar_PermitDigest r, ce_PlanDigest = ar_PlanDigest r,
               ce_DestinationID = ar_DestinationID r, ce_AccountID = ar_AccountID r,
               ce_ObservationHandle = ar_ObservationHandle r, ce_StateBefore = ar_State r,
               ce_StateAfter = stateAfter, ce_Disposition = disposition, ce_Result = result,
               ce_RequestAcceptance = acceptance, ce_ObservationStatus = status,
               ce_ObservationCount = seen, ce_Postcondition = evaluation, ce_ResidualCustody = residual,
               ce_NewMutationDispatched = False, ce_Detail = trim_space detail, ce_ObservedAt = at,
               ce_IntegrityDigest = []\<rparr>"

definition acceptanceForAttemptState :: "attempt_state \<Rightarrow> request_acceptance" where
  "acceptanceForAttemptState st =
     (if st = AttemptAccepted then RequestAccepted else RequestAcceptanceUnknown)"

section \<open>Evidence that is built passes its own check\<close>

text \<open>The checks do not read the digest they are sealed with.\<close>

lemma outcome_checks_unsealed [simp]:
  "check_acceptance (oc\<lparr>oe_IntegrityDigest := d\<rparr>) = check_acceptance oc"
  "check_result (oc\<lparr>oe_IntegrityDigest := d\<rparr>) = check_result oc"
  "check_disposition (c\<lparr>ce_IntegrityDigest := d\<rparr>) = check_disposition c"
  subgoal by (simp add: check_acceptance_def split: request_acceptance.split)
  subgoal by (simp add: check_result_def check_stable_def split: postcondition_result.split)
  subgoal by (cases "ce_Disposition c") (simp_all add: check_disposition_def)
  done

lemma seal_outcome_verifies:
  assumes "seal_outcome lb draft = Inr oc" and "oe_APIVersion draft = OutcomeVersion"
  shows "VerifyOutcome lb oc = None \<and> (\<exists>digest. oc = draft\<lparr>oe_IntegrityDigest := digest\<rparr>)"
proof -
  from assms obtain digest where new: "validateOutcomeSemantics draft = None" "digestOutcome lb draft = Inr digest"
    and oc: "oc = draft\<lparr>oe_IntegrityDigest := digest\<rparr>"
    by (auto simp: seal_outcome_def split: option.splits sum.splits)
  have "validateOutcomeSemantics oc = validateOutcomeSemantics draft"
    by (simp add: oc validateOutcomeSemantics_def cong: option.case_cong)
  moreover have "digestOutcome lb oc = digestOutcome lb draft" by (simp add: oc digestOutcome_def)
  moreover have "digest \<noteq> []"
    using new(2) DigestPayload_not_blank [of lb _ digest] by (auto simp: digestOutcome_def)
  ultimately show ?thesis using new assms(2) oc by (auto simp: VerifyOutcome_def)
qed

lemma newOutcomeEvidence_verifies:
  assumes "newOutcomeEvidence lb a b c d e f g result acc st n ev http at = Inr oc"
  shows "VerifyOutcome lb oc = None \<and> oe_Result oc = result \<and> oe_Postcondition oc = ev \<and>
    oe_RequestAcceptance oc = acc \<and> oe_ObservationStatus oc = st \<and> oe_ObservedAt oc = at"
  using seal_outcome_verifies [OF assms [unfolded newOutcomeEvidence_def]] by auto

lemma seal_closure_verifies:
  assumes "seal_closure lb draft = Inr c"
  shows "VerifyClosureEvidence lb c = None \<and> (\<exists>digest. c = draft\<lparr>ce_IntegrityDigest := digest\<rparr>)"
proof -
  from assms obtain digest where new: "validateClosureEvidence draft = None" "digestClosureEvidence lb draft = Inr digest"
    and c: "c = draft\<lparr>ce_IntegrityDigest := digest\<rparr>"
    by (auto simp: seal_closure_def split: option.splits sum.splits)
  have "validateClosureEvidence c = validateClosureEvidence draft"
    by (simp add: c validateClosureEvidence_def cong: option.case_cong)
  moreover have "digestClosureEvidence lb c = digestClosureEvidence lb draft"
    by (simp add: c digestClosureEvidence_def)
  moreover have "\<not> blank digest"
    using new(2) DigestPayload_not_blank [of lb _ digest] by (auto simp: digestClosureEvidence_def)
  moreover have "ce_APIVersion draft = ClosureEvidenceVersion"
    using new(1) by (auto simp: validateClosureEvidence_def split: if_splits)
  ultimately show ?thesis using new c by (auto simp: VerifyClosureEvidence_def)
qed

lemma newClosureEvidence_verifies:
  assumes "newClosureEvidence lb r after disp result acc st n ev residual detail at = Inr c"
  shows "VerifyClosureEvidence lb c = None \<and> ce_Disposition c = disp \<and> ce_Result c = result \<and>
    ce_StateAfter c = after \<and> \<not> ce_NewMutationDispatched c"
  using seal_closure_verifies [OF assms [unfolded newClosureEvidence_def]] by auto

section \<open>What an evaluation says\<close>

text \<open>A field of the patch is met when the observed value is present and has the same encoding.\<close>

definition field_met :: "library \<Rightarrow> go_map \<Rightarrow> go_map \<Rightarrow> string \<Rightarrow> bool" where
  "field_met lb patch state key \<longleftrightarrow>
     (case map_of state key of
        None \<Rightarrow> False
      | Some v \<Rightarrow> lb_marshal lb v = lb_marshal lb (the (map_of patch key)))"

definition field_path :: "string \<Rightarrow> string" where
  "field_path key = ''/'' @ escapeJSONPointerToken key"

text \<open>
  What the code relies on: the encoding of an object is determined by the encodings of its members.
\<close>

definition compositional :: "library \<Rightarrow> bool" where
  "compositional lb \<longleftrightarrow>
     (\<forall>v w. lb_marshal lb v = lb_marshal lb w \<longrightarrow>
        lb_marshal lb (JObj [(''value'', v)]) = lb_marshal lb (JObj [(''value'', w)]))"

definition field_sound :: "field_postcondition \<Rightarrow> bool" where
  "field_sound f \<longleftrightarrow>
     fp_Path f \<noteq> [] \<and> fp_ExpectedDigest f \<noteq> [] \<and>
     (fp_Satisfied f \<longrightarrow> fp_Present f \<and> fp_ObservedDigest f \<noteq> [] \<and> fp_ObservedDigest f = fp_ExpectedDigest f)"

lemma evaluate_field_spec:
  assumes "evaluate_field lb key expected observed = Inr f"
  shows "fp_Path f = field_path key \<and>
    fp_Satisfied f = (case observed of None \<Rightarrow> False | Some v \<Rightarrow> lb_marshal lb v = lb_marshal lb expected) \<and>
    (compositional lb \<longrightarrow> field_sound f)"
proof (cases observed)
  case None
  with assms show ?thesis
    by (auto simp: evaluate_field_def Let_def field_path_def field_sound_def DigestPayload_Inr sha256_tag_def
        split: sum.splits)
next
  case (Some v)
  with assms obtain b d d' b' where b: "lb_marshal lb expected = Some b" "lb_marshal lb v = Some b'"
    and d: "DigestPayload lb (JObj [(''value'', expected)]) = Inr d" "DigestPayload lb (JObj [(''value'', v)]) = Inr d'"
    and f: "f = \<lparr>fp_Path = field_path key, fp_ExpectedDigest = d, fp_ObservedDigest = d',
                 fp_Present = True, fp_Satisfied = (b = b')\<rparr>"
    by (auto simp: evaluate_field_def canonicalComparableValue_def Let_def field_path_def
        split: sum.splits option.splits)
  have nonempty: "d \<noteq> []" "d' \<noteq> []" using d by (auto simp: DigestPayload_Inr sha256_tag_def)
  have "d' = d" if "compositional lb" "b = b'"
  proof -
    have "lb_marshal lb (JObj [(''value'', v)]) = lb_marshal lb (JObj [(''value'', expected)])"
      using that b by (simp add: compositional_def)
    with d show ?thesis by (simp add: DigestPayload_def split: option.splits)
  qed
  with nonempty show ?thesis using b by (auto simp: f Some field_sound_def field_path_def)
qed

lemma evaluate_fields_spec:
  assumes "evaluate_fields lb patch state keys = Inr fs"
  shows "map fp_Path fs = map field_path keys \<and> map fp_Satisfied fs = map (field_met lb patch state) keys \<and>
    (compositional lb \<longrightarrow> list_all field_sound fs)"
  using assms
proof (induction keys arbitrary: fs)
  case (Cons key keys)
  then obtain f fs' where fs: "fs = f # fs'" and f: "evaluate_field lb key (the (map_of patch key)) (map_of state key) = Inr f"
    and rest: "evaluate_fields lb patch state keys = Inr fs'"
    by (auto split: sum.splits)
  show ?case
    using Cons.IH [OF rest] evaluate_field_spec [OF f]
    by (simp add: fs field_met_def split: option.split)
qed simp

lemma matched_count_map: "matched_count fs = int (length (filter id (map fp_Satisfied fs)))"
  by (simp add: matched_count_def filter_map comp_def)

lemma count_all: "length (filter P xs) = length xs \<longleftrightarrow> (\<forall>x \<in> set xs. P x)"
  by (induction xs) (auto simp: le_imp_less_Suc less_imp_neq)

text \<open>Keys of a Go map.\<close>

lemma map_keys_set: "set (map_keys m) = fst ` set m"
  by (simp add: map_keys_def)

lemma map_keys_sorted: "sorted (map_keys m)" "distinct (map_keys m)"
  by (simp_all add: map_keys_def)

lemma EvaluateCustomerUpdatePostcondition_Inr:
  assumes "EvaluateCustomerUpdatePostcondition lb plan state = Inr ev"
  obtains st where "state = Some st" and "evaluate_fields lb (cp_Patch plan) st (map_keys (cp_Patch plan)) = Inr (pe_Fields ev)"
    and "cp_Patch plan \<noteq> []" and "pe_ProfileVersion ev = PostconditionProfileVersion"
    and "pe_MatchedFields ev = matched_count (pe_Fields ev)"
    and "pe_TotalFields ev = int (length (map_keys (cp_Patch plan)))"
    and "pe_Result ev =
      (if matched_count (pe_Fields ev) = pe_TotalFields ev then PostconditionVerified
       else if matched_count (pe_Fields ev) = 0 then PostconditionUnsatisfied
       else PostconditionPartial)"
  using assms
  by (auto simp: EvaluateCustomerUpdatePostcondition_def Let_def split: if_splits option.splits sum.splits)

text \<open>
  The result of an evaluation is determined by the fields of the patch: VERIFIED when all are met,
  UNSATISFIED when none is, PARTIAL otherwise.
\<close>

theorem postcondition_result_exact:
  assumes "EvaluateCustomerUpdatePostcondition lb plan (Some st) = Inr ev"
  shows "pe_Result ev =
    (if \<forall>key \<in> fst ` set (cp_Patch plan). field_met lb (cp_Patch plan) st key then PostconditionVerified
     else if \<forall>key \<in> fst ` set (cp_Patch plan). \<not> field_met lb (cp_Patch plan) st key then PostconditionUnsatisfied
     else PostconditionPartial)"
proof -
  let ?keys = "map_keys (cp_Patch plan)" and ?met = "field_met lb (cp_Patch plan) st"
  from assms obtain fields: "evaluate_fields lb (cp_Patch plan) st ?keys = Inr (pe_Fields ev)"
    and total: "pe_TotalFields ev = int (length ?keys)"
    and result: "pe_Result ev =
      (if matched_count (pe_Fields ev) = pe_TotalFields ev then PostconditionVerified
       else if matched_count (pe_Fields ev) = 0 then PostconditionUnsatisfied
       else PostconditionPartial)"
    by (rule EvaluateCustomerUpdatePostcondition_Inr) simp
  have matched: "matched_count (pe_Fields ev) = int (length (filter ?met ?keys))"
    using evaluate_fields_spec [OF fields] by (simp add: matched_count_map filter_map comp_def)
  have "matched_count (pe_Fields ev) = pe_TotalFields ev \<longleftrightarrow> (\<forall>key \<in> set ?keys. ?met key)"
    by (simp add: matched total count_all)
  moreover have "matched_count (pe_Fields ev) = 0 \<longleftrightarrow> (\<forall>key \<in> set ?keys. \<not> ?met key)"
    by (simp add: matched filter_empty_conv)
  ultimately show ?thesis using result by (simp add: map_keys_set)
qed

section \<open>When an evaluation can be recorded\<close>

lemma validate_fields_Inr:
  "validate_fields previous m fs = Inr n \<longleftrightarrow>
     list_all field_sound fs \<and> sorted_wrt (<) (filter (\<lambda>p. p \<noteq> []) [previous] @ map fp_Path fs) \<and>
     n = m + matched_count fs"
proof (induction fs arbitrary: previous m)
  case Nil
  show ?case by (auto simp: matched_count_def)
next
  case (Cons f fs)
  have trans: "previous < fp_Path f \<Longrightarrow> fp_Path f < q \<Longrightarrow> previous < q" for q by (rule less_trans)
  show ?case
  proof (cases "fp_Path f = [] \<or> fp_ExpectedDigest f = []")
    case True
    then show ?thesis by (auto simp: field_sound_def)
  next
    case False
    then show ?thesis
      using Cons.IH [of "fp_Path f" m] Cons.IH [of "fp_Path f" "m + 1"] trans
      by (auto simp: field_sound_def matched_count_def not_le)
  qed
qed

text \<open>
  An evaluation passes the check that newOutcomeEvidence and newClosureEvidence make exactly when the
  escaped paths of its keys are strictly increasing.
\<close>

lemma evaluation_valid_iff:
  assumes "EvaluateCustomerUpdatePostcondition lb plan state = Inr ev" and "compositional lb"
  shows "ValidatePostconditionEvaluation ev = None \<longleftrightarrow>
    sorted_wrt (<) (map field_path (map_keys (cp_Patch plan)))"
proof -
  let ?keys = "map_keys (cp_Patch plan)"
  from assms(1) obtain st where fields: "evaluate_fields lb (cp_Patch plan) st ?keys = Inr (pe_Fields ev)"
    and patch: "cp_Patch plan \<noteq> []" and version: "pe_ProfileVersion ev = PostconditionProfileVersion"
    and matched: "pe_MatchedFields ev = matched_count (pe_Fields ev)"
    and total: "pe_TotalFields ev = int (length ?keys)"
    and result: "pe_Result ev =
      (if matched_count (pe_Fields ev) = pe_TotalFields ev then PostconditionVerified
       else if matched_count (pe_Fields ev) = 0 then PostconditionUnsatisfied
       else PostconditionPartial)"
    by (rule EvaluateCustomerUpdatePostcondition_Inr)
  note spec = evaluate_fields_spec [OF fields]
  have paths: "map fp_Path (pe_Fields ev) = map field_path ?keys" and sound: "list_all field_sound (pe_Fields ev)"
    using spec assms(2) by simp_all
  have len: "length (pe_Fields ev) = length ?keys" using paths by (metis length_map)
  have "?keys \<noteq> []" using patch map_keys_set [of "cp_Patch plan"] by auto
  then have pos: "0 < pe_TotalFields ev" using total by simp
  have range: "0 \<le> matched_count (pe_Fields ev)" "matched_count (pe_Fields ev) \<le> pe_TotalFields ev"
    using len total by (simp_all add: matched_count_def) (metis length_filter_le)
  have "ValidatePostconditionEvaluation ev = None \<longleftrightarrow> (\<exists>n. validate_fields [] 0 (pe_Fields ev) = Inr n)"
  proof (cases "validate_fields [] 0 (pe_Fields ev)")
    case (Inr n)
    then have "n = matched_count (pe_Fields ev)" by (simp add: validate_fields_Inr)
    with Inr show ?thesis
      using version pos len total matched range
      by (simp add: ValidatePostconditionEvaluation_def result)
  qed (use version pos len total in \<open>simp add: ValidatePostconditionEvaluation_def\<close>)
  then show ?thesis using paths sound by (simp add: validate_fields_Inr)
qed

lemma replace_all_char: "replace_all [c] new s = concat (map (\<lambda>d. if d = c then new else [d]) s)"
proof (induction s)
  case (Cons d s)
  then show ?case by (subst replace_all.simps) auto
qed simp

lemma escape_plain:
  assumes "CHR ''~'' \<notin> set key" and "CHR ''/'' \<notin> set key"
  shows "escapeJSONPointerToken key = key"
proof -
  have "concat (map (\<lambda>d. if d = c then new else [d]) s) = s" if "c \<notin> set s" for c :: char and new s
    using that by (induction s) auto
  with assms show ?thesis by (simp add: escapeJSONPointerToken_def replace_all_char)
qed

text \<open>Keys without a slash or a tilde are their own paths, so their evaluations can be recorded.\<close>

lemma plain_keys_sorted:
  assumes "\<forall>key \<in> fst ` set patch. CHR ''~'' \<notin> set key \<and> CHR ''/'' \<notin> set key"
  shows "sorted_wrt (<) (map field_path (map_keys patch))"
proof -
  have paths: "map field_path (map_keys patch) = map (\<lambda>k. ''/'' @ k) (map_keys patch)"
    using assms by (auto simp: field_path_def escape_plain map_keys_set)
  moreover have "sorted_wrt (<) (map_keys patch)"
    using map_keys_sorted [of patch] by (simp add: strict_sorted_iff)
  ultimately show ?thesis unfolding paths by (simp add: sorted_wrt_map)
qed

end
