(* ===== verification/Crm_Program.thy ===== *)
theory Crm_Program
  imports Crm_Outcome Boundary
begin

text \<open>
  How the CRM executor talks to the world. Its operations read a clock, ask a signature verifier,
  use the attempt store and the journal, and send HTTP requests; between any two of these the world
  may change, because other executors and recoveries run at the same time. An operation is therefore
  a program: a tree whose nodes are the calls it makes, each with a continuation for every reply. The
  same program is executed against a handler of the calls (\<open>run\<close>), and interleaved with others in
  \<open>Crm_Safety\<close>.

  The theory also holds what the executor uses of \<open>net/url\<close>: the escaping of paths and the printing
  of a URL. \<open>url.Parse\<close> is a parameter that yields the parts of a URL.
\<close>

section \<open>Programs\<close>

record http_response =
  hr_StatusCode :: int
  hr_Body :: string
  hr_ETag :: string
  hr_DestinationID :: string
  hr_AccountID :: string

record patch_request =
  pr_URL :: string
  pr_IfMatch :: string
  pr_DestinationID :: string
  pr_AccountID :: string
  pr_Body :: string

text \<open>
  The flag of \<open>Transition\<close> and \<open>AppendEvent\<close> says that the call is made with the background context,
  which is never cancelled. The reply of \<open>Get\<close> and \<open>Patch\<close> is an error when the request could not be
  built or sent.
\<close>

datatype 'a prog =
    Return 'a
  | Now "time \<Rightarrow> 'a prog"
  | CtxErr "go_error option \<Rightarrow> 'a prog"
  | VerifySignature string string string "go_error option \<Rightarrow> 'a prog"
  | Claim attempt_record "go_error option \<Rightarrow> 'a prog"
  | Transition bool string attempt_state attempt_state int string time "go_error + attempt_record \<Rightarrow> 'a prog"
  | LoadAttempt string "go_error + attempt_record \<Rightarrow> 'a prog"
  | AppendEvent bool journal_event "go_error option \<Rightarrow> 'a prog"
  | Get string "go_error + http_response \<Rightarrow> 'a prog"
  | Patch patch_request "go_error + int \<Rightarrow> 'a prog"

primrec bind :: "'a prog \<Rightarrow> ('a \<Rightarrow> 'b prog) \<Rightarrow> 'b prog" where
  "bind (Return a) f = f a"
| "bind (Now k) f = Now (\<lambda>r. bind (k r) f)"
| "bind (CtxErr k) f = CtxErr (\<lambda>r. bind (k r) f)"
| "bind (VerifySignature key payload sig k) f = VerifySignature key payload sig (\<lambda>r. bind (k r) f)"
| "bind (Claim rc k) f = Claim rc (\<lambda>r. bind (k r) f)"
| "bind (Transition bg i a b st d t k) f = Transition bg i a b st d t (\<lambda>r. bind (k r) f)"
| "bind (LoadAttempt i k) f = LoadAttempt i (\<lambda>r. bind (k r) f)"
| "bind (AppendEvent bg ev k) f = AppendEvent bg ev (\<lambda>r. bind (k r) f)"
| "bind (Get u k) f = Get u (\<lambda>r. bind (k r) f)"
| "bind (Patch q k) f = Patch q (\<lambda>r. bind (k r) f)"

lemma bind_Return [simp]: "bind p Return = p"
  by (induction p) auto

lemma bind_assoc: "bind (bind p f) g = bind p (\<lambda>a. bind (f a) g)"
  by (induction p) auto

subsection \<open>Running a program against a handler\<close>

record 's handler =
  hd_now :: "'s \<Rightarrow> time \<times> 's"
  hd_ctx :: "'s \<Rightarrow> go_error option \<times> 's"
  hd_verify :: "string \<Rightarrow> string \<Rightarrow> string \<Rightarrow> 's \<Rightarrow> go_error option \<times> 's"
  hd_claim :: "attempt_record \<Rightarrow> 's \<Rightarrow> go_error option \<times> 's"
  hd_transition :: "bool \<Rightarrow> string \<Rightarrow> attempt_state \<Rightarrow> attempt_state \<Rightarrow> int \<Rightarrow> string \<Rightarrow> time \<Rightarrow> 's
    \<Rightarrow> (go_error + attempt_record) \<times> 's"
  hd_load :: "string \<Rightarrow> 's \<Rightarrow> (go_error + attempt_record) \<times> 's"
  hd_append :: "bool \<Rightarrow> journal_event \<Rightarrow> 's \<Rightarrow> go_error option \<times> 's"
  hd_get :: "string \<Rightarrow> 's \<Rightarrow> (go_error + http_response) \<times> 's"
  hd_patch :: "patch_request \<Rightarrow> 's \<Rightarrow> (go_error + int) \<times> 's"

primrec run :: "'s handler \<Rightarrow> 'a prog \<Rightarrow> 's \<Rightarrow> 'a \<times> 's" where
  "run h (Return a) s = (a, s)"
| "run h (Now k) s = (case hd_now h s of (r, s') \<Rightarrow> run h (k r) s')"
| "run h (CtxErr k) s = (case hd_ctx h s of (r, s') \<Rightarrow> run h (k r) s')"
| "run h (VerifySignature key payload sig k) s = (case hd_verify h key payload sig s of (r, s') \<Rightarrow> run h (k r) s')"
| "run h (Claim rc k) s = (case hd_claim h rc s of (r, s') \<Rightarrow> run h (k r) s')"
| "run h (Transition bg i a b st d t k) s =
     (case hd_transition h bg i a b st d t s of (r, s') \<Rightarrow> run h (k r) s')"
| "run h (LoadAttempt i k) s = (case hd_load h i s of (r, s') \<Rightarrow> run h (k r) s')"
| "run h (AppendEvent bg ev k) s = (case hd_append h bg ev s of (r, s') \<Rightarrow> run h (k r) s')"
| "run h (Get u k) s = (case hd_get h u s of (r, s') \<Rightarrow> run h (k r) s')"
| "run h (Patch q k) s = (case hd_patch h q s of (r, s') \<Rightarrow> run h (k r) s')"

lemma run_bind: "run h (bind p f) s = (case run h p s of (a, s') \<Rightarrow> run h (f a) s')"
  by (induction p arbitrary: s) (auto split: prod.split)

section \<open>The governed dispatch as a program\<close>

text \<open>
  \<open>governedaction.Dispatch\<close> with callbacks that are programs: the context is polled around each of
  them, and other processes may act at every poll.
\<close>

definition prepare_prog ::
  "go_error option prog \<Rightarrow> go_error option prog \<Rightarrow> (preparation \<times> go_error prepare_error option) prog" where
  "prepare_prog check retain =
     (let before = \<lparr>CustodyRecorded = False\<rparr>; after = \<lparr>CustodyRecorded = True\<rparr> in
      CtxErr (\<lambda>c1. case c1 of Some e \<Rightarrow> Return (before, Some (PrepareContext e)) | None \<Rightarrow>
      bind check (\<lambda>r1. case r1 of Some e \<Rightarrow> Return (before, Some (BeforeCustody e)) | None \<Rightarrow>
      CtxErr (\<lambda>c2. case c2 of Some e \<Rightarrow> Return (before, Some (PrepareContext e)) | None \<Rightarrow>
      bind retain (\<lambda>r2. case r2 of Some e \<Rightarrow> Return (before, Some (RetainCustody e)) | None \<Rightarrow>
      CtxErr (\<lambda>c3. case c3 of Some e \<Rightarrow> Return (after, Some (PrepareContext e)) | None \<Rightarrow>
      bind check (\<lambda>r3. case r3 of Some e \<Rightarrow> Return (after, Some (AfterCustody e)) | None \<Rightarrow>
      CtxErr (\<lambda>c4. Return (after, map_option PrepareContext c4)))))))))"

definition dispatch_prog ::
  "'v \<Rightarrow> go_error option prog \<Rightarrow> go_error option prog \<Rightarrow> ('v \<times> go_error option) prog
    \<Rightarrow> ('v dispatch_result \<times> go_error prepare_error option) prog" where
  "dispatch_prog zero check retain effect =
     bind (prepare_prog check retain) (\<lambda>(prepared, err).
       let result = \<lparr>Preparation = prepared, BoundaryEntered = False, Value = zero\<rparr> in
       case err of Some e \<Rightarrow> Return (result, Some e) | None \<Rightarrow>
       CtxErr (\<lambda>c. case c of Some e \<Rightarrow> Return (result, Some (PrepareContext e)) | None \<Rightarrow>
       bind effect (\<lambda>(v, err). Return (result\<lparr>BoundaryEntered := True, Value := v\<rparr>, map_option EffectFailed err))))"

text \<open>
  Run without interference it is \<open>Dispatch\<close> of the boundary theory, with the callbacks run by the
  same handler.
\<close>

lemma prepare_prog_run:
  "run h (prepare_prog check retain) s = PrepareEffect (hd_ctx h) (Some (run h check)) (Some (run h retain)) s"
  unfolding prepare_prog_def PrepareEffect_def
  by (simp add: run_bind Let_def split: prod.split option.split)

lemma dispatch_prog_run:
  "run h (dispatch_prog zero check retain effect) s =
   Dispatch zero (hd_ctx h) (Some (run h check)) (Some (run h retain)) (Some (run h effect)) s"
  unfolding dispatch_prog_def Dispatch_def
  by (simp add: run_bind prepare_prog_run Let_def split: prod.split option.split)

text \<open>The text of a dispatch error.\<close>

fun cause_error :: "boundary_cause \<Rightarrow> go_error" where
  "cause_error ErrMissingBinding = NewError ''governed action binding is incomplete''"
| "cause_error ErrBindingChanged = NewError ''governed action binding changed''"
| "cause_error ErrUnknownTime = NewError ''boundary time is unknown''"
| "cause_error ErrMissingExpiry = NewError ''authority has no finite expiry''"
| "cause_error ErrExpired = NewError ''authority expired at the effect boundary''"
| "cause_error ErrMissingCheck = NewError ''effect boundary check is required''"
| "cause_error ErrMissingCustody = NewError ''durable custody recorder is required''"
| "cause_error ErrMissingEffect = NewError ''effect callback is required''"

fun binding_field_text :: "binding_field \<Rightarrow> string" where
  "binding_field_text ActionRevisionField = ''action_revision''"
| "binding_field_text TargetField = ''target''"
| "binding_field_text ProfileField = ''profile''"

fun binding_go_error :: "binding_error \<Rightarrow> go_error" where
  "binding_go_error (BindingError f c) = wrap (binding_field_text f) (cause_error c)"

fun dispatch_error :: "go_error prepare_error \<Rightarrow> go_error" where
  "dispatch_error (PrepareMissing c) = cause_error c"
| "dispatch_error (PrepareContext e) = e"
| "dispatch_error (BeforeCustody e) = wrap ''before custody'' e"
| "dispatch_error (RetainCustody e) = wrap ''retain custody'' e"
| "dispatch_error (AfterCustody e) = wrap ''after custody'' e"
| "dispatch_error (EffectFailed e) = e"

section \<open>URLs\<close>

text \<open>
  The parts of a parsed URL; \<open>u_Host\<close> is the host as \<open>String\<close> prints it and \<open>u_Hostname\<close> what
  \<open>Hostname\<close> returns.
\<close>

record url =
  u_Scheme :: string
  u_Host :: string
  u_Hostname :: string
  u_HasUser :: bool
  u_Path :: string
  u_RawPath :: string
  u_RawQuery :: string
  u_ForceQuery :: bool
  u_Fragment :: string

definition alphanumeric :: "char \<Rightarrow> bool" where
  "alphanumeric c \<longleftrightarrow>
     (let n = of_char c :: nat in is_digit c \<or> n \<in> {65..90} \<or> n \<in> {97..122})"

text \<open>\<open>shouldEscape\<close> for a whole path (\<open>encodePath\<close>) and for one segment (\<open>encodePathSegment\<close>).\<close>

definition escape_in_path :: "char \<Rightarrow> bool" where
  "escape_in_path c \<longleftrightarrow> \<not> alphanumeric c \<and> c \<notin> set ''-_.~$&+,/:;=@''"

definition escape_in_segment :: "char \<Rightarrow> bool" where
  "escape_in_segment c \<longleftrightarrow> \<not> alphanumeric c \<and> c \<notin> set ''-_.~$&+:=@''"

definition upper_hex :: "nat \<Rightarrow> char" where
  "upper_hex n = ''0123456789ABCDEF'' ! n"

definition percent_escape :: "(char \<Rightarrow> bool) \<Rightarrow> string \<Rightarrow> string" where
  "percent_escape should s =
     concat (map (\<lambda>c. if should c then [CHR ''%'', upper_hex (of_char c div 16), upper_hex (of_char c mod 16)]
                      else [c]) s)"

definition PathEscape :: "string \<Rightarrow> string" where
  "PathEscape = percent_escape escape_in_segment"

fun path_unescape :: "string \<Rightarrow> string option" where
  "path_unescape [] = Some []"
| "path_unescape (c # cs) =
     (if c = CHR ''%''
      then (case cs of
              a # b # rest \<Rightarrow>
                (case (from_hex a, from_hex b, path_unescape rest) of
                   (Some hi, Some lo, Some bs) \<Rightarrow> Some (char_of (16 * hi + lo) # bs)
                 | _ \<Rightarrow> None)
            | _ \<Rightarrow> None)
      else map_option ((#) c) (path_unescape cs))"

definition valid_encoded_path :: "string \<Rightarrow> bool" where
  "valid_encoded_path s \<longleftrightarrow> list_all (\<lambda>c. c \<in> set ''!$&'' \<or> c = CHR 0x27 \<or> c \<in> set ''()*+,;=:@[]%'' \<or> \<not> escape_in_path c) s"

definition EscapedPath :: "url \<Rightarrow> string" where
  "EscapedPath u =
     (if u_RawPath u \<noteq> [] \<and> valid_encoded_path (u_RawPath u) \<and> path_unescape (u_RawPath u) = Some (u_Path u)
      then u_RawPath u
      else if u_Path u = ''*'' then ''*''
      else percent_escape escape_in_path (u_Path u))"

text \<open>\<open>URL.String\<close> for a URL with a host and without user information and fragment.\<close>

definition url_String :: "url \<Rightarrow> string" where
  "url_String u =
     (let path = EscapedPath u in
      (if u_Scheme u = [] then [] else u_Scheme u @ '':'') @ ''//'' @ u_Host u @
      (if path \<noteq> [] \<and> hd path \<noteq> CHR ''/'' then ''/'' else []) @ path @
      (if u_ForceQuery u \<or> u_RawQuery u \<noteq> [] then ''?'' @ u_RawQuery u else []))"

definition trim_slash :: "string \<Rightarrow> string" where
  "trim_slash s = (if s \<noteq> [] \<and> last s = CHR ''/'' then butlast s else s)"

definition to_lower :: "string \<Rightarrow> string" where
  "to_lower = map (\<lambda>c. if CHR ''A'' \<le> c \<and> c \<le> CHR ''Z'' then char_of (of_char c + 32 :: nat) else c)"

definition isLoopbackHTTP :: "url \<Rightarrow> bool" where
  "isLoopbackHTTP u \<longleftrightarrow>
     u_Scheme u = ''http'' \<and> to_lower (u_Hostname u) \<in> {''localhost'', ''127.0.0.1'', ''::1''}"

end
