(* ===== verification/Crm_Executor.thy ===== *)
theory Crm_Executor
  imports Crm_Program
begin

text \<open>
  The CRM executor (\<open>internal/eepcrm/executor.go\<close>) and its recovery (\<open>internal/eepcrm/recovery.go\<close>) as
  programs over the calls of \<open>Crm_Program\<close>: \<open>Execute\<close> with its admission checks, the claim of the
  attempt, the journal entries, the governed dispatch of the PATCH, the observation of the result and
  the outcome evidence; \<open>ReconcileAttempt\<close> and \<open>RetireAttemptUnknown\<close>.

  A Go result \<open>(Evidence, error)\<close> is a pair of options, the first \<open>None\<close> where the source returns the
  zero value.
\<close>

section \<open>The executor\<close>

text \<open>
  The parameters of the package: the library of the permits, the tokenizer of \<open>encoding/json\<close>, the
  decoding of a customer from a response body (\<open>None\<close> a decoding error, \<open>Some None\<close> a \<open>null\<close>
  document), and the quoting of \<open>%q\<close>.
\<close>

record crm_codec =
  cc_library :: library
  cc_tokens :: tokenizer
  cc_decode_state :: "string \<Rightarrow> go_map option option"
  cc_quote :: "string \<Rightarrow> string"

record destination_config =
  dc_BaseURL :: string
  dc_DestinationID :: string
  dc_AccountID :: string
  dc_AdapterProfile :: string

record executor =
  ex_baseURL :: url
  ex_destinationID :: string
  ex_accountID :: string
  ex_adapterProfile :: string

record customer_snapshot =
  cs_State :: "go_map option"
  cs_ResourceVersion :: string
  cs_DestinationID :: string
  cs_AccountID :: string

abbreviation CRMAdapterProfileVersion :: string where
  "CRMAdapterProfileVersion \<equiv> ''aegis.eep/crm-http-json/v1''"

abbreviation ErrMutationOutcomeUnknown :: go_error where
  "ErrMutationOutcomeUnknown \<equiv> NewError ''CRM mutation outcome is unknown''"

abbreviation ErrPostconditionNotVerified :: go_error where
  "ErrPostconditionNotVerified \<equiv> NewError ''CRM intended postcondition not verified''"

abbreviation ErrAttemptClosureState :: go_error where
  "ErrAttemptClosureState \<equiv> NewError ''CRM attempt is not eligible for closure reconciliation''"

abbreviation ErrAttemptRetiredUnknown :: go_error where
  "ErrAttemptRetiredUnknown \<equiv> NewError ''CRM attempt was administratively retired UNKNOWN''"

definition NewExecutor ::
  "(string \<Rightarrow> go_error + url) \<Rightarrow> destination_config \<Rightarrow> bool \<Rightarrow> bool \<Rightarrow> bool \<Rightarrow> go_error + executor" where
  "NewExecutor parse_url d has_verifier has_journal has_attempts =
     (let baseURL = trim_space (dc_BaseURL d) in
      if baseURL = [] then Inl (NewError ''CRM base URL is required'')
      else case parse_url baseURL of
          Inl e \<Rightarrow> Inl (wrap ''parse CRM base URL'' e)
        | Inr parsed \<Rightarrow>
          if u_Scheme parsed \<noteq> ''https'' \<and> \<not> isLoopbackHTTP parsed
          then Inl (NewError ''CRM base URL must use HTTPS except for loopback tests'')
          else if u_Host parsed = [] then Inl (NewError ''CRM base URL host is required'')
          else if u_HasUser parsed then Inl (NewError ''CRM base URL must not embed credentials'')
          else if u_RawQuery parsed \<noteq> [] \<or> u_Fragment parsed \<noteq> []
          then Inl (NewError ''CRM base URL must not contain query or fragment'')
          else let destinationID = trim_space (dc_DestinationID d);
                   accountID = trim_space (dc_AccountID d);
                   adapterProfile = trim_space (dc_AdapterProfile d) in
            if destinationID = [] then Inl (NewError ''CRM destination id is required'')
            else if accountID = [] then Inl (NewError ''CRM account id is required'')
            else if adapterProfile \<noteq> CRMAdapterProfileVersion
            then Inl (NewError ''unsupported CRM adapter profile'')
            else if \<not> has_verifier then Inl (NewError ''permit verifier is required'')
            else if \<not> has_journal then Inl (NewError ''tamper-evident journal is required'')
            else if \<not> has_attempts then Inl (NewError ''durable CRM attempt store is required'')
            else Inr \<lparr>ex_baseURL = parsed\<lparr>u_Path := trim_slash (u_Path parsed)\<rparr>,
                      ex_destinationID = destinationID, ex_accountID = accountID,
                      ex_adapterProfile = adapterProfile\<rparr>)"

definition customerURL :: "executor \<Rightarrow> string \<Rightarrow> string" where
  "customerURL e customerID =
     url_String ((ex_baseURL e)\<lparr>u_Path := trim_slash (u_Path (ex_baseURL e)) @ ''/customers/'' @ PathEscape customerID,
       u_RawQuery := [], u_Fragment := []\<rparr>)"

section \<open>Requests\<close>

definition snapshot_of :: "crm_codec \<Rightarrow> http_response \<Rightarrow> go_error + customer_snapshot" where
  "snapshot_of cc resp =
     (if hr_StatusCode resp \<noteq> 200
      then Inl (NewError (''CRM GET returned HTTP '' @ dec_int (hr_StatusCode resp)))
      else case cc_decode_state cc (take 1048576 (hr_Body resp)) of
          None \<Rightarrow> Inl (NewError ''decode CRM customer'')
        | Some state \<Rightarrow>
            Inr \<lparr>cs_State = state, cs_ResourceVersion = trim_space (hr_ETag resp),
                 cs_DestinationID = trim_space (hr_DestinationID resp),
                 cs_AccountID = trim_space (hr_AccountID resp)\<rparr>)"

definition getCustomer :: "crm_codec \<Rightarrow> executor \<Rightarrow> string \<Rightarrow> (go_error + customer_snapshot) prog" where
  "getCustomer cc e customerID =
     Get (customerURL e customerID) (\<lambda>r. Return (case r of Inl err \<Rightarrow> Inl err | Inr resp \<Rightarrow> snapshot_of cc resp))"

definition patchCustomer ::
  "crm_codec \<Rightarrow> executor \<Rightarrow> string \<Rightarrow> go_map \<Rightarrow> string \<Rightarrow> (int \<times> go_error option) prog" where
  "patchCustomer cc e customerID patch expected =
     (case lb_marshal (cc_library cc) (map_json patch) of
        None \<Rightarrow> Return (0, Some marshal_error)
      | Some body \<Rightarrow>
          Patch \<lparr>pr_URL = customerURL e customerID, pr_IfMatch = expected,
                 pr_DestinationID = ex_destinationID e, pr_AccountID = ex_accountID e, pr_Body = body\<rparr>
            (\<lambda>r. Return (case r of
                 Inl err \<Rightarrow> (0, Some err)
               | Inr status \<Rightarrow>
                   if status < 200 \<or> status \<ge> 300
                   then (status, Some (NewError (''CRM PATCH returned HTTP '' @ dec_int status)))
                   else (status, None))))"

section \<open>Bindings\<close>

definition validateExecutionBinding :: "executor \<Rightarrow> packet \<Rightarrow> permit_claims \<Rightarrow> go_error option" where
  "validateExecutionBinding e pkt claims =
     (case pc_ExecutionBinding claims of
        None \<Rightarrow> Some (NewError ''CRM execution permit is missing destination binding'')
      | Some b \<Rightarrow>
        if bc_ExecutionBinding (pk_Context pkt) = None
        then Some (NewError ''CRM evidence packet is missing destination binding'')
        else if eb_DestinationID b \<noteq> ex_destinationID e then Some (NewError ''CRM destination identity mismatch'')
        else if eb_AccountID b \<noteq> ex_accountID e then Some (NewError ''CRM account identity mismatch'')
        else if eb_Endpoint b \<noteq> url_String (ex_baseURL e) then Some (NewError ''CRM endpoint binding mismatch'')
        else if eb_AdapterProfile b \<noteq> ex_adapterProfile e then Some (NewError ''CRM adapter profile mismatch'')
        else if blank (eb_ExpectedResourceVersion b)
        then Some (NewError ''CRM expected resource version is required'')
        else if pc_ResourceVersion claims \<noteq> eb_ExpectedResourceVersion b
        then Some (NewError ''CRM permit resource version mismatch'')
        else None)"

definition validateDestinationIdentity :: "executor \<Rightarrow> customer_snapshot \<Rightarrow> go_error option" where
  "validateDestinationIdentity e snapshot =
     (if cs_DestinationID snapshot \<noteq> ex_destinationID e
      then Some (NewError ''CRM destination response identity mismatch'')
      else if cs_AccountID snapshot \<noteq> ex_accountID e
      then Some (NewError ''CRM destination response account mismatch'')
      else None)"

definition validateObservedCustomerTarget ::
  "crm_codec \<Rightarrow> go_map option \<Rightarrow> string \<Rightarrow> go_error option" where
  "validateObservedCustomerTarget cc state expected =
     (case map_of (case state of None \<Rightarrow> [] | Some kvs \<Rightarrow> kvs) ''id'' of
        None \<Rightarrow> Some (NewError ''CRM customer observation is missing id'')
      | Some (JStr customerID) \<Rightarrow>
          if blank customerID then Some (NewError ''CRM customer observation id is invalid'')
          else if customerID \<noteq> expected
          then Some (NewError (''CRM customer observation target mismatch: got '' @ cc_quote cc customerID @
                 '' want '' @ cc_quote cc expected))
          else None
      | Some _ \<Rightarrow> Some (NewError ''CRM customer observation id is invalid''))"

definition validateSnapshotBinding ::
  "crm_codec \<Rightarrow> executor \<Rightarrow> customer_snapshot \<Rightarrow> execution_binding \<Rightarrow> string \<Rightarrow> go_error option" where
  "validateSnapshotBinding cc e snapshot binding customerID =
     (case validateDestinationIdentity e snapshot of
        Some err \<Rightarrow> Some err
      | None \<Rightarrow>
        (case validateObservedCustomerTarget cc (cs_State snapshot) customerID of
           Some err \<Rightarrow> Some err
         | None \<Rightarrow>
           if blank (cs_ResourceVersion snapshot)
           then Some (NewError ''CRM destination does not expose required conditional-write resource version'')
           else if cs_ResourceVersion snapshot \<noteq> eb_ExpectedResourceVersion binding
           then Some (NewError ''CRM precondition is stale'')
           else None))"

definition target_ref :: "crm_codec \<Rightarrow> string \<Rightarrow> string \<Rightarrow> string \<Rightarrow> string \<Rightarrow> go_error + string" where
  "target_ref cc destination account endpoint customer =
     DigestPayload (cc_library cc) (map_json
       [(''destination'', JStr destination), (''account'', JStr account), (''endpoint'', JStr endpoint),
        (''target_type'', JStr ''customer''), (''customer'', JStr customer)])"

definition checkEffectBoundary ::
  "crm_codec \<Rightarrow> executor \<Rightarrow> permit \<Rightarrow> customer_update_plan \<Rightarrow> customer_snapshot \<Rightarrow> go_error option prog" where
  "checkEffectBoundary cc e p plan before =
     (let claims = pm_Claims p in
      case pc_ExecutionBinding claims of
        None \<Rightarrow> Return (Some (NewError ''CRM execution permit is missing destination binding''))
      | Some b \<Rightarrow>
        (case DigestCustomerUpdatePlan (cc_library cc) (cc_tokens cc) plan of
           Inl err \<Rightarrow> Return (Some err)
         | Inr digest \<Rightarrow>
           (case target_ref cc (eb_DestinationID b) (eb_AccountID b) (eb_Endpoint b) (tg_Name (pc_Target claims)) of
              Inl err \<Rightarrow> Return (Some err)
            | Inr admitted \<Rightarrow>
              (case target_ref cc (ex_destinationID e) (ex_accountID e) (url_String (ex_baseURL e))
                      (cp_CustomerID plan) of
                 Inl err \<Rightarrow> Return (Some err)
               | Inr current \<Rightarrow>
                 (case CheckBinding
                         \<lparr>bd_ActionRevision = pc_PlanDigest claims, bd_Target = admitted,
                          bd_Profile = eb_AdapterProfile b\<rparr>
                         \<lparr>bd_ActionRevision = digest, bd_Target = current, bd_Profile = ex_adapterProfile e\<rparr> of
                    Some err \<Rightarrow> Return (Some (wrap ''CRM execution binding'' (binding_go_error err)))
                  | None \<Rightarrow>
                    Now (\<lambda>t. Return
                      (case CheckValidity (pc_ValidUntil claims) t of
                         Some err \<Rightarrow> Some (wrap ''CRM execution authority'' (cause_error err))
                       | None \<Rightarrow> validateSnapshotBinding cc e before b (cp_CustomerID plan))))))))"

section \<open>Observation\<close>

record postcondition_observation =
  po_Evaluation :: "postcondition_evaluation option"
  po_AfterDigest :: string
  po_Status :: observation_status
  po_Count :: int
  po_Err :: "go_error option"

definition retainObservedPostcondition ::
  "crm_codec \<Rightarrow> postcondition_evaluation list \<Rightarrow> customer_snapshot list \<Rightarrow> observation_status \<Rightarrow> go_error
    \<Rightarrow> postcondition_observation" where
  "retainObservedPostcondition cc evaluations snapshots status err =
     (let result = \<lparr>po_Evaluation = None, po_AfterDigest = [], po_Status = status,
                    po_Count = int (length evaluations), po_Err = Some err\<rparr> in
      if evaluations = [] \<or> snapshots = [] then result
      else result\<lparr>po_Evaluation := Some (last evaluations),
             po_AfterDigest :=
               (case DigestPayload (cc_library cc) (nil_map_json (cs_State (last snapshots))) of
                  Inl _ \<Rightarrow> [] | Inr digest \<Rightarrow> digest)\<rparr>)"

text \<open>What the three observations amount to: the last two have to agree.\<close>

definition observation_verdict ::
  "crm_codec \<Rightarrow> postcondition_evaluation list \<Rightarrow> customer_snapshot list \<Rightarrow> postcondition_observation" where
  "observation_verdict cc evaluations snapshots =
     (let final = last evaluations; previous = evaluations ! (length evaluations - 2);
          n = int (length evaluations) in
      case DigestPayload (cc_library cc) (nil_map_json (cs_State (last snapshots))) of
        Inl err \<Rightarrow> \<lparr>po_Evaluation = None, po_AfterDigest = [], po_Status = ObservationUnavailable,
                    po_Count = n, po_Err = Some err\<rparr>
      | Inr afterDigest \<Rightarrow>
          if \<not> EquivalentPostconditionObservation previous final
          then \<lparr>po_Evaluation = Some final, po_AfterDigest = afterDigest, po_Status = ObservationContradictory,
                po_Count = n, po_Err = Some (NewError ''postcondition observations did not stabilize'')\<rparr>
          else \<lparr>po_Evaluation = Some final, po_AfterDigest = afterDigest, po_Status = ObservationStable,
                po_Count = n, po_Err = None\<rparr>)"

text \<open>The loop, by the number of reads that remain.\<close>

primrec observation_reads ::
  "crm_codec \<Rightarrow> executor \<Rightarrow> customer_update_plan \<Rightarrow> nat \<Rightarrow> postcondition_evaluation list
    \<Rightarrow> customer_snapshot list \<Rightarrow> postcondition_observation prog" where
  "observation_reads cc e plan 0 evaluations snapshots = Return (observation_verdict cc evaluations snapshots)"
| "observation_reads cc e plan (Suc n) evaluations snapshots =
     bind (getCustomer cc e (cp_CustomerID plan)) (\<lambda>r. case r of
         Inl err \<Rightarrow>
           Return (retainObservedPostcondition cc evaluations snapshots ObservationUnavailable
             (wrap (''post-mutation read '' @ dec_int (int (length evaluations) + 1) @ '' failed'') err))
       | Inr snapshot \<Rightarrow>
         (case validateDestinationIdentity e snapshot of
            Some err \<Rightarrow>
              Return (retainObservedPostcondition cc evaluations snapshots ObservationUnavailable
                (wrap ''post-mutation destination binding failed'' err))
          | None \<Rightarrow>
            (case validateObservedCustomerTarget cc (cs_State snapshot) (cp_CustomerID plan) of
               Some err \<Rightarrow>
                 Return (retainObservedPostcondition cc evaluations snapshots ObservationWrongTarget err)
             | None \<Rightarrow>
               (case EvaluateCustomerUpdatePostcondition (cc_library cc) plan (cs_State snapshot) of
                  Inl err \<Rightarrow>
                    Return \<lparr>po_Evaluation = None, po_AfterDigest = [], po_Status = ObservationUnavailable,
                            po_Count = int (length evaluations) + 1, po_Err = Some err\<rparr>
                | Inr evaluation \<Rightarrow>
                    observation_reads cc e plan n (evaluations @ [evaluation]) (snapshots @ [snapshot])))))"

definition observePostcondition ::
  "crm_codec \<Rightarrow> executor \<Rightarrow> customer_update_plan \<Rightarrow> postcondition_observation prog" where
  "observePostcondition cc e plan = observation_reads cc e plan 3 [] []"

section \<open>Execution\<close>

type_synonym 'ev result = "'ev option \<times> go_error option"

abbreviation failure :: "go_error \<Rightarrow> 'ev result prog" where
  "failure err \<equiv> Return (None, Some err)"

text \<open>\<open>VerifyPermit\<close> with the executor's verifier, which is never \<open>nil\<close>.\<close>

definition verify_permit :: "crm_codec \<Rightarrow> permit \<Rightarrow> go_error option prog" where
  "verify_permit cc p =
     (case permit_query (cc_library cc) p of
        Inl err \<Rightarrow> Return (Some err)
      | Inr (keyID, payload, signature) \<Rightarrow> VerifySignature keyID payload signature Return)"

definition authorization_prog :: "crm_codec \<Rightarrow> permit \<Rightarrow> time \<Rightarrow> (go_error + journal_event) prog" where
  "authorization_prog cc p occurredAt =
     bind (verify_permit cc p) (\<lambda>r. case r of
         Some err \<Rightarrow> Return (Inl (wrap ''verify execution permit'' err))
       | None \<Rightarrow> Return (authorization_event (cc_library cc) p occurredAt))"

text \<open>What an execution carries from its admission on.\<close>

record execution =
  xc_packet :: packet
  xc_permit :: permit
  xc_plan :: customer_update_plan
  xc_binding :: execution_binding
  xc_planDigest :: string
  xc_permitDigest :: string
  xc_attemptID :: string
  xc_handle :: string

definition execution_identity ::
  "crm_codec \<Rightarrow> executor \<Rightarrow> packet \<Rightarrow> permit \<Rightarrow> customer_update_plan \<Rightarrow> string \<Rightarrow> go_error + execution" where
  "execution_identity cc e pkt p plan mismatch =
     (case DigestCustomerUpdatePlan (cc_library cc) (cc_tokens cc) plan of
        Inl err \<Rightarrow> Inl err
      | Inr planDigest \<Rightarrow>
        if pc_PlanDigest (pm_Claims p) \<noteq> planDigest then Inl (NewError mismatch)
        else case DigestPayload (cc_library cc) (permit_json p) of
            Inl err \<Rightarrow> Inl err
          | Inr permitDigest \<Rightarrow>
            (case MutationAttemptID (cc_library cc) permitDigest planDigest of
               Inl err \<Rightarrow> Inl err
             | Inr attemptID \<Rightarrow>
                 Inr \<lparr>xc_packet = pkt, xc_permit = p, xc_plan = plan,
                      xc_binding = the (pc_ExecutionBinding (pm_Claims p)), xc_planDigest = planDigest,
                      xc_permitDigest = permitDigest, xc_attemptID = attemptID,
                      xc_handle = customerURL e (cp_CustomerID plan)\<rparr>))"

definition supported_action :: "packet \<Rightarrow> bool" where
  "supported_action pkt \<longleftrightarrow>
     ax_Kind (pk_Action pkt) = ''crm.customer_update'' \<and> ax_Operation (pk_Action pkt) = ''update_customer'' \<and>
     ax_Tool (pk_Action pkt) = ''crm.http-json''"

definition admit ::
  "crm_codec \<Rightarrow> executor \<Rightarrow> packet \<Rightarrow> permit \<Rightarrow> customer_update_plan \<Rightarrow> time \<Rightarrow> go_error + execution" where
  "admit cc e pkt p plan now =
     (let claims = pm_Claims p in
      if CheckValidity (pc_ValidUntil claims) now \<noteq> None then Inl (NewError ''execution permit expired'')
      else if \<not> supported_action pkt then Inl (NewError ''unsupported CRM EEP action'')
      else if tg_Type (pc_Target claims) \<noteq> ''customer''
      then Inl (NewError ''CRM permit target type must be customer'')
      else if trim_space (cp_CustomerID plan) \<noteq> tg_Name (pc_Target claims)
      then Inl (NewError ''customer update plan target mismatch'')
      else case validateExecutionBinding e pkt claims of
          Some err \<Rightarrow> Inl err
        | None \<Rightarrow> execution_identity cc e pkt p plan ''customer update plan digest mismatch'')"

definition claim_record :: "execution \<Rightarrow> time \<Rightarrow> attempt_record" where
  "claim_record x now =
     (let claims = pm_Claims (xc_permit x); b = xc_binding x in
      \<lparr>ar_Version = AttemptRecordVersion, ar_AttemptID = xc_attemptID x, ar_State = AttemptClaimed,
       ar_IntentID = pc_IntentID claims, ar_PermitDigest = xc_permitDigest x, ar_PlanDigest = xc_planDigest x,
       ar_DestinationID = eb_DestinationID b, ar_AccountID = eb_AccountID b, ar_Endpoint = eb_Endpoint b,
       ar_AdapterProfile = eb_AdapterProfile b, ar_CustomerID = cp_CustomerID (xc_plan x),
       ar_Operation = pc_Action claims, ar_ExpectedResourceVersion = eb_ExpectedResourceVersion b,
       ar_ObservationHandle = xc_handle x, ar_ClaimedAt = now, ar_UpdatedAt = now, ar_HTTPStatus = 0,
       ar_Detail = []\<rparr>)"

definition authorization_entry :: "execution \<Rightarrow> journal_event \<Rightarrow> journal_event" where
  "authorization_entry x ev =
     ev\<lparr>je_AttemptID := xc_attemptID x, je_DestinationID := eb_DestinationID (xc_binding x),
        je_AccountID := eb_AccountID (xc_binding x), je_ObservationHandle := xc_handle x,
        je_AttemptState := attempt_state_text AttemptClaimed\<rparr>"

definition execution_entry :: "execution \<Rightarrow> time \<Rightarrow> journal_event" where
  "execution_entry x t =
     (let claims = pm_Claims (xc_permit x) in
      blank_event\<lparr>je_Type := EventExecution, je_ActionID := pc_IntentID claims,
        je_Target := tg_Type (pc_Target claims) @ ''/'' @ tg_Name (pc_Target claims),
        je_EvidenceDigest := pc_EvidenceDigest claims,
        je_EvidencePacketDigest := ig_Digest (pk_Integrity (xc_packet x)),
        je_PlanDigest := xc_planDigest x, je_AttemptID := xc_attemptID x,
        je_DestinationID := eb_DestinationID (xc_binding x), je_AccountID := eb_AccountID (xc_binding x),
        je_ObservationHandle := xc_handle x, je_AttemptState := attempt_state_text AttemptPossibleEffect,
        je_OccurredAt := t\<rparr>)"

definition outcome_entry :: "execution \<Rightarrow> attempt_state \<Rightarrow> outcome_evidence \<Rightarrow> journal_event" where
  "outcome_entry x st oc =
     blank_event\<lparr>je_Type := EventOutcome, je_ActionID := pc_IntentID (pm_Claims (xc_permit x)),
       je_Target := oe_Target oc, je_EvidenceDigest := pc_EvidenceDigest (pm_Claims (xc_permit x)),
       je_EvidencePacketDigest := ig_Digest (pk_Integrity (xc_packet x)), je_PlanDigest := oe_PlanDigest oc,
       je_AttemptID := xc_attemptID x, je_DestinationID := eb_DestinationID (xc_binding x),
       je_AccountID := eb_AccountID (xc_binding x), je_ObservationHandle := xc_handle x,
       je_AttemptState := attempt_state_text st, je_OutcomeVerdict := result_text (oe_Result oc),
       je_PayloadDigest := oe_IntegrityDigest oc, je_OccurredAt := oe_ObservedAt oc\<rparr>"

definition new_outcome ::
  "crm_codec \<Rightarrow> execution \<Rightarrow> string \<Rightarrow> string \<Rightarrow> postcondition_result \<Rightarrow> request_acceptance \<Rightarrow> observation_status
    \<Rightarrow> int \<Rightarrow> postcondition_evaluation option \<Rightarrow> int \<Rightarrow> time \<Rightarrow> go_error + outcome_evidence" where
  "new_outcome cc x beforeDigest afterDigest result acceptance status n evaluation httpStatus at =
     newOutcomeEvidence (cc_library cc) (pc_IntentID (pm_Claims (xc_permit x))) (pc_Target (pm_Claims (xc_permit x)))
       (ig_Digest (pk_Integrity (xc_packet x))) (xc_permitDigest x) (xc_planDigest x) beforeDigest afterDigest
       result acceptance status n evaluation httpStatus at"

text \<open>The intended state is already there: nothing is sent.\<close>

definition already_satisfied ::
  "crm_codec \<Rightarrow> execution \<Rightarrow> string \<Rightarrow> postcondition_evaluation \<Rightarrow> outcome_evidence result prog" where
  "already_satisfied cc x beforeDigest precondition =
     Now (\<lambda>t. case new_outcome cc x beforeDigest beforeDigest PostconditionAlreadySatisfied RequestNotDispatched
                   ObservationPreMutation 1 (Some precondition) 0 t of
         Inl err \<Rightarrow> failure err
       | Inr outcome \<Rightarrow>
           AppendEvent False (outcome_entry x AttemptCompleted outcome) (\<lambda>r. case r of
               Some err \<Rightarrow> Return (Some outcome, Some (wrap ''already-satisfied outcome journal append failed'' err))
             | None \<Rightarrow>
               Now (\<lambda>t'. Transition True (xc_attemptID x) AttemptClaimed AttemptCompleted 0
                 (result_text (oe_Result outcome)) t' (\<lambda>r. case r of
                     Inl err \<Rightarrow>
                       Return (Some outcome, Some (wrap ''already-satisfied attempt finalization failed'' err))
                   | Inr _ \<Rightarrow> Return (Some outcome, None)))))"

text \<open>After the boundary: the result is observed and recorded.\<close>

definition conclude_unobserved ::
  "crm_codec \<Rightarrow> execution \<Rightarrow> string \<Rightarrow> request_acceptance \<Rightarrow> attempt_state \<Rightarrow> int \<Rightarrow> go_error option
    \<Rightarrow> postcondition_observation \<Rightarrow> go_error \<Rightarrow> outcome_evidence result prog" where
  "conclude_unobserved cc x beforeDigest acceptance attemptState status dispatchErr ob err =
     Now (\<lambda>t. case new_outcome cc x beforeDigest (po_AfterDigest ob) PostconditionUnknown acceptance
                   (po_Status ob) (po_Count ob) (po_Evaluation ob) status t of
         Inl e \<Rightarrow> failure e
       | Inr outcome \<Rightarrow>
           AppendEvent True (outcome_entry x attemptState outcome) (\<lambda>r. case r of
               Some e \<Rightarrow> Return (Some outcome, Some (Wrapf [] ErrMutationOutcomeUnknown
                 ('': observation failed and outcome journal append failed: '' @ Error e)))
             | None \<Rightarrow>
               (case dispatchErr of
                  Some d \<Rightarrow> Return (Some outcome, Some (Wrapf [] ErrMutationOutcomeUnknown
                    ('': dispatch='' @ Error d @ ''; observation='' @ Error err)))
                | None \<Rightarrow> Return (Some outcome, Some (Wrapf [] ErrMutationOutcomeUnknown
                    ('': accepted request observation='' @ Error err))))))"

definition conclude_observed ::
  "crm_codec \<Rightarrow> execution \<Rightarrow> string \<Rightarrow> request_acceptance \<Rightarrow> attempt_state \<Rightarrow> int \<Rightarrow> go_error option
    \<Rightarrow> postcondition_observation \<Rightarrow> outcome_evidence result prog" where
  "conclude_observed cc x beforeDigest acceptance attemptState status dispatchErr ob =
     (let result = pe_Result (the (po_Evaluation ob)) in
      Now (\<lambda>t. case new_outcome cc x beforeDigest (po_AfterDigest ob) result acceptance
                    (po_Status ob) (po_Count ob) (po_Evaluation ob) status t of
          Inl e \<Rightarrow> failure e
        | Inr outcome \<Rightarrow>
          if acceptance = RequestAcceptanceUnknown \<and> result \<noteq> PostconditionVerified
          then AppendEvent True (outcome_entry x AttemptPossibleEffect outcome) (\<lambda>r. case r of
                   Some e \<Rightarrow> Return (Some outcome, Some (Wrapf [] ErrMutationOutcomeUnknown
                     ('': unresolved dispatch and outcome journal append failed: '' @ Error e)))
                 | None \<Rightarrow> Return (Some outcome, Some (Wrapf [] ErrMutationOutcomeUnknown
                     ('': dispatch='' @ (case dispatchErr of None \<Rightarrow> ''<nil>'' | Some d \<Rightarrow> Error d) @
                      ''; observed postcondition='' @ result_text result))))
          else AppendEvent False (outcome_entry x AttemptCompleted outcome) (\<lambda>r. case r of
                   Some e \<Rightarrow> Return (Some outcome, Some (wrap ''postcondition outcome journal append failed'' e))
                 | None \<Rightarrow>
                   Now (\<lambda>t'. Transition True (xc_attemptID x) attemptState AttemptCompleted status
                     (result_text (oe_Result outcome)) t' (\<lambda>r. case r of
                         Inl e \<Rightarrow> Return (Some outcome, Some (wrap ''postcondition attempt finalization failed'' e))
                       | Inr _ \<Rightarrow>
                         if result \<noteq> PostconditionVerified
                         then Return (Some outcome, Some (Wrapf [] ErrPostconditionNotVerified ('': '' @ result_text result)))
                         else Return (Some outcome, None))))))"

definition observe_and_conclude ::
  "crm_codec \<Rightarrow> executor \<Rightarrow> execution \<Rightarrow> string \<Rightarrow> request_acceptance \<Rightarrow> attempt_state \<Rightarrow> int \<Rightarrow> go_error option
    \<Rightarrow> outcome_evidence result prog" where
  "observe_and_conclude cc e x beforeDigest acceptance attemptState status dispatchErr =
     bind (observePostcondition cc e (xc_plan x)) (\<lambda>ob. case po_Err ob of
         Some err \<Rightarrow> conclude_unobserved cc x beforeDigest acceptance attemptState status dispatchErr ob err
       | None \<Rightarrow> conclude_observed cc x beforeDigest acceptance attemptState status dispatchErr ob)"

definition after_dispatch ::
  "crm_codec \<Rightarrow> executor \<Rightarrow> execution \<Rightarrow> string \<Rightarrow> int \<Rightarrow> go_error option \<Rightarrow> outcome_evidence result prog" where
  "after_dispatch cc e x beforeDigest status dispatchErr =
     (case dispatchErr of
        Some d \<Rightarrow>
          if status = 412
          then Now (\<lambda>t. Transition True (xc_attemptID x) AttemptPossibleEffect AttemptBlocked status
                 ''destination rejected stale precondition'' t (\<lambda>r. case r of
                     Inl err \<Rightarrow> failure (wrap ''CRM precondition failed and attempt finalization failed'' err)
                   | Inr _ \<Rightarrow> failure (NewError ''CRM destination rejected stale precondition'')))
          else observe_and_conclude cc e x beforeDigest RequestAcceptanceUnknown AttemptPossibleEffect status dispatchErr
      | None \<Rightarrow>
          Now (\<lambda>t. Transition False (xc_attemptID x) AttemptPossibleEffect AttemptAccepted status
            ''destination returned successful mutation response'' t (\<lambda>r. case r of
                Inl err \<Rightarrow> failure (wrap ''persist accepted CRM effect'' err)
              | Inr _ \<Rightarrow> observe_and_conclude cc e x beforeDigest RequestAccepted AttemptAccepted status None)))"

text \<open>The durable custody that the dispatch retains before the request is sent.\<close>

definition retain_custody :: "execution \<Rightarrow> journal_event \<Rightarrow> go_error option prog" where
  "retain_custody x entry =
     AppendEvent False entry (\<lambda>r. case r of
         Some err \<Rightarrow> Return (Some (wrap ''journal dispatch intent before mutation'' err))
       | None \<Rightarrow>
         Now (\<lambda>t. Transition False (xc_attemptID x) AttemptClaimed AttemptPossibleEffect 0
           ''dispatch boundary entered'' t (\<lambda>r. Return (case r of
               Inl err \<Rightarrow> Some (wrap ''persist possible CRM effect before dispatch'' err)
             | Inr _ \<Rightarrow> None))))"

definition dispatch_mutation ::
  "crm_codec \<Rightarrow> executor \<Rightarrow> execution \<Rightarrow> customer_snapshot \<Rightarrow> string \<Rightarrow> outcome_evidence result prog" where
  "dispatch_mutation cc e x before beforeDigest =
     Now (\<lambda>t. bind
       (dispatch_prog 0 (checkEffectBoundary cc e (xc_permit x) (xc_plan x) before)
          (retain_custody x (execution_entry x t))
          (patchCustomer cc e (cp_CustomerID (xc_plan x)) (cp_Patch (xc_plan x))
             (eb_ExpectedResourceVersion (xc_binding x))))
       (\<lambda>(dispatched, err).
          if \<not> BoundaryEntered dispatched
          then failure (wrap ''CRM effect boundary not entered''
                 (case err of None \<Rightarrow> NewError [] | Some d \<Rightarrow> dispatch_error d))
          else after_dispatch cc e x beforeDigest (Value dispatched) (map_option dispatch_error err)))"

definition block_attempt :: "execution \<Rightarrow> string \<Rightarrow> go_error \<Rightarrow> outcome_evidence result prog" where
  "block_attempt x detail err =
     Now (\<lambda>t. Transition True (xc_attemptID x) AttemptClaimed AttemptBlocked 0 detail t (\<lambda>_. failure err))"

text \<open>After the authorization is journaled: the precondition is read and checked.\<close>

definition execute_authorized :: "crm_codec \<Rightarrow> executor \<Rightarrow> execution \<Rightarrow> outcome_evidence result prog" where
  "execute_authorized cc e x =
     bind (getCustomer cc e (cp_CustomerID (xc_plan x))) (\<lambda>r. case r of
         Inl err \<Rightarrow>
           block_attempt x (''precondition read failed: '' @ Error err) (wrap ''read customer before mutation'' err)
       | Inr before \<Rightarrow>
         (case validateSnapshotBinding cc e before (xc_binding x) (cp_CustomerID (xc_plan x)) of
            Some err \<Rightarrow> block_attempt x (Error err) err
          | None \<Rightarrow>
            (case DigestPayload (cc_library cc) (nil_map_json (cs_State before)) of
               Inl err \<Rightarrow> failure err
             | Inr beforeDigest \<Rightarrow>
               (case EvaluateCustomerUpdatePostcondition (cc_library cc) (xc_plan x) (cs_State before) of
                  Inl err \<Rightarrow> failure (wrap ''evaluate pre-mutation postcondition'' err)
                | Inr precondition \<Rightarrow>
                  if pe_Result precondition = PostconditionVerified
                  then already_satisfied cc x beforeDigest precondition
                  else dispatch_mutation cc e x before beforeDigest))))"

definition execute_claimed :: "crm_codec \<Rightarrow> executor \<Rightarrow> execution \<Rightarrow> time \<Rightarrow> outcome_evidence result prog" where
  "execute_claimed cc e x now =
     bind (authorization_prog cc (xc_permit x) now) (\<lambda>r. case r of
         Inl err \<Rightarrow> failure err
       | Inr ev \<Rightarrow>
           AppendEvent False (authorization_entry x ev) (\<lambda>r. case r of
               Some err \<Rightarrow> failure (wrap ''journal authorization before mutation'' err)
             | None \<Rightarrow> execute_authorized cc e x))"

definition Execute ::
  "crm_codec \<Rightarrow> executor \<Rightarrow> packet \<Rightarrow> permit \<Rightarrow> customer_update_plan \<Rightarrow> outcome_evidence result prog" where
  "Execute cc e pkt p plan =
     (case VerifyPacket (cc_library cc) pkt of
        Some err \<Rightarrow> failure (wrap ''verify evidence packet'' err)
      | None \<Rightarrow>
        bind (verify_permit cc p) (\<lambda>r. case r of
            Some err \<Rightarrow> failure (wrap ''verify execution permit'' err)
          | None \<Rightarrow>
            (case VerifyPermitPacketBinding (cc_library cc) pkt (pm_Claims p) of
               Some err \<Rightarrow> failure (wrap ''verify permit/evidence binding'' err)
             | None \<Rightarrow>
               Now (\<lambda>now. case admit cc e pkt p plan now of
                   Inl err \<Rightarrow> failure err
                 | Inr x \<Rightarrow>
                     Claim (claim_record x now) (\<lambda>r. case r of
                         Some err \<Rightarrow> failure (wrap ''claim CRM mutation attempt'' err)
                       | None \<Rightarrow> execute_claimed cc e x now)))))"

section \<open>Recovery\<close>

definition record_matches :: "executor \<Rightarrow> execution \<Rightarrow> attempt_record \<Rightarrow> bool" where
  "record_matches e x r \<longleftrightarrow>
     (let claims = pm_Claims (xc_permit x); b = xc_binding x in
      ar_IntentID r = pc_IntentID claims \<and> ar_PermitDigest r = xc_permitDigest x \<and>
      ar_PlanDigest r = xc_planDigest x \<and> ar_DestinationID r = eb_DestinationID b \<and>
      ar_AccountID r = eb_AccountID b \<and> ar_Endpoint r = eb_Endpoint b \<and>
      ar_AdapterProfile r = eb_AdapterProfile b \<and> ar_CustomerID r = cp_CustomerID (xc_plan x) \<and>
      ar_Operation r = pc_Action claims \<and> ar_ExpectedResourceVersion r = eb_ExpectedResourceVersion b \<and>
      ar_ObservationHandle r = customerURL e (cp_CustomerID (xc_plan x)))"

definition recovery_identity ::
  "crm_codec \<Rightarrow> executor \<Rightarrow> packet \<Rightarrow> permit \<Rightarrow> customer_update_plan \<Rightarrow> go_error + execution" where
  "recovery_identity cc e pkt p plan =
     (let claims = pm_Claims p in
      case VerifyPermitPacketBinding (cc_library cc) pkt claims of
        Some err \<Rightarrow> Inl (wrap ''verify recovery permit/evidence binding'' err)
      | None \<Rightarrow>
        if \<not> supported_action pkt then Inl (NewError ''unsupported CRM EEP recovery action'')
        else if tg_Type (pc_Target claims) \<noteq> ''customer'' \<or>
                trim_space (cp_CustomerID plan) \<noteq> tg_Name (pc_Target claims)
        then Inl (NewError ''CRM recovery target mismatch'')
        else case validateExecutionBinding e pkt claims of
            Some err \<Rightarrow> Inl err
          | None \<Rightarrow> execution_identity cc e pkt p plan ''CRM recovery plan digest mismatch'')"

definition loadRecoveryAttempt ::
  "crm_codec \<Rightarrow> executor \<Rightarrow> packet \<Rightarrow> permit \<Rightarrow> customer_update_plan \<Rightarrow> (go_error + attempt_record \<times> execution) prog" where
  "loadRecoveryAttempt cc e pkt p plan =
     (case VerifyPacket (cc_library cc) pkt of
        Some err \<Rightarrow> Return (Inl (wrap ''verify recovery evidence packet'' err))
      | None \<Rightarrow>
        bind (verify_permit cc p) (\<lambda>r. case r of
            Some err \<Rightarrow> Return (Inl (wrap ''verify recovery permit identity'' err))
          | None \<Rightarrow>
            (case recovery_identity cc e pkt p plan of
               Inl err \<Rightarrow> Return (Inl err)
             | Inr x \<Rightarrow>
               LoadAttempt (xc_attemptID x) (\<lambda>r. Return (case r of
                   Inl err \<Rightarrow> Inl err
                 | Inr rec \<Rightarrow>
                   if pc_ExecutionBinding (pm_Claims p) = None
                   then Inl (NewError ''CRM recovery binding is missing'')
                   else if \<not> record_matches e x rec
                   then Inl (NewError ''CRM recovery attempt binding mismatch'')
                   else Inr (rec, x))))))"

definition closure_entry :: "execution \<Rightarrow> closure_evidence \<Rightarrow> journal_event" where
  "closure_entry x c =
     blank_event\<lparr>je_Type := EventOutcome, je_ActionID := pc_IntentID (pm_Claims (xc_permit x)),
       je_Target := ce_Target c, je_EvidenceDigest := pc_EvidenceDigest (pm_Claims (xc_permit x)),
       je_EvidencePacketDigest := ig_Digest (pk_Integrity (xc_packet x)), je_PlanDigest := ce_PlanDigest c,
       je_AttemptID := xc_attemptID x, je_DestinationID := eb_DestinationID (xc_binding x),
       je_AccountID := eb_AccountID (xc_binding x), je_ObservationHandle := ce_ObservationHandle c,
       je_AttemptState := attempt_state_text (ce_StateAfter c),
       je_OutcomeVerdict := result_text (ce_Result c), je_PayloadDigest := ce_IntegrityDigest c,
       je_OccurredAt := ce_ObservedAt c\<rparr>"

text \<open>Evidence that leaves the attempt unresolved.\<close>

definition retain_pending ::
  "crm_codec \<Rightarrow> execution \<Rightarrow> attempt_record \<Rightarrow> postcondition_result \<Rightarrow> request_acceptance
    \<Rightarrow> postcondition_observation \<Rightarrow> string \<Rightarrow> string \<Rightarrow> closure_evidence result prog" where
  "retain_pending cc x rec result acceptance ob detail message =
     Now (\<lambda>t. case newClosureEvidence (cc_library cc) rec (ar_State rec) ClosureObservationPending result acceptance
                   (po_Status ob) (po_Count ob) (po_Evaluation ob) True detail t of
         Inl err \<Rightarrow> failure err
       | Inr evidence \<Rightarrow>
           AppendEvent True (closure_entry x evidence) (\<lambda>r. case r of
               Some err \<Rightarrow> Return (Some evidence, Some (Wrapf [] ErrMutationOutcomeUnknown
                 ('': recovery observation journal append failed: '' @ Error err)))
             | None \<Rightarrow> Return (Some evidence, Some (Wrapf [] ErrMutationOutcomeUnknown message))))"

definition close_observed ::
  "crm_codec \<Rightarrow> execution \<Rightarrow> attempt_record \<Rightarrow> postcondition_result \<Rightarrow> postcondition_observation
    \<Rightarrow> closure_evidence result prog" where
  "close_observed cc x rec result ob =
     Now (\<lambda>t. case newClosureEvidence (cc_library cc) rec AttemptCompleted ClosureObservedCompleted result
                   (acceptanceForAttemptState (ar_State rec)) (po_Status ob) (po_Count ob) (po_Evaluation ob) False
                   ''stable observation closed the retained attempt without a new mutation'' t of
         Inl err \<Rightarrow> failure err
       | Inr evidence \<Rightarrow>
           AppendEvent False (closure_entry x evidence) (\<lambda>r. case r of
               Some err \<Rightarrow> Return (Some evidence, Some (wrap ''recovery closure journal append failed'' err))
             | None \<Rightarrow>
               Now (\<lambda>t'. Transition True (xc_attemptID x) (ar_State rec) AttemptCompleted (ar_HTTPStatus rec)
                 (result_text result) t' (\<lambda>r. case r of
                     Inl err \<Rightarrow> Return (Some evidence, Some (wrap ''recovery attempt finalization failed'' err))
                   | Inr _ \<Rightarrow>
                     if result \<noteq> PostconditionVerified
                     then Return (Some evidence, Some (Wrapf [] ErrPostconditionNotVerified ('': '' @ result_text result)))
                     else Return (Some evidence, None)))))"

definition reconcile_observed ::
  "crm_codec \<Rightarrow> execution \<Rightarrow> attempt_record \<Rightarrow> postcondition_observation \<Rightarrow> closure_evidence result prog" where
  "reconcile_observed cc x rec ob =
     (case po_Err ob of
        Some err \<Rightarrow>
          retain_pending cc x rec PostconditionUnknown (acceptanceForAttemptState (ar_State rec)) ob
            (''observation remains unresolved: '' @ Error err) ('': recovery observation='' @ Error err)
      | None \<Rightarrow>
        (case po_Evaluation ob of
           None \<Rightarrow> failure (NewError ''recovery observation is missing postcondition evaluation'')
         | Some evaluation \<Rightarrow>
           let result = pe_Result evaluation in
           if ar_State rec = AttemptPossibleEffect \<and> result \<noteq> PostconditionVerified
           then retain_pending cc x rec result RequestAcceptanceUnknown ob
                  ''stable observation does not discharge ambiguous request acceptance''
                  ('': request acceptance UNKNOWN and observed postcondition='' @ result_text result)
           else close_observed cc x rec result ob))"

abbreviation closure_state_error :: "attempt_record \<Rightarrow> go_error" where
  "closure_state_error rec \<equiv> Wrapf [] ErrAttemptClosureState ('': state='' @ attempt_state_text (ar_State rec))"

definition ReconcileAttempt ::
  "crm_codec \<Rightarrow> executor \<Rightarrow> packet \<Rightarrow> permit \<Rightarrow> customer_update_plan \<Rightarrow> closure_evidence result prog" where
  "ReconcileAttempt cc e pkt p plan =
     bind (loadRecoveryAttempt cc e pkt p plan) (\<lambda>r. case r of
         Inl err \<Rightarrow> failure err
       | Inr (rec, x) \<Rightarrow>
         if ar_State rec = AttemptRetiredUnknown then failure ErrAttemptRetiredUnknown
         else if ar_State rec \<noteq> AttemptPossibleEffect \<and> ar_State rec \<noteq> AttemptAccepted
         then failure (closure_state_error rec)
         else bind (observePostcondition cc e plan) (reconcile_observed cc x rec))"

definition RetireAttemptUnknown ::
  "crm_codec \<Rightarrow> executor \<Rightarrow> packet \<Rightarrow> permit \<Rightarrow> customer_update_plan \<Rightarrow> string \<Rightarrow> closure_evidence result prog" where
  "RetireAttemptUnknown cc e pkt p plan given =
     (let reason = trim_space given in
      if reason = [] then failure (NewError ''UNKNOWN retirement reason is required'')
      else bind (loadRecoveryAttempt cc e pkt p plan) (\<lambda>r. case r of
          Inl err \<Rightarrow> failure err
        | Inr (rec, x) \<Rightarrow>
          if ar_State rec = AttemptRetiredUnknown then failure ErrAttemptRetiredUnknown
          else if ar_State rec \<noteq> AttemptPossibleEffect \<and> ar_State rec \<noteq> AttemptAccepted
          then failure (closure_state_error rec)
          else Now (\<lambda>t. case newClosureEvidence (cc_library cc) rec AttemptRetiredUnknown ClosureRetiredUnknown
                             PostconditionUnknown (acceptanceForAttemptState (ar_State rec)) ObservationUnavailable 0
                             None True reason t of
              Inl err \<Rightarrow> failure err
            | Inr evidence \<Rightarrow>
                AppendEvent False (closure_entry x evidence) (\<lambda>r. case r of
                    Some err \<Rightarrow> Return (Some evidence, Some (wrap ''UNKNOWN retirement journal append failed'' err))
                  | None \<Rightarrow>
                    Now (\<lambda>t'. Transition True (xc_attemptID x) (ar_State rec) AttemptRetiredUnknown
                      (ar_HTTPStatus rec) (''RETIRED_UNKNOWN: '' @ reason) t' (\<lambda>r. case r of
                          Inl err \<Rightarrow> Return (Some evidence, Some (wrap ''UNKNOWN retirement persistence failed'' err))
                        | Inr _ \<Rightarrow> Return (Some evidence, None)))))))"

end
