(* ===== verification/Crm_Safety.thy ===== *)
theory Crm_Safety
  imports Crm_Executor
begin

text \<open>
  CRM executions and recoveries that run at the same time on one attempt store. A process is a program
  of \<open>Crm_Executor\<close>; a step lets one process make its next call, with whatever reply the clock, the
  context, the verifier, the journal and the network give, and with the reply of the file store for
  the calls that use it. A crash is a process that is never scheduled again, and a restart is a
  further process. The log of the calls shows in which order they were made.
\<close>

section \<open>Calls and steps\<close>

datatype crm_event =
    EvNow time
  | EvCtx "go_error option"
  | EvVerify string string string "go_error option"
  | EvClaim attempt_record "go_error option"
  | EvTransition bool string attempt_state attempt_state int string time "go_error + attempt_record"
  | EvLoad string "go_error + attempt_record"
  | EvAppend bool journal_event "go_error option"
  | EvGet string "go_error + http_response"
  | EvPatch patch_request "go_error + int"

inductive pstep :: "'a prog \<Rightarrow> crm_event \<Rightarrow> 'a prog \<Rightarrow> bool" where
  step_now: "pstep (Now k) (EvNow t) (k t)"
| step_ctx: "pstep (CtxErr k) (EvCtx r) (k r)"
| step_verify: "pstep (VerifySignature key payload sig k) (EvVerify key payload sig r) (k r)"
| step_claim: "pstep (Claim rc k) (EvClaim rc r) (k r)"
| step_transition: "pstep (Transition bg i a b st d t k) (EvTransition bg i a b st d t r) (k r)"
| step_load: "pstep (LoadAttempt i k) (EvLoad i r) (k r)"
| step_append: "pstep (AppendEvent bg ev k) (EvAppend bg ev r) (k r)"
| step_get: "pstep (Get u k) (EvGet u r) (k r)"
| step_patch: "pstep (Patch q k) (EvPatch q r) (k r)"

inductive_cases pstep_ReturnE: "pstep (Return a) ev p'"
inductive_simps pstep_simps:
  "pstep (Return a) ev p'" "pstep (Now k) ev p'" "pstep (CtxErr k) ev p'"
  "pstep (VerifySignature key payload sig k) ev p'" "pstep (Claim rc k) ev p'"
  "pstep (Transition bg i a b st d t k) ev p'" "pstep (LoadAttempt i k) ev p'"
  "pstep (AppendEvent bg ev' k) ev p'" "pstep (Get u k) ev p'" "pstep (Patch q k) ev p'"

text \<open>What the attempt store makes of a call; the other calls leave it alone.\<close>

inductive store_step :: "attempt_codec \<Rightarrow> attempt_files \<Rightarrow> crm_event \<Rightarrow> attempt_files \<Rightarrow> bool" for cd where
  store_claim: "FileAttemptStore_Claim cd ctx fault rc fs = (r, fs') \<Longrightarrow> store_step cd fs (EvClaim rc r) fs'"
| store_transition:
    "FileAttemptStore_Transition cd ctx rf wrf i a b st d t fs = (r, fs') \<Longrightarrow> bg \<longrightarrow> ctx = None \<Longrightarrow>
     store_step cd fs (EvTransition bg i a b st d t r) fs'"
| store_load: "FileAttemptStore_Load cd ctx fault i fs = r \<Longrightarrow> store_step cd fs (EvLoad i r) fs"
| store_now: "store_step cd fs (EvNow t) fs"
| store_ctx: "store_step cd fs (EvCtx r) fs"
| store_verify: "store_step cd fs (EvVerify key payload sig r) fs"
| store_append: "store_step cd fs (EvAppend bg ev r) fs"
| store_get: "store_step cd fs (EvGet u r) fs"
| store_patch: "store_step cd fs (EvPatch q r) fs"

subsection \<open>The system\<close>

datatype crm_call =
    ExecuteCall executor packet permit customer_update_plan
  | ReconcileCall executor packet permit customer_update_plan
  | RetireCall executor packet permit customer_update_plan string

type_synonym crm_evidence = "outcome_evidence + closure_evidence"

definition tagged :: "('ev \<Rightarrow> crm_evidence) \<Rightarrow> 'ev result prog \<Rightarrow> crm_evidence result prog" where
  "tagged tag p = bind p (\<lambda>(ev, err). Return (map_option tag ev, err))"

fun program :: "crm_codec \<Rightarrow> crm_call \<Rightarrow> crm_evidence result prog" where
  "program cc (ExecuteCall e pkt p plan) = tagged Inl (Execute cc e pkt p plan)"
| "program cc (ReconcileCall e pkt p plan) = tagged Inr (ReconcileAttempt cc e pkt p plan)"
| "program cc (RetireCall e pkt p plan reason) = tagged Inr (RetireAttemptUnknown cc e pkt p plan reason)"

record crm_system =
  sy_files :: attempt_files
  sy_procs :: "nat \<Rightarrow> crm_evidence result prog"
  sy_log :: "(nat \<times> crm_event) list"

inductive crm_run ::
  "attempt_codec \<Rightarrow> crm_codec \<Rightarrow> (nat \<Rightarrow> crm_call) \<Rightarrow> attempt_files \<Rightarrow> crm_system \<Rightarrow> bool"
  for cd cc calls fs0 where
  run_start: "crm_run cd cc calls fs0 \<lparr>sy_files = fs0, sy_procs = (\<lambda>i. program cc (calls i)), sy_log = []\<rparr>"
| run_step:
    "crm_run cd cc calls fs0 s \<Longrightarrow> pstep (sy_procs s i) ev p' \<Longrightarrow> store_step cd (sy_files s) ev fs' \<Longrightarrow>
     crm_run cd cc calls fs0
       \<lparr>sy_files = fs', sy_procs = (sy_procs s)(i := p'), sy_log = (i, ev) # sy_log s\<rparr>"

text \<open>The calls that one process made, the latest first.\<close>

definition calls_of :: "nat \<Rightarrow> (nat \<times> crm_event) list \<Rightarrow> crm_event list" where
  "calls_of i log = map snd (filter (\<lambda>(j, ev). j = i) log)"

lemma calls_of_Nil [simp]: "calls_of i [] = []"
  by (simp add: calls_of_def)

lemma calls_of_Cons [simp]: "calls_of i ((j, ev) # log) = (if j = i then ev # calls_of i log else calls_of i log)"
  by (simp add: calls_of_def)

lemma calls_of_append: "calls_of i (l @ l') = calls_of i l @ calls_of i l'"
  by (simp add: calls_of_def)

section \<open>Monitors\<close>

text \<open>
  A monitor watches the calls of a program: it has a state, says which calls are permitted in it, and
  moves on with every call. \<open>monitored ok nxt p Q s\<close> says that from monitor state \<open>s\<close> every call that
  \<open>p\<close> can make is permitted, whatever the replies, and that every value it can return satisfies \<open>Q\<close> with
  the state of the monitor at that point.
\<close>

primrec monitored ::
  "('s \<Rightarrow> crm_event \<Rightarrow> bool) \<Rightarrow> ('s \<Rightarrow> crm_event \<Rightarrow> 's) \<Rightarrow> 'a prog \<Rightarrow> ('a \<Rightarrow> 's \<Rightarrow> bool) \<Rightarrow> 's \<Rightarrow> bool" where
  "monitored ok nxt (Return a) = (\<lambda>Q s. Q a s)"
| "monitored ok nxt (Now k) =
     (\<lambda>Q s. \<forall>r. ok s (EvNow r) \<and> monitored ok nxt (k r) Q (nxt s (EvNow r)))"
| "monitored ok nxt (CtxErr k) =
     (\<lambda>Q s. \<forall>r. ok s (EvCtx r) \<and> monitored ok nxt (k r) Q (nxt s (EvCtx r)))"
| "monitored ok nxt (VerifySignature key payload sig k) =
     (\<lambda>Q s. \<forall>r. ok s (EvVerify key payload sig r) \<and> monitored ok nxt (k r) Q (nxt s (EvVerify key payload sig r)))"
| "monitored ok nxt (Claim rc k) =
     (\<lambda>Q s. \<forall>r. ok s (EvClaim rc r) \<and> monitored ok nxt (k r) Q (nxt s (EvClaim rc r)))"
| "monitored ok nxt (Transition bg i a b st d t k) =
     (\<lambda>Q s. \<forall>r. ok s (EvTransition bg i a b st d t r) \<and>
        monitored ok nxt (k r) Q (nxt s (EvTransition bg i a b st d t r)))"
| "monitored ok nxt (LoadAttempt i k) =
     (\<lambda>Q s. \<forall>r. ok s (EvLoad i r) \<and> monitored ok nxt (k r) Q (nxt s (EvLoad i r)))"
| "monitored ok nxt (AppendEvent bg ev k) =
     (\<lambda>Q s. \<forall>r. ok s (EvAppend bg ev r) \<and> monitored ok nxt (k r) Q (nxt s (EvAppend bg ev r)))"
| "monitored ok nxt (Get u k) =
     (\<lambda>Q s. \<forall>r. ok s (EvGet u r) \<and> monitored ok nxt (k r) Q (nxt s (EvGet u r)))"
| "monitored ok nxt (Patch q k) =
     (\<lambda>Q s. \<forall>r. ok s (EvPatch q r) \<and> monitored ok nxt (k r) Q (nxt s (EvPatch q r)))"

lemma monitored_bind:
  "monitored ok nxt (bind p f) Q s = monitored ok nxt p (\<lambda>a. monitored ok nxt (f a) Q) s"
  by (induction p arbitrary: s) auto

lemma monitored_mono:
  "monitored ok nxt p Q s \<Longrightarrow> (\<And>a s'. Q a s' \<Longrightarrow> Q' a s') \<Longrightarrow> monitored ok nxt p Q' s"
  by (induction p arbitrary: s) auto

lemma monitored_bindI:
  assumes "monitored ok nxt p R s" and "\<And>a s'. R a s' \<Longrightarrow> monitored ok nxt (f a) Q s'"
  shows "monitored ok nxt (bind p f) Q s"
  unfolding monitored_bind using assms(1) by (rule monitored_mono) (rule assms(2))

lemma monitored_step:
  "pstep p ev p' \<Longrightarrow> monitored ok nxt p Q s \<Longrightarrow> ok s ev \<and> monitored ok nxt p' Q (nxt s ev)"
  by (induction rule: pstep.induct) auto

text \<open>Along the log of a run: the monitor of a process sees the calls of that process only.\<close>

definition monitor_state :: "('s \<Rightarrow> crm_event \<Rightarrow> 's) \<Rightarrow> 's \<Rightarrow> crm_event list \<Rightarrow> 's" where
  "monitor_state nxt s0 h = foldr (\<lambda>ev s. nxt s ev) h s0"

fun all_permitted :: "('s \<Rightarrow> crm_event \<Rightarrow> bool) \<Rightarrow> ('s \<Rightarrow> crm_event \<Rightarrow> 's) \<Rightarrow> 's \<Rightarrow> crm_event list \<Rightarrow> bool" where
  "all_permitted ok nxt s0 [] \<longleftrightarrow> True"
| "all_permitted ok nxt s0 (ev # h) \<longleftrightarrow> ok (monitor_state nxt s0 h) ev \<and> all_permitted ok nxt s0 h"

lemma crm_run_monitored:
  assumes "crm_run cd cc calls fs0 s" and "monitored ok nxt (program cc (calls i)) Q s0"
  shows "monitored ok nxt (sy_procs s i) Q (monitor_state nxt s0 (calls_of i (sy_log s))) \<and>
    all_permitted ok nxt s0 (calls_of i (sy_log s))"
  using assms(1)
proof (induction rule: crm_run.induct)
  case run_start
  show ?case using assms(2) by (simp add: monitor_state_def)
next
  case (run_step s j ev p' fs')
  show ?case
  proof (cases "j = i")
    case True
    with run_step.IH monitored_step [OF run_step.hyps(2), of ok nxt Q] show ?thesis
      by (auto simp: monitor_state_def)
  next
    case False
    with run_step.IH show ?thesis by simp
  qed
qed

section \<open>The discipline of an execution\<close>

text \<open>
  How far an execution has come towards its effect, read off the calls it made: it holds the claim;
  the authorization is journaled; the dispatch is journaled; custody is recorded; its authority was
  found valid once more; the request is sent.
\<close>

datatype phase = Unclaimed | Held | Authorized | Announced | Custody | Armed | Sent

fun next_phase :: "execution \<Rightarrow> phase \<Rightarrow> crm_event \<Rightarrow> phase" where
  "next_phase x Unclaimed (EvClaim rc r) = (if r = None then Held else Unclaimed)"
| "next_phase x Held (EvAppend bg ev r) =
     (if r = None \<and> je_Type ev = EventAuthorization \<and> je_AttemptID ev = xc_attemptID x then Authorized else Held)"
| "next_phase x Authorized (EvAppend bg ev r) =
     (if r = None \<and> je_Type ev = EventExecution \<and> je_AttemptID ev = xc_attemptID x then Announced else Authorized)"
| "next_phase x Announced (EvTransition bg i a b st d t r) =
     (if \<not> isl r \<and> i = xc_attemptID x \<and> a = AttemptClaimed \<and> b = AttemptPossibleEffect then Custody else Announced)"
| "next_phase x Custody (EvNow t) =
     (if CheckValidity (pc_ValidUntil (pm_Claims (xc_permit x))) t = None then Armed else Custody)"
| "next_phase x Armed (EvPatch q r) = Sent"
| "next_phase x ph ev = ph"

text \<open>The request that an execution may send.\<close>

definition intended_request :: "execution \<Rightarrow> patch_request \<Rightarrow> bool" where
  "intended_request x q \<longleftrightarrow>
     pr_URL q = xc_handle x \<and> pr_IfMatch q = eb_ExpectedResourceVersion (xc_binding x) \<and>
     pr_DestinationID q = eb_DestinationID (xc_binding x) \<and> pr_AccountID q = eb_AccountID (xc_binding x)"

fun permitted :: "execution \<Rightarrow> phase \<Rightarrow> crm_event \<Rightarrow> bool" where
  "permitted x ph (EvClaim rc r) \<longleftrightarrow> ph = Unclaimed \<and> ar_AttemptID rc = xc_attemptID x"
| "permitted x ph (EvPatch q r) \<longleftrightarrow> ph = Armed \<and> intended_request x q"
| "permitted x ph ev \<longleftrightarrow> True"

abbreviation disciplined :: "execution \<Rightarrow> 'a prog \<Rightarrow> ('a \<Rightarrow> phase \<Rightarrow> bool) \<Rightarrow> phase \<Rightarrow> bool" where
  "disciplined x \<equiv> monitored (permitted x) (next_phase x)"

lemma next_phase_quiet [simp]:
  "next_phase x ph (EvCtx r) = ph" "next_phase x ph (EvVerify key payload sig r) = ph"
  "next_phase x ph (EvLoad i r') = ph" "next_phase x ph (EvGet u r'') = ph"
  by (cases ph; simp)+

lemma next_phase_Sent [simp]: "next_phase x Sent ev = Sent"
  by (cases ev) simp_all

subsection \<open>The parts of the executor\<close>

lemma disciplined_getCustomer: "disciplined x (getCustomer cc e i) Q ph \<longleftrightarrow> (\<forall>r. Q (case r of Inl err \<Rightarrow> Inl err | Inr resp \<Rightarrow> snapshot_of cc resp) ph)"
  by (simp add: getCustomer_def)

lemma disciplined_observation:
  "(\<And>ob. Q ob ph) \<Longrightarrow> disciplined x (observation_reads cc e plan n evs sns) Q ph"
  by (induction n arbitrary: evs sns)
    (simp_all add: monitored_bind disciplined_getCustomer split: sum.split option.split)

lemma disciplined_verify_permit: "(\<And>r. Q r ph) \<Longrightarrow> disciplined x (verify_permit cc p) Q ph"
  by (simp add: verify_permit_def split: sum.split)

text \<open>From the observation on, and in a recovery, nothing is claimed and nothing is sent.\<close>

lemma quiet_conclude:
  "disciplined x (conclude_unobserved cc y bd acc st status de ob err) (\<lambda>_ _. True) ph"
  "disciplined x (conclude_observed cc y bd acc st status de ob) (\<lambda>_ _. True) ph"
  by (simp_all add: conclude_unobserved_def conclude_observed_def Let_def split: sum.split option.split)

lemma quiet_observe: "disciplined x (observe_and_conclude cc e y bd acc st status de) (\<lambda>_ _. True) ph"
  by (auto simp: observe_and_conclude_def observePostcondition_def monitored_bind quiet_conclude
      intro!: disciplined_observation split: option.split)

lemma quiet_after_dispatch: "disciplined x (after_dispatch cc e y bd status de) (\<lambda>_ _. True) ph"
  by (simp add: after_dispatch_def quiet_observe split: option.split sum.split)

lemma quiet_ends:
  "disciplined x (already_satisfied cc y bd pre) (\<lambda>_ _. True) ph"
  "disciplined x (block_attempt y detail err) (\<lambda>_ _. True) ph"
  by (simp_all add: already_satisfied_def block_attempt_def split: sum.split option.split)

lemma sent_loadRecoveryAttempt: "disciplined x (loadRecoveryAttempt cc e pkt p plan) (\<lambda>_ ph. ph = Sent) Sent"
  by (auto simp: loadRecoveryAttempt_def monitored_bind intro!: disciplined_verify_permit
      split: option.split sum.split)

lemma sent_reconcile_observed: "disciplined x (reconcile_observed cc y rc ob) (\<lambda>_ _. True) Sent"
  by (simp add: reconcile_observed_def retain_pending_def close_observed_def Let_def split: option.split sum.split)

lemma sent_ReconcileAttempt: "disciplined x (ReconcileAttempt cc e pkt p plan) (\<lambda>_ _. True) Sent"
  unfolding ReconcileAttempt_def
  by (rule monitored_bindI [OF sent_loadRecoveryAttempt])
    (auto simp: observePostcondition_def monitored_bind sent_reconcile_observed
      intro!: disciplined_observation split: sum.split)

lemma sent_RetireAttemptUnknown: "disciplined x (RetireAttemptUnknown cc e pkt p plan reason) (\<lambda>_ _. True) Sent"
  by (auto simp: RetireAttemptUnknown_def Let_def split: sum.split option.split
      intro!: monitored_bindI [OF sent_loadRecoveryAttempt])

text \<open>Towards the effect: each part takes the execution from one phase to the next.\<close>

lemma check_before_custody:
  "disciplined x (checkEffectBoundary cc e p plan before) (\<lambda>_ ph. ph = Authorized) Authorized"
  by (simp add: checkEffectBoundary_def Let_def split: option.split sum.split)

lemma check_after_custody:
  "disciplined x (checkEffectBoundary cc e (xc_permit x) plan before) (\<lambda>r ph. r = None \<longrightarrow> ph = Armed) Custody"
  by (simp add: checkEffectBoundary_def Let_def split: option.split sum.split)

lemma retain_takes_custody:
  "disciplined x (retain_custody x (execution_entry x t)) (\<lambda>r ph. r = None \<longrightarrow> ph = Custody) Authorized"
  by (auto simp: retain_custody_def execution_entry_def Let_def split: option.split sum.split)

lemma patch_is_intended:
  assumes "xc_handle x = customerURL e i" and "eb_DestinationID (xc_binding x) = ex_destinationID e"
    and "eb_AccountID (xc_binding x) = ex_accountID e"
  shows "disciplined x (patchCustomer cc e i patch (eb_ExpectedResourceVersion (xc_binding x))) (\<lambda>_ _. True) Armed"
  using assms by (simp add: patchCustomer_def intended_request_def split: option.split sum.split)

lemma prepare_disciplined:
  assumes "disciplined x check (\<lambda>_ ph. ph = Authorized) Authorized"
    and "disciplined x retain (\<lambda>r ph. r = None \<longrightarrow> ph = Custody) Authorized"
    and "disciplined x check (\<lambda>r ph. r = None \<longrightarrow> ph = Armed) Custody"
  shows "disciplined x (prepare_prog check retain) (\<lambda>(_, err) ph. err = None \<longrightarrow> ph = Armed) Authorized"
  unfolding prepare_prog_def Let_def
  by (auto split: option.split intro!: monitored_bindI [OF assms(1)] monitored_bindI [OF assms(2)]
      monitored_bindI [OF assms(3)])

lemma dispatch_disciplined:
  assumes "disciplined x check (\<lambda>_ ph. ph = Authorized) Authorized"
    and "disciplined x retain (\<lambda>r ph. r = None \<longrightarrow> ph = Custody) Authorized"
    and "disciplined x check (\<lambda>r ph. r = None \<longrightarrow> ph = Armed) Custody"
    and "disciplined x effect (\<lambda>_ _. True) Armed"
  shows "disciplined x (dispatch_prog zero check retain effect) (\<lambda>_ _. True) Authorized"
  unfolding dispatch_prog_def
  by (rule monitored_bindI [OF prepare_disciplined [OF assms(1-3)]])
    (auto simp: Let_def split: option.split intro!: monitored_bindI [OF assms(4)])

lemma dispatch_mutation_disciplined:
  assumes "xc_handle x = customerURL e (cp_CustomerID (xc_plan x))"
    and "eb_DestinationID (xc_binding x) = ex_destinationID e" and "eb_AccountID (xc_binding x) = ex_accountID e"
  shows "disciplined x (dispatch_mutation cc e x before bd) (\<lambda>_ _. True) Authorized"
  unfolding dispatch_mutation_def
  by (simp, intro allI monitored_bindI [OF dispatch_disciplined [OF check_before_custody retain_takes_custody
          check_after_custody patch_is_intended [OF assms]]])
    (auto simp: quiet_after_dispatch)

lemma execute_authorized_disciplined:
  assumes "xc_handle x = customerURL e (cp_CustomerID (xc_plan x))"
    and "eb_DestinationID (xc_binding x) = ex_destinationID e" and "eb_AccountID (xc_binding x) = ex_accountID e"
  shows "disciplined x (execute_authorized cc e x) (\<lambda>_ _. True) Authorized"
  unfolding execute_authorized_def
  by (simp add: monitored_bind disciplined_getCustomer quiet_ends dispatch_mutation_disciplined [OF assms]
      split: sum.split option.split)

lemma authorization_event_type:
  "authorization_event lb p t = Inr ev \<Longrightarrow> je_Type ev = EventAuthorization"
  by (auto simp: authorization_event_def Let_def guard_simps)

lemma execute_claimed_disciplined:
  assumes "xc_handle x = customerURL e (cp_CustomerID (xc_plan x))"
    and "eb_DestinationID (xc_binding x) = ex_destinationID e" and "eb_AccountID (xc_binding x) = ex_accountID e"
  shows "disciplined x (execute_claimed cc e x now) (\<lambda>_ _. True) Held"
  unfolding execute_claimed_def authorization_prog_def
  using execute_authorized_disciplined [OF assms]
  by (auto simp: monitored_bind authorization_entry_def authorization_event_type
      intro!: disciplined_verify_permit split: sum.split option.split)

text \<open>The execution that a call is about, if it has one.\<close>

fun call_execution :: "crm_codec \<Rightarrow> crm_call \<Rightarrow> execution option" where
  "call_execution cc (ExecuteCall e pkt p plan) =
     (case execution_identity cc e pkt p plan [] of Inl _ \<Rightarrow> None | Inr x \<Rightarrow> Some x)"
| "call_execution cc _ = None"

lemma execution_identity_message:
  "execution_identity cc e pkt p plan m = Inr x \<Longrightarrow> execution_identity cc e pkt p plan m' = Inr x"
  by (auto simp: execution_identity_def guard_simps)

lemma admit_Inr:
  assumes "admit cc e pkt p plan now = Inr x"
  shows "call_execution cc (ExecuteCall e pkt p plan) = Some x \<and> xc_handle x = customerURL e (cp_CustomerID plan) \<and>
    xc_plan x = plan \<and> xc_permit x = p \<and> eb_DestinationID (xc_binding x) = ex_destinationID e \<and>
    eb_AccountID (xc_binding x) = ex_accountID e"
proof -
  from assms have id: "execution_identity cc e pkt p plan ''customer update plan digest mismatch'' = Inr x"
    and valid: "validateExecutionBinding e pkt (pm_Claims p) = None"
    by (simp_all add: admit_def Let_def guard_simps)
  from id have x: "xc_handle x = customerURL e (cp_CustomerID plan)" "xc_plan x = plan" "xc_permit x = p"
    "xc_binding x = the (pc_ExecutionBinding (pm_Claims p))"
    by (auto simp: execution_identity_def guard_simps)
  from valid obtain b where "pc_ExecutionBinding (pm_Claims p) = Some b" "eb_DestinationID b = ex_destinationID e"
    "eb_AccountID b = ex_accountID e"
    by (auto simp: validateExecutionBinding_def guard_simps split: option.splits)
  with x execution_identity_message [OF id, of "[]"] show ?thesis by simp
qed

lemma Execute_disciplined:
  assumes "call_execution cc (ExecuteCall e pkt p plan) = Some x"
  shows "disciplined x (Execute cc e pkt p plan) (\<lambda>_ _. True) Unclaimed"
proof -
  have same: "y = x" if "admit cc e pkt p plan now = Inr y" for y now
    using admit_Inr [OF that] assms by auto
  have claimed: "disciplined x (execute_claimed cc e x now) (\<lambda>_ _. True) Held" if "admit cc e pkt p plan now = Inr x" for now
    using admit_Inr [OF that] execute_claimed_disciplined [of x e cc now] by auto
  have "disciplined x (Claim (claim_record y now) (\<lambda>r. case r of
      Some err \<Rightarrow> failure (wrap ''claim CRM mutation attempt'' err)
    | None \<Rightarrow> execute_claimed cc e y now)) (\<lambda>_ _. True) Unclaimed" if adm: "admit cc e pkt p plan now = Inr y" for y now
    using claimed [of now] adm unfolding same [OF adm]
    by (auto simp: claim_record_def Let_def split: option.split)
  then show ?thesis
    unfolding Execute_def
    by (auto simp: monitored_bind simp del: monitored.simps(5) intro!: disciplined_verify_permit
        split: option.split sum.split)
qed

lemma Execute_without_identity:
  assumes "call_execution cc (ExecuteCall e pkt p plan) = None"
  shows "disciplined x (Execute cc e pkt p plan) (\<lambda>_ _. True) Sent"
proof -
  have "admit cc e pkt p plan now \<noteq> Inr y" for y now using admit_Inr assms by fastforce
  then show ?thesis
    unfolding Execute_def
    by (auto simp: monitored_bind intro!: disciplined_verify_permit split: option.split sum.split)
qed

lemma tagged_monitored:
  "monitored ok nxt p (\<lambda>_ _. True) s \<Longrightarrow> monitored ok nxt (tagged tag p) (\<lambda>_ _. True) s"
  unfolding tagged_def by (erule monitored_bindI) auto

lemma program_disciplined:
  "case call_execution cc c of
     Some x \<Rightarrow> disciplined x (program cc c) (\<lambda>_ _. True) Unclaimed
   | None \<Rightarrow> \<forall>x. disciplined x (program cc c) (\<lambda>_ _. True) Sent"
  by (cases c)
    (auto intro!: tagged_monitored Execute_disciplined Execute_without_identity sent_ReconcileAttempt
      sent_RetireAttemptUnknown split: option.split sum.splits)

section \<open>One request per attempt\<close>

abbreviation progress :: "execution \<Rightarrow> crm_event list \<Rightarrow> phase" where
  "progress x \<equiv> monitor_state (next_phase x) Unclaimed"

lemma progress_simps [simp]:
  "progress x [] = Unclaimed" "progress x (ev # h) = next_phase x (progress x h) ev"
  by (simp_all add: monitor_state_def)

lemma process_disciplined:
  assumes "crm_run cd cc calls fs0 s" and "call_execution cc (calls i) = Some x"
  shows "all_permitted (permitted x) (next_phase x) Unclaimed (calls_of i (sy_log s))"
  using crm_run_monitored [OF assms(1), of "permitted x" "next_phase x" i "\<lambda>_ _. True" Unclaimed]
    program_disciplined [of cc "calls i"] assms(2) by simp

lemma monitor_Sent: "monitor_state (next_phase x) Sent h = Sent"
  by (induction h) (simp_all add: monitor_state_def)

definition is_patch :: "crm_event \<Rightarrow> bool" where
  "is_patch ev \<longleftrightarrow> (case ev of EvPatch q r \<Rightarrow> True | _ \<Rightarrow> False)"

lemma quiet_process:
  assumes "crm_run cd cc calls fs0 s" and "call_execution cc (calls i) = None"
  shows "filter is_patch (calls_of i (sy_log s)) = []"
proof -
  have none: "filter is_patch h = []" if "all_permitted (permitted x) (next_phase x) Sent h" for x h
    using that by (induction h) (auto simp: monitor_Sent is_patch_def split: crm_event.splits)
  fix x :: execution
  have "all_permitted (permitted x) (next_phase x) Sent (calls_of i (sy_log s))"
    using crm_run_monitored [OF assms(1), of "permitted x" "next_phase x" i "\<lambda>_ _. True" Sent]
      program_disciplined [of cc "calls i"] assms(2) by simp
  then show ?thesis by (rule none)
qed

lemma next_phase_Sent_iff: "\<not> is_patch ev \<Longrightarrow> next_phase x ph ev = Sent \<longleftrightarrow> ph = Sent"
  by (cases ph; cases ev) (auto simp: is_patch_def)

lemma one_patch_per_process:
  "all_permitted (permitted x) (next_phase x) Unclaimed h \<Longrightarrow>
   length (filter is_patch h) = (if progress x h = Sent then 1 else 0)"
proof (induction h)
  case (Cons ev h)
  show ?case
  proof (cases "is_patch ev")
    case True
    then obtain q r where "ev = EvPatch q r" by (auto simp: is_patch_def split: crm_event.splits)
    with Cons show ?thesis by (simp add: is_patch_def)
  next
    case False
    with Cons next_phase_Sent_iff [OF False] show ?thesis by simp
  qed
qed simp

text \<open>The calls that brought an execution to its phase, the latest first.\<close>

inductive trail :: "execution \<Rightarrow> phase \<Rightarrow> crm_event list \<Rightarrow> bool" for x where
  trail_start: "trail x Unclaimed []"
| trail_claim: "ar_AttemptID rc = xc_attemptID x \<Longrightarrow> trail x Held [EvClaim rc None]"
| trail_authorize:
    "trail x Held l \<Longrightarrow> je_Type ev = EventAuthorization \<Longrightarrow> je_AttemptID ev = xc_attemptID x \<Longrightarrow>
     trail x Authorized (EvAppend bg ev None # l)"
| trail_announce:
    "trail x Authorized l \<Longrightarrow> je_Type ev = EventExecution \<Longrightarrow> je_AttemptID ev = xc_attemptID x \<Longrightarrow>
     trail x Announced (EvAppend bg ev None # l)"
| trail_custody:
    "trail x Announced l \<Longrightarrow>
     trail x Custody (EvTransition bg (xc_attemptID x) AttemptClaimed AttemptPossibleEffect st d t (Inr r) # l)"
| trail_arm:
    "trail x Custody l \<Longrightarrow> CheckValidity (pc_ValidUntil (pm_Claims (xc_permit x))) t = None \<Longrightarrow>
     trail x Armed (EvNow t # l)"
| trail_send: "trail x Armed l \<Longrightarrow> trail x Sent (EvPatch q r # l)"

inductive_simps trail_simps:
  "trail x Unclaimed l" "trail x Held l" "trail x Authorized l" "trail x Announced l" "trail x Custody l"
  "trail x Armed l" "trail x Sent l"

lemma next_phase_cases:
  assumes "permitted x ph ev" and "next_phase x ph ev \<noteq> ph" and "trail x ph l"
  shows "trail x (next_phase x ph ev) (ev # l)"
  using assms by (cases ph; cases ev) (auto simp: is_ok_iff trail_simps split: if_splits)

lemma progress_trail:
  "all_permitted (permitted x) (next_phase x) Unclaimed h \<Longrightarrow> \<exists>l. subseq l h \<and> trail x (progress x h) l"
proof (induction h)
  case (Cons ev h)
  then obtain l where l: "subseq l h" "trail x (progress x h) l" by auto
  show ?case
  proof (cases "next_phase x (progress x h) ev = progress x h")
    case True
    with l show ?thesis by (intro exI [of _ l]) (auto intro: list_emb_Cons)
  next
    case False
    from next_phase_cases [OF _ False l(2)] Cons.prems l(1) show ?thesis
      by (intro exI [of _ "ev # l"]) simp
  qed
qed (simp add: trail_simps)

lemma sent_claimed:
  assumes "all_permitted (permitted x) (next_phase x) Unclaimed h" and "progress x h = Sent"
  obtains rc where "EvClaim rc None \<in> set h" and "ar_AttemptID rc = xc_attemptID x"
proof -
  from progress_trail [OF assms(1)] assms(2) obtain l where l: "subseq l h" "trail x Sent l" by auto
  from l(2) obtain rc where rc: "EvClaim rc None \<in> set l" "ar_AttemptID rc = xc_attemptID x"
    by (auto simp: trail_simps)
  from list_emb_set [OF l(1) rc(1)] rc(2) that show thesis by metis
qed

subsection \<open>Claims in the log\<close>

definition won_claims :: "(nat \<times> crm_event) list \<Rightarrow> (nat \<times> crm_event) list" where
  "won_claims log = filter (\<lambda>(i, ev). case ev of EvClaim rc r \<Rightarrow> r = None | _ \<Rightarrow> False) log"

definition claim_id :: "nat \<times> crm_event \<Rightarrow> string" where
  "claim_id c = (case snd c of EvClaim rc r \<Rightarrow> ar_AttemptID rc | _ \<Rightarrow> [])"

lemma claims_exclusive:
  assumes "crm_run cd cc calls fs0 s"
  shows "distinct (map claim_id (won_claims (sy_log s))) \<and>
    (\<forall>i \<in> set (map claim_id (won_claims (sy_log s))). attempt_held (sy_files s) i)"
  using assms
proof (induction rule: crm_run.induct)
  case run_start
  show ?case by (simp add: won_claims_def)
next
  case (run_step s i ev p' fs')
  let ?won = "map claim_id (won_claims (sy_log s))"
  from run_step.hyps(3) show ?case
  proof (cases rule: store_step.cases)
    case (store_claim ctx fault rc r)
    have "(\<lambda>(ctx, fault) r fs. FileAttemptStore_Claim cd ctx fault r fs) (ctx, fault) rc (sy_files s) = (r, fs')"
      using store_claim by simp
    from file_claims.claim_extends_custody [OF _ _ this, of ?won] run_step.IH
    have "distinct (if r = None then ar_AttemptID rc # ?won else ?won) \<and>
      (\<forall>i \<in> set (if r = None then ar_AttemptID rc # ?won else ?won). attempt_held fs' i)" by blast
    moreover have "map claim_id (won_claims ((i, ev) # sy_log s)) = (if r = None then ar_AttemptID rc # ?won else ?won)"
      using store_claim(1) by (simp add: won_claims_def claim_id_def)
    ultimately show ?thesis by simp
  next
    case (store_transition ctx rf wrf j a b st d t r bg)
    have "\<forall>i \<in> set ?won. attempt_held fs' i"
      using file_claims.other_keeps_custody [of ?won "sy_files s" cd "(ctx, rf, wrf, j, a, b, st, d, t)"]
        run_step.IH store_transition by simp
    with run_step.IH store_transition(1) show ?thesis by (simp add: won_claims_def)
  qed (use run_step.IH in \<open>simp_all add: won_claims_def\<close>)
qed

lemma calls_of_set: "ev \<in> set (calls_of i log) \<longleftrightarrow> (i, ev) \<in> set log"
  by (force simp: calls_of_def)

lemma patched_process:
  assumes "crm_run cd cc calls fs0 s" and "(i, ev) \<in> set (sy_log s)" and "is_patch ev"
  obtains x rc where "call_execution cc (calls i) = Some x" and "(i, EvClaim rc None) \<in> set (sy_log s)"
    and "ar_AttemptID rc = xc_attemptID x"
    and "length (filter is_patch (calls_of i (sy_log s))) = 1"
proof (cases "call_execution cc (calls i)")
  case None
  from quiet_process [OF assms(1) None] assms(2,3) calls_of_set [of ev i "sy_log s"] have False
    by (auto simp: filter_empty_conv)
  then show thesis ..
next
  case (Some x)
  note perm = process_disciplined [OF assms(1) Some]
  have "filter is_patch (calls_of i (sy_log s)) \<noteq> []"
    using assms(2,3) calls_of_set [of ev i "sy_log s"] by (auto simp: filter_empty_conv)
  with one_patch_per_process [OF perm] have sent: "progress x (calls_of i (sy_log s)) = Sent"
    and one: "length (filter is_patch (calls_of i (sy_log s))) = 1" by (auto split: if_splits)
  from sent_claimed [OF perm sent] obtain rc where "EvClaim rc None \<in> set (calls_of i (sy_log s))"
    "ar_AttemptID rc = xc_attemptID x" by blast
  with that [OF Some _ _ one] show thesis by (simp add: calls_of_set)
qed

text \<open>The processes that sent a request, one entry per request.\<close>

definition patched :: "(nat \<times> crm_event) list \<Rightarrow> nat list" where
  "patched log = map fst (filter (\<lambda>(i, ev). is_patch ev) log)"

definition attempt_of :: "crm_codec \<Rightarrow> crm_call \<Rightarrow> string" where
  "attempt_of cc c = (case call_execution cc c of None \<Rightarrow> [] | Some x \<Rightarrow> xc_attemptID x)"

fun permit_of :: "crm_call \<Rightarrow> permit" where
  "permit_of (ExecuteCall e pkt p plan) = p"
| "permit_of (ReconcileCall e pkt p plan) = p"
| "permit_of (RetireCall e pkt p plan reason) = p"

lemma patched_count: "count_list (patched log) i = length (filter is_patch (calls_of i log))"
  by (induction log) (auto simp: patched_def calls_of_def)

lemma patched_set: "i \<in> set (patched log) \<longleftrightarrow> (\<exists>ev. (i, ev) \<in> set log \<and> is_patch ev)"
  by (force simp: patched_def)

lemma patched_distinct:
  assumes "crm_run cd cc calls fs0 s"
  shows "distinct (patched (sy_log s))"
proof (rule ccontr)
  assume "\<not> distinct (patched (sy_log s))"
  then obtain xs ys zs i where split: "patched (sy_log s) = xs @ [i] @ ys @ [i] @ zs" using not_distinct_decomp by blast
  then have "i \<in> set (patched (sy_log s))" by simp
  then obtain ev where "(i, ev) \<in> set (sy_log s)" "is_patch ev" by (auto simp: patched_set)
  then have "length (filter is_patch (calls_of i (sy_log s))) = 1" using patched_process [OF assms] by blast
  moreover have "count_list (patched (sy_log s)) i \<ge> 2" unfolding split by simp
  ultimately show False by (simp add: patched_count)
qed

lemma patched_attempt_inj:
  assumes run: "crm_run cd cc calls fs0 s"
  shows "inj_on (\<lambda>i. attempt_of cc (calls i)) (set (patched (sy_log s)))"
proof (rule inj_onI)
  fix i j
  assume "i \<in> set (patched (sy_log s))" "j \<in> set (patched (sy_log s))"
    and eq: "attempt_of cc (calls i) = attempt_of cc (calls j)"
  then obtain ev ev' where "(i, ev) \<in> set (sy_log s)" "is_patch ev" "(j, ev') \<in> set (sy_log s)" "is_patch ev'"
    by (auto simp: patched_set)
  then obtain x y rc rc' where i: "call_execution cc (calls i) = Some x" "(i, EvClaim rc None) \<in> set (sy_log s)"
      "ar_AttemptID rc = xc_attemptID x"
    and j: "call_execution cc (calls j) = Some y" "(j, EvClaim rc' None) \<in> set (sy_log s)"
      "ar_AttemptID rc' = xc_attemptID y"
    using patched_process [OF run] by metis
  have "claim_id (i, EvClaim rc None) = claim_id (j, EvClaim rc' None)"
    using eq i j by (simp add: claim_id_def attempt_of_def)
  moreover have "inj_on claim_id (set (won_claims (sy_log s)))"
    using claims_exclusive [OF run] by (simp add: distinct_map)
  moreover have "(i, EvClaim rc None) \<in> set (won_claims (sy_log s))" "(j, EvClaim rc' None) \<in> set (won_claims (sy_log s))"
    using i(2) j(2) by (simp_all add: won_claims_def)
  ultimately show "i = j" by (metis inj_onD prod.inject)
qed

lemma same_permit_same_attempt:
  assumes "call_execution cc c = Some x" and "call_execution cc c' = Some y" and "permit_of c = permit_of c'"
  shows "attempt_of cc c = attempt_of cc c'"
proof -
  have id: "\<exists>e pkt plan. execution_identity cc e pkt (permit_of c) plan [] = Inr x" if "call_execution cc c = Some x" for c x
    using that by (cases c) (auto split: sum.splits)
  have "MutationAttemptID (cc_library cc) (xc_permitDigest z) (pc_PlanDigest (pm_Claims p)) = Inr (xc_attemptID z) \<and>
      DigestPayload (cc_library cc) (permit_json p) = Inr (xc_permitDigest z)"
    if "execution_identity cc e pkt p plan [] = Inr z" for e pkt p plan z
    using that by (auto simp: execution_identity_def guard_simps)
  with id [OF assms(1)] id [OF assms(2)] assms(3) have "xc_attemptID x = xc_attemptID y" by (metis sum.inject(2))
  with assms show ?thesis by (simp add: attempt_of_def)
qed


end
