(* ===== verification/Crm_Reports.thy ===== *)
theory Crm_Reports
  imports Crm_Safety
begin

text \<open>
  What the evidence of the CRM executor says, against the calls that were made: every outcome and every
  closure that is returned passes its verification, and an execution that reports success has seen
  the intended state, either before it sent anything or twice in a row after its request.
\<close>

section \<open>Histories\<close>

abbreviation watched :: "'a prog \<Rightarrow> ('a \<Rightarrow> crm_event list \<Rightarrow> bool) \<Rightarrow> crm_event list \<Rightarrow> bool" where
  "watched \<equiv> monitored (\<lambda>_ _. True) (\<lambda>h ev. ev # h)"

lemma watched_any: "watched p (\<lambda>_ _. True) h"
  by (induction p arbitrary: h) auto

lemma history: "monitor_state (\<lambda>h ev. ev # h) [] h = h"
  by (induction h) (simp_all add: monitor_state_def)

lemma finished_process:
  assumes "crm_run cd cc calls fs0 s" and "watched (program cc (calls i)) Q []" and "sy_procs s i = Return a"
  shows "Q a (calls_of i (sy_log s))"
  using crm_run_monitored [OF assms(1,2)] assms(3) by (simp add: history)

section \<open>Evidence verifies\<close>

definition sound_outcome :: "crm_codec \<Rightarrow> outcome_evidence result \<Rightarrow> bool" where
  "sound_outcome cc res \<longleftrightarrow>
     (case fst res of None \<Rightarrow> snd res \<noteq> None | Some oc \<Rightarrow> VerifyOutcome (cc_library cc) oc = None)"

definition sound_closure :: "crm_codec \<Rightarrow> closure_evidence result \<Rightarrow> bool" where
  "sound_closure cc res \<longleftrightarrow>
     (case fst res of None \<Rightarrow> snd res \<noteq> None | Some c \<Rightarrow> VerifyClosureEvidence (cc_library cc) c = None)"

lemma sound_simps [simp]:
  "sound_outcome cc (None, Some err)" "sound_closure cc (None, Some err)"
  "sound_outcome cc (Some oc, err') \<longleftrightarrow> VerifyOutcome (cc_library cc) oc = None"
  "sound_closure cc (Some c, err') \<longleftrightarrow> VerifyClosureEvidence (cc_library cc) c = None"
  by (simp_all add: sound_outcome_def sound_closure_def)

lemma new_outcome_verifies: "new_outcome cc x bd ad res acc st n ev http t = Inr oc \<Longrightarrow> VerifyOutcome (cc_library cc) oc = None"
  using newOutcomeEvidence_verifies by (auto simp: new_outcome_def)

lemma conclude_sound:
  "watched (conclude_unobserved cc y bd acc st status de ob err) (\<lambda>res _. sound_outcome cc res) h"
  "watched (conclude_observed cc y bd acc st status de ob) (\<lambda>res _. sound_outcome cc res) h"
  by (auto simp: conclude_unobserved_def conclude_observed_def Let_def new_outcome_verifies
      split: sum.split option.split)

lemma after_dispatch_sound: "watched (after_dispatch cc e y bd status de) (\<lambda>res _. sound_outcome cc res) h"
  by (auto simp: after_dispatch_def observe_and_conclude_def conclude_sound
      intro!: monitored_bindI [OF watched_any] split: option.split sum.split)

lemma ends_sound:
  "watched (already_satisfied cc y bd pre) (\<lambda>res _. sound_outcome cc res) h"
  "watched (block_attempt y detail err) (\<lambda>res _. sound_outcome cc res) h"
  by (auto simp: already_satisfied_def block_attempt_def new_outcome_verifies
      split: sum.split option.split)

lemma Execute_sound: "watched (Execute cc e pkt p plan) (\<lambda>res _. sound_outcome cc res) h"
proof -
  have dispatch: "watched (dispatch_mutation cc e x before bd) (\<lambda>res _. sound_outcome cc res) h" for x before bd h
    by (auto simp: dispatch_mutation_def after_dispatch_sound
        intro!: monitored_bindI [OF watched_any])
  have authorized: "watched (execute_authorized cc e x) (\<lambda>res _. sound_outcome cc res) h" for x h
    unfolding execute_authorized_def
    by (rule monitored_bindI [OF watched_any])
      (auto simp: ends_sound dispatch split: sum.split option.split)
  have claimed: "watched (execute_claimed cc e x now) (\<lambda>res _. sound_outcome cc res) h" for x now h
    unfolding execute_claimed_def
    by (rule monitored_bindI [OF watched_any])
      (auto simp: authorized split: sum.split option.split)
  show ?thesis
    unfolding Execute_def
    by (auto simp: claimed split: sum.split option.split
        intro!: monitored_bindI [OF watched_any])
qed

lemma ReconcileAttempt_sound: "watched (ReconcileAttempt cc e pkt p plan) (\<lambda>res _. sound_closure cc res) h"
proof -
  have "watched (reconcile_observed cc x rc ob) (\<lambda>res _. sound_closure cc res) h" for x rc ob h
    by (auto simp: reconcile_observed_def retain_pending_def close_observed_def Let_def
        dest: newClosureEvidence_verifies split: sum.split option.split)
  then show ?thesis
    unfolding ReconcileAttempt_def
    by (auto split: sum.split intro!: monitored_bindI [OF watched_any])
qed

lemma RetireAttemptUnknown_sound: "watched (RetireAttemptUnknown cc e pkt p plan reason) (\<lambda>res _. sound_closure cc res) h"
  unfolding RetireAttemptUnknown_def Let_def
  by (auto dest: newClosureEvidence_verifies split: sum.split option.split
      intro!: monitored_bindI [OF watched_any])

definition sound_evidence :: "crm_codec \<Rightarrow> crm_evidence result \<Rightarrow> bool" where
  "sound_evidence cc res \<longleftrightarrow>
     (case fst res of
        None \<Rightarrow> snd res \<noteq> None
      | Some (Inl oc) \<Rightarrow> VerifyOutcome (cc_library cc) oc = None
      | Some (Inr c) \<Rightarrow> VerifyClosureEvidence (cc_library cc) c = None)"

lemma program_sound: "watched (program cc c) (\<lambda>res _. sound_evidence cc res) h"
proof (cases c)
  case (ExecuteCall e pkt p plan)
  then show ?thesis
    by (auto simp: tagged_def sound_outcome_def sound_evidence_def intro!: monitored_bindI [OF Execute_sound] split: option.splits)
next
  case (ReconcileCall e pkt p plan)
  then show ?thesis
    by (auto simp: tagged_def sound_closure_def sound_evidence_def
        intro!: monitored_bindI [OF ReconcileAttempt_sound] split: option.splits)
next
  case (RetireCall e pkt p plan reason)
  then show ?thesis
    by (auto simp: tagged_def sound_closure_def sound_evidence_def
        intro!: monitored_bindI [OF RetireAttemptUnknown_sound] split: option.splits)
qed

section \<open>Success has been observed\<close>

text \<open>A read of the customer that the executor accepted, with the evaluation it got.\<close>

definition good_read ::
  "crm_codec \<Rightarrow> executor \<Rightarrow> customer_update_plan \<Rightarrow> (go_error + http_response) \<Rightarrow> postcondition_evaluation \<Rightarrow> bool" where
  "good_read cc e plan r ev \<longleftrightarrow>
     (\<exists>resp snap. r = Inr resp \<and> snapshot_of cc resp = Inr snap \<and> validateDestinationIdentity e snap = None \<and>
        validateObservedCustomerTarget cc (cs_State snap) (cp_CustomerID plan) = None \<and>
        EvaluateCustomerUpdatePostcondition (cc_library cc) plan (cs_State snap) = Inr ev)"

text \<open>A read that shows the intended state of the right customer at the right destination.\<close>

definition reads_intended :: "crm_codec \<Rightarrow> executor \<Rightarrow> customer_update_plan \<Rightarrow> (go_error + http_response) \<Rightarrow> bool" where
  "reads_intended cc e plan r \<longleftrightarrow>
     (\<exists>resp snap st. r = Inr resp \<and> snapshot_of cc resp = Inr snap \<and> cs_State snap = Some st \<and>
        cs_DestinationID snap = ex_destinationID e \<and> cs_AccountID snap = ex_accountID e \<and>
        map_of st ''id'' = Some (JStr (cp_CustomerID plan)) \<and>
        (\<forall>key \<in> fst ` set (cp_Patch plan). field_met (cc_library cc) (cp_Patch plan) st key))"

lemma validateObservedCustomerTarget_None:
  "validateObservedCustomerTarget cc state i = None \<Longrightarrow> \<exists>st. state = Some st \<and> map_of st ''id'' = Some (JStr i)"
  by (auto simp: validateObservedCustomerTarget_def split: option.splits json.splits if_splits)

lemma good_read_intended:
  assumes "good_read cc e plan r ev" and "pe_Result ev = PostconditionVerified"
  shows "reads_intended cc e plan r"
proof -
  from assms(1) obtain resp snap where read: "r = Inr resp" "snapshot_of cc resp = Inr snap"
    "validateDestinationIdentity e snap = None"
    "validateObservedCustomerTarget cc (cs_State snap) (cp_CustomerID plan) = None"
    "EvaluateCustomerUpdatePostcondition (cc_library cc) plan (cs_State snap) = Inr ev"
    by (auto simp: good_read_def)
  from validateObservedCustomerTarget_None [OF read(4)] obtain st where st: "cs_State snap = Some st"
    "map_of st ''id'' = Some (JStr (cp_CustomerID plan))" by blast
  have "\<forall>key \<in> fst ` set (cp_Patch plan). field_met (cc_library cc) (cp_Patch plan) st key"
    using postcondition_result_exact [of "cc_library cc" plan st ev] read(5) st(1) assms(2)
    by (auto split: if_splits)
  with read st show ?thesis
    by (auto simp: reads_intended_def validateDestinationIdentity_def guard_simps)
qed

lemma equivalent_verified:
  assumes "good_read cc e plan r ev" and "good_read cc e plan r' ev'"
    and "EquivalentPostconditionObservation ev ev'" and "pe_Result ev' = PostconditionVerified"
  shows "pe_Result ev = PostconditionVerified"
proof -
  from assms(1) obtain st where "EvaluateCustomerUpdatePostcondition (cc_library cc) plan st = Inr ev"
    by (auto simp: good_read_def)
  then have 1: "pe_Result ev = (if matched_count (pe_Fields ev) = pe_TotalFields ev then PostconditionVerified
      else if matched_count (pe_Fields ev) = 0 then PostconditionUnsatisfied else PostconditionPartial)"
    by (rule EvaluateCustomerUpdatePostcondition_Inr)
  from assms(2) obtain st' where "EvaluateCustomerUpdatePostcondition (cc_library cc) plan st' = Inr ev'"
    by (auto simp: good_read_def)
  then have 2: "pe_Result ev' = (if matched_count (pe_Fields ev') = pe_TotalFields ev' then PostconditionVerified
      else if matched_count (pe_Fields ev') = 0 then PostconditionUnsatisfied else PostconditionPartial)"
    by (rule EvaluateCustomerUpdatePostcondition_Inr)
  from 1 2 assms(3,4) show ?thesis
    by (auto simp: EquivalentPostconditionObservation_def split: if_splits)
qed

text \<open>The last two of the three reads.\<close>

definition stable_reads ::
  "crm_codec \<Rightarrow> executor \<Rightarrow> customer_update_plan \<Rightarrow> postcondition_evaluation \<Rightarrow> crm_event list \<Rightarrow> crm_event list \<Rightarrow> bool" where
  "stable_reads cc e plan ev h h' \<longleftrightarrow>
     (\<exists>r1 r2 r3 ev2. h' = map (EvGet (customerURL e (cp_CustomerID plan))) [r3, r2, r1] @ h \<and>
        good_read cc e plan r2 ev2 \<and> good_read cc e plan r3 ev \<and> EquivalentPostconditionObservation ev2 ev)"

text \<open>After \<open>n\<close> more reads without an error, all of them accepted.\<close>

definition reads_done ::
  "crm_codec \<Rightarrow> executor \<Rightarrow> customer_update_plan \<Rightarrow> nat \<Rightarrow> postcondition_evaluation list \<Rightarrow> crm_event list
    \<Rightarrow> postcondition_observation \<Rightarrow> crm_event list \<Rightarrow> bool" where
  "reads_done cc e plan n evs h ob h' \<longleftrightarrow>
     (po_Err ob = None \<longrightarrow>
        (\<exists>rs evs' sns'. length rs = n \<and> h' = map (EvGet (customerURL e (cp_CustomerID plan))) (rev rs) @ h \<and>
           list_all2 (good_read cc e plan) rs evs' \<and> ob = observation_verdict cc (evs @ evs') sns'))"

lemma reads_done_Suc:
  assumes "good_read cc e plan r ev"
    and "reads_done cc e plan n (evs @ [ev]) (EvGet (customerURL e (cp_CustomerID plan)) r # h) ob h'"
  shows "reads_done cc e plan (Suc n) evs h ob h'"
  unfolding reads_done_def
proof
  let ?u = "customerURL e (cp_CustomerID plan)"
  assume "po_Err ob = None"
  with assms(2) obtain rs evs' sns' where "length rs = n" "h' = map (EvGet ?u) (rev rs) @ EvGet ?u r # h"
    "list_all2 (good_read cc e plan) rs evs'" "ob = observation_verdict cc (evs @ ev # evs') sns'"
    by (auto simp: reads_done_def)
  with assms(1) show "\<exists>rs evs' sns'. length rs = Suc n \<and> h' = map (EvGet ?u) (rev rs) @ h \<and>
     list_all2 (good_read cc e plan) rs evs' \<and> ob = observation_verdict cc (evs @ evs') sns'"
    by (intro exI [of _ "r # rs"] exI [of _ "ev # evs'"] exI [of _ sns']) simp
qed

lemma reads_done_error: "po_Err ob \<noteq> None \<Longrightarrow> reads_done cc e plan n evs h ob h'"
  by (auto simp: reads_done_def)

lemma good_readI:
  assumes "snapshot_of cc resp = Inr snap" and "validateDestinationIdentity e snap = None"
    and "validateObservedCustomerTarget cc (cs_State snap) (cp_CustomerID plan) = None"
    and "EvaluateCustomerUpdatePostcondition (cc_library cc) plan (cs_State snap) = Inr ev"
  shows "good_read cc e plan (Inr resp) ev"
  using assms by (auto simp: good_read_def)

lemma observation_reads_watched:
  "watched (observation_reads cc e plan n evs sns) (reads_done cc e plan n evs h) h"
proof (induction n arbitrary: evs sns h)
  case 0
  show ?case by (auto simp: reads_done_def)
next
  case (Suc n)
  have fail: "po_Err (retainObservedPostcondition cc evs sns st err) \<noteq> None" for st err
    by (simp add: retainObservedPostcondition_def Let_def)
  have rest: "watched (observation_reads cc e plan n (evs @ [ev]) sns') (reads_done cc e plan (Suc n) evs h)
      (EvGet (customerURL e (cp_CustomerID plan)) r # h)" if "good_read cc e plan r ev" for ev sns' r
    using Suc.IH [of "evs @ [ev]" sns'] by (rule monitored_mono) (rule reads_done_Suc [OF that])
  show ?case
    unfolding observation_reads.simps getCustomer_def
    by (auto simp: reads_done_error fail intro!: rest good_readI split: sum.splits option.splits)
qed

lemma observe_reads:
  "watched (observePostcondition cc e plan)
     (\<lambda>ob h'. po_Err ob = None \<longrightarrow> (\<exists>ev. po_Evaluation ob = Some ev \<and> stable_reads cc e plan ev h h')) h"
proof -
  have verdict: "po_Evaluation (observation_verdict cc [e1, e2, e3] sns) = Some e3 \<and>
      EquivalentPostconditionObservation e2 e3"
    if "po_Err (observation_verdict cc [e1, e2, e3] sns) = None" for e1 e2 e3 sns
    using that by (auto simp: observation_verdict_def Let_def split: sum.splits if_splits)
  show ?thesis
    unfolding observePostcondition_def
  proof (rule monitored_mono [OF observation_reads_watched], intro impI)
    fix ob h'
    assume "reads_done cc e plan 3 [] h ob h'" and ok: "po_Err ob = None"
    then obtain rs evs' sns' where rs: "length rs = 3"
      "h' = map (EvGet (customerURL e (cp_CustomerID plan))) (rev rs) @ h"
      "list_all2 (good_read cc e plan) rs evs'" and ob: "ob = observation_verdict cc evs' sns'"
      by (auto simp: reads_done_def)
    from rs(1) obtain r1 r2 r3 where r: "rs = [r1, r2, r3]"
      by (auto simp: numeral_3_eq_3 length_Suc_conv)
    with rs(3) obtain e1 e2 e3 where evs: "evs' = [e1, e2, e3]" "good_read cc e plan r2 e2" "good_read cc e plan r3 e3"
      by (auto simp: list_all2_Cons1)
    from verdict [of e1 e2 e3 sns'] ok show "\<exists>ev. po_Evaluation ob = Some ev \<and> stable_reads cc e plan ev h h'"
      using rs(2) evs by (auto simp: ob evs(1) r stable_reads_def)
  qed
qed

subsection \<open>The result of an execution\<close>

definition nothing_sent :: "crm_event list \<Rightarrow> bool" where
  "nothing_sent h \<longleftrightarrow> list_all (\<lambda>ev. \<not> is_patch ev) h"

definition request_sent :: "crm_event list \<Rightarrow> bool" where
  "request_sent h \<longleftrightarrow> list_ex is_patch h"

text \<open>What success means: the intended state was there before, or was read twice after the request.\<close>

definition success_observed ::
  "crm_codec \<Rightarrow> executor \<Rightarrow> customer_update_plan \<Rightarrow> outcome_evidence result \<Rightarrow> crm_event list \<Rightarrow> bool" where
  "success_observed cc e plan res h \<longleftrightarrow>
     (snd res = None \<longrightarrow>
        (\<exists>oc. fst res = Some oc \<and>
           (oe_Result oc = PostconditionAlreadySatisfied \<and> nothing_sent h \<and>
              (\<exists>r. EvGet (customerURL e (cp_CustomerID plan)) r \<in> set h \<and> reads_intended cc e plan r) \<or>
            oe_Result oc = PostconditionVerified \<and>
              (\<exists>h1 h2 r2 r3. h = h1 @ map (EvGet (customerURL e (cp_CustomerID plan))) [r3, r2] @ h2 \<and>
                 request_sent h2 \<and> reads_intended cc e plan r2 \<and> reads_intended cc e plan r3))))"

lemma failure_observed [simp]: "success_observed cc e plan (oc, Some err) h"
  by (simp add: success_observed_def)

lemma sent_Cons [simp]:
  "nothing_sent [] " "nothing_sent (ev # h) \<longleftrightarrow> \<not> is_patch ev \<and> nothing_sent h"
  "request_sent (ev # h) \<longleftrightarrow> is_patch ev \<or> request_sent h"
  by (simp_all add: nothing_sent_def request_sent_def)

lemma is_patch_simps [simp]:
  "\<not> is_patch (EvNow t)" "\<not> is_patch (EvCtx c)" "\<not> is_patch (EvVerify a1 a2 a3 c)" "\<not> is_patch (EvClaim rc c)"
  "\<not> is_patch (EvTransition bg i a b st d t rr)" "\<not> is_patch (EvLoad i rr)" "\<not> is_patch (EvAppend bg ev c)"
  "\<not> is_patch (EvGet u r)" "is_patch (EvPatch q p)"
  by (simp_all add: is_patch_def)

lemma verified_observed:
  assumes "stable_reads cc e plan ev h0 h" and "request_sent h0" and "pe_Result ev = PostconditionVerified"
    and "oe_Result oc = PostconditionVerified"
  shows "success_observed cc e plan (Some oc, None) (h1 @ h)"
proof -
  from assms(1) obtain r1 r2 r3 ev2 where h: "h = map (EvGet (customerURL e (cp_CustomerID plan))) [r3, r2, r1] @ h0"
    and good: "good_read cc e plan r2 ev2" "good_read cc e plan r3 ev"
    and equiv: "EquivalentPostconditionObservation ev2 ev"
    by (auto simp: stable_reads_def)
  have "reads_intended cc e plan r3" "reads_intended cc e plan r2"
    using good_read_intended good equivalent_verified [OF good equiv] assms(3) by blast+
  moreover have "h1 @ h = h1 @ map (EvGet (customerURL e (cp_CustomerID plan))) [r3, r2] @
      EvGet (customerURL e (cp_CustomerID plan)) r1 # h0"
    by (simp add: h)
  ultimately show ?thesis
    unfolding success_observed_def using assms(2,4)
    by (intro impI exI [of _ oc] conjI disjI2 exI [of _ h1] exI [of _ r2] exI [of _ r3]
        exI [of _ "EvGet (customerURL e (cp_CustomerID plan)) r1 # h0"]) simp_all
qed

lemma new_outcome_result: "new_outcome cc x bd ad res acc st n ev http t = Inr oc \<Longrightarrow> oe_Result oc = res"
  using newOutcomeEvidence_verifies by (auto simp: new_outcome_def)

lemma conclude_observed_success:
  assumes "stable_reads cc e plan ev h0 h" and "request_sent h0" and "po_Evaluation ob = Some ev"
  shows "watched (conclude_observed cc x bd acc st status de ob) (success_observed cc e plan) h"
proof -
  have "success_observed cc e plan (Some oc, None) (a # b # c # d # h)"
    if "pe_Result ev = PostconditionVerified" "oe_Result oc = PostconditionVerified" for oc a b c d
    using verified_observed [OF assms(1,2) that, of "[a, b, c, d]"] by simp
  then show ?thesis
    by (auto simp: conclude_observed_def Let_def assms(3) new_outcome_result split: sum.split option.split)
qed

lemma conclude_unobserved_success:
  "watched (conclude_unobserved cc x bd acc st status de ob err) (success_observed cc e plan) h"
  by (auto simp: conclude_unobserved_def split: sum.split option.split)

lemma observe_and_conclude_success:
  assumes "request_sent h" and "xc_plan x = plan"
  shows "watched (observe_and_conclude cc e x bd acc st status de) (success_observed cc e plan) h"
  unfolding observe_and_conclude_def assms(2)
  by (rule monitored_bindI [OF observe_reads])
    (auto simp: conclude_unobserved_success intro: conclude_observed_success [OF _ assms(1)] split: option.split)

lemma after_dispatch_success:
  assumes "request_sent h" and "xc_plan x = plan"
  shows "watched (after_dispatch cc e x bd status de) (success_observed cc e plan) h"
  using assms
  by (auto simp: after_dispatch_def intro!: observe_and_conclude_success split: option.split sum.split)

lemma dispatch_entered:
  assumes "\<And>h. watched effect (\<lambda>_ h'. request_sent h') h"
  shows "watched (dispatch_prog zero check retain effect) (\<lambda>(d, _) h'. BoundaryEntered d \<longrightarrow> request_sent h') h"
  unfolding dispatch_prog_def
  by (rule monitored_bindI [OF watched_any])
    (auto simp: Let_def split: option.split intro!: monitored_bindI [OF assms])

lemma dispatch_mutation_success:
  assumes "lb_marshal (cc_library cc) (map_json (cp_Patch plan)) \<noteq> None" and "xc_plan x = plan"
  shows "watched (dispatch_mutation cc e x before bd) (success_observed cc e plan) h"
proof -
  have "watched (patchCustomer cc e i (cp_Patch plan) v) (\<lambda>_ h'. request_sent h') h" for i v h
    using assms(1) by (auto simp: patchCustomer_def)
  from dispatch_entered [OF this] show ?thesis
    unfolding dispatch_mutation_def assms(2)
    by (auto intro!: monitored_bindI [OF dispatch_entered] after_dispatch_success [OF _ assms(2)]
        simp: \<open>\<And>i v h. watched (patchCustomer cc e i (cp_Patch plan) v) (\<lambda>_ h'. request_sent h') h\<close>)
qed

lemma already_satisfied_success:
  assumes "nothing_sent h" and "EvGet (customerURL e (cp_CustomerID plan)) r \<in> set h" and "reads_intended cc e plan r"
  shows "watched (already_satisfied cc x bd pre) (success_observed cc e plan) h"
proof -
  have "success_observed cc e plan (Some oc, None) (a # b # c # d # h)"
    if "oe_Result oc = PostconditionAlreadySatisfied" "nothing_sent [a, b, c, d]" for oc a b c d
    unfolding success_observed_def using assms that by auto
  then show ?thesis by (auto simp: already_satisfied_def new_outcome_result split: sum.split option.split)
qed

lemma validateSnapshotBinding_None:
  "validateSnapshotBinding cc e snap b i = None \<Longrightarrow>
   validateDestinationIdentity e snap = None \<and> validateObservedCustomerTarget cc (cs_State snap) i = None"
  by (simp add: validateSnapshotBinding_def guard_simps)

lemma execute_authorized_success:
  assumes "lb_marshal (cc_library cc) (map_json (cp_Patch plan)) \<noteq> None" and "xc_plan x = plan" and "nothing_sent h"
  shows "watched (execute_authorized cc e x) (success_observed cc e plan) h"
proof -
  let ?u = "customerURL e (cp_CustomerID plan)"
  have satisfied: "watched (already_satisfied cc x bd pre) (success_observed cc e plan) (EvGet ?u (Inr resp) # h)"
    if "snapshot_of cc resp = Inr snap" "validateSnapshotBinding cc e snap b (cp_CustomerID plan) = None"
      "EvaluateCustomerUpdatePostcondition (cc_library cc) plan (cs_State snap) = Inr pre"
      "pe_Result pre = PostconditionVerified" for bd pre resp snap b
  proof (rule already_satisfied_success)
    have "good_read cc e plan (Inr resp) pre"
      using validateSnapshotBinding_None [OF that(2)] that(1,3) by (auto intro: good_readI)
    then show "reads_intended cc e plan (Inr resp)" using good_read_intended that(4) by blast
  qed (use assms(3) in simp_all)
  show ?thesis
    unfolding execute_authorized_def getCustomer_def assms(2)
    by (auto simp: block_attempt_def intro!: satisfied dispatch_mutation_success [OF assms(1,2)]
        split: sum.splits option.splits)
qed

lemma verify_permit_quiet: "nothing_sent h \<Longrightarrow> watched (verify_permit cc p) (\<lambda>_ h'. nothing_sent h') h"
  by (auto simp: verify_permit_def split: sum.split)

lemma execute_claimed_success:
  assumes "lb_marshal (cc_library cc) (map_json (cp_Patch plan)) \<noteq> None" and "xc_plan x = plan" and "nothing_sent h"
  shows "watched (execute_claimed cc e x now) (success_observed cc e plan) h"
  unfolding execute_claimed_def authorization_prog_def bind_assoc
  by (rule monitored_bindI [OF verify_permit_quiet [OF assms(3)]])
    (auto intro!: execute_authorized_success [OF assms(1,2)] split: option.split sum.split)

lemma Execute_success:
  assumes "lb_marshal (cc_library cc) (map_json (cp_Patch plan)) \<noteq> None" and "nothing_sent h"
  shows "watched (Execute cc e pkt p plan) (success_observed cc e plan) h"
proof -
  have "watched (execute_claimed cc e x now) (success_observed cc e plan) h"
    if "admit cc e pkt p plan now = Inr x" "nothing_sent h" for x now h
    using execute_claimed_success [OF assms(1)] admit_Inr [OF that(1)] that(2) by blast
  then show ?thesis
    unfolding Execute_def
    by (auto split: option.split sum.split intro!: monitored_bindI [OF verify_permit_quiet [OF assms(2)]])
qed


end
