(* ===== verification/Crm_Demo.thy ===== *)
theory Crm_Demo
  imports Crm_Reports
begin

text \<open>
  Concrete runs of the CRM executor: a scheduler that lets one process run on, a small library (a plain
  rendering of documents, the digits 1 and 2 of a text as its hash) and a destination with one customer.
  One run executes a permit to its end and refuses its replay; in the other the request is lost and a
  rearranged copy of the permit sends it again. The calls of a program are evaluated lazily: a
  continuation is simplified only once it has its reply, and the data of a run is evaluated beforehand.
\<close>

section \<open>A scheduler\<close>

record crm_environment =
  en_now :: time
  en_get :: "crm_system \<Rightarrow> go_error + http_response"
  en_patch :: "go_error + int"

definition proceed :: "nat \<Rightarrow> crm_event \<Rightarrow> crm_evidence result prog \<Rightarrow> attempt_files \<Rightarrow> crm_system \<Rightarrow> crm_system" where
  "proceed i ev p fs s = \<lparr>sy_files = fs, sy_procs = (sy_procs s)(i := p), sy_log = (i, ev) # sy_log s\<rparr>"

text \<open>One call of process \<open>i\<close>, with a healthy context, verifier, journal and file system.\<close>

definition drive_once :: "attempt_codec \<Rightarrow> crm_environment \<Rightarrow> nat \<Rightarrow> crm_system \<Rightarrow> crm_system" where
  "drive_once cd en i s =
     (case sy_procs s i of
        Return a \<Rightarrow> s
      | Now k \<Rightarrow> proceed i (EvNow (en_now en)) (k (en_now en)) (sy_files s) s
      | CtxErr k \<Rightarrow> proceed i (EvCtx None) (k None) (sy_files s) s
      | VerifySignature a b c k \<Rightarrow> proceed i (EvVerify a b c None) (k None) (sy_files s) s
      | Claim rc k \<Rightarrow>
          (case FileAttemptStore_Claim cd None NoFault rc (sy_files s) of
             (r, fs) \<Rightarrow> proceed i (EvClaim rc r) (k r) fs s)
      | Transition bg j a b st d t k \<Rightarrow>
          (case FileAttemptStore_Transition cd None NoFault NoFault j a b st d t (sy_files s) of
             (r, fs) \<Rightarrow> proceed i (EvTransition bg j a b st d t r) (k r) fs s)
      | LoadAttempt j k \<Rightarrow>
          (let r = FileAttemptStore_Load cd None NoFault j (sy_files s) in
           proceed i (EvLoad j r) (k r) (sy_files s) s)
      | AppendEvent bg ev k \<Rightarrow> proceed i (EvAppend bg ev None) (k None) (sy_files s) s
      | Get u k \<Rightarrow> proceed i (EvGet u (en_get en s)) (k (en_get en s)) (sy_files s) s
      | Patch q k \<Rightarrow> proceed i (EvPatch q (en_patch en)) (k (en_patch en)) (sy_files s) s)"

fun drive :: "nat \<Rightarrow> attempt_codec \<Rightarrow> crm_environment \<Rightarrow> nat \<Rightarrow> crm_system \<Rightarrow> crm_system" where
  "drive 0 cd en i s = s"
| "drive (Suc n) cd en i s = drive n cd en i (drive_once cd en i s)"

lemma proceed_run:
  "crm_run cd cc calls fs0 s \<Longrightarrow> pstep (sy_procs s i) ev p' \<Longrightarrow> store_step cd (sy_files s) ev fs' \<Longrightarrow>
   crm_run cd cc calls fs0 (proceed i ev p' fs' s)"
  unfolding proceed_def by (rule run_step)

lemma drive_once_run:
  assumes "crm_run cd cc calls fs0 s"
  shows "crm_run cd cc calls fs0 (drive_once cd en i s)"
  using assms
  by (cases "sy_procs s i")
    (auto simp: drive_once_def Let_def pstep_simps split: prod.split
      intro!: proceed_run [OF assms] intro: store_step.intros)

lemma drive_run: "crm_run cd cc calls fs0 s \<Longrightarrow> crm_run cd cc calls fs0 (drive n cd en i s)"
  by (induction n arbitrary: s) (auto intro: drive_once_run)

section \<open>The library\<close>

text \<open>A rendering that keeps the values of a document, and a hash that keeps the digits of a text.\<close>

fun render :: "json \<Rightarrow> string"
  and render_items :: "json list \<Rightarrow> string"
  and render_members :: "(string \<times> json) list \<Rightarrow> string" where
  "render JNull = ''null''"
| "render (JBool b) = (if b then ''t'' else ''f'')"
| "render (JNum n) = dec_int n"
| "render (JFloat m x) = ''float''"
| "render (JStr s) = s"
| "render (JTime t) = dec_int t"
| "render (JArr xs) = render_items xs"
| "render (JObj kvs) = render_members kvs"
| "render_items [] = []"
| "render_items (x # xs) = render x @ render_items xs"
| "render_members [] = []"
| "render_members ((k, v) # kvs) = render v @ render_members kvs"

definition demo_library :: library where
  "demo_library =
     \<lparr>lb_marshal = (\<lambda>doc. Some (render doc)),
      lb_sha = (\<lambda>bs. take 32 (concat (map (\<lambda>c.
        if c = CHR ''1'' then [CHR 0x01] else if c = CHR ''2'' then [CHR 0x02] else []) bs) @ replicate 32 (CHR 0x00))),
      lb_encode64 = (\<lambda>s. s @ ''=''), lb_decode64 = (\<lambda>s. Some (butlast s))\<rparr>"

lemma demo_compositional: "compositional demo_library"
  by (simp add: compositional_def demo_library_def)

text \<open>The customer is in state \<open>before\<close> until the patch is applied.\<close>

definition demo_customer :: "string \<Rightarrow> go_map" where
  "demo_customer tier = [(''id'', JStr ''c''), (''a0'', JStr tier)]"

definition demo_codec :: crm_codec where
  "demo_codec =
     \<lparr>cc_library = demo_library, cc_tokens = (\<lambda>raw. Inr (RString raw)),
      cc_decode_state = (\<lambda>body. Some (Some (demo_customer body))), cc_quote = id\<rparr>"

definition demo_url :: url where
  "demo_url = \<lparr>u_Scheme = ''https'', u_Host = ''h'', u_Hostname = ''h'', u_HasUser = False, u_Path = [],
     u_RawPath = [], u_RawQuery = [], u_ForceQuery = False, u_Fragment = []\<rparr>"

definition demo_executor :: executor where
  "demo_executor = \<lparr>ex_baseURL = demo_url, ex_destinationID = ''d'', ex_accountID = ''a'',
     ex_adapterProfile = CRMAdapterProfileVersion\<rparr>"

definition demo_binding :: execution_binding where
  "demo_binding = \<lparr>eb_DestinationID = ''d'', eb_AccountID = ''a'', eb_Endpoint = ''https://h'',
     eb_AdapterProfile = CRMAdapterProfileVersion, eb_ExpectedResourceVersion = ''v1''\<rparr>"

definition demo_plan :: customer_update_plan where
  "demo_plan = \<lparr>cp_CustomerID = ''c'', cp_Patch = [(''a0'', JStr ''2'')]\<rparr>"

definition demo_request :: compile_request where
  "demo_request =
     \<lparr>cr_Event = \<lparr>rv_IntentID = ''i'', rv_EventID = ''e'', rv_WorkflowID = [], rv_RunID = [],
        rv_Actor = \<lparr>ac_PrincipalID = ''p'', ac_AgentID = []\<rparr>,
        rv_Action = \<lparr>ax_Kind = ''crm.customer_update'', ax_Tool = ''crm.http-json'',
          ax_Operation = ''update_customer'', ax_Target = ''customer/c'', ax_SideEffect = True\<rparr>,
        rv_ObservedAt = 1, rv_Data = Some [(''secret'', JStr ''s''), (''k'', JStr ''v'')]\<rparr>,
      cr_Source = \<lparr>so_Name = ''n'', so_TrustDomain = ''t'', so_AttestationRef = []\<rparr>,
      cr_Context = \<lparr>bc_AuthorityRef = ''r'', bc_PolicyRef = ''y'', bc_RedactionProfileRef = ''f'',
        bc_ConsequenceClass = ''c'', bc_ExecutionBinding = Some demo_binding, bc_ControlRefs = [],
        bc_ApprovalRefs = []\<rparr>,
      cr_SensitivePaths = [''/secret''], cr_CapturedAt = 2\<rparr>"



definition demo_tag :: "string \<Rightarrow> string" where
  "demo_tag ds = ''sha256:'' @ ds @ replicate (64 - length ds) (CHR ''0'')"

definition demo_packet :: packet where
  "demo_packet =
     (compiled demo_request (Some [(''secret'', redactedValue), (''k'', JStr ''v'')]) (demo_tag ''01''))
       \<lparr>pk_Integrity := \<lparr>ig_Algorithm = ''sha256'', ig_Digest = demo_tag ''02020101020101''\<rparr>\<rparr>"

definition demo_permit :: "string list \<Rightarrow> permit" where
  "demo_permit refs =
     \<lparr>pm_APIVersion = PermitVersion, pm_KeyID = ''k'',
      pm_Claims =
        \<lparr>pc_IntentID = ''i'', pc_Kind = ''crm.customer_update'', pc_Target = \<lparr>tg_Type = ''customer'', tg_Name = ''c''\<rparr>,
         pc_Action = ''update_customer'', pc_ResourceVersion = ''v1'', pc_EvidenceDigest = ''x'',
         pc_EvidenceManifestDigest = ''m'', pc_EvidencePacketDigest = demo_tag ''02020101020101'',
         pc_PlanDigest = demo_tag ''02'', pc_ApprovalRefs = refs, pc_ExecutionBinding = Some demo_binding,
         pc_EBAContextProfile = [], pc_EBATraceID = [], pc_EBAAudience = [], pc_EBANamespace = [],
         pc_EBAAssumptionRefs = [], pc_EBAAuthorityRef = [], pc_CapabilityFence = None, pc_ValidUntil = 100\<rparr>,
      pm_Signature = ''s=''\<rparr>"


definition demo_execution :: "string list \<Rightarrow> string \<Rightarrow> string \<Rightarrow> execution" where
  "demo_execution refs pd aid =
     \<lparr>xc_packet = demo_packet, xc_permit = demo_permit refs, xc_plan = demo_plan, xc_binding = demo_binding,
      xc_planDigest = demo_tag ''02'', xc_permitDigest = demo_tag pd, xc_attemptID = demo_tag aid,
      xc_handle = ''https://h/customers/c''\<rparr>"

definition demo_x :: execution where
  "demo_x = demo_execution [''1'', ''2''] ''0101020202010102010102020102010101''
     ''0201010202020101020101020201020101010202''"

definition demo_y :: execution where
  "demo_y = demo_execution [''2'', ''1''] ''0101020202010102010102020201010101''
     ''0201010202020101020101020202010101010202''"

text \<open>
  The attempt store of the runs: a record is written as its id and its state, and read back as the record
  that the run wrote in that state.
\<close>

definition demo_records :: "execution \<Rightarrow> attempt_record list" where
  "demo_records x =
     (let r = claim_record x 10; r1 = moved_record r AttemptPossibleEffect 0 ''dispatch boundary entered'' 10 in
      [r, r1, moved_record r1 AttemptAccepted 200 ''destination returned successful mutation response'' 10])"

fun text_of :: "json option \<Rightarrow> string" where
  "text_of (Some (JStr s)) = s"
| "text_of _ = []"

definition demo_attempts :: attempt_codec where
  "demo_attempts =
     \<lparr>at_library = demo_library\<lparr>lb_marshal := (\<lambda>doc. case doc of
          JObj kvs \<Rightarrow> Some (text_of (map_of kvs ''attempt_id'') @ text_of (map_of kvs ''state''))
        | _ \<Rightarrow> None)\<rparr>,
      at_unmarshal = (\<lambda>bytes. find (\<lambda>r. bytes = ar_AttemptID r @ attempt_state_text (ar_State r) @ [CHR 0x0A])
        (demo_records demo_x @ demo_records demo_y))\<rparr>"

definition demo_response :: "string \<Rightarrow> http_response" where
  "demo_response body = \<lparr>hr_StatusCode = 200, hr_Body = body, hr_ETag = ''v1'', hr_DestinationID = ''d'', hr_AccountID = ''a''\<rparr>"

definition demo_payload :: string where
  "demo_payload = (case canonicalPermitPayload demo_library (pm_Claims (demo_permit [''1'', ''2''])) of Inr b \<Rightarrow> b | Inl _ \<Rightarrow> [])"

definition demo_snapshot :: "string \<Rightarrow> customer_snapshot" where
  "demo_snapshot tier = \<lparr>cs_State = Some (demo_customer tier), cs_ResourceVersion = ''v1'', cs_DestinationID = ''d'', cs_AccountID = ''a''\<rparr>"

definition demo_evaluation :: "string \<Rightarrow> postcondition_evaluation" where
  "demo_evaluation tier =
     (case EvaluateCustomerUpdatePostcondition demo_library demo_plan (Some (demo_customer tier)) of Inr ev \<Rightarrow> ev)"

definition demo_digest :: "string \<Rightarrow> string" where
  "demo_digest tier =
     (case DigestPayload demo_library (nil_map_json (Some (demo_customer tier))) of Inr d \<Rightarrow> d | Inl _ \<Rightarrow> [])"

text \<open>The destination applies the patch, or loses the request.\<close>

definition demo_applies :: crm_environment where
  "demo_applies =
     \<lparr>en_now = 10, en_get = (\<lambda>s. Inr (demo_response (if patched (sy_log s) = [] then ''1'' else ''2''))),
      en_patch = Inr 200\<rparr>"

definition demo_loses :: crm_environment where
  "demo_loses = \<lparr>en_now = 10, en_get = (\<lambda>s. Inr (demo_response ''1'')), en_patch = Inl (NewError ''timeout'')\<rparr>"

definition demo_start :: "(nat \<Rightarrow> crm_call) \<Rightarrow> crm_system" where
  "demo_start calls = \<lparr>sy_files = Map.empty, sy_procs = (\<lambda>i. program demo_codec (calls i)), sy_log = []\<rparr>"

definition demo_call :: "string list \<Rightarrow> crm_call" where
  "demo_call refs = ExecuteCall demo_executor demo_packet (demo_permit refs) demo_plan"

section \<open>Lazy evaluation\<close>

lemma prog_lazy:
  "Now k = Now k" "CtxErr k' = CtxErr k'" "VerifySignature a b c kv = VerifySignature a b c kv"
  "Claim rc kc = Claim rc kc" "Transition bg i x y st d t kt = Transition bg i x y st d t kt"
  "LoadAttempt i kl = LoadAttempt i kl" "AppendEvent bg ev ka = AppendEvent bg ev ka"
  "Get u kg = Get u kg" "Patch q kp = Patch q kp"
  by (rule refl)+

definition driven ::
  "nat \<Rightarrow> attempt_codec \<Rightarrow> crm_environment \<Rightarrow> nat \<Rightarrow> (nat \<Rightarrow> crm_evidence result prog) \<Rightarrow> crm_evidence result prog
    \<Rightarrow> attempt_files \<Rightarrow> (nat \<times> crm_event) list \<Rightarrow> crm_system" where
  "driven n cd en i ps p fs l = drive n cd en i \<lparr>sy_files = fs, sy_procs = ps(i := p), sy_log = l\<rparr>"

lemma drive_driven:
  "drive n cd en i \<lparr>sy_files = fs, sy_procs = ps, sy_log = l\<rparr> = driven n cd en i ps (ps i) fs l"
  by (simp add: driven_def)

lemma driven_lazy: "n = n' \<Longrightarrow> p = p' \<Longrightarrow> driven n cd en i ps p fs l = driven n' cd en i ps p' fs l"
  by simp

lemma bind_lazy: "p = p' \<Longrightarrow> bind p f = bind p' f"
  by simp

lemmas lazy = prog_lazy driven_lazy bind_lazy

lemma driven_steps:
  "driven (Suc n) cd en i ps (Now k) fs l = driven n cd en i ps (k (en_now en)) fs ((i, EvNow (en_now en)) # l)"
  "driven (Suc n) cd en i ps (CtxErr kx) fs l = driven n cd en i ps (kx None) fs ((i, EvCtx None) # l)"
  "driven (Suc n) cd en i ps (VerifySignature a b c kv) fs l =
     driven n cd en i ps (kv None) fs ((i, EvVerify a b c None) # l)"
  "driven (Suc n) cd en i ps (Claim rc kc) fs l =
     (case FileAttemptStore_Claim cd None NoFault rc fs of
        (r, fs') \<Rightarrow> driven n cd en i ps (kc r) fs' ((i, EvClaim rc r) # l))"
  "driven (Suc n) cd en i ps (Transition bg j x y st d t kt) fs l =
     (case FileAttemptStore_Transition cd None NoFault NoFault j x y st d t fs of
        (r, fs') \<Rightarrow> driven n cd en i ps (kt r) fs' ((i, EvTransition bg j x y st d t r) # l))"
  "driven (Suc n) cd en i ps (AppendEvent bg ev ka) fs l = driven n cd en i ps (ka None) fs ((i, EvAppend bg ev None) # l)"
  "driven (Suc n) cd en i ps (Get u kg) fs l =
     (let r = en_get en \<lparr>sy_files = fs, sy_procs = ps(i := Get u kg), sy_log = l\<rparr> in
      driven n cd en i ps (kg r) fs ((i, EvGet u r) # l))"
  "driven (Suc n) cd en i ps (Patch q kp) fs l =
     driven n cd en i ps (kp (en_patch en)) fs ((i, EvPatch q (en_patch en)) # l)"
  "driven (Suc n) cd en i ps (Return v) fs l = driven n cd en i ps (Return v) fs l"
  by (simp_all add: driven_def drive_once_def proceed_def Let_def split: prod.split)

lemma driven_0: "driven 0 cd en i ps p fs l = \<lparr>sy_files = fs, sy_procs = ps(i := p), sy_log = l\<rparr>"
  by (simp add: driven_def)

lemmas driven_numeral = driven_steps [where n = "pred_numeral v" for v, folded numeral_eq_Suc]

lemma patched_log:
  "patched [] = []" "patched ((i, ev) # l) = (if is_patch ev then [i] else []) @ patched l"
  by (simp_all add: patched_def)

lemmas execute_programs =
  Execute_def verify_permit_def execute_claimed_def authorization_prog_def execute_authorized_def getCustomer_def
  dispatch_mutation_def dispatch_prog_def prepare_prog_def retain_custody_def patchCustomer_def after_dispatch_def
  observe_and_conclude_def observePostcondition_def conclude_observed_def tagged_def Let_def numeral_3_eq_3

lemmas evaluation = drive_driven driven_0 driven_steps driven_numeral patched_log execute_programs

section \<open>The data of the runs\<close>

abbreviation demo_refs :: "string list" where
  "demo_refs \<equiv> [''1'', ''2'']"

abbreviation rearranged_refs :: "string list" where
  "rearranged_refs \<equiv> [''2'', ''1'']"

lemma demo_fields:
  "cc_library demo_codec = demo_library"
  "pc_ExecutionBinding (pm_Claims (demo_permit refs)) = Some demo_binding"
  "pc_PlanDigest (pm_Claims (demo_permit refs)) = demo_tag ''02''"
  "pc_Target (pm_Claims (demo_permit refs)) = \<lparr>tg_Type = ''customer'', tg_Name = ''c''\<rparr>"
  "pc_ValidUntil (pm_Claims (demo_permit refs)) = 100"
  "eb_DestinationID demo_binding = ''d''" "eb_AccountID demo_binding = ''a''" "eb_Endpoint demo_binding = ''https://h''"
  "eb_AdapterProfile demo_binding = CRMAdapterProfileVersion" "eb_ExpectedResourceVersion demo_binding = ''v1''"
  "ex_destinationID demo_executor = ''d''" "ex_accountID demo_executor = ''a''"
  "ex_adapterProfile demo_executor = CRMAdapterProfileVersion" "cp_CustomerID demo_plan = ''c''"
  "xc_permit demo_x = demo_permit demo_refs" "xc_plan demo_x = demo_plan" "xc_binding demo_x = demo_binding"
  "xc_permit demo_y = demo_permit rearranged_refs" "xc_plan demo_y = demo_plan" "xc_binding demo_y = demo_binding"
  "cs_State (demo_snapshot tier) = Some (demo_customer tier)"
  "en_now demo_applies = 10" "en_patch demo_applies = Inr 200"
  "en_get demo_applies s = Inr (demo_response (if patched (sy_log s) = [] then ''1'' else ''2''))"
  "en_now demo_loses = 10" "en_patch demo_loses = Inl (NewError ''timeout'')"
  "en_get demo_loses s = Inr (demo_response ''1'')"
  by (simp_all add: demo_codec_def demo_permit_def demo_binding_def demo_executor_def demo_plan_def demo_x_def demo_y_def
      demo_execution_def demo_snapshot_def demo_applies_def demo_loses_def)

definition demo_authorization :: "string list \<Rightarrow> journal_event" where
  "demo_authorization refs =
     (case authorization_event demo_library (demo_permit refs) 10 of Inr ev \<Rightarrow> ev | Inl _ \<Rightarrow> blank_event)"

definition demo_target_ref :: string where
  "demo_target_ref = (case target_ref demo_codec ''d'' ''a'' ''https://h'' ''c'' of Inr t \<Rightarrow> t | Inl _ \<Rightarrow> [])"

text \<open>What the code makes of the data, evaluated in one go.\<close>

lemma demo_values:
  "VerifyPacket demo_library demo_packet = None"
  "VerifyPermitPacketBinding demo_library demo_packet (pm_Claims (demo_permit demo_refs)) = None"
  "VerifyPermitPacketBinding demo_library demo_packet (pm_Claims (demo_permit rearranged_refs)) = None"
  "permit_query demo_library (demo_permit demo_refs) = Inr (''k'', demo_payload, ''s'')"
  "permit_query demo_library (demo_permit rearranged_refs) = Inr (''k'', demo_payload, ''s'')"
  "admit demo_codec demo_executor demo_packet (demo_permit demo_refs) demo_plan 10 = Inr demo_x"
  "admit demo_codec demo_executor demo_packet (demo_permit rearranged_refs) demo_plan 10 = Inr demo_y"
  "authorization_event demo_library (demo_permit demo_refs) 10 = Inr (demo_authorization demo_refs)"
  "authorization_event demo_library (demo_permit rearranged_refs) 10 = Inr (demo_authorization rearranged_refs)"
  "validateSnapshotBinding demo_codec demo_executor (demo_snapshot tier) demo_binding ''c'' = None"
  "EvaluateCustomerUpdatePostcondition demo_library demo_plan (Some (demo_customer ''1'')) = Inr (demo_evaluation ''1'')"
  "EvaluateCustomerUpdatePostcondition demo_library demo_plan (Some (demo_customer ''2'')) = Inr (demo_evaluation ''2'')"
  "pe_Result (demo_evaluation ''1'') = PostconditionUnsatisfied" "pe_Result (demo_evaluation ''2'') = PostconditionVerified"
  "DigestPayload demo_library (nil_map_json (Some (demo_customer ''1''))) = Inr (demo_digest ''1'')"
  "lb_marshal demo_library (map_json (cp_Patch demo_plan)) = Some ''2''"
  "customerURL demo_executor ''c'' = ''https://h/customers/c''"
  "validateDestinationIdentity demo_executor (demo_snapshot tier) = None"
  "validateObservedCustomerTarget demo_codec (Some (demo_customer tier)) ''c'' = None"
  "observation_verdict demo_codec [demo_evaluation ''2'', demo_evaluation ''2'', demo_evaluation ''2'']
     [demo_snapshot ''2'', demo_snapshot ''2'', demo_snapshot ''2''] =
   \<lparr>po_Evaluation = Some (demo_evaluation ''2''), po_AfterDigest = demo_digest ''2'', po_Status = ObservationStable,
    po_Count = 3, po_Err = None\<rparr>"
  "DigestCustomerUpdatePlan demo_library (cc_tokens demo_codec) demo_plan = Inr (demo_tag ''02'')"
  "url_String (ex_baseURL demo_executor) = ''https://h''"
  "target_ref demo_codec ''d'' ''a'' ''https://h'' ''c'' = Inr demo_target_ref"
  "CheckBinding
     \<lparr>bd_ActionRevision = demo_tag ''02'', bd_Target = demo_target_ref, bd_Profile = CRMAdapterProfileVersion\<rparr>
     \<lparr>bd_ActionRevision = demo_tag ''02'', bd_Target = demo_target_ref, bd_Profile = CRMAdapterProfileVersion\<rparr> = None"
  "CheckValidity 100 10 = None"
  "trim_space ''v1'' = ''v1''" "trim_space ''d'' = ''d''" "trim_space ''a'' = ''a''"
  by code_simp+

lemma demo_snapshots: "snapshot_of demo_codec (demo_response [c]) = Inr (demo_snapshot [c])"
  by (simp add: snapshot_of_def demo_response_def demo_codec_def demo_snapshot_def demo_values)

subsection \<open>The boundary check\<close>

lemma demo_boundary:
  "checkEffectBoundary demo_codec demo_executor (demo_permit refs) demo_plan (demo_snapshot ''1'') =
   Now (\<lambda>t. Return (case CheckValidity 100 t of
      Some err \<Rightarrow> Some (wrap ''CRM execution authority'' (cause_error err)) | None \<Rightarrow> None))"
  by (simp add: checkEffectBoundary_def demo_fields demo_values cong: option.case_cong)

subsection \<open>The attempt store\<close>

definition demo_claimed :: "execution \<Rightarrow> attempt_files \<Rightarrow> attempt_files" where
  "demo_claimed x fs = snd (FileAttemptStore_Claim demo_attempts None NoFault (claim_record x 10) fs)"

definition demo_moved ::
  "execution \<Rightarrow> attempt_state \<Rightarrow> attempt_state \<Rightarrow> int \<Rightarrow> string \<Rightarrow> attempt_files
    \<Rightarrow> (go_error + attempt_record) \<times> attempt_files" where
  "demo_moved x a b st detail fs =
     FileAttemptStore_Transition demo_attempts None NoFault NoFault (xc_attemptID x) a b st detail 10 fs"

abbreviation demo_possible :: "execution \<Rightarrow> attempt_files \<Rightarrow> (go_error + attempt_record) \<times> attempt_files" where
  "demo_possible x fs \<equiv> demo_moved x AttemptClaimed AttemptPossibleEffect 0 ''dispatch boundary entered'' fs"

definition demo_files1 :: attempt_files where "demo_files1 = demo_claimed demo_x Map.empty"

definition demo_files2 :: attempt_files where "demo_files2 = snd (demo_possible demo_x demo_files1)"

abbreviation demo_accepted :: "(go_error + attempt_record) \<times> attempt_files" where
  "demo_accepted \<equiv> demo_moved demo_x AttemptPossibleEffect AttemptAccepted 200
     ''destination returned successful mutation response'' demo_files2"

definition demo_files3 :: attempt_files where "demo_files3 = snd demo_accepted"

abbreviation demo_completed :: "(go_error + attempt_record) \<times> attempt_files" where
  "demo_completed \<equiv> demo_moved demo_x AttemptAccepted AttemptCompleted 200 ''VERIFIED'' demo_files3"

definition demo_files4 :: attempt_files where "demo_files4 = snd demo_completed"

text \<open>The second attempt, on the files that the first one left in POSSIBLE_EFFECT.\<close>

definition demo_files5 :: attempt_files where "demo_files5 = demo_claimed demo_y demo_files2"

definition demo_outcome :: outcome_evidence where
  "demo_outcome =
     projr (new_outcome demo_codec demo_x (demo_digest ''1'') (demo_digest ''2'') PostconditionVerified RequestAccepted
       ObservationStable 3 (Some (demo_evaluation ''2'')) 200 10)"

lemma demo_store_values:
  "fst (FileAttemptStore_Claim demo_attempts None NoFault (claim_record demo_x 10) Map.empty) = None"
  "fst (FileAttemptStore_Claim demo_attempts None NoFault (claim_record demo_y 10) demo_files2) = None"
  "case claim_file demo_attempts None (claim_record demo_x 10) of
     Inr (path, content) \<Rightarrow> demo_files4 path \<noteq> None | Inl _ \<Rightarrow> False"
  "isl (fst (demo_possible demo_x demo_files1)) = False" "isl (fst demo_accepted) = False"
  "isl (fst demo_completed) = False" "isl (fst (demo_possible demo_y demo_files5)) = False"
  "new_outcome demo_codec demo_x (demo_digest ''1'') (demo_digest ''2'') PostconditionVerified RequestAccepted
     ObservationStable 3 (Some (demo_evaluation ''2'')) 200 10 = Inr demo_outcome"
  "oe_Result demo_outcome = PostconditionVerified"
  by code_simp+

lemma demo_claims:
  "FileAttemptStore_Claim demo_attempts None NoFault (claim_record demo_x 10) Map.empty = (None, demo_files1)"
  "FileAttemptStore_Claim demo_attempts None NoFault (claim_record demo_y 10) demo_files2 = (None, demo_files5)"
  using demo_store_values(1,2) by (simp_all add: demo_files1_def demo_files5_def demo_claimed_def prod_eq_iff)

lemma demo_claim_refused:
  "FileAttemptStore_Claim demo_attempts None NoFault (claim_record demo_x 10) demo_files4 =
     (Some ErrAttemptAlreadyClaimed, demo_files4)"
  using demo_store_values(3) by (auto simp: FileAttemptStore_Claim_def split: sum.splits)

lemma demo_moves:
  "FileAttemptStore_Transition demo_attempts None NoFault NoFault (xc_attemptID demo_x) AttemptClaimed
     AttemptPossibleEffect 0 ''dispatch boundary entered'' 10 demo_files1 =
   (Inr (projr (fst (demo_possible demo_x demo_files1))), demo_files2)"
  "FileAttemptStore_Transition demo_attempts None NoFault NoFault (xc_attemptID demo_x) AttemptPossibleEffect
     AttemptAccepted 200 ''destination returned successful mutation response'' 10 demo_files2 =
   (Inr (projr (fst demo_accepted)), demo_files3)"
  "FileAttemptStore_Transition demo_attempts None NoFault NoFault (xc_attemptID demo_x) AttemptAccepted
     AttemptCompleted 200 ''VERIFIED'' 10 demo_files3 =
   (Inr (projr (fst demo_completed)), demo_files4)"
  "FileAttemptStore_Transition demo_attempts None NoFault NoFault (xc_attemptID demo_y) AttemptClaimed
     AttemptPossibleEffect 0 ''dispatch boundary entered'' 10 demo_files5 =
   (Inr (projr (fst (demo_possible demo_y demo_files5))), snd (demo_possible demo_y demo_files5))"
  using demo_store_values(4-7)
  by (simp_all add: demo_files2_def demo_files3_def demo_files4_def prod_eq_iff flip: demo_moved_def)

lemmas demo_outcomes = demo_store_values(8-)

lemmas demo_data =
  demo_fields demo_values demo_snapshots demo_boundary demo_claims demo_claim_refused demo_moves demo_outcomes

section \<open>A permit is executed, and replayed\<close>

definition demo_calls :: "nat \<Rightarrow> crm_call" where
  "demo_calls i = demo_call demo_refs"

definition demo_finished :: crm_system where
  "demo_finished =
     drive 3 demo_attempts demo_applies 1 (drive 37 demo_attempts demo_applies 0 (demo_start demo_calls))"

abbreviation demo_patch :: patch_request where
  "demo_patch \<equiv> \<lparr>pr_URL = ''https://h/customers/c'', pr_IfMatch = ''v1'', pr_DestinationID = ''d'', pr_AccountID = ''a'',
     pr_Body = ''2''\<rparr>"

definition demo_before_patch :: "execution \<Rightarrow> string list \<Rightarrow> attempt_files \<Rightarrow> crm_event list" where
  "demo_before_patch x refs fs =
     [EvCtx None, EvCtx None, EvNow 10, EvCtx None,
      EvTransition False (xc_attemptID x) AttemptClaimed AttemptPossibleEffect 0 ''dispatch boundary entered'' 10
        (Inr (projr (fst (demo_possible x fs)))),
      EvNow 10, EvAppend False (execution_entry x 10) None, EvCtx None, EvNow 10, EvCtx None, EvNow 10,
      EvGet ''https://h/customers/c'' (Inr (demo_response ''1'')),
      EvAppend False (authorization_entry x (demo_authorization refs)) None, EvVerify ''k'' demo_payload ''s'' None,
      EvClaim (claim_record x 10) None, EvNow 10, EvVerify ''k'' demo_payload ''s'' None]"

definition demo_after_patch :: "crm_event list" where
  "demo_after_patch =
     [EvTransition True (xc_attemptID demo_x) AttemptAccepted AttemptCompleted 200 ''VERIFIED'' 10
        (Inr (projr (fst demo_completed))),
      EvNow 10, EvAppend False (outcome_entry demo_x AttemptCompleted demo_outcome) None, EvNow 10,
      EvGet ''https://h/customers/c'' (Inr (demo_response ''2'')),
      EvGet ''https://h/customers/c'' (Inr (demo_response ''2'')),
      EvGet ''https://h/customers/c'' (Inr (demo_response ''2'')),
      EvTransition False (xc_attemptID demo_x) AttemptPossibleEffect AttemptAccepted 200
        ''destination returned successful mutation response'' 10 (Inr (projr (fst demo_accepted))),
      EvNow 10]"

lemma demo_executed:
  "drive 37 demo_attempts demo_applies 0 (demo_start demo_calls) =
   \<lparr>sy_files = demo_files4,
    sy_procs = (\<lambda>i. program demo_codec (demo_calls i))(0 := Return (Some (Inl demo_outcome), None)),
    sy_log = map (Pair 0) (demo_after_patch @ EvPatch demo_patch (Inr 200) # demo_before_patch demo_x demo_refs demo_files1)\<rparr>"
  by (simp cong: lazy
      add: evaluation demo_data demo_start_def demo_calls_def demo_call_def demo_before_patch_def demo_after_patch_def)

lemma demo_finished_eq:
  "demo_finished =
   \<lparr>sy_files = demo_files4,
    sy_procs = (\<lambda>i. program demo_codec (demo_calls i))(0 := Return (Some (Inl demo_outcome), None),
      1 := Return (None, Some (wrap ''claim CRM mutation attempt'' ErrAttemptAlreadyClaimed))),
    sy_log = map (Pair 1) [EvClaim (claim_record demo_x 10) (Some ErrAttemptAlreadyClaimed), EvNow 10,
        EvVerify ''k'' demo_payload ''s'' None] @
      map (Pair 0) (demo_after_patch @ EvPatch demo_patch (Inr 200) # demo_before_patch demo_x demo_refs demo_files1)\<rparr>"
  unfolding demo_finished_def demo_executed
  by (simp cong: lazy add: evaluation demo_data demo_calls_def demo_call_def)

lemma demo_finished_run: "crm_run demo_attempts demo_codec demo_calls Map.empty demo_finished"
  unfolding demo_finished_def demo_start_def by (intro drive_run run_start)

end
