(* ===== verification/Crm_Results.thy ===== *)
theory Crm_Results
  imports Crm_Demo
begin

text \<open>
  What the CRM executor guarantees in every run of concurrent executions and recoveries, each theorem with
  a run in which its hypotheses hold, and what it does not: a request whose outcome cannot be recorded, a
  customer id that is escaped twice, and a permit that is used twice.
\<close>

section \<open>Data of the examples\<close>

definition unsorted_plan :: customer_update_plan where
  "unsorted_plan = \<lparr>cp_CustomerID = ''c'', cp_Patch = [(''a/b'', JStr ''1''), (''a0'', JStr ''2'')]\<rparr>"

definition unsorted_observation :: postcondition_observation where
  "unsorted_observation =
     \<lparr>po_Evaluation = Some (projr (EvaluateCustomerUpdatePostcondition demo_library unsorted_plan (Some (cp_Patch unsorted_plan)))),
      po_AfterDigest = demo_tag [], po_Status = ObservationStable, po_Count = 3, po_Err = None\<rparr>"

text \<open>A signer and a store history.\<close>

definition demo_sign :: signer where
  "demo_sign payload = Inr (''k'', payload)"

definition demo_verify :: signature_verifier where
  "demo_verify key payload sig = (if key = ''k'' \<and> sig = payload then None else Some (NewError ''signature''))"

definition demo_signed :: permit where
  "demo_signed = (demo_permit demo_refs)\<lparr>pm_Signature := demo_payload @ ''=''\<rparr>"

definition demo_ops :: "store_op list" where
  "demo_ops =
     [OpTransition None NoFault NoFault (xc_attemptID demo_x) AttemptClaimed AttemptPossibleEffect 0
        ''dispatch boundary entered'' 10,
      OpClaim None NoFault (claim_record demo_x 10),
      OpTransition None NoFault NoFault (xc_attemptID demo_x) AttemptPossibleEffect AttemptAccepted 200
        ''destination returned successful mutation response'' 10]"

abbreviation demo_clone :: unmarshal_map where
  "demo_clone \<equiv> \<lambda>_. Some (rv_Data (cr_Event demo_request))"

lemma example_values:
  "pe_Result (the (po_Evaluation unsorted_observation)) = PostconditionVerified"
  "isl (EvaluateCustomerUpdatePostcondition demo_library unsorted_plan (Some (cp_Patch unsorted_plan))) = False"
  "\<not> sorted_wrt (<) (map field_path (map_keys (cp_Patch unsorted_plan)))"
  "Compile demo_library demo_clone demo_request = Inr demo_packet"
  "cloneMap demo_library demo_clone (rv_Data (cr_Event demo_request)) = Inr (rv_Data (cr_Event demo_request))"
  "pointer_segments ''/secret'' = [''secret'']" "\<not> overlapping [''secret''] [''k'']"
  "json_at (evidence_doc (rv_Data (cr_Event demo_request))) [''k''] = Some (JStr ''v'')"
  "cr_SensitivePaths demo_request = [''/secret'']"
  "SignEvidenceBoundPermit demo_library (Some demo_sign) demo_packet (pm_Claims (demo_permit demo_refs)) = Inr demo_signed"
  "stored demo_attempts demo_files1 (xc_attemptID demo_x) = Some (claim_record demo_x 10)"
  "writes_read_back demo_attempts demo_ops demo_files1"
  "map_option ar_State (stored demo_attempts (store_run demo_attempts demo_ops demo_files1) (xc_attemptID demo_x)) =
   Some AttemptAccepted"
  "xc_attemptID demo_x \<noteq> xc_attemptID demo_y"
  "escape_in_path (CHR ''%'')" "\<not> escape_in_path (CHR ''/'')"
  "customerURL demo_executor ''a b'' = ''https://h/customers/a%2520b''" "PathEscape ''a b'' = ''a%20b''"
  by code_simp+

section \<open>Guarantees\<close>

text \<open>
  C8. However many executions and recoveries run at the same time, restart or crash, and whatever the file
  system, the journal and the network do: only executions send PATCH requests, no attempt is sent
  twice, and no permit leads to two requests.
\<close>

theorem crm_one_patch_per_permit:
  assumes "crm_run cd cc calls fs0 s"
  shows "distinct (map (\<lambda>i. attempt_of cc (calls i)) (patched (sy_log s))) \<and>
    distinct (map (\<lambda>i. permit_of (calls i)) (patched (sy_log s))) \<and>
    list_all (\<lambda>i. call_execution cc (calls i) \<noteq> None) (patched (sy_log s))"
proof -
  have exec: "\<exists>x. call_execution cc (calls i) = Some x" if "i \<in> set (patched (sy_log s))" for i
    using that patched_process [OF assms] by (metis patched_set)
  have "inj_on (\<lambda>i. permit_of (calls i)) (set (patched (sy_log s)))"
  proof (rule inj_onI)
    fix i j
    assume ij: "i \<in> set (patched (sy_log s))" "j \<in> set (patched (sy_log s))" "permit_of (calls i) = permit_of (calls j)"
    then have "attempt_of cc (calls i) = attempt_of cc (calls j)"
      using exec [OF ij(1)] exec [OF ij(2)] same_permit_same_attempt by blast
    with patched_attempt_inj [OF assms] ij(1,2) show "i = j" by (auto dest: inj_onD)
  qed
  with patched_distinct [OF assms] patched_attempt_inj [OF assms] exec show ?thesis
    by (auto simp: distinct_map list_all_iff)
qed

theorem crm_one_patch_per_permit_witness:
  "patched (sy_log demo_finished) = [0] \<and> permit_of (demo_calls 0) = permit_of (demo_calls 1) \<and>
   distinct (map (\<lambda>i. attempt_of demo_codec (demo_calls i)) (patched (sy_log demo_finished))) \<and>
   distinct (map (\<lambda>i. permit_of (demo_calls i)) (patched (sy_log demo_finished))) \<and>
   list_all (\<lambda>i. call_execution demo_codec (demo_calls i) \<noteq> None) (patched (sy_log demo_finished))"
  using crm_one_patch_per_permit [OF demo_finished_run]
  by (simp add: demo_finished_eq patched_log demo_after_patch_def demo_before_patch_def demo_calls_def)



text \<open>
  C11. Every piece of evidence that an execution, a reconciliation or a retirement returns passes its
  verification; one that returns no evidence returns an error.
\<close>

theorem crm_evidence_verifies:
  assumes "crm_run cd cc calls fs0 s" and "sy_procs s i = Return res"
  shows "case fst res of
      None \<Rightarrow> snd res \<noteq> None
    | Some (Inl oc) \<Rightarrow> VerifyOutcome (cc_library cc) oc = None
    | Some (Inr c) \<Rightarrow> VerifyClosureEvidence (cc_library cc) c = None"
  using finished_process [OF assms(1) program_sound assms(2)] by (simp add: sound_evidence_def)

theorem crm_evidence_verifies_witness:
  "sy_procs demo_finished 0 = Return (Some (Inl demo_outcome), None) \<and> VerifyOutcome demo_library demo_outcome = None"
  using crm_evidence_verifies [OF demo_finished_run, of 0 "(Some (Inl demo_outcome), None)"]
  by (simp add: demo_finished_eq demo_fields)

text \<open>
  C10. An execution that returns without an error reports ALREADY_SATISFIED, has sent nothing and has read the
  intended state; or it reports VERIFIED, and after its request two successive reads of the right customer
  at the right destination showed every field of the patch as intended.
\<close>

theorem crm_success_is_observed:
  assumes "crm_run cd cc calls fs0 s" and "calls i = ExecuteCall e pkt p plan" and "sy_procs s i = Return (ev, None)"
    and "lb_marshal (cc_library cc) (map_json (cp_Patch plan)) \<noteq> None"
  shows "\<exists>oc. ev = Some (Inl oc) \<and>
     (oe_Result oc = PostconditionAlreadySatisfied \<and> nothing_sent (calls_of i (sy_log s)) \<and>
        (\<exists>r. EvGet (customerURL e (cp_CustomerID plan)) r \<in> set (calls_of i (sy_log s)) \<and> reads_intended cc e plan r) \<or>
      oe_Result oc = PostconditionVerified \<and>
        (\<exists>h1 h2 r2 r3.
           calls_of i (sy_log s) = h1 @ map (EvGet (customerURL e (cp_CustomerID plan))) [r3, r2] @ h2 \<and>
           request_sent h2 \<and> reads_intended cc e plan r2 \<and> reads_intended cc e plan r3))"
proof -
  have "watched (program cc (calls i))
      (\<lambda>res h. \<exists>oc. res = (map_option Inl (fst oc), snd oc) \<and> success_observed cc e plan oc h) []"
    using Execute_success [OF assms(4), of "[]" e pkt p]
    by (auto simp: assms(2) tagged_def elim!: monitored_bindI)
  from finished_process [OF assms(1) this assms(3)] show ?thesis by (auto simp: success_observed_def)
qed

theorem crm_success_is_observed_witness:
  "oe_Result demo_outcome = PostconditionVerified \<and>
   (\<exists>h1 h2 r2 r3.
      calls_of 0 (sy_log demo_finished) = h1 @ map (EvGet (customerURL demo_executor (cp_CustomerID demo_plan))) [r3, r2] @ h2 \<and>
      request_sent h2 \<and> reads_intended demo_codec demo_executor demo_plan r2 \<and>
      reads_intended demo_codec demo_executor demo_plan r3)"
proof -
  have "oe_Result demo_outcome \<noteq> PostconditionAlreadySatisfied" by (simp add: demo_outcomes)
  moreover have "demo_calls 0 = ExecuteCall demo_executor demo_packet (demo_permit demo_refs) demo_plan"
    "sy_procs demo_finished 0 = Return (Some (Inl demo_outcome), None)"
    "lb_marshal (cc_library demo_codec) (map_json (cp_Patch demo_plan)) \<noteq> None"
    by (simp_all add: demo_calls_def demo_call_def demo_finished_eq demo_fields demo_values)
  ultimately show ?thesis using crm_success_is_observed [OF demo_finished_run] by blast
qed

section \<open>Calls finish\<close>

text \<open>A program that makes at most \<open>n\<close> calls, whatever it is answered.\<close>

primrec within :: "'a prog \<Rightarrow> nat \<Rightarrow> bool" where
  "within (Return a) = (\<lambda>n. True)"
| "within (Now k) = (\<lambda>n. 0 < n \<and> (\<forall>r. within (k r) (n - 1)))"
| "within (CtxErr k) = (\<lambda>n. 0 < n \<and> (\<forall>r. within (k r) (n - 1)))"
| "within (VerifySignature key payload sig k) = (\<lambda>n. 0 < n \<and> (\<forall>r. within (k r) (n - 1)))"
| "within (Claim rc k) = (\<lambda>n. 0 < n \<and> (\<forall>r. within (k r) (n - 1)))"
| "within (Transition bg i a b st d t k) = (\<lambda>n. 0 < n \<and> (\<forall>r. within (k r) (n - 1)))"
| "within (LoadAttempt i k) = (\<lambda>n. 0 < n \<and> (\<forall>r. within (k r) (n - 1)))"
| "within (AppendEvent bg ev k) = (\<lambda>n. 0 < n \<and> (\<forall>r. within (k r) (n - 1)))"
| "within (Get u k) = (\<lambda>n. 0 < n \<and> (\<forall>r. within (k r) (n - 1)))"
| "within (Patch q k) = (\<lambda>n. 0 < n \<and> (\<forall>r. within (k r) (n - 1)))"

lemma within_mono: "within p m \<Longrightarrow> m \<le> n \<Longrightarrow> within p n"
proof (induction p arbitrary: m n)
  case (Return a)
  show ?case by simp
qed (auto, (meson diff_le_mono rangeI)+)

lemma within_bind:
  assumes "within p m" and "\<And>a. within (f a) n"
  shows "within (bind p f) (m + n)"
  using assms(1)
proof (induction p arbitrary: m)
  case (Return a)
  with assms(2) [of a] show ?case by (auto intro: within_mono)
qed (auto simp flip: Nat.add_diff_assoc2)

lemma within_bindI: "within p m \<Longrightarrow> m \<le> n \<Longrightarrow> (\<And>a. within (f a) (n - m)) \<Longrightarrow> within (bind p f) n"
  using within_bind [of p m f "n - m"] by simp

lemma within_requests:
  "within (verify_permit cc p) 1" "within (authorization_prog cc p now) 1" "within (getCustomer cc e i) 1"
  "within (patchCustomer cc e i patch v) 1" "within (checkEffectBoundary cc e p plan snap) 1"
  "within (retain_custody x entry) 3" "within (block_attempt x d err) 2"
  by (auto simp: verify_permit_def authorization_prog_def getCustomer_def patchCustomer_def checkEffectBoundary_def
      retain_custody_def block_attempt_def Let_def split: sum.split option.split)

lemma within_observation: "within (observation_reads cc e plan n evs sns) n"
  by (induction n arbitrary: evs sns) (auto simp: getCustomer_def split: sum.split option.split)

lemma within_conclusions:
  "within (conclude_observed cc x bd acc st status de ob) 4" "within (conclude_unobserved cc x bd acc st status de ob err) 4"
  "within (already_satisfied cc x bd pre) 4" "within (reconcile_observed cc x rc ob) 4"
  by (auto simp: conclude_observed_def conclude_unobserved_def already_satisfied_def reconcile_observed_def
      retain_pending_def close_observed_def Let_def split: sum.split option.split)

lemma within_after_dispatch: "within (after_dispatch cc e x bd status de) 9"
proof -
  have "within (observe_and_conclude cc e x bd acc st status' de') 7" for acc st status' de'
    unfolding observe_and_conclude_def observePostcondition_def
    by (rule within_bindI [OF within_observation]) (auto simp: within_conclusions split: option.split)
  moreover from this have "within (observe_and_conclude cc e x bd acc st status' de') 9" for acc st status' de'
    by (rule within_mono) simp
  ultimately show ?thesis by (auto simp: after_dispatch_def split: option.split sum.split)
qed

lemma within_dispatch:
  assumes "within check 1" and "within retain 3" and "within effect 1"
  shows "within (dispatch_prog z check retain effect) 11"
proof -
  have "within (prepare_prog check retain) 9"
    unfolding prepare_prog_def Let_def
    by (auto split: option.split intro!: within_bindI [OF assms(1)] within_bindI [OF assms(2)])
  then show ?thesis
    unfolding dispatch_prog_def Let_def
    by (rule within_bindI) (auto split: option.split intro!: within_bindI [OF assms(3)])
qed

lemma within_execute_authorized: "within (execute_authorized cc e x) 22"
proof -
  have "within (dispatch_mutation cc e x before bd) 21" for before bd
    unfolding dispatch_mutation_def
    by (auto intro!: within_bindI [OF within_dispatch] within_requests within_after_dispatch)
  then show ?thesis
    unfolding execute_authorized_def
    by (intro within_bindI [OF within_requests(3)])
      (auto intro: within_mono within_requests within_conclusions split: sum.split option.split)
qed

lemma within_Execute: "within (Execute cc e pkt p plan) 27"
proof -
  have "within (execute_claimed cc e x now) 24" for x now
    unfolding execute_claimed_def
    by (rule within_bindI [OF within_requests(2)]) (auto intro: within_execute_authorized split: sum.split option.split)
  then show ?thesis
    unfolding Execute_def
    by (auto intro!: within_bindI [OF within_requests(1)] split: sum.split option.split)
qed

lemma within_recovery:
  "within (ReconcileAttempt cc e pkt p plan) 9" "within (RetireAttemptUnknown cc e pkt p plan reason) 6"
proof -
  have load: "within (loadRecoveryAttempt cc e pkt p plan) 2"
    unfolding loadRecoveryAttempt_def
    by (auto intro!: within_bindI [OF within_requests(1)] split: option.split sum.split)
  show "within (ReconcileAttempt cc e pkt p plan) 9"
    unfolding ReconcileAttempt_def observePostcondition_def
    by (rule within_bindI [OF load])
      (auto intro!: within_bindI [OF within_observation] simp: within_conclusions split: sum.split)
  show "within (RetireAttemptUnknown cc e pkt p plan reason) 6"
    unfolding RetireAttemptUnknown_def Let_def
    by (auto intro!: within_bindI [OF load] split: sum.split option.split)
qed

lemma within_program: "within (program cc c) 27"
proof -
  have "within (tagged tag p) 27" if "within p n" "n \<le> 27" for p :: "'ev result prog" and tag n
    unfolding tagged_def by (rule within_bindI [OF that]) auto
  from this [OF within_Execute] this [OF within_recovery(1)] this [OF within_recovery(2)] show ?thesis
    by (cases c) auto
qed

lemma within_step: "pstep p ev p' \<Longrightarrow> within p n \<Longrightarrow> 0 < n \<and> within p' (n - 1)"
  by (induction rule: pstep.induct) auto

lemma within_run:
  assumes "crm_run cd cc calls fs0 s"
  shows "within (sy_procs s i) (27 - length (calls_of i (sy_log s))) \<and> length (calls_of i (sy_log s)) \<le> 27"
  using assms
proof (induction rule: crm_run.induct)
  case run_start
  show ?case by (simp add: within_program)
next
  case (run_step s j ev p' fs')
  then show ?case
    using within_step [OF run_step.hyps(2), of "27 - length (calls_of j (sy_log s))"] by (auto simp: Suc_le_eq)
qed

lemma within_0: "within p 0 \<Longrightarrow> \<exists>a. p = Return a"
  by (cases p) auto

lemma drive_once_log:
  "(\<exists>res. sy_procs s i = Return res) \<or> (\<exists>ev. sy_log (drive_once cd en i s) = (i, ev) # sy_log s)"
  by (cases "sy_procs s i") (auto simp: drive_once_def proceed_def Let_def split: prod.split)

text \<open>
  C12. Every call of the executor finishes: in every run it has made at most 27 calls to its environment and
  has returned when it has made 27, and until it returns its next call can be made, whatever the other calls do.
\<close>

theorem crm_call_finishes:
  assumes "crm_run cd cc calls fs0 s"
  shows "length (calls_of i (sy_log s)) \<le> 27 \<and>
    (length (calls_of i (sy_log s)) = 27 \<longrightarrow> (\<exists>res. sy_procs s i = Return res)) \<and>
    ((\<exists>res. sy_procs s i = Return res) \<or> (\<exists>s' ev. crm_run cd cc calls fs0 s' \<and> sy_log s' = (i, ev) # sy_log s))"
  using within_run [OF assms, of i] within_0 [of "sy_procs s i"] drive_once_log [of s i]
    drive_once_run [OF assms, of demo_loses i] by fastforce

theorem crm_call_finishes_witness:
  "length (calls_of 0 (sy_log demo_finished)) = 27 \<and> (\<exists>res. sy_procs demo_finished 0 = Return res)"
proof -
  have "length (calls_of 0 (sy_log demo_finished)) = 27"
    by (simp add: demo_finished_eq demo_after_patch_def demo_before_patch_def)
  with crm_call_finishes [OF demo_finished_run, of 0] show ?thesis by blast
qed

section \<open>A rearranged permit\<close>

text \<open>Two calls with the permits of \<open>demo_refs\<close> and \<open>rearranged_refs\<close>; the destination loses both requests.\<close>

definition rearranged_calls :: "nat \<Rightarrow> crm_call" where
  "rearranged_calls i = demo_call (if i = 0 then demo_refs else rearranged_refs)"

definition demo_resent :: crm_system where
  "demo_resent =
     drive 18 demo_attempts demo_loses 1 (drive 18 demo_attempts demo_loses 0 (demo_start rearranged_calls))"

lemma rearranged_programs:
  "program demo_codec (rearranged_calls 0) =
     tagged Inl (Execute demo_codec demo_executor demo_packet (demo_permit demo_refs) demo_plan)"
  "program demo_codec (rearranged_calls 1) =
     tagged Inl (Execute demo_codec demo_executor demo_packet (demo_permit rearranged_refs) demo_plan)"
  by (simp_all add: rearranged_calls_def demo_call_def)

lemma demo_lost:
  "\<exists>p. drive 18 demo_attempts demo_loses 0 (demo_start rearranged_calls) =
   \<lparr>sy_files = demo_files2, sy_procs = (\<lambda>i. program demo_codec (rearranged_calls i))(0 := p),
    sy_log = map (Pair 0)
      (EvPatch demo_patch (Inl (NewError ''timeout'')) # demo_before_patch demo_x demo_refs demo_files1)\<rparr>"
  by (simp cong: lazy add: evaluation demo_data demo_start_def rearranged_programs demo_before_patch_def) (rule exI, rule refl)

lemma demo_resent_log:
  "sy_log demo_resent =
   map (Pair 1) (EvPatch demo_patch (Inl (NewError ''timeout'')) # demo_before_patch demo_y rearranged_refs demo_files5) @
   map (Pair 0) (EvPatch demo_patch (Inl (NewError ''timeout'')) # demo_before_patch demo_x demo_refs demo_files1)"
proof -
  obtain p where "drive 18 demo_attempts demo_loses 0 (demo_start rearranged_calls) =
     \<lparr>sy_files = demo_files2, sy_procs = (\<lambda>i. program demo_codec (rearranged_calls i))(0 := p),
      sy_log = map (Pair 0)
        (EvPatch demo_patch (Inl (NewError ''timeout'')) # demo_before_patch demo_x demo_refs demo_files1)\<rparr>"
    using demo_lost by blast
  then show ?thesis
    unfolding demo_resent_def
    by (simp cong: lazy add: evaluation demo_data rearranged_programs [unfolded One_nat_def] demo_before_patch_def)
qed

lemma rearranged_executions:
  "call_execution demo_codec (rearranged_calls 0) = Some demo_x" "call_execution demo_codec (rearranged_calls 1) = Some demo_y"
  using admit_Inr [OF demo_values(6)] admit_Inr [OF demo_values(7)]
  by (simp_all add: rearranged_calls_def demo_call_def del: call_execution.simps)

text \<open>
  C33. The attempt is identified by the encoding of the permit, while the signature covers the permit with its
  references sorted. There is a run in which a permit and a copy with its approval references rearranged
  ask the verifier about the same key, payload and signature, and both send the same PATCH request.
\<close>

theorem rearranged_permit_sends_again:
  "crm_run demo_attempts demo_codec rearranged_calls Map.empty demo_resent \<and>
   permit_query demo_library (permit_of (rearranged_calls 0)) = permit_query demo_library (permit_of (rearranged_calls 1)) \<and>
   attempt_of demo_codec (rearranged_calls 0) \<noteq> attempt_of demo_codec (rearranged_calls 1) \<and>
   filter (\<lambda>(i, ev). is_patch ev) (sy_log demo_resent) =
     [(1, EvPatch demo_patch (Inl (NewError ''timeout''))), (0, EvPatch demo_patch (Inl (NewError ''timeout'')))]"
proof (intro conjI)
  show "crm_run demo_attempts demo_codec rearranged_calls Map.empty demo_resent"
    unfolding demo_resent_def demo_start_def by (intro drive_run run_start)
  show "permit_query demo_library (permit_of (rearranged_calls 0)) = permit_query demo_library (permit_of (rearranged_calls 1))"
    by (simp add: rearranged_calls_def demo_call_def demo_values)
  show "attempt_of demo_codec (rearranged_calls 0) \<noteq> attempt_of demo_codec (rearranged_calls 1)"
    by (simp add: attempt_of_def rearranged_executions [unfolded One_nat_def] example_values)
  show "filter (\<lambda>(i, ev). is_patch ev) (sy_log demo_resent) =
     [(1, EvPatch demo_patch (Inl (NewError ''timeout''))), (0, EvPatch demo_patch (Inl (NewError ''timeout'')))]"
    by (simp add: demo_resent_log demo_before_patch_def)
qed

section \<open>The address of a customer\<close>

lemma from_upper_hex:
  assumes "n < 16"
  shows "from_hex (upper_hex n) = Some n"
proof -
  have "list_all (\<lambda>k. from_hex (upper_hex k) = Some k) [0..<16]"
    by (simp add: upt_rec upper_hex_def from_hex_def Let_def)
  with assms show ?thesis by (simp add: list_all_iff)
qed

lemma path_unescape_escape:
  assumes "should (CHR ''%'')"
  shows "path_unescape (percent_escape should s) = Some s"
proof (induction s)
  case (Cons c s)
  have "of_char c div 16 < (16 :: nat)" "of_char c mod 16 < (16 :: nat)"
    by (simp_all add: less_mult_imp_div_less)
  with Cons assms show ?case by (auto simp: percent_escape_def from_upper_hex)
qed (simp add: percent_escape_def)

lemma percent_escape_id: "percent_escape should s = s \<longleftrightarrow> list_all (\<lambda>c. \<not> should c) s"
proof (induction s)
  case (Cons c s)
  have "length (percent_escape should t) \<ge> length t" for t
    by (induction t) (auto simp: percent_escape_def)
  from this [of s] Cons show ?case by (auto simp: percent_escape_def dest: arg_cong [of _ _ length])
qed (simp add: percent_escape_def)



section \<open>An outcome that cannot be recorded\<close>

lemma unsorted_evaluation_invalid:
  assumes "EvaluateCustomerUpdatePostcondition lb plan state = Inr ev"
    and "\<not> sorted_wrt (<) (map field_path (map_keys (cp_Patch plan)))"
  shows "ValidatePostconditionEvaluation ev \<noteq> None"
proof
  assume "ValidatePostconditionEvaluation ev = None"
  then obtain n where valid: "validate_fields [] 0 (pe_Fields ev) = Inr n"
    by (auto simp: ValidatePostconditionEvaluation_def guard_simps split: sum.splits if_splits)
  from assms(1) obtain st where "evaluate_fields lb (cp_Patch plan) st (map_keys (cp_Patch plan)) = Inr (pe_Fields ev)"
    by (rule EvaluateCustomerUpdatePostcondition_Inr)
  from evaluate_fields_spec [OF this] valid assms(2) show False by (simp add: validate_fields_Inr)
qed

lemma invalid_evaluation_unrecorded:
  assumes "ValidatePostconditionEvaluation ev \<noteq> None"
  shows "new_outcome cc x bd ad result acc status n (Some ev) http t \<noteq> Inr oc"
    and "newClosureEvidence lb r sa disp result acc status n (Some ev) residual detail t \<noteq> Inr c"
  using assms
  by (auto simp: new_outcome_def newOutcomeEvidence_def seal_outcome_def validateOutcomeSemantics_def
      newClosureEvidence_def seal_closure_def validateClosureEvidence_def guard_simps split: option.splits if_splits)

text \<open>
  C34. The fields of an evaluation are in the order of the patch keys, but evidence is only accepted if their
  escaped paths are in order. For a patch where these orders differ, a stable observation, even one that shows
  every field as intended, ends the execution and every reconciliation with an error: no evidence is
  made, nothing is journaled and the attempt is not closed.
\<close>

theorem unsorted_paths_never_concluded:
  assumes "EvaluateCustomerUpdatePostcondition (cc_library cc) plan state = Inr ev"
    and "\<not> sorted_wrt (<) (map field_path (map_keys (cp_Patch plan)))"
    and "po_Evaluation ob = Some ev" and "po_Err ob = None"
  shows "(\<exists>err. conclude_observed cc x bd acc st status de ob = Now (\<lambda>t. failure (err t))) \<and>
    (\<exists>err. reconcile_observed cc x rc ob = Now (\<lambda>t. failure (err t)))"
proof
  note unrecorded = invalid_evaluation_unrecorded [OF unsorted_evaluation_invalid [OF assms(1,2)]]
  have left: "(case r of Inl e \<Rightarrow> p e | Inr v \<Rightarrow> q v) = p (projl r)" if "\<And>v. r \<noteq> Inr v" for r p q
    using that by (cases r) auto
  show "\<exists>err. conclude_observed cc x bd acc st status de ob = Now (\<lambda>t. failure (err t))"
    by (auto simp: conclude_observed_def assms(3) left [OF unrecorded(1)] Let_def)
  show "\<exists>err. reconcile_observed cc x rc ob = Now (\<lambda>t. failure (err t))"
    by (auto simp: reconcile_observed_def retain_pending_def close_observed_def assms(3,4) left [OF unrecorded(2)] Let_def)
qed

theorem unsorted_paths_never_concluded_witness:
  "pe_Result (the (po_Evaluation unsorted_observation)) = PostconditionVerified \<and>
   (\<exists>err. conclude_observed demo_codec demo_x (demo_tag []) RequestAccepted AttemptAccepted 200 None unsorted_observation =
      Now (\<lambda>t. failure (err t))) \<and>
   (\<exists>err. reconcile_observed demo_codec demo_x (claim_record demo_x 10) unsorted_observation = Now (\<lambda>t. failure (err t)))"
proof -
  have "EvaluateCustomerUpdatePostcondition (cc_library demo_codec) unsorted_plan (Some (cp_Patch unsorted_plan)) =
      Inr (the (po_Evaluation unsorted_observation))"
    using example_values(2) by (simp add: unsorted_observation_def demo_fields)
  from unsorted_paths_never_concluded [OF this example_values(3), of unsorted_observation] show ?thesis
    using example_values(1) by (simp add: unsorted_observation_def)
qed

section \<open>Packets, permits and attempts\<close>




end
