(* ===== verification/Spec2Isabelle.thy ===== *)
theory Spec2Isabelle
  imports Prelude Boundary Easl_Runtime Decision Effect_Runtime Fenced Epistemic Temporal Composition
    Head_Store Journal Kernel_ABI Kernel_Enforce Kernel_Taint Kernel_Continuity
    Quorum_Policy Quorum Quorum_Safety Witness Witness_Safety Witness_Quorum
    Quorum_Progress Quorum_Deployment Rotation Rotation_Safety
    Permit Evidence_Packet Canonical_JSON Crm_Attempt Crm_Outcome
    Crm_Program Crm_Executor Crm_Safety Crm_Reports Crm_Demo Crm_Results
begin

text \<open>
  A verification development of the governed-execution core of the repository. The program decides
  whether an agent's consequential action may run, binds the decision to evidence, runs the action at most
  once under that authority, and keeps tamper-evident records of it. Its parts interact as follows. Evidence
  is compiled into packets, its sources are assessed and decision gates turn it into an
  authorization; the authorization becomes a signed permit or a kernel capsule; the effect runtimes and
  the CRM executor act on it behind the governed boundary; every step is an entry of a
  hash-chained journal, whose head is held by a quorum of external witnesses.

  \<^bold>\<open>Conventions\<close> (\<open>Prelude\<close>). A Go \<open>error\<close> is an option, a pair \<open>(T, error)\<close> a sum, a struct a record, an
  enumeration a datatype or a string, a map an association list whose first binding counts, \<open>uint64\<close> a
  64-bit word, \<open>time.Time\<close> an integer number of nanoseconds. Mutable state is passed explicitly. Code that
  the repository only calls is an argument of the definitions: SHA-256, JSON encoding and tokenizing, base64,
  Ed25519 signing and verification, the EASL engine, bpftool, the ConfigMap API, the JCS canonicalizer,
  \<open>url.Parse\<close>, the file system and the network. A theorem that needs something of them names it as a
  hypothesis, and its witness discharges it for a concrete function.

  \<^bold>\<open>Decisions and evidence.\<close> \<open>Decision\<close> (\<open>internal/decision\<close>): the gates of \<open>Evaluate\<close>, authorizations and their
  validation, bounded acquisition and reconciliation; an action is allowed exactly if every gate is
  satisfied. \<open>Easl_Runtime\<close> (\<open>internal/easlruntime\<close>): the write-once registry. \<open>Epistemic\<close> and \<open>Temporal\<close>
  (\<open>internal/epistemic\<close>, \<open>internal/assurance\<close>): the assumption tracker, whose propagation computes the closure
  of an invalidation, and temporal validity. \<open>Composition\<close> (\<open>internal/ege/evidence_composition.go\<close>): the
  branch-and-bound search for independent sources equals its specification. \<open>Evidence_Packet\<close>
  (\<open>internal/evidencepipeline\<close>): a compiled packet verifies and hides every sensitive path and nothing else;
  a permit signed for a packet is accepted with it. \<open>Permit\<close> (\<open>internal/ege/permit.go\<close>, \<open>capability.go\<close>): signing,
  verification and capability fences. \<open>Canonical_JSON\<close> (\<open>internal/ege/conformance.go\<close>, from line 418): the
  canonical encoding that plan digests use.

  \<^bold>\<open>Effects.\<close> \<open>Boundary\<close> (\<open>governedaction\<close>): binding, validity, approval, credential, origin and taint checks
  and the prepare/dispatch protocol. \<open>Effect_Runtime\<close> and \<open>Fenced\<close> (\<open>governedaction/runtime\<close>): \<open>Run\<close>, \<open>Recover\<close>,
  reservation, execution and takeover; an effect is crossed at most once whatever the interleaving.

  \<^bold>\<open>CRM execution\<close> (\<open>internal/eepcrm\<close>). \<open>Crm_Attempt\<close>: the attempt store, with torn and failing writes, behind the
  interface \<open>exclusive_claims\<close>. \<open>Crm_Outcome\<close>: postconditions, outcome and closure evidence. \<open>Crm_Program\<close>: an
  operation as a tree of the calls it makes (clock, context, verifier, store, journal, GET, PATCH), and
  the governed dispatch as such a program, which run alone is \<open>Dispatch\<close> of \<open>Boundary\<close>. \<open>Crm_Executor\<close>: \<open>Execute\<close>,
  \<open>ReconcileAttempt\<close> and \<open>RetireAttemptUnknown\<close>. \<open>Crm_Safety\<close>: any number of these calls interleaved on one
  store, with any replies, and monitors over their calls. \<open>Crm_Reports\<close>: what returned evidence says about
  the calls. \<open>Crm_Demo\<close>: a scheduler and concrete runs. \<open>Crm_Results\<close>: at most one PATCH per
  attempt and permit, custody before the request, success only after observation, evidence that verifies,
  calls that finish, and three findings.

  \<^bold>\<open>Journal and witnesses\<close> (\<open>internal/journal\<close>). \<open>Head_Store\<close>: the contract of head stores and the in-memory one.
  \<open>Journal\<close>: appending, verification, anchors; replaced or rolled back files are refused. \<open>Quorum_Policy\<close>,
  \<open>Quorum\<close>: policies and the quorum store with its goroutines, channels and cancellation. \<open>Witness\<close>: the HTTP
  handler, the ConfigMap state and the verifying client. \<open>Quorum_Safety\<close>, \<open>Witness_Safety\<close>, \<open>Witness_Quorum\<close>,
  \<open>Quorum_Progress\<close>, \<open>Quorum_Deployment\<close>: no rollback and no fork with a minority of faulty witnesses, and
  termination of every call. \<open>Rotation\<close>, \<open>Rotation_Safety\<close>: rotation of the quorum keeps the history and
  retires the old quorum.

  \<^bold>\<open>Kernel\<close> (\<open>internal/kernelfabric\<close>, \<open>kernel/bpf\<close>). \<open>Kernel_ABI\<close>, \<open>Kernel_Taint\<close>: records and binary encodings.
  \<open>Kernel_Enforce\<close>: leases, the installer over bpftool and the eBPF connect program, which decides as the
  reference evaluator does. \<open>Kernel_Continuity\<close>: the sequence trackers.

  \<^bold>\<open>Interfaces\<close> are locales, interpreted on the model in the theory of the provider: \<open>boundary_relation\<close>, \<open>head_store\<close>,
  \<open>exclusive_claims\<close>, \<open>abi_struct\<close>, \<open>sequence_tracker\<close>, \<open>kernel_store\<close> and \<open>bpftool_runner\<close>, \<open>kube_configmap\<close>,
  \<open>versioned_state\<close>, \<open>remote_witnesses\<close>, \<open>witness_quorum\<close> and \<open>rotating_witnesses\<close>.

  \<^bold>\<open>Bounds.\<close> Recursive functions terminate; loops of the source that may wait (the select loops of the quorum) are
  step relations, and \<open>Quorum_Progress\<close> bounds their steps. An executor call makes at most 27 calls
  (\<open>crm_call_finishes\<close>); the fuel of the scheduler in \<open>Crm_Demo\<close> (18 and 37 steps) covers the runs shown there.

  \<^bold>\<open>Not modelled.\<close> The Kubernetes adapters and the HTTP server (input and output of cluster objects and requests),
  compute settlement and Genesis bootstrap (separate subsystems), TPM attestation, taint recovery, runtime trust and
  workload management in \<open>internal/kernelfabric\<close> (they drive the TPM, the kernel and the file system), history
  succession and the remote signers of \<open>internal/journal\<close>, approvals and receipts of \<open>internal/ege\<close>, the
  stand-alone evidence verifier, the command line tools and the experiments. Cryptography, codecs and services are
  arguments, as said above. In the CRM executor the text of errors made with \<open>%q\<close> is not kept, except where it is
  stored in a record.
\<close>

end
